(* ===== verification/Go_Prelude.thy ===== *)
theory Go_Prelude
  imports Complex_Main "HOL-Library.Word"
begin

text \<open>
  What the components share: the Go values the source computes with and their library lemmas.

  \<^item> An instant (\<^verbatim>\<open>time.Time\<close>) is the number of nanoseconds since the Unix epoch, a
    \<^verbatim>\<open>time.Duration\<close> is its \<^verbatim>\<open>int64\<close> number of nanoseconds; a reading of the clock
    (\<^verbatim>\<open>time.Now()\<close>) is an argument of the operation that takes it.
  \<^item> \<^verbatim>\<open>int\<close> and \<^verbatim>\<open>int64\<close> are HOL integers; where the code multiplies or adds
    values that come from outside (durations computed from configured seconds, retry
    back-off) the two's complement wrap-around is written out with \<open>wrap64\<close>.
  \<^item> A UUID is its 128 bits, \<^verbatim>\<open>uuid.Nil\<close> is zero; a fresh one (\<^verbatim>\<open>uuid.New()\<close>) is an
    argument of the operation that makes it.
  \<^item> An error return is \<open>Inl\<close>, a nil pointer is \<open>None\<close>.
\<close>

type_synonym gotime = int
type_synonym duration = int
type_synonym uuid = "128 word"

abbreviation uuid_nil :: uuid where
  "uuid_nil \<equiv> 0"

named_theorems time_simps \<open>unfolding rules for instants, durations and 64-bit integers\<close>

section \<open>64-bit integers\<close>

definition wrap64 :: "int \<Rightarrow> int" where
  "wrap64 x = (x + 2 ^ 63) mod 2 ^ 64 - 2 ^ 63"

definition fits64 :: "int \<Rightarrow> bool" where
  "fits64 x \<longleftrightarrow> - (2 ^ 63) \<le> x \<and> x < 2 ^ 63"

lemma wrap64_id [simp]: "fits64 x \<Longrightarrow> wrap64 x = x"
  by (simp add: wrap64_def fits64_def)

lemma fits64_wrap64 [simp, intro]: "fits64 (wrap64 x)"
  unfolding wrap64_def fits64_def
  using pos_mod_bound [of "2 ^ 64" "x + 2 ^ 63"] pos_mod_sign [of "2 ^ 64" "x + 2 ^ 63"]
  by simp

lemma wrap64_idem: "wrap64 (wrap64 x) = wrap64 x"
  by simp

text \<open>Go's integer division truncates towards zero.\<close>

definition go_quot :: "int \<Rightarrow> int \<Rightarrow> int" where
  "go_quot a b = sgn a * sgn b * (\<bar>a\<bar> div \<bar>b\<bar>)"

lemma go_quot_nonneg: "0 \<le> a \<Longrightarrow> 0 < b \<Longrightarrow> go_quot a b = a div b"
  by (cases "a = 0") (auto simp: go_quot_def)

section \<open>Instants and durations\<close>

definition second :: duration where
  "second = 1000000000"

abbreviation minute :: duration where
  "minute \<equiv> 60 * second"

abbreviation hour :: duration where
  "hour \<equiv> 3600 * second"

text \<open>The zero \<^verbatim>\<open>time.Time\<close> is midnight of 1 January of the year 1.\<close>

definition time_zero :: gotime where
  "time_zero = - 62135596800 * 1000000000"

definition is_zero :: "gotime \<Rightarrow> bool" where
  "is_zero t \<longleftrightarrow> t = time_zero"

definition time_add :: "gotime \<Rightarrow> duration \<Rightarrow> gotime" where
  "time_add t d = t + d"

text \<open>\<^verbatim>\<open>Time.Sub\<close> saturates at the largest and the smallest duration.\<close>

definition time_sub :: "gotime \<Rightarrow> gotime \<Rightarrow> duration" where
  "time_sub t u = max (- (2 ^ 63)) (min (2 ^ 63 - 1) (t - u))"

text \<open>\<^verbatim>\<open>time.Duration(n) * time.Second\<close>\<close>

definition seconds :: "int \<Rightarrow> duration" where
  "seconds n = wrap64 (n * second)"

text \<open>\<^verbatim>\<open>Time.Unix()\<close>\<close>

definition unix :: "gotime \<Rightarrow> int" where
  "unix t = t div second"

lemmas [time_simps] = second_def time_zero_def is_zero_def time_add_def

lemma time_sub_exact: "fits64 (t - u) \<Longrightarrow> time_sub t u = t - u"
  by (simp add: time_sub_def fits64_def)

lemma time_sub_less: "fits64 d \<Longrightarrow> time_sub t u < d \<Longrightarrow> t - u < d"
  by (auto simp: time_sub_def fits64_def min_def max_def split: if_splits)

lemma time_sub_ge: "fits64 d \<Longrightarrow> d \<le> time_sub t u \<Longrightarrow> d = - (2 ^ 63) \<or> d \<le> t - u"
  by (auto simp: time_sub_def fits64_def min_def max_def split: if_splits)

lemma fits64_seconds [simp, intro]: "fits64 (seconds n)"
  by (simp add: seconds_def)

lemma seconds_exact: "\<bar>n\<bar> \<le> 9223372036 \<Longrightarrow> seconds n = n * second"
  unfolding seconds_def second_def
  by (rule wrap64_id) (auto simp: fits64_def abs_le_iff)

section \<open>Floating point\<close>

text \<open>
  A \<^verbatim>\<open>float64\<close> where the code only stores and compares it: a rational number (both zeros are 0),
  an infinity or NaN. Every comparison with NaN is false, except \<open>!=\<close>.
\<close>

datatype float64 = NaN | NegInf | Finite rat | PosInf

fun float_lt :: "float64 \<Rightarrow> float64 \<Rightarrow> bool" where
  "float_lt NaN _ = False"
| "float_lt _ NaN = False"
| "float_lt _ NegInf = False"
| "float_lt NegInf _ = True"
| "float_lt PosInf _ = False"
| "float_lt (Finite _) PosInf = True"
| "float_lt (Finite a) (Finite b) = (a < b)"

definition float_eq :: "float64 \<Rightarrow> float64 \<Rightarrow> bool" where
  "float_eq a b \<longleftrightarrow> a \<noteq> NaN \<and> a = b"

definition float_le :: "float64 \<Rightarrow> float64 \<Rightarrow> bool" where
  "float_le a b \<longleftrightarrow> float_lt a b \<or> float_eq a b"

section \<open>Database statements\<close>

text \<open>
  The \<open>n\<close>-th statement of an operation: \<open>None\<close> when the database refuses it or cannot be
  reached, \<open>Some t\<close> when it runs with \<^verbatim>\<open>NOW()\<close> = \<open>t\<close>.
\<close>

type_synonym statements = "nat \<Rightarrow> gotime option"

section \<open>Allocation\<close>

text \<open>
  \<^verbatim>\<open>make([]T, 0, cap)\<close> panics when the capacity is negative or when the array would pass
  the runtime's address space (2^48 bytes on linux/amd64).
\<close>

definition make_ok :: "int \<Rightarrow> int \<Rightarrow> bool" where
  "make_ok elem_size n \<longleftrightarrow> 0 \<le> n \<and> n * elem_size \<le> 2 ^ 48"

section \<open>Lists\<close>

lemma length_filter_mono:
  "(\<And>x. P x \<Longrightarrow> Q x) \<Longrightarrow> length (filter P xs) \<le> length (filter Q xs)"
  by (induction xs) auto

lemma int_length_filter_le [intro]: "int (length xs) \<le> c \<Longrightarrow> int (length (filter P xs)) \<le> c"
  using length_filter_le [of P xs] by linarith

lemma filter_weaker:
  "(\<And>x. P x \<Longrightarrow> Q x) \<Longrightarrow> filter P (filter Q xs) = filter P xs"
  by (induction xs) auto

section \<open>Sequences of operations\<close>

text \<open>
  The contract of an invariant: every operation of a component, with any input, keeps it. A
  client then has it after any sequence of operations.
\<close>

locale op_invariant =
  fixes step :: "'op \<Rightarrow> 's \<Rightarrow> 's" and inv :: "'s \<Rightarrow> bool"
  assumes step_inv: "inv s \<Longrightarrow> inv (step op s)"
begin

lemma run_inv: "inv s \<Longrightarrow> inv (fold step ops s)"
  by (induction ops arbitrary: s) (auto intro: step_inv)

end

text \<open>
  The same contract for a component whose steps are a relation, because handlers interleave.
\<close>

locale step_invariant =
  fixes step :: "'s \<Rightarrow> 's \<Rightarrow> bool" and inv :: "'s \<Rightarrow> bool"
  assumes step_inv: "inv s \<Longrightarrow> step s t \<Longrightarrow> inv t"
begin

lemma reach_inv: "step\<^sup>*\<^sup>* s t \<Longrightarrow> inv s \<Longrightarrow> inv t"
  by (induction rule: rtranclp_induct) (auto intro: step_inv)

end

end
