(* ===== verification/Throttle.thy ===== *)
theory Throttle
  imports Go_Prelude "HOL-Library.Sublist"
begin

text \<open>
  The notification throttler (\<^verbatim>\<open>internal/services/notification/throttle.go\<close>): a sliding window
  per notification type and one over all types. The interface the throttler needs of a window
  is the locale \<open>rate_window\<close>; its bound on every time span is proved once there and the
  code's window is an instance of it.
\<close>

section \<open>Sliding window\<close>

type_synonym notif_type = string

record sliding_window =
  sw_events :: "gotime list"
  sw_window :: duration
  sw_limit :: int
  sw_burstUsed :: int

text \<open>\<open>None\<close> is the panic of \<^verbatim>\<open>make([]time.Time, 0, limit*2)\<close>; a \<^verbatim>\<open>time.Time\<close> has 24 bytes.\<close>

definition newSlidingWindow :: "duration \<Rightarrow> int \<Rightarrow> sliding_window option" where
  "newSlidingWindow w l =
     (if make_ok 24 (wrap64 (l * 2))
      then Some \<lparr>sw_events = [], sw_window = w, sw_limit = l, sw_burstUsed = 0\<rparr>
      else None)"

definition sw_cutoff :: "gotime \<Rightarrow> sliding_window \<Rightarrow> gotime" where
  "sw_cutoff now sw = time_add now (wrap64 (- sw_window sw))"

definition sw_Allow :: "int \<Rightarrow> gotime \<Rightarrow> sliding_window \<Rightarrow> sliding_window \<times> bool" where
  "sw_Allow burstAllowance now sw =
     (let valid = filter (\<lambda>t. sw_cutoff now sw < t) (sw_events sw);
          sw = sw\<lparr>sw_events := valid\<rparr>
      in if sw_limit sw \<le> int (length valid)
         then if sw_burstUsed sw < burstAllowance
              then (sw\<lparr>sw_burstUsed := sw_burstUsed sw + 1, sw_events := valid @ [now]\<rparr>, True)
              else (sw, False)
         else let sw = (if int (length valid) < go_quot (sw_limit sw) 2
                        then sw\<lparr>sw_burstUsed := 0\<rparr> else sw)
              in (sw\<lparr>sw_events := valid @ [now]\<rparr>, True))"

definition sw_Count :: "gotime \<Rightarrow> sliding_window \<Rightarrow> nat" where
  "sw_Count now sw = length (filter (\<lambda>t. sw_cutoff now sw < t) (sw_events sw))"

section \<open>Throttler\<close>

record throttle_config =
  Enabled :: bool
  DefaultWindow :: duration
  DefaultLimit :: int
  GlobalLimit :: int
  TypeLimits :: "notif_type \<rightharpoonup> int"
  CriticalBypass :: bool
  BurstAllowance :: int

record throttler =
  t_config :: throttle_config
  t_windows :: "notif_type \<rightharpoonup> sliding_window"
  t_global :: sliding_window

definition PriorityCritical :: int where
  "PriorityCritical = 3"

definition DefaultThrottleConfig :: throttle_config where
  "DefaultThrottleConfig =
     \<lparr>Enabled = True, DefaultWindow = hour, DefaultLimit = 10, GlobalLimit = 50,
      TypeLimits =
        [''security_alert'' \<mapsto> 20, ''cve_detected'' \<mapsto> 20,
         ''container_down'' \<mapsto> 15, ''healthcheck_failed'' \<mapsto> 15,
         ''update_available'' \<mapsto> 30,
         ''backup_completed'' \<mapsto> 50, ''backup_failed'' \<mapsto> 10,
         ''test_message'' \<mapsto> 100],
      CriticalBypass = True, BurstAllowance = 3\<rparr>"

definition NewThrottler :: "throttle_config \<Rightarrow> throttler option" where
  "NewThrottler c =
     (case newSlidingWindow (DefaultWindow c) (GlobalLimit c) of
        None \<Rightarrow> None
      | Some g \<Rightarrow> Some \<lparr>t_config = c, t_windows = Map.empty, t_global = g\<rparr>)"

definition type_limit :: "throttle_config \<Rightarrow> notif_type \<Rightarrow> int" where
  "type_limit c n = (case TypeLimits c n of Some l \<Rightarrow> l | None \<Rightarrow> DefaultLimit c)"

text \<open>Disabled throttling and, where configured, critical notifications pass unrecorded.\<close>

definition bypasses :: "throttle_config \<Rightarrow> int \<Rightarrow> bool" where
  "bypasses c priority \<longleftrightarrow>
     \<not> Enabled c \<or> CriticalBypass c \<and> PriorityCritical \<le> priority"

text \<open>
  \<^verbatim>\<open>Throttler.Allow\<close>. The two windows read the clock one after the other (\<open>now1\<close>, then
  \<open>now2\<close>); \<open>None\<close> is the panic of creating a window with an impossible limit.
\<close>

definition throttler_Allow ::
    "gotime \<Rightarrow> gotime \<Rightarrow> notif_type \<Rightarrow> int \<Rightarrow> throttler \<Rightarrow> (throttler \<times> bool) option" where
  "throttler_Allow now1 now2 n priority t =
     (let c = t_config t in
      if bypasses c priority then Some (t, True)
      else case (case t_windows t n of
                   Some w \<Rightarrow> Some w
                 | None \<Rightarrow> newSlidingWindow (DefaultWindow c) (type_limit c n)) of
             None \<Rightarrow> None
           | Some w \<Rightarrow>
               (case sw_Allow (BurstAllowance c) now1 w of
                  (w', ok) \<Rightarrow>
                    let t = t\<lparr>t_windows := (t_windows t)(n \<mapsto> w')\<rparr>
                    in if \<not> ok then Some (t, False)
                       else case sw_Allow (BurstAllowance c) now2 (t_global t) of
                              (g', ok') \<Rightarrow> Some (t\<lparr>t_global := g'\<rparr>, ok')))"

record throttle_stats =
  GlobalCount :: nat
  StatsGlobalLimit :: int
  TypeCounts :: "notif_type \<rightharpoonup> nat \<times> int"

definition throttler_Stats :: "gotime \<Rightarrow> throttler \<Rightarrow> throttle_stats" where
  "throttler_Stats now t =
     \<lparr>GlobalCount = sw_Count now (t_global t),
      StatsGlobalLimit = GlobalLimit (t_config t),
      TypeCounts = (\<lambda>n. map_option (\<lambda>w. (sw_Count now w, type_limit (t_config t) n))
                          (t_windows t n))\<rparr>"

definition throttler_Reset :: "throttler \<Rightarrow> throttler option" where
  "throttler_Reset t =
     map_option (\<lambda>g. t\<lparr>t_windows := Map.empty, t_global := g\<rparr>)
       (newSlidingWindow (DefaultWindow (t_config t)) (GlobalLimit (t_config t)))"

definition throttler_ResetType :: "notif_type \<Rightarrow> throttler \<Rightarrow> throttler" where
  "throttler_ResetType n t = t\<lparr>t_windows := (t_windows t)(n := None)\<rparr>"

definition throttler_UpdateConfig :: "throttle_config \<Rightarrow> throttler \<Rightarrow> throttler option" where
  "throttler_UpdateConfig c t =
     map_option (\<lambda>g. t\<lparr>t_config := c, t_global := g, t_windows := Map.empty\<rparr>)
       (newSlidingWindow (DefaultWindow c) (GlobalLimit c))"

section \<open>What a window promises\<close>

text \<open>The instants at which a sequence of requests is let through.\<close>

fun accepted :: "(gotime \<Rightarrow> 's \<Rightarrow> 's \<times> bool) \<Rightarrow> 's \<Rightarrow> gotime list \<Rightarrow> gotime list" where
  "accepted allow s [] = []"
| "accepted allow s (t # ts) =
     (case allow t s of (s', ok) \<Rightarrow> (if ok then [t] else []) @ accepted allow s' ts)"

definition in_span :: "duration \<Rightarrow> gotime \<Rightarrow> gotime \<Rightarrow> bool" where
  "in_span d t u \<longleftrightarrow> t - d < u \<and> u \<le> t"

locale rate_window =
  fixes allow :: "gotime \<Rightarrow> 's \<Rightarrow> 's \<times> bool"
    and log :: "'s \<Rightarrow> gotime list"
    and span :: duration
    and cap :: nat
    and inv :: "'s \<Rightarrow> bool"
  assumes allow_inv: "inv s \<Longrightarrow> allow t s = (s', ok) \<Longrightarrow> inv s'"
    and log_cap: "inv s \<Longrightarrow> length (log s) \<le> cap"
    and log_allow: "inv s \<Longrightarrow> allow t s = (s', ok) \<Longrightarrow>
      log s' = filter (\<lambda>u. t - span < u) (log s) @ (if ok then [t] else [])"
begin

lemma accepted_in_span_step:
  assumes "inv s" and "\<And>x. \<tau> \<le> x \<Longrightarrow> filter (\<lambda>u. x - span < u) (log s) = filter (\<lambda>u. x - span < u) pre"
    and "\<And>t. length (filter (in_span span t) pre) \<le> cap"
    and "sorted (\<tau> # ts)"
  shows "length (filter (in_span span t) (pre @ accepted allow s ts)) \<le> cap"
  using assms
proof (induction ts arbitrary: s \<tau> pre)
  case Nil
  then show ?case by simp
next
  case (Cons x ts)
  obtain s' ok where step: "allow x s = (s', ok)" by fastforce
  define new where "new = (if ok then [x] else [])"
  have inv': "inv s'" using Cons.prems(1) step by (rule allow_inv)
  have log': "log s' = filter (\<lambda>u. x - span < u) pre @ new"
    using log_allow [OF Cons.prems(1) step] Cons.prems(2) [of x] Cons.prems(4) by (simp add: new_def)
  have keep: "filter (\<lambda>u. y - span < u) (log s') = filter (\<lambda>u. y - span < u) (pre @ new)"
    if "x \<le> y" for y
    using that by (auto simp: log' intro!: filter_cong)
  have bound: "length (filter (in_span span t) (pre @ new)) \<le> cap" for t
  proof (cases "x \<le> t")
    case True
    have "length (filter (in_span span t) pre) \<le> length (filter (\<lambda>u. x - span < u) pre)"
      using True by (intro length_filter_mono) (auto simp: in_span_def)
    then have "length (filter (in_span span t) (pre @ new)) \<le> length (log s')"
      by (simp add: log' add_mono)
    then show ?thesis using log_cap [OF inv'] by (rule order_trans)
  next
    case False
    then have "filter (in_span span t) new = []"
      by (auto simp: new_def in_span_def)
    then show ?thesis using Cons.prems(3) by simp
  qed
  have "length (filter (in_span span t) ((pre @ new) @ accepted allow s' ts)) \<le> cap"
    by (rule Cons.IH [OF inv' keep bound]) (use Cons.prems(4) in auto)
  then show ?case by (simp add: step new_def)
qed

theorem accepted_in_span:
  assumes "inv s" and "log s = []" and "sorted ts"
  shows "length (filter (in_span span t) (accepted allow s ts)) \<le> cap"
proof (cases ts)
  case Nil
  then show ?thesis by simp
next
  case (Cons x xs)
  have "length (filter (in_span span t) ([] @ accepted allow s ts)) \<le> cap"
    by (rule accepted_in_span_step [where \<tau> = x]) (use assms Cons in auto)
  then show ?thesis by simp
qed

end

subsection \<open>The sliding window is one\<close>

definition sw_inv :: "duration \<Rightarrow> int \<Rightarrow> int \<Rightarrow> sliding_window \<Rightarrow> bool" where
  "sw_inv w l b s \<longleftrightarrow>
     sw_window s = w \<and> sw_limit s = l \<and> 0 \<le> sw_burstUsed s \<and> sw_burstUsed s \<le> max b 0 \<and>
     int (length (sw_events s)) \<le> max l 0 + sw_burstUsed s"

lemma sw_inv_new: "newSlidingWindow w l = Some s \<Longrightarrow> sw_inv w l b s \<and> sw_events s = []"
  by (auto simp: newSlidingWindow_def sw_inv_def split: if_splits)

lemma sw_Allow_inv:
  assumes "sw_inv w l b s" and "sw_Allow b t s = (s', ok)"
  shows "sw_inv w l b s'"
  using assms go_quot_nonneg [of l 2]
  by (auto simp: sw_inv_def sw_Allow_def Let_def split: if_splits)

interpretation window: rate_window "sw_Allow b" sw_events "- wrap64 (- w)"
    "nat (max l 0 + max b 0)" "sw_inv w l b"
  for w l b
proof
  fix s t s' ok
  assume inv: "sw_inv w l b s"
  then show "length (sw_events s) \<le> nat (max l 0 + max b 0)"
    by (auto simp: sw_inv_def)
  assume step: "sw_Allow b t s = (s', ok)"
  with inv show "sw_inv w l b s'" by (rule sw_Allow_inv)
  show "sw_events s' = filter (\<lambda>u. t - - wrap64 (- w) < u) (sw_events s) @ (if ok then [t] else [])"
    using inv step
    by (auto simp: sw_inv_def sw_Allow_def sw_cutoff_def time_add_def Let_def split: if_splits)
qed

section \<open>Runs of the throttler\<close>

type_synonym throttle_call = "gotime \<times> gotime \<times> notif_type \<times> int"

text \<open>The calls of a sequence that return true; \<open>None\<close> when one of them panics.\<close>

fun permitted :: "throttler \<Rightarrow> throttle_call list \<Rightarrow> throttle_call list option" where
  "permitted t [] = Some []"
| "permitted t ((t1, t2, n, p) # cs) =
     (case throttler_Allow t1 t2 n p t of
        None \<Rightarrow> None
      | Some (t', ok) \<Rightarrow> map_option (\<lambda>ps. if ok then (t1, t2, n, p) # ps else ps) (permitted t' cs))"

definition type_times :: "throttle_config \<Rightarrow> notif_type \<Rightarrow> throttle_call list \<Rightarrow> gotime list" where
  "type_times c n cs = map fst (filter (\<lambda>(_, _, m, p). m = n \<and> \<not> bypasses c p) cs)"

definition global_times :: "throttle_config \<Rightarrow> throttle_call list \<Rightarrow> gotime list" where
  "global_times c cs = map (fst \<circ> snd) (filter (\<lambda>(_, _, _, p). \<not> bypasses c p) cs)"

definition current_window :: "throttler \<Rightarrow> notif_type \<Rightarrow> sliding_window" where
  "current_window t n =
     (case t_windows t n of
        Some w \<Rightarrow> w
      | None \<Rightarrow> \<lparr>sw_events = [], sw_window = DefaultWindow (t_config t),
                 sw_limit = type_limit (t_config t) n, sw_burstUsed = 0\<rparr>)"

lemma throttler_Allow_bypass:
  "bypasses (t_config t) p \<Longrightarrow> throttler_Allow t1 t2 n p t = Some (t, True)"
  by (simp add: throttler_Allow_def)

lemma throttler_Allow_cases:
  assumes "throttler_Allow t1 t2 n p t = Some (t', ok)" and "\<not> bypasses (t_config t) p"
  obtains w' okw where
    "sw_Allow (BurstAllowance (t_config t)) t1 (current_window t n) = (w', okw)"
    and "t_config t' = t_config t" and "t_windows t' = (t_windows t)(n \<mapsto> w')"
    and "okw \<Longrightarrow> sw_Allow (BurstAllowance (t_config t)) t2 (t_global t) = (t_global t', ok)"
    and "\<not> okw \<Longrightarrow> t_global t' = t_global t \<and> \<not> ok"
  using assms
  by (cases "t_windows t n")
    (auto simp: throttler_Allow_def current_window_def newSlidingWindow_def Let_def
      split: if_splits prod.splits)

lemma current_window_upd:
  "t_config t' = t_config t \<Longrightarrow> t_windows t' = (t_windows t)(n \<mapsto> w) \<Longrightarrow>
   current_window t' m = (if m = n then w else current_window t m)"
  by (auto simp: current_window_def split: option.split)

text \<open>What is permitted of a type was let through by the type's window.\<close>

lemma permitted_type_subseq:
  assumes "permitted t cs = Some ps" and "t_config t = c"
  shows "subseq (type_times c n ps)
    (accepted (sw_Allow (BurstAllowance c)) (current_window t n) (type_times c n cs))"
  using assms
proof (induction t cs arbitrary: ps rule: permitted.induct)
  case (1 t)
  then show ?case by (simp add: type_times_def)
next
  case (2 t t1 t2 m p cs)
  from "2.prems" obtain t' ok qs where step: "throttler_Allow t1 t2 m p t = Some (t', ok)"
    and qs: "permitted t' cs = Some qs" and ps: "ps = (if ok then (t1, t2, m, p) # qs else qs)"
    by (auto split: option.splits prod.splits)
  have IH: "subseq (type_times c n qs)
      (accepted (sw_Allow (BurstAllowance c)) (current_window t' n) (type_times c n cs))"
    if "t_config t' = c"
    using that step qs by (intro "2.IH") auto
  show ?case
  proof (cases "bypasses c p")
    case True
    then show ?thesis
      using step IH ps "2.prems"(2) by (auto simp: throttler_Allow_bypass type_times_def)
  next
    case False
    with step "2.prems"(2) obtain w' okw where w':
        "sw_Allow (BurstAllowance c) t1 (current_window t m) = (w', okw)"
      and t': "t_config t' = t_config t" "t_windows t' = (t_windows t)(m \<mapsto> w')"
      and "okw \<or> \<not> ok"
      by (metis throttler_Allow_cases)
    moreover have "current_window t' n = (if n = m then w' else current_window t n)"
      using t' by (rule current_window_upd)
    ultimately show ?thesis
      using False IH ps t'(1) "2.prems"(2)
      by (cases "n = m") (auto simp: type_times_def)
  qed
qed

text \<open>What is permitted at all was let through by the global window.\<close>

lemma permitted_global_accepted:
  assumes "permitted t cs = Some ps" and "t_config t = c"
  shows "\<exists>xs. subseq xs (global_times c cs) \<and>
    global_times c ps = accepted (sw_Allow (BurstAllowance c)) (t_global t) xs"
  using assms
proof (induction t cs arbitrary: ps rule: permitted.induct)
  case (1 t)
  then show ?case by (auto simp: global_times_def intro: exI [of _ "[]"])
next
  case (2 t t1 t2 m p cs)
  from "2.prems" obtain t' ok qs where step: "throttler_Allow t1 t2 m p t = Some (t', ok)"
    and qs: "permitted t' cs = Some qs" and ps: "ps = (if ok then (t1, t2, m, p) # qs else qs)"
    by (auto split: option.splits prod.splits)
  have IH: "\<exists>xs. subseq xs (global_times c cs) \<and>
      global_times c qs = accepted (sw_Allow (BurstAllowance c)) (t_global t') xs"
    if "t_config t' = c"
    using that step qs by (intro "2.IH") auto
  show ?case
  proof (cases "bypasses c p")
    case True
    then show ?thesis
      using step IH ps "2.prems"(2) by (auto simp: throttler_Allow_bypass global_times_def)
  next
    case False
    with step "2.prems"(2) obtain okw where t': "t_config t' = t_config t"
      and pass: "okw \<Longrightarrow> sw_Allow (BurstAllowance c) t2 (t_global t) = (t_global t', ok)"
      and stop: "\<not> okw \<Longrightarrow> t_global t' = t_global t \<and> \<not> ok"
      by (metis throttler_Allow_cases)
    from IH t' "2.prems"(2) obtain xs where xs: "subseq xs (global_times c cs)"
      "global_times c qs = accepted (sw_Allow (BurstAllowance c)) (t_global t') xs"
      by auto
    show ?thesis
    proof (cases okw)
      case True
      then show ?thesis
        using xs False ps pass by (intro exI [of _ "t2 # xs"]) (auto simp: global_times_def)
    next
      case False
      then show ?thesis
        using xs \<open>\<not> bypasses c p\<close> ps stop by (intro exI [of _ xs]) (auto simp: global_times_def)
    qed
  qed
qed

lemma length_filter_subseq: "subseq xs ys \<Longrightarrow> length (filter P xs) \<le> length (filter P ys)"
  by (rule list_emb_length [of "(=)"]) simp

lemma sorted_subseq: "subseq xs ys \<Longrightarrow> sorted ys \<Longrightarrow> sorted xs"
  by (induction rule: list_emb.induct) (auto dest: list_emb_set)

lemma NewThrottler_windows:
  assumes "NewThrottler c = Some t"
  shows "t_config t = c" and "sw_inv (DefaultWindow c) (type_limit c n) b (current_window t n)"
    and "sw_events (current_window t n) = []"
    and "sw_inv (DefaultWindow c) (GlobalLimit c) b (t_global t)" and "sw_events (t_global t) = []"
  using assms
  by (auto simp: NewThrottler_def newSlidingWindow_def current_window_def sw_inv_def
      split: if_splits)

section \<open>Properties\<close>

lemma current_span: "fits64 (- w) \<Longrightarrow> - wrap64 (- w) = w"
  by simp


definition small_config :: throttle_config where
  "small_config = DefaultThrottleConfig\<lparr>DefaultLimit := 1, GlobalLimit := 3, BurstAllowance := 0\<rparr>"

lemma small_config_calls:
  "permitted (the (NewThrottler small_config))
     [(10, 11, ''x'', 1), (20, 21, ''x'', 1), (30, 31, ''y'', 3)] =
   Some [(10, 11, ''x'', 1), (30, 31, ''y'', 3)]"
  by code_simp


text \<open>A window lets a request through when it has room, or burst left.\<close>

definition admits :: "int \<Rightarrow> gotime \<Rightarrow> sliding_window \<Rightarrow> bool" where
  "admits b now w \<longleftrightarrow> int (sw_Count now w) < sw_limit w \<or> sw_burstUsed w < b"

lemma sw_Allow_admits: "sw_Allow b now w = (w', ok) \<Longrightarrow> ok = admits b now w"
  by (auto simp: sw_Allow_def admits_def sw_Count_def sw_cutoff_def Let_def split: if_splits)

lemma sw_Allow_events:
  "sw_Allow b now w = (w', True) \<Longrightarrow>
   sw_events w' = filter (\<lambda>t. sw_cutoff now w < t) (sw_events w) @ [now]"
  by (auto simp: sw_Allow_def Let_def split: if_splits)

text \<open>
  Decision. A call that does not bypass the throttler returns true exactly when both the
  window of its type and the global window have room for it or burst left; it changes no other
  type's window and not the configuration. A call that bypasses it returns true and changes
  nothing.
\<close>

theorem throttler_Allow_decision:
  assumes "throttler_Allow t1 t2 n p t = Some (t', ok)"
  shows "if bypasses (t_config t) p then ok \<and> t' = t
         else (ok \<longleftrightarrow> admits (BurstAllowance (t_config t)) t1 (current_window t n) \<and>
                      admits (BurstAllowance (t_config t)) t2 (t_global t)) \<and>
              t_config t' = t_config t \<and> (\<forall>m. m \<noteq> n \<longrightarrow> t_windows t' m = t_windows t m)"
proof (cases "bypasses (t_config t) p")
  case True
  with assms(1) show ?thesis by (simp add: throttler_Allow_bypass)
next
  case False
  define b where "b = BurstAllowance (t_config t)"
  from False assms(1) obtain w' okw where
      w': "sw_Allow b t1 (current_window t n) = (w', okw)"
      and t': "t_config t' = t_config t" "t_windows t' = (t_windows t)(n \<mapsto> w')"
      and pass: "okw \<Longrightarrow> sw_Allow b t2 (t_global t) = (t_global t', ok)"
      and stop: "\<not> okw \<Longrightarrow> t_global t' = t_global t \<and> \<not> ok"
    by (metis b_def throttler_Allow_cases)
  have "ok \<longleftrightarrow> admits b t1 (current_window t n) \<and> admits b t2 (t_global t)"
    using sw_Allow_admits [OF w'] sw_Allow_admits [OF pass] stop by blast
  with False t' show ?thesis by (simp add: b_def)
qed

theorem throttler_Allow_decision_witness:
  "\<exists>t'. throttler_Allow 5 6 ''x'' 1 (the (NewThrottler small_config)) = Some (t', True) \<and>
        admits 0 6 (t_global (the (NewThrottler small_config)))"
proof -
  let ?t = "the (NewThrottler small_config)"
  have "map_option snd (throttler_Allow 5 6 ''x'' 1 ?t) = Some True"
    by code_simp
  then obtain t' where step: "throttler_Allow 5 6 ''x'' 1 ?t = Some (t', True)"
    by auto
  have "\<not> bypasses (t_config ?t) 1" and "BurstAllowance (t_config ?t) = 0"
    by code_simp+
  with throttler_Allow_decision [OF step] step show ?thesis by auto
qed

text \<open>
  A notification that only the global limit rejects is charged to its type: the rejected
  call is recorded in the type's window, where it takes the place of a later notification.
\<close>

theorem global_rejection_charges_type:
  assumes "throttler_Allow t1 t2 n p t = Some (t', False)"
    and "admits (BurstAllowance (t_config t)) t1 (current_window t n)"
  shows "t1 \<in> set (sw_events (current_window t' n))"
proof -
  have "\<not> bypasses (t_config t) p"
    using assms(1) by (auto simp: throttler_Allow_bypass)
  with assms(1) obtain w' okw where
      w': "sw_Allow (BurstAllowance (t_config t)) t1 (current_window t n) = (w', okw)"
      and t': "t_config t' = t_config t" "t_windows t' = (t_windows t)(n \<mapsto> w')"
    by (rule throttler_Allow_cases)
  have okw: okw using sw_Allow_admits [OF w'] assms(2) by simp
  have "current_window t' n = w'"
    using current_window_upd [OF t', of n] by simp
  with sw_Allow_events w' okw show ?thesis by simp
qed

theorem global_rejection_charges_type_witness:
  "\<exists>t t'. throttler_Allow 40 41 ''y'' 1 t = Some (t', False) \<and> 40 \<in> set (sw_events (current_window t' ''y''))"
proof -
  let ?g = "\<lparr>sw_events = [10, 20, 30], sw_window = hour, sw_limit = 3, sw_burstUsed = 0\<rparr>"
  let ?t = "\<lparr>t_config = small_config, t_windows = Map.empty, t_global = ?g\<rparr>"
  have "map_option snd (throttler_Allow 40 41 ''y'' 1 ?t) = Some False"
    by code_simp
  then obtain t' where step: "throttler_Allow 40 41 ''y'' 1 ?t = Some (t', False)"
    by auto
  have "admits (BurstAllowance (t_config ?t)) 40 (current_window ?t ''y'')"
    by code_simp
  with global_rejection_charges_type [OF step] step show ?thesis by blast
qed

text \<open>
  No panic. When the default limit and every per-type limit can be allocated (they are
  not negative, for one), no sequence of calls panics.
\<close>

theorem throttle_never_panics:
  assumes "\<And>n. make_ok 24 (wrap64 (type_limit (t_config t) n * 2))"
  shows "permitted t cs \<noteq> None"
  using assms
proof (induction t cs rule: permitted.induct)
  case (1 t)
  then show ?case by simp
next
  case (2 t t1 t2 n p cs)
  have "throttler_Allow t1 t2 n p t \<noteq> None"
    using "2.prems" by (auto simp: throttler_Allow_def newSlidingWindow_def Let_def split: option.splits prod.splits)
  then obtain t' ok where step: "throttler_Allow t1 t2 n p t = Some (t', ok)" by auto
  have "t_config t' = t_config t"
    using throttler_Allow_bypass [of t p] step by (cases "bypasses (t_config t) p") (auto elim: throttler_Allow_cases)
  with "2.prems" have "permitted t' cs \<noteq> None"
    by (intro "2.IH" [OF step refl]) simp
  with step show ?case by auto
qed

theorem throttle_never_panics_witness:
  "permitted (the (NewThrottler small_config)) [(1, 1, ''backup_failed'', 0)] \<noteq> None"
proof (rule throttle_never_panics)
  have cfg: "t_config (the (NewThrottler small_config)) = small_config"
    by (simp add: NewThrottler_def newSlidingWindow_def small_config_def DefaultThrottleConfig_def
        make_ok_def fits64_def)
  fix n
  have "type_limit small_config n \<in> {1, 10, 15, 20, 30, 50, 100}"
    by (simp add: small_config_def DefaultThrottleConfig_def type_limit_def)
  then show "make_ok 24 (wrap64 (type_limit (t_config (the (NewThrottler small_config))) n * 2))"
    unfolding cfg by (auto simp: make_ok_def fits64_def)
qed

end
