(* ===== verification/Rbac.thy ===== *)
theory Rbac
  imports Go_Prelude
begin

text \<open>
  Authorisation. The REST API's role and permission middleware
  (\<^verbatim>\<open>internal/api/middleware/rbac.go\<close>), the web frontend's permission middleware with its
  custom roles and legacy fallback (\<^verbatim>\<open>internal/web/middleware.go\<close>) and the role model
  (\<^verbatim>\<open>internal/models/role.go\<close>, \<^verbatim>\<open>user.go\<close>). Roles and permissions are strings, as in the code,
  where a token may carry any. A middleware takes the next handler and the request; what the
  gates of both surfaces have in common is the locale \<open>role_order\<close>.
\<close>

section \<open>Requests and responses\<close>

record user_claims =
  UserID :: string
  Username :: string
  Email :: string
  Role :: string
  Teams :: "string list"
  SessionID :: string

text \<open>The error responses carry the message that is written; \<open>Served\<close> is the next handler's answer.\<close>

datatype 'a response = Unauthorized string | Forbidden string | Served 'a

record request =
  rq_user :: "user_claims option"
  rq_path :: string

section \<open>API: role hierarchy\<close>

definition RoleAdmin :: string where "RoleAdmin = ''admin''"

definition RoleOperator :: string where "RoleOperator = ''operator''"

definition RoleViewer :: string where "RoleViewer = ''viewer''"

definition roleHierarchy :: "string \<rightharpoonup> int" where
  "roleHierarchy = [RoleViewer \<mapsto> 1, RoleOperator \<mapsto> 2, RoleAdmin \<mapsto> 3]"

text \<open>A missing key of a Go map reads as the zero value.\<close>

definition role_level :: "string \<Rightarrow> int" where
  "role_level r = (case roleHierarchy r of Some l \<Rightarrow> l | None \<Rightarrow> 0)"

definition HasMinRole :: "string \<Rightarrow> string \<Rightarrow> bool" where
  "HasMinRole userRole minRole \<longleftrightarrow> role_level minRole \<le> role_level userRole"

definition IsAdmin :: "string \<Rightarrow> bool" where
  "IsAdmin userRole \<longleftrightarrow> userRole = RoleAdmin"

definition RequireRole :: "string \<Rightarrow> (request \<Rightarrow> 'a response) \<Rightarrow> request \<Rightarrow> 'a response" where
  "RequireRole minRole next r =
     (case rq_user r of
        None \<Rightarrow> Unauthorized ''Authentication required''
      | Some claims \<Rightarrow>
          if \<not> HasMinRole (Role claims) minRole then Forbidden ''Insufficient permissions''
          else next r)"

definition RequireAdmin :: "(request \<Rightarrow> 'a response) \<Rightarrow> request \<Rightarrow> 'a response" where
  "RequireAdmin = RequireRole RoleAdmin"

definition RequireOperator :: "(request \<Rightarrow> 'a response) \<Rightarrow> request \<Rightarrow> 'a response" where
  "RequireOperator = RequireRole RoleOperator"

definition RequireViewer :: "(request \<Rightarrow> 'a response) \<Rightarrow> request \<Rightarrow> 'a response" where
  "RequireViewer = RequireRole RoleViewer"

section \<open>API: permissions\<close>

text \<open>The permission constants, in the order of their declaration.\<close>

definition api_permissions :: "string list" where
  "api_permissions =
     [
      ''container:view'', ''container:create'', ''container:start'', ''container:stop'',
      ''container:restart'', ''container:remove'', ''container:exec'', ''container:logs'',
      ''image:view'', ''image:pull'', ''image:remove'', ''image:build'', ''volume:view'',
      ''volume:create'', ''volume:remove'', ''network:view'', ''network:create'',
      ''network:remove'', ''stack:view'', ''stack:deploy'', ''stack:update'', ''stack:remove'',
      ''host:view'', ''host:create'', ''host:update'', ''host:remove'', ''user:view'',
      ''user:create'', ''user:update'', ''user:remove'', ''settings:view'', ''settings:update'',
      ''backup:create'', ''backup:restore'', ''backup:view'', ''security:scan'',
      ''security:view'', ''config:view'', ''config:create'', ''config:update'', ''config:remove''
     ]"

text \<open>The map literal as the list of its entries; \<open>init\<close> visits them in some order.\<close>

definition rolePermissions :: "(string \<times> string list) list" where
  "rolePermissions =
     [(RoleViewer,
       [
        ''container:view'', ''container:logs'', ''image:view'', ''volume:view'', ''network:view'',
        ''stack:view'', ''host:view'', ''backup:view'', ''security:view'', ''config:view''
       ]),
      (RoleOperator,
       [
        ''container:view'', ''container:create'', ''container:start'', ''container:stop'',
        ''container:restart'', ''container:remove'', ''container:exec'', ''container:logs'',
        ''image:view'', ''image:pull'', ''image:remove'', ''volume:view'', ''volume:create'',
        ''volume:remove'', ''network:view'', ''network:create'', ''network:remove'',
        ''stack:view'', ''stack:deploy'', ''stack:update'', ''stack:remove'', ''host:view'',
        ''backup:create'', ''backup:view'', ''security:scan'', ''security:view'', ''config:view'',
        ''config:create'', ''config:update'', ''config:remove''
       ]),
      (RoleAdmin,
       [
        ''container:view'', ''container:create'', ''container:start'', ''container:stop'',
        ''container:restart'', ''container:remove'', ''container:exec'', ''container:logs'',
        ''image:view'', ''image:pull'', ''image:remove'', ''image:build'', ''volume:view'',
        ''volume:create'', ''volume:remove'', ''network:view'', ''network:create'',
        ''network:remove'', ''stack:view'', ''stack:deploy'', ''stack:update'', ''stack:remove'',
        ''host:view'', ''host:create'', ''host:update'', ''host:remove'', ''user:view'',
        ''user:create'', ''user:update'', ''user:remove'', ''settings:view'', ''settings:update'',
        ''backup:create'', ''backup:restore'', ''backup:view'', ''security:scan'',
        ''security:view'', ''config:view'', ''config:create'', ''config:update'',
        ''config:remove''
       ])]"

fun cache_perms :: "string list \<Rightarrow> (string \<rightharpoonup> bool) \<Rightarrow> (string \<rightharpoonup> bool)" where
  "cache_perms [] m = m"
| "cache_perms (p # ps) m = cache_perms ps (m(p \<mapsto> True))"

text \<open>\<^verbatim>\<open>init\<close>: the permission cache built from the entries in the given order.\<close>

fun build_cache :: "(string \<times> string list) list \<Rightarrow> (string \<rightharpoonup> (string \<rightharpoonup> bool)) \<Rightarrow>
    (string \<rightharpoonup> (string \<rightharpoonup> bool))" where
  "build_cache [] c = c"
| "build_cache ((role, perms) # es) c = build_cache es (c(role \<mapsto> cache_perms perms Map.empty))"

definition permissionCache :: "string \<rightharpoonup> (string \<rightharpoonup> bool)" where
  "permissionCache = build_cache rolePermissions Map.empty"

definition cache_lookup :: "(string \<rightharpoonup> (string \<rightharpoonup> bool)) \<Rightarrow> string \<Rightarrow> string \<Rightarrow> bool" where
  "cache_lookup cache userRole perm =
     (case cache userRole of
        Some perms \<Rightarrow> (case perms perm of Some b \<Rightarrow> b | None \<Rightarrow> False)
      | None \<Rightarrow> False)"

definition HasPermission :: "string \<Rightarrow> string \<Rightarrow> bool" where
  "HasPermission userRole perm = cache_lookup permissionCache userRole perm"

definition RequirePermission :: "string \<Rightarrow> (request \<Rightarrow> 'a response) \<Rightarrow> request \<Rightarrow> 'a response" where
  "RequirePermission perm next r =
     (case rq_user r of
        None \<Rightarrow> Unauthorized ''Authentication required''
      | Some claims \<Rightarrow>
          if \<not> HasPermission (Role claims) perm then Forbidden (''Missing permission: '' @ perm)
          else next r)"

fun any_permission :: "string \<Rightarrow> string list \<Rightarrow> bool" where
  "any_permission role [] = False"
| "any_permission role (perm # perms) = (HasPermission role perm \<or> any_permission role perms)"

definition RequireAnyPermission ::
    "string list \<Rightarrow> (request \<Rightarrow> 'a response) \<Rightarrow> request \<Rightarrow> 'a response" where
  "RequireAnyPermission perms next r =
     (case rq_user r of
        None \<Rightarrow> Unauthorized ''Authentication required''
      | Some claims \<Rightarrow>
          if any_permission (Role claims) perms then next r
          else Forbidden ''Insufficient permissions'')"

text \<open>The first permission of the list that the role lacks.\<close>

fun first_missing :: "string \<Rightarrow> string list \<Rightarrow> string option" where
  "first_missing role [] = None"
| "first_missing role (perm # perms) =
     (if \<not> HasPermission role perm then Some perm else first_missing role perms)"

definition RequireAllPermissions ::
    "string list \<Rightarrow> (request \<Rightarrow> 'a response) \<Rightarrow> request \<Rightarrow> 'a response" where
  "RequireAllPermissions perms next r =
     (case rq_user r of
        None \<Rightarrow> Unauthorized ''Authentication required''
      | Some claims \<Rightarrow>
          (case first_missing (Role claims) perms of
             Some perm \<Rightarrow> Forbidden (''Missing permission: '' @ perm)
           | None \<Rightarrow> next r))"

section \<open>API: team access\<close>

fun DefaultTeamAccessChecker :: "string \<Rightarrow> string list \<Rightarrow> string \<Rightarrow> bool" where
  "DefaultTeamAccessChecker userID [] resourceTeam = False"
| "DefaultTeamAccessChecker userID (team # userTeams) resourceTeam =
     (if team = resourceTeam then True else DefaultTeamAccessChecker userID userTeams resourceTeam)"

definition RequireTeamAccess ::
    "(request \<Rightarrow> string) \<Rightarrow> (string \<Rightarrow> string list \<Rightarrow> string \<Rightarrow> bool) \<Rightarrow>
     (request \<Rightarrow> 'a response) \<Rightarrow> request \<Rightarrow> 'a response" where
  "RequireTeamAccess teamExtractor checker next r =
     (case rq_user r of
        None \<Rightarrow> Unauthorized ''Authentication required''
      | Some claims \<Rightarrow>
          if IsAdmin (Role claims) then next r
          else let resourceTeam = teamExtractor r in
            if resourceTeam = [] then next r
            else if \<not> checker (UserID claims) (Teams claims) resourceTeam
            then Forbidden ''No access to this team's resources''
            else next r)"

section \<open>Role model\<close>

record role_model =
  role_ID :: uuid
  role_Name :: string
  role_DisplayName :: string
  role_Description :: "string option"
  role_Permissions :: "string list"
  role_IsSystem :: bool
  role_IsActive :: bool
  role_Priority :: int
  role_CreatedAt :: gotime
  role_UpdatedAt :: gotime

fun list_has :: "string \<Rightarrow> string list \<Rightarrow> bool" where
  "list_has permission [] = False"
| "list_has permission (p # ps) = (if p = permission then True else list_has permission ps)"

definition role_HasPermission :: "role_model \<Rightarrow> string \<Rightarrow> bool" where
  "role_HasPermission r permission = list_has permission (role_Permissions r)"

fun role_HasAnyPermission :: "role_model \<Rightarrow> string list \<Rightarrow> bool" where
  "role_HasAnyPermission r [] = False"
| "role_HasAnyPermission r (perm # perms) =
     (if role_HasPermission r perm then True else role_HasAnyPermission r perms)"

fun role_HasAllPermissions :: "role_model \<Rightarrow> string list \<Rightarrow> bool" where
  "role_HasAllPermissions r [] = True"
| "role_HasAllPermissions r (perm # perms) =
     (if \<not> role_HasPermission r perm then False else role_HasAllPermissions r perms)"

record permission_model =
  perm_Name :: string
  perm_DisplayName :: string
  perm_Description :: string

abbreviation mk_permission :: "string \<Rightarrow> string \<Rightarrow> string \<Rightarrow> permission_model" where
  "mk_permission n d x \<equiv> \<lparr>perm_Name = n, perm_DisplayName = d, perm_Description = x\<rparr>"

record permission_category =
  cat_Name :: string
  cat_DisplayName :: string
  cat_Permissions :: "permission_model list"

definition AllPermissions :: "permission_category list" where
  "AllPermissions =
     [
      \<lparr>cat_Name = ''container'', cat_DisplayName = ''Containers'', cat_Permissions =
        [mk_permission ''container:view'' ''View Containers'' ''View container list and details'',
         mk_permission ''container:create'' ''Create Containers'' ''Create new containers'',
         mk_permission ''container:start'' ''Start Containers'' ''Start stopped containers'',
         mk_permission ''container:stop'' ''Stop Containers'' ''Stop running containers'',
         mk_permission ''container:restart'' ''Restart Containers'' ''Restart containers'',
         mk_permission ''container:remove'' ''Remove Containers'' ''Delete containers'',
         mk_permission ''container:exec'' ''Execute Commands'' ''Execute commands in containers'',
         mk_permission ''container:logs'' ''View Logs'' ''View container logs'']\<rparr>,
      \<lparr>cat_Name = ''image'', cat_DisplayName = ''Images'', cat_Permissions =
        [mk_permission ''image:view'' ''View Images'' ''View image list and details'',
         mk_permission ''image:pull'' ''Pull Images'' ''Pull images from registries'',
         mk_permission ''image:remove'' ''Remove Images'' ''Delete images'',
         mk_permission ''image:build'' ''Build Images'' ''Build images from Dockerfiles'']\<rparr>,
      \<lparr>cat_Name = ''volume'', cat_DisplayName = ''Volumes'', cat_Permissions =
        [mk_permission ''volume:view'' ''View Volumes'' ''View volume list and details'',
         mk_permission ''volume:create'' ''Create Volumes'' ''Create new volumes'',
         mk_permission ''volume:remove'' ''Remove Volumes'' ''Delete volumes'']\<rparr>,
      \<lparr>cat_Name = ''network'', cat_DisplayName = ''Networks'', cat_Permissions =
        [mk_permission ''network:view'' ''View Networks'' ''View network list and details'',
         mk_permission ''network:create'' ''Create Networks'' ''Create new networks'',
         mk_permission ''network:remove'' ''Remove Networks'' ''Delete networks'']\<rparr>,
      \<lparr>cat_Name = ''stack'', cat_DisplayName = ''Stacks'', cat_Permissions =
        [mk_permission ''stack:view'' ''View Stacks'' ''View stack list and details'',
         mk_permission ''stack:deploy'' ''Deploy Stacks'' ''Deploy new stacks'',
         mk_permission ''stack:update'' ''Update Stacks'' ''Update existing stacks'',
         mk_permission ''stack:remove'' ''Remove Stacks'' ''Delete stacks'']\<rparr>,
      \<lparr>cat_Name = ''host'', cat_DisplayName = ''Hosts'', cat_Permissions =
        [mk_permission ''host:view'' ''View Hosts'' ''View host list and details'',
         mk_permission ''host:create'' ''Add Hosts'' ''Add new hosts'',
         mk_permission ''host:update'' ''Update Hosts'' ''Update host settings'',
         mk_permission ''host:remove'' ''Remove Hosts'' ''Remove hosts'']\<rparr>,
      \<lparr>cat_Name = ''user'', cat_DisplayName = ''Users'', cat_Permissions =
        [mk_permission ''user:view'' ''View Users'' ''View user list and details'',
         mk_permission ''user:create'' ''Create Users'' ''Create new users'',
         mk_permission ''user:update'' ''Update Users'' ''Update user settings'',
         mk_permission ''user:remove'' ''Remove Users'' ''Delete users'']\<rparr>,
      \<lparr>cat_Name = ''role'', cat_DisplayName = ''Roles'', cat_Permissions =
        [mk_permission ''role:view'' ''View Roles'' ''View role list and details'',
         mk_permission ''role:create'' ''Create Roles'' ''Create new roles'',
         mk_permission ''role:update'' ''Update Roles'' ''Update role permissions'',
         mk_permission ''role:remove'' ''Remove Roles'' ''Delete custom roles'']\<rparr>,
      \<lparr>cat_Name = ''settings'', cat_DisplayName = ''Settings'', cat_Permissions =
        [mk_permission ''settings:view'' ''View Settings'' ''View system settings'',
         mk_permission ''settings:update'' ''Update Settings'' ''Modify system settings'']\<rparr>,
      \<lparr>cat_Name = ''backup'', cat_DisplayName = ''Backups'', cat_Permissions =
        [mk_permission ''backup:view'' ''View Backups'' ''View backup list and details'',
         mk_permission ''backup:create'' ''Create Backups'' ''Create new backups'',
         mk_permission ''backup:restore'' ''Restore Backups'' ''Restore from backups'']\<rparr>,
      \<lparr>cat_Name = ''security'', cat_DisplayName = ''Security'', cat_Permissions =
        [mk_permission ''security:view'' ''View Security'' ''View security scan results'',
         mk_permission ''security:scan'' ''Run Scans'' ''Run security scans'']\<rparr>,
      \<lparr>cat_Name = ''config'', cat_DisplayName = ''Configuration'', cat_Permissions =
        [mk_permission ''config:view'' ''View Config'' ''View configuration templates'',
         mk_permission ''config:create'' ''Create Config'' ''Create configuration templates'',
         mk_permission ''config:update'' ''Update Config'' ''Update configuration templates'',
         mk_permission ''config:remove'' ''Remove Config'' ''Delete configuration templates'']\<rparr>,
      \<lparr>cat_Name = ''audit'', cat_DisplayName = ''Audit'', cat_Permissions =
        [mk_permission ''audit:view'' ''View Audit Logs'' ''View audit logs'']\<rparr>
     ]"

definition AllPermissionNames :: "string list" where
  "AllPermissionNames = concat (map (\<lambda>cat. map perm_Name (cat_Permissions cat)) AllPermissions)"

definition UserRole_IsValid :: "string \<Rightarrow> bool" where
  "UserRole_IsValid r \<longleftrightarrow> r = RoleAdmin \<or> r = RoleOperator \<or> r = RoleViewer"

definition CanManageUsers :: "string \<Rightarrow> bool" where
  "CanManageUsers r \<longleftrightarrow> r = RoleAdmin"

definition CanModifyResources :: "string \<Rightarrow> bool" where
  "CanModifyResources r \<longleftrightarrow> r = RoleAdmin \<or> r = RoleOperator"

section \<open>Web: custom roles with a legacy fallback\<close>

record web_user =
  wu_ID :: string
  wu_Role :: string
  wu_RoleID :: string

definition operatorPerms :: "string list" where
  "operatorPerms =
     [
      ''container:view'', ''container:create'', ''container:start'', ''container:stop'',
      ''container:restart'', ''container:remove'', ''container:exec'', ''container:logs'',
      ''image:view'', ''image:pull'', ''image:remove'', ''image:create'', ''image:build'',
      ''volume:view'', ''volume:create'', ''volume:remove'', ''network:view'', ''network:create'',
      ''network:remove'', ''stack:view'', ''stack:deploy'', ''stack:update'', ''stack:remove'',
      ''host:view'', ''backup:view'', ''backup:create'', ''security:view'', ''security:scan'',
      ''config:view'', ''config:create'', ''config:update'', ''config:remove'', ''crontab:view'',
      ''crontab:execute'', ''dns:view'', ''dns:write'', ''calendar:view'', ''calendar:write'',
      ''marketplace:view'', ''marketplace:write''
     ]"

definition viewerPerms :: "string list" where
  "viewerPerms =
     [
      ''container:view'', ''container:logs'', ''image:view'', ''volume:view'', ''network:view'',
      ''stack:view'', ''host:view'', ''backup:view'', ''security:view'', ''config:view'',
      ''crontab:view'', ''dns:view'', ''calendar:view'', ''marketplace:view''
     ]"

definition hasLegacyPermission :: "string \<Rightarrow> string \<Rightarrow> bool" where
  "hasLegacyPermission role permission =
     (if role = ''operator'' then permission \<in> set operatorPerms
      else if role = ''viewer'' then permission \<in> set viewerPerms
      else False)"

text \<open>
  The role provider is \<open>None\<close> when none is set; a lookup that fails or finds no role is
  \<open>None\<close>, for both let the fallback decide.
\<close>

type_synonym role_provider = "(string \<Rightarrow> role_model option) option"

definition provider_grants :: "role_provider \<Rightarrow> web_user \<Rightarrow> (role_model \<Rightarrow> bool) \<Rightarrow> bool" where
  "provider_grants rp user test =
     (case rp of
        None \<Rightarrow> False
      | Some GetByID \<Rightarrow>
          wu_RoleID user \<noteq> [] \<and>
          (case GetByID (wu_RoleID user) of None \<Rightarrow> False | Some role \<Rightarrow> test role))"

definition web_RequirePermission ::
    "role_provider \<Rightarrow> string \<Rightarrow> (web_user option \<Rightarrow> 'a response) \<Rightarrow> web_user option \<Rightarrow> 'a response" where
  "web_RequirePermission rp permission next u =
     (case u of
        None \<Rightarrow> Unauthorized ''Unauthorized''
      | Some user \<Rightarrow>
          if wu_Role user = ''admin'' then next u
          else if provider_grants rp user (\<lambda>role. role_HasPermission role permission) then next u
          else if hasLegacyPermission (wu_Role user) permission then next u
          else Forbidden (''Forbidden: missing permission '' @ permission))"

fun any_legacy :: "string \<Rightarrow> string list \<Rightarrow> bool" where
  "any_legacy role [] = False"
| "any_legacy role (perm # perms) = (if hasLegacyPermission role perm then True else any_legacy role perms)"

definition web_RequireAnyPermission ::
    "role_provider \<Rightarrow> string list \<Rightarrow> (web_user option \<Rightarrow> 'a response) \<Rightarrow> web_user option \<Rightarrow> 'a response" where
  "web_RequireAnyPermission rp permissions next u =
     (case u of
        None \<Rightarrow> Unauthorized ''Unauthorized''
      | Some user \<Rightarrow>
          if wu_Role user = ''admin'' then next u
          else if provider_grants rp user (\<lambda>role. role_HasAnyPermission role permissions) then next u
          else if any_legacy (wu_Role user) permissions then next u
          else Forbidden ''Forbidden: missing required permissions'')"

section \<open>The cache agrees with the table\<close>

text \<open>The permissions the table lists for a role.\<close>

definition listed :: "string \<Rightarrow> string list" where
  "listed r = (case map_of rolePermissions r of Some ps \<Rightarrow> ps | None \<Rightarrow> [])"

lemma cache_perms_lookup: "cache_perms ps m p = (if p \<in> set ps then Some True else m p)"
  by (induction ps arbitrary: m) auto

lemma build_cache_lookup:
  "distinct (map fst es) \<Longrightarrow>
   build_cache es c r =
     (case map_of es r of Some ps \<Rightarrow> Some (cache_perms ps Map.empty) | None \<Rightarrow> c r)"
proof (induction es arbitrary: c)
  case Nil
  then show ?case by simp
next
  case (Cons e es)
  obtain role ps where e: "e = (role, ps)" by fastforce
  with Cons.prems have "map_of es role = None"
    by (auto simp: map_of_eq_None_iff)
  with Cons e show ?case by (cases "r = role") (auto split: option.split)
qed

lemma cache_lookup_build:
  "distinct (map fst es) \<Longrightarrow>
   cache_lookup (build_cache es Map.empty) r p \<longleftrightarrow> (\<exists>ps. map_of es r = Some ps \<and> p \<in> set ps)"
  by (cases "map_of es r") (simp_all add: cache_lookup_def build_cache_lookup cache_perms_lookup)

lemma rolePermissions_distinct: "distinct (map fst rolePermissions)"
  by (simp add: rolePermissions_def RoleViewer_def RoleOperator_def RoleAdmin_def)

lemma HasPermission_listed: "HasPermission r p \<longleftrightarrow> p \<in> set (listed r)"
  unfolding HasPermission_def permissionCache_def listed_def
  by (cases "map_of rolePermissions r") (simp_all add: cache_lookup_build [OF rolePermissions_distinct])

lemmas role_names = RoleViewer_def RoleOperator_def RoleAdmin_def

lemma listed_roles:
  "r = RoleViewer \<or> r = RoleOperator \<or> r = RoleAdmin" if "p \<in> set (listed r)"
  using that unfolding listed_def rolePermissions_def by (auto split: if_splits)

lemma viewer_sub_operator: "set (listed RoleViewer) \<subseteq> set (listed RoleOperator)"
  by code_simp

lemma operator_sub_admin: "set (listed RoleOperator) \<subseteq> set (listed RoleAdmin)"
  by code_simp

lemma role_level_simps [simp]:
  "role_level RoleViewer = 1" "role_level RoleOperator = 2" "role_level RoleAdmin = 3"
  by (simp_all add: role_level_def roleHierarchy_def role_names)

lemma role_level_other:
  "r \<noteq> RoleViewer \<Longrightarrow> r \<noteq> RoleOperator \<Longrightarrow> r \<noteq> RoleAdmin \<Longrightarrow> role_level r = 0"
  by (simp add: role_level_def roleHierarchy_def)

section \<open>A higher role can do what a lower one can\<close>

locale role_order =
  fixes level :: "string \<Rightarrow> int"
    and grants :: "string \<Rightarrow> string \<Rightarrow> bool"
  assumes grants_mono: "level r \<le> level r' \<Longrightarrow> grants r p \<Longrightarrow> grants r' p"
begin

lemma any_mono: "level r \<le> level r' \<Longrightarrow> list_ex (grants r) ps \<Longrightarrow> list_ex (grants r') ps"
  by (auto simp: list_ex_iff intro: grants_mono)

lemma all_mono: "level r \<le> level r' \<Longrightarrow> list_all (grants r) ps \<Longrightarrow> list_all (grants r') ps"
  by (auto simp: list_all_iff intro: grants_mono)

end

interpretation api: role_order role_level HasPermission
proof
  fix r r' p
  assume le: "role_level r \<le> role_level r'" and p: "HasPermission r p"
  from p have r: "p \<in> set (listed r)" by (simp add: HasPermission_listed)
  from listed_roles [OF this] consider "r = RoleViewer" | "r = RoleOperator" | "r = RoleAdmin"
    by blast
  then show "HasPermission r' p"
    using le r viewer_sub_operator operator_sub_admin role_level_other [of r']
    by cases (auto simp: HasPermission_listed role_level_def roleHierarchy_def role_names split: if_splits)
qed

text \<open>On the web surface, an administrator passes everywhere and the others by the legacy table.\<close>

definition web_grants :: "string \<Rightarrow> string \<Rightarrow> bool" where
  "web_grants role p \<longleftrightarrow> role = ''admin'' \<or> hasLegacyPermission role p"

lemma legacy_viewer_sub: "set viewerPerms \<subseteq> set operatorPerms"
  by code_simp

interpretation web: role_order role_level web_grants
proof
  fix r r' p
  assume "role_level r \<le> role_level r'" and "web_grants r p"
  then show "web_grants r' p"
    using legacy_viewer_sub role_level_other [of r']
    by (auto simp: web_grants_def hasLegacyPermission_def role_level_def roleHierarchy_def role_names
        split: if_splits)
qed

lemma any_permission_list_ex: "any_permission r ps \<longleftrightarrow> list_ex (HasPermission r) ps"
  by (induction ps) auto

lemma first_missing_None: "first_missing r ps = None \<longleftrightarrow> list_all (HasPermission r) ps"
  by (induction ps) auto

lemma first_missing_Some: "first_missing r ps = Some p \<Longrightarrow> p \<in> set ps \<and> \<not> HasPermission r p"
  by (induction ps) (auto split: if_splits)

section \<open>Properties\<close>

text \<open>
  Whatever order \<^verbatim>\<open>init\<close> visits the role table in, a lookup in the permission cache it
  builds answers exactly what the table lists: true for a role of the table and one of its
  permissions, false for anything else, unknown roles included.
\<close>

theorem permission_cache_agrees:
  assumes "distinct (map fst es)" and "set es = set rolePermissions"
  shows "cache_lookup (build_cache es Map.empty) r p \<longleftrightarrow>
         (\<exists>ps. (r, ps) \<in> set rolePermissions \<and> p \<in> set ps)"
  using assms by (auto simp: cache_lookup_build map_of_eq_Some_iff)

theorem permission_cache_agrees_witness:
  "cache_lookup (build_cache (rev rolePermissions) Map.empty) ''operator'' ''stack:deploy'' \<and>
   \<not> cache_lookup (build_cache (rev rolePermissions) Map.empty) ''viewer'' ''stack:deploy''"
proof -
  have dist: "distinct (map fst (rev rolePermissions))"
    using rolePermissions_distinct by (simp add: rev_map [symmetric])
  have op: "\<exists>ps. (''operator'', ps) \<in> set rolePermissions \<and> ''stack:deploy'' \<in> set ps"
    and vi: "\<not> (\<exists>ps. (''viewer'', ps) \<in> set rolePermissions \<and> ''stack:deploy'' \<in> set ps)"
    by (simp_all add: rolePermissions_def role_names)
  show ?thesis
    using permission_cache_agrees [OF dist set_rev, of "''operator''" "''stack:deploy''"]
      permission_cache_agrees [OF dist set_rev, of "''viewer''" "''stack:deploy''"] op vi
    by argo
qed

text \<open>
  Every gate of the API (minimum role, one permission, any of some, all of some) that lets a
  user through lets every user through whose role is at least as high in the hierarchy.
\<close>

theorem api_gates_monotone:
  assumes "HasMinRole (Role c') (Role c)"
    and "gate \<in> {RequireRole m, RequirePermission p, RequireAnyPermission ps, RequireAllPermissions ps}"
    and "gate (\<lambda>_. Served x) \<lparr>rq_user = Some c, rq_path = u\<rparr> = Served x"
  shows "gate (\<lambda>_. Served x) \<lparr>rq_user = Some c', rq_path = u\<rparr> = Served x"
proof -
  have le: "role_level (Role c) \<le> role_level (Role c')"
    using assms(1) by (simp add: HasMinRole_def)
  from assms(2) consider "gate = RequireRole m" | "gate = RequirePermission p"
    | "gate = RequireAnyPermission ps" | "gate = RequireAllPermissions ps"
    by blast
  then show ?thesis
  proof cases
    case 1
    with assms(3) le show ?thesis by (auto simp: RequireRole_def HasMinRole_def split: if_splits)
  next
    case 2
    with assms(3) api.grants_mono [OF le, of p] show ?thesis
      by (auto simp: RequirePermission_def split: if_splits)
  next
    case 3
    with assms(3) api.any_mono [OF le, of ps] show ?thesis
      by (auto simp: RequireAnyPermission_def any_permission_list_ex split: if_splits)
  next
    case 4
    with assms(3) api.all_mono [OF le, of ps] show ?thesis
      by (auto simp: RequireAllPermissions_def first_missing_None [symmetric] split: option.splits)
  qed
qed

definition claims_of :: "string \<Rightarrow> user_claims" where
  "claims_of r = \<lparr>UserID = ''u1'', Username = ''ann'', Email = [], Role = r, Teams = [], SessionID = []\<rparr>"

theorem api_gates_monotone_witness:
  "RequireAllPermissions [''stack:view'', ''host:view''] (\<lambda>_. Served ()) \<lparr>rq_user = Some (claims_of ''admin''), rq_path = []\<rparr> = Served ()"
proof (rule api_gates_monotone [where gate = "RequireAllPermissions [''stack:view'', ''host:view'']"
      and c = "claims_of ''viewer''" and ps = "[''stack:view'', ''host:view'']"])
  show "HasMinRole (Role (claims_of ''admin'')) (Role (claims_of ''viewer''))"
    by (simp add: HasMinRole_def role_level_def roleHierarchy_def role_names claims_of_def)
  show "RequireAllPermissions [''stack:view'', ''host:view''] (\<lambda>_. Served ())
      \<lparr>rq_user = Some (claims_of ''viewer''), rq_path = []\<rparr> = Served ()"
    by (simp add: RequireAllPermissions_def HasPermission_listed claims_of_def listed_def
        rolePermissions_def role_names)
qed simp

text \<open>
  C5. The API's permission gates fail closed: without a user the answer is the 401 error, and a
  next handler runs for a user only when the role holds the permission (one of them, all of
  them); the error of the all-gate names a permission that is required and missing.
\<close>

theorem api_gates_fail_closed:
  "(rq_user r = None \<longrightarrow>
      (\<forall>gate \<in> {RequirePermission p, RequireAnyPermission ps, RequireAllPermissions ps}.
         gate next r = Unauthorized ''Authentication required'')) \<and>
   (\<forall>c. rq_user r = Some c \<longrightarrow>
      RequirePermission p next r =
        (if p \<in> set (listed (Role c)) then next r else Forbidden (''Missing permission: '' @ p)) \<and>
      RequireAnyPermission ps next r =
        (if set ps \<inter> set (listed (Role c)) \<noteq> {} then next r
         else Forbidden ''Insufficient permissions'') \<and>
      (if set ps \<subseteq> set (listed (Role c)) then RequireAllPermissions ps next r = next r
       else \<exists>q \<in> set ps - set (listed (Role c)).
              RequireAllPermissions ps next r = Forbidden (''Missing permission: '' @ q)))"
proof (cases "rq_user r")
  case None
  then show ?thesis
    by (auto simp: RequirePermission_def RequireAnyPermission_def RequireAllPermissions_def)
next
  case (Some c)
  have 1: "RequirePermission p next r =
      (if p \<in> set (listed (Role c)) then next r else Forbidden (''Missing permission: '' @ p))"
    by (simp add: Some RequirePermission_def HasPermission_listed)
  have 2: "RequireAnyPermission ps next r =
      (if set ps \<inter> set (listed (Role c)) \<noteq> {} then next r else Forbidden ''Insufficient permissions'')"
    by (auto simp: Some RequireAnyPermission_def any_permission_list_ex list_ex_iff HasPermission_listed)
  have 3: "if set ps \<subseteq> set (listed (Role c)) then RequireAllPermissions ps next r = next r
       else \<exists>q \<in> set ps - set (listed (Role c)).
              RequireAllPermissions ps next r = Forbidden (''Missing permission: '' @ q)"
    using first_missing_Some [of "Role c" ps] first_missing_None [of "Role c" ps]
    by (cases "first_missing (Role c) ps")
      (auto simp: Some RequireAllPermissions_def list_all_iff HasPermission_listed)
  from 1 2 3 Some show ?thesis by simp
qed

theorem api_gates_fail_closed_witness:
  "RequirePermission ''user:create'' (\<lambda>_. Served ()) \<lparr>rq_user = Some (claims_of ''operator''), rq_path = []\<rparr> =
     Forbidden ''Missing permission: user:create''"
  using api_gates_fail_closed [of "\<lparr>rq_user = Some (claims_of ''operator''), rq_path = []\<rparr>" "''user:create''"
      "[]" "\<lambda>_. Served ()"]
  by (simp add: claims_of_def listed_def rolePermissions_def role_names)

text \<open>
  The administrator does not hold every permission the role model offers: exactly the four
  role-management permissions and the audit permission of \<^verbatim>\<open>AllPermissions\<close> are missing from the
  API's table, for every role.
\<close>

theorem admin_permission_gap:
  "{p \<in> set AllPermissionNames. \<not> HasPermission RoleAdmin p} =
     {''role:view'', ''role:create'', ''role:update'', ''role:remove'', ''audit:view''} \<and>
   (\<forall>r. \<not> HasPermission r ''audit:view'')"
proof
  have "filter (\<lambda>p. p \<notin> set (listed RoleAdmin)) AllPermissionNames =
      [''role:view'', ''role:create'', ''role:update'', ''role:remove'', ''audit:view'']"
    by code_simp
  then have "set (filter (\<lambda>p. p \<notin> set (listed RoleAdmin)) AllPermissionNames) =
      {''role:view'', ''role:create'', ''role:update'', ''role:remove'', ''audit:view''}"
    by simp
  then show "{p \<in> set AllPermissionNames. \<not> HasPermission RoleAdmin p} =
      {''role:view'', ''role:create'', ''role:update'', ''role:remove'', ''audit:view''}"
    by (simp add: HasPermission_listed)
  have admin: "\<not> HasPermission RoleAdmin ''audit:view''"
    unfolding HasPermission_listed by code_simp
  have "role_level r \<le> role_level RoleAdmin" for r
    by (simp add: role_level_def roleHierarchy_def role_names)
  with admin show "\<forall>r. \<not> HasPermission r ''audit:view''"
    using api.grants_mono by blast
qed

text \<open>
  Web surface: the next handler runs exactly for an administrator, for a user whose custom
  role lists the permission, and for a user whose legacy role has it. So a custom role can only
  add permissions to the legacy role, never take one away, and a deactivated custom role grants
  what it granted when it was active.
\<close>

theorem web_permission_decision:
  "(web_RequirePermission rp p (\<lambda>_. Served x) (Some u) = Served x \<longleftrightarrow>
      web_grants (wu_Role u) p \<or>
      (\<exists>get role. rp = Some get \<and> wu_RoleID u \<noteq> [] \<and> get (wu_RoleID u) = Some role \<and>
         p \<in> set (role_Permissions role))) \<and>
   web_RequirePermission rp p next None = Unauthorized ''Unauthorized'' \<and>
   web_RequirePermission (map_option (\<lambda>get i. map_option (role_IsActive_update (\<lambda>_. b)) (get i)) rp) p next (Some u) =
     web_RequirePermission rp p next (Some u)"
proof -
  have has: "role_HasPermission role q \<longleftrightarrow> q \<in> set (role_Permissions role)" for role q
  proof -
    have "list_has q qs \<longleftrightarrow> q \<in> set qs" for qs by (induction qs) auto
    then show ?thesis by (simp add: role_HasPermission_def)
  qed
  then show ?thesis
    by (auto simp: web_RequirePermission_def provider_grants_def web_grants_def split: option.splits)
qed

text \<open>
  The backup verification pages ask for \<^verbatim>\<open>backups:view\<close> and \<^verbatim>\<open>backups:execute\<close>, which neither the role
  model offers nor a legacy role has: viewers and operators, who hold \<^verbatim>\<open>backup:view\<close>, are
  turned away unless a custom role lists the misspelt name.
\<close>

theorem backup_verify_pages_closed:
  "p \<in> {''backups:view'', ''backups:execute''} \<Longrightarrow> wu_Role u \<noteq> ''admin'' \<Longrightarrow> wu_RoleID u = [] \<Longrightarrow>
   p \<notin> set AllPermissionNames \<and>
   web_RequirePermission rp p next (Some u) = Forbidden (''Forbidden: missing permission '' @ p) \<and>
   (wu_Role u = ''viewer'' \<longrightarrow> web_RequirePermission rp ''backup:view'' next (Some u) = next (Some u))"
proof -
  assume p: "p \<in> {''backups:view'', ''backups:execute''}" and u: "wu_Role u \<noteq> ''admin''" "wu_RoleID u = []"
  have legacy: "set operatorPerms \<inter> {''backups:view'', ''backups:execute''} = {}"
      "set viewerPerms \<inter> {''backups:view'', ''backups:execute''} = {}"
      "set AllPermissionNames \<inter> {''backups:view'', ''backups:execute''} = {}"
      "''backup:view'' \<in> set viewerPerms"
    by code_simp+
  with p have "\<not> hasLegacyPermission (wu_Role u) p"
    by (auto simp: hasLegacyPermission_def)
  with u legacy p show ?thesis
    by (auto simp: web_RequirePermission_def provider_grants_def hasLegacyPermission_def split: option.splits)
qed

theorem backup_verify_pages_closed_witness:
  "web_RequirePermission None ''backups:view'' (\<lambda>_. Served ()) (Some \<lparr>wu_ID = ''u1'', wu_Role = ''operator'', wu_RoleID = []\<rparr>) =
     Forbidden ''Forbidden: missing permission backups:view''"
  using backup_verify_pages_closed [of "''backups:view''"
      "\<lparr>wu_ID = ''u1'', wu_Role = ''operator'', wu_RoleID = []\<rparr>" None "\<lambda>_. Served ()"]
  by simp

end
