(* ===== verification/Team_Scope.thy ===== *)
theory Team_Scope
  imports Go_Prelude
begin

text \<open>
  Teams and resource scoping: the team service (\<^verbatim>\<open>internal/services/team/service.go\<close>) over its
  tables (\<^verbatim>\<open>internal/repository/postgres/team_repo.go\<close>, \<^verbatim>\<open>resource_permission_repo.go\<close>), the scope
  it computes for a user and the checks of a scope (\<^verbatim>\<open>internal/models/team.go\<close>), and the web
  middleware that puts a scope into the request (\<^verbatim>\<open>internal/web/middleware.go\<close>).

  The tables are lists of rows with the keys of migration 013; an SQL statement that the
  database refuses is decided by \<open>db n\<close>, the outcome of the operation's \<open>n\<close>-th statement.
\<close>

section \<open>Tables\<close>

datatype app_error =
    NotFound string
  | BadRequest string
  | TeamLimitReached int
  | DatabaseError string
  | Wrapped string app_error

record team =
  team_ID :: uuid
  team_Name :: string
  team_Description :: "string option"
  team_CreatedBy :: "uuid option"
  team_CreatedAt :: gotime
  team_UpdatedAt :: gotime

record team_member =
  tm_TeamID :: uuid
  tm_UserID :: uuid
  tm_RoleInTeam :: string
  tm_AddedAt :: gotime
  tm_AddedBy :: "uuid option"

record resource_permission =
  rp_ID :: uuid
  rp_TeamID :: uuid
  rp_ResourceType :: string
  rp_ResourceID :: string
  rp_AccessLevel :: string
  rp_GrantedAt :: gotime
  rp_GrantedBy :: "uuid option"

record team_db =
  teams :: "team list"
  team_members :: "team_member list"
  resource_permissions :: "resource_permission list"

type_synonym db_outcome = "nat \<Rightarrow> bool"

definition TeamRole_IsValid :: "string \<Rightarrow> bool" where
  "TeamRole_IsValid r \<longleftrightarrow> r = ''owner'' \<or> r = ''member''"

definition ResourceType_IsValid :: "string \<Rightarrow> bool" where
  "ResourceType_IsValid t \<longleftrightarrow>
     t \<in> {''stack'', ''container_group'', ''gitea_connection'', ''s3_connection'',
          ''host'', ''network'', ''volume''}"

definition AccessLevel_IsValid :: "string \<Rightarrow> bool" where
  "AccessLevel_IsValid al \<longleftrightarrow> al = ''view'' \<or> al = ''manage''"

definition AccessLevel_CanManage :: "string \<Rightarrow> bool" where
  "AccessLevel_CanManage al \<longleftrightarrow> al = ''manage''"

subsection \<open>Team repository\<close>

definition team_Create :: "bool \<Rightarrow> uuid \<Rightarrow> gotime \<Rightarrow> team \<Rightarrow> team_db \<Rightarrow> (app_error + team) \<times> team_db" where
  "team_Create ok fresh now t d =
     (let t = t\<lparr>team_ID := (if team_ID t = uuid_nil then fresh else team_ID t),
               team_CreatedAt := now, team_UpdatedAt := now\<rparr>
      in if ok \<and> team_ID t \<notin> team_ID ` set (teams d) \<and> team_Name t \<notin> team_Name ` set (teams d)
         then (Inr t, d\<lparr>teams := teams d @ [t]\<rparr>)
         else (Inl (DatabaseError ''failed to create team''), d))"

definition team_GetByID :: "bool \<Rightarrow> uuid \<Rightarrow> team_db \<Rightarrow> app_error + team" where
  "team_GetByID ok i d =
     (if \<not> ok then Inl (DatabaseError ''failed to get team'')
      else case find (\<lambda>t. team_ID t = i) (teams d) of
             None \<Rightarrow> Inl (NotFound ''team not found'')
           | Some t \<Rightarrow> Inr t)"

definition team_GetByName :: "bool \<Rightarrow> string \<Rightarrow> team_db \<Rightarrow> app_error + team" where
  "team_GetByName ok n d =
     (if \<not> ok then Inl (DatabaseError ''failed to get team by name'')
      else case find (\<lambda>t. team_Name t = n) (teams d) of
             None \<Rightarrow> Inl (NotFound ''team not found'')
           | Some t \<Rightarrow> Inr t)"

definition team_Count :: "bool \<Rightarrow> team_db \<Rightarrow> app_error + int" where
  "team_Count ok d =
     (if ok then Inr (int (length (teams d))) else Inl (DatabaseError ''failed to count teams''))"

text \<open>The statement sets name, description and the update time of the row; names are unique.\<close>

definition team_Update :: "bool \<Rightarrow> gotime \<Rightarrow> team \<Rightarrow> team_db \<Rightarrow> app_error option \<times> team_db" where
  "team_Update ok now t d =
     (if \<not> ok \<or> (\<exists>u \<in> set (teams d). team_Name u = team_Name t \<and> team_ID u \<noteq> team_ID t)
      then (Some (DatabaseError ''failed to update team''), d)
      else if team_ID t \<notin> team_ID ` set (teams d) then (Some (NotFound ''team not found''), d)
      else (None, d\<lparr>teams := map (\<lambda>u. if team_ID u = team_ID t
               then u\<lparr>team_Name := team_Name t, team_Description := team_Description t, team_UpdatedAt := now\<rparr>
               else u) (teams d)\<rparr>))"

text \<open>Members and permissions of the team go with it (\<^verbatim>\<open>ON DELETE CASCADE\<close>).\<close>

definition team_Delete :: "bool \<Rightarrow> uuid \<Rightarrow> team_db \<Rightarrow> app_error option \<times> team_db" where
  "team_Delete ok i d =
     (if \<not> ok then (Some (DatabaseError ''failed to delete team''), d)
      else if i \<notin> team_ID ` set (teams d) then (Some (NotFound ''team not found''), d)
      else (None, \<lparr>teams = filter (\<lambda>t. team_ID t \<noteq> i) (teams d),
                   team_members = filter (\<lambda>m. tm_TeamID m \<noteq> i) (team_members d),
                   resource_permissions = filter (\<lambda>p. rp_TeamID p \<noteq> i) (resource_permissions d)\<rparr>))"

definition team_Exists :: "bool \<Rightarrow> team_db \<Rightarrow> app_error + bool" where
  "team_Exists ok d =
     (if ok then Inr (teams d \<noteq> []) else Inl (DatabaseError ''failed to check teams existence''))"

text \<open>A row for the same team and user only has its role replaced; the team must exist.\<close>

definition team_AddMember :: "bool \<Rightarrow> gotime \<Rightarrow> team_member \<Rightarrow> team_db \<Rightarrow> app_error option \<times> team_db" where
  "team_AddMember ok now m d =
     (if \<not> ok \<or> tm_TeamID m \<notin> team_ID ` set (teams d)
      then (Some (DatabaseError ''failed to add team member''), d)
      else if \<exists>x \<in> set (team_members d). tm_TeamID x = tm_TeamID m \<and> tm_UserID x = tm_UserID m
      then (None, d\<lparr>team_members := map (\<lambda>x.
              if tm_TeamID x = tm_TeamID m \<and> tm_UserID x = tm_UserID m
              then x\<lparr>tm_RoleInTeam := tm_RoleInTeam m\<rparr> else x) (team_members d)\<rparr>)
      else (None, d\<lparr>team_members := team_members d @ [m\<lparr>tm_AddedAt := now\<rparr>]\<rparr>))"

definition team_RemoveMember :: "bool \<Rightarrow> uuid \<Rightarrow> uuid \<Rightarrow> team_db \<Rightarrow> app_error option \<times> team_db" where
  "team_RemoveMember ok teamID userID d =
     (if \<not> ok then (Some (DatabaseError ''failed to remove team member''), d)
      else let rest = filter (\<lambda>m. \<not> (tm_TeamID m = teamID \<and> tm_UserID m = userID)) (team_members d)
           in if length rest = length (team_members d)
              then (Some (NotFound ''team member not found''), d)
              else (None, d\<lparr>team_members := rest\<rparr>))"

definition team_IsMember :: "bool \<Rightarrow> uuid \<Rightarrow> uuid \<Rightarrow> team_db \<Rightarrow> app_error + bool" where
  "team_IsMember ok teamID userID d =
     (if ok then Inr (\<exists>m \<in> set (team_members d). tm_TeamID m = teamID \<and> tm_UserID m = userID)
      else Inl (DatabaseError ''failed to check team membership''))"

subsection \<open>Permission repository\<close>

definition perm_same_key :: "resource_permission \<Rightarrow> resource_permission \<Rightarrow> bool" where
  "perm_same_key p q \<longleftrightarrow>
     rp_TeamID p = rp_TeamID q \<and> rp_ResourceType p = rp_ResourceType q \<and> rp_ResourceID p = rp_ResourceID q"

text \<open>A permission for the same team and resource is updated in place; ids are unique, the team exists.\<close>

definition perm_Grant :: "bool \<Rightarrow> uuid \<Rightarrow> gotime \<Rightarrow> resource_permission \<Rightarrow> team_db \<Rightarrow> app_error option \<times> team_db" where
  "perm_Grant ok fresh now p d =
     (let p = p\<lparr>rp_ID := (if rp_ID p = uuid_nil then fresh else rp_ID p), rp_GrantedAt := now\<rparr>
      in if \<not> ok \<or> rp_TeamID p \<notin> team_ID ` set (teams d)
         then (Some (DatabaseError ''failed to grant permission''), d)
         else if \<exists>q \<in> set (resource_permissions d). perm_same_key q p
         then (None, d\<lparr>resource_permissions := map (\<lambda>q. if perm_same_key q p
                 then q\<lparr>rp_AccessLevel := rp_AccessLevel p, rp_GrantedAt := rp_GrantedAt p,
                        rp_GrantedBy := rp_GrantedBy p\<rparr>
                 else q) (resource_permissions d)\<rparr>)
         else if rp_ID p \<in> rp_ID ` set (resource_permissions d)
         then (Some (DatabaseError ''failed to grant permission''), d)
         else (None, d\<lparr>resource_permissions := resource_permissions d @ [p]\<rparr>))"

definition perm_delete_where ::
    "(resource_permission \<Rightarrow> bool) \<Rightarrow> bool \<Rightarrow> team_db \<Rightarrow> app_error option \<times> team_db" where
  "perm_delete_where P ok d =
     (if \<not> ok then (Some (DatabaseError ''failed to revoke permission''), d)
      else let rest = filter (\<lambda>p. \<not> P p) (resource_permissions d)
           in if length rest = length (resource_permissions d)
              then (Some (NotFound ''permission not found''), d)
              else (None, d\<lparr>resource_permissions := rest\<rparr>))"

definition perm_Revoke :: "bool \<Rightarrow> uuid \<Rightarrow> string \<Rightarrow> string \<Rightarrow> team_db \<Rightarrow> app_error option \<times> team_db" where
  "perm_Revoke ok teamID rType rID =
     perm_delete_where
       (\<lambda>p. rp_TeamID p = teamID \<and> rp_ResourceType p = rType \<and> rp_ResourceID p = rID) ok"

definition perm_RevokeByID :: "bool \<Rightarrow> uuid \<Rightarrow> team_db \<Rightarrow> app_error option \<times> team_db" where
  "perm_RevokeByID ok i = perm_delete_where (\<lambda>p. rp_ID p = i) ok"

section \<open>Service\<close>

text \<open>
  The operations of \<^verbatim>\<open>team.Service\<close>. \<open>db n\<close> is the outcome of the operation's \<open>n\<close>-th
  statement and \<open>clk n\<close> its \<open>n\<close>-th reading of the clock; \<open>fresh\<close> is what \<^verbatim>\<open>uuid.New\<close>
  returns. The foreign key on users is part of the outcome of the statement.
\<close>

type_synonym clock = "nat \<Rightarrow> gotime"

definition CreateTeam ::
    "int \<Rightarrow> db_outcome \<Rightarrow> clock \<Rightarrow> uuid \<Rightarrow> string \<Rightarrow> string \<Rightarrow> uuid \<Rightarrow> team_db \<Rightarrow>
     (app_error + team) \<times> team_db" where
  "CreateTeam maxTeams db clk fresh name description createdBy d =
     (let create =
        (case team_GetByName (db 1) name d of
           Inr _ \<Rightarrow> (Inl (BadRequest ''team name already exists''), d)
         | Inl _ \<Rightarrow>
             (let t = \<lparr>team_ID = fresh, team_Name = name,
                       team_Description = (if description \<noteq> [] then Some description else None),
                       team_CreatedBy = Some createdBy, team_CreatedAt = clk 0, team_UpdatedAt = clk 1\<rparr>
              in case team_Create (db 2) fresh (clk 2) t d of
                   (Inl e, d') \<Rightarrow> (Inl (Wrapped ''create team'' e), d')
                 | (Inr t', d') \<Rightarrow>
                     (let m = \<lparr>tm_TeamID = team_ID t', tm_UserID = createdBy, tm_RoleInTeam = ''owner'',
                               tm_AddedAt = clk 3, tm_AddedBy = Some createdBy\<rparr>
                      in (Inr t', snd (team_AddMember (db 3) (clk 4) m d')))))
      in if 0 < maxTeams then
           (case team_Count (db 0) d of
              Inl e \<Rightarrow> (Inl (Wrapped ''check team limit'' e), d)
            | Inr count \<Rightarrow>
                if maxTeams \<le> count then (Inl (TeamLimitReached maxTeams), d) else create)
         else create)"

definition UpdateTeam ::
    "db_outcome \<Rightarrow> clock \<Rightarrow> uuid \<Rightarrow> string \<Rightarrow> string \<Rightarrow> team_db \<Rightarrow> (app_error + team) \<times> team_db" where
  "UpdateTeam db clk i name description d =
     (case team_GetByID (db 0) i d of
        Inl e \<Rightarrow> (Inl e, d)
      | Inr t \<Rightarrow>
          if name \<noteq> [] \<and> name \<noteq> team_Name t \<and>
             (case team_GetByName (db 1) name d of Inr u \<Rightarrow> team_ID u \<noteq> i | Inl _ \<Rightarrow> False)
          then (Inl (BadRequest ''team name already exists''), d)
          else
            let t = (if name \<noteq> [] \<and> name \<noteq> team_Name t then t\<lparr>team_Name := name\<rparr> else t);
                t = (if description \<noteq> [] then t\<lparr>team_Description := Some description\<rparr> else t);
                t = t\<lparr>team_UpdatedAt := clk 0\<rparr>
            in case team_Update (db 2) (clk 1) t d of
                 (Some e, d') \<Rightarrow> (Inl e, d')
               | (None, d') \<Rightarrow> (Inr t, d'))"

definition DeleteTeam :: "db_outcome \<Rightarrow> uuid \<Rightarrow> team_db \<Rightarrow> app_error option \<times> team_db" where
  "DeleteTeam db i d =
     (case team_GetByID (db 0) i d of
        Inl e \<Rightarrow> (Some e, d)
      | Inr _ \<Rightarrow> team_Delete (db 1) i d)"

definition AddMember ::
    "db_outcome \<Rightarrow> clock \<Rightarrow> uuid \<Rightarrow> uuid \<Rightarrow> string \<Rightarrow> uuid \<Rightarrow> team_db \<Rightarrow> app_error option \<times> team_db" where
  "AddMember db clk teamID userID role addedBy d =
     (if \<not> TeamRole_IsValid role then (Some (BadRequest (''invalid team role: '' @ role)), d)
      else case team_GetByID (db 0) teamID d of
             Inl e \<Rightarrow> (Some e, d)
           | Inr _ \<Rightarrow>
               (case team_IsMember (db 1) teamID userID d of
                  Inl e \<Rightarrow> (Some e, d)
                | Inr True \<Rightarrow> (Some (BadRequest ''user is already a member of this team''), d)
                | Inr False \<Rightarrow>
                    team_AddMember (db 2) (clk 1)
                      \<lparr>tm_TeamID = teamID, tm_UserID = userID, tm_RoleInTeam = role,
                       tm_AddedAt = clk 0, tm_AddedBy = Some addedBy\<rparr> d))"

definition RemoveMember :: "db_outcome \<Rightarrow> uuid \<Rightarrow> uuid \<Rightarrow> team_db \<Rightarrow> app_error option \<times> team_db" where
  "RemoveMember db = team_RemoveMember (db 0)"

definition GrantAccess ::
    "db_outcome \<Rightarrow> clock \<Rightarrow> uuid \<Rightarrow> uuid \<Rightarrow> string \<Rightarrow> string \<Rightarrow> string \<Rightarrow> uuid \<Rightarrow> team_db \<Rightarrow>
     app_error option \<times> team_db" where
  "GrantAccess db clk fresh teamID resourceType resourceID level grantedBy d =
     (if \<not> ResourceType_IsValid resourceType
      then (Some (BadRequest (''invalid resource type: '' @ resourceType)), d)
      else if \<not> AccessLevel_IsValid level
      then (Some (BadRequest (''invalid access level: '' @ level)), d)
      else if resourceID = [] then (Some (BadRequest ''resource_id is required''), d)
      else case team_GetByID (db 0) teamID d of
             Inl e \<Rightarrow> (Some e, d)
           | Inr _ \<Rightarrow>
               perm_Grant (db 1) fresh (clk 0)
                 \<lparr>rp_ID = uuid_nil, rp_TeamID = teamID, rp_ResourceType = resourceType,
                  rp_ResourceID = resourceID, rp_AccessLevel = level, rp_GrantedAt = time_zero,
                  rp_GrantedBy = Some grantedBy\<rparr> d)"

definition RevokeAccess :: "db_outcome \<Rightarrow> uuid \<Rightarrow> string \<Rightarrow> string \<Rightarrow> team_db \<Rightarrow> app_error option \<times> team_db" where
  "RevokeAccess db = perm_Revoke (db 0)"

definition RevokeAccessByID :: "db_outcome \<Rightarrow> uuid \<Rightarrow> team_db \<Rightarrow> app_error option \<times> team_db" where
  "RevokeAccessByID db = perm_RevokeByID (db 0)"

section \<open>Scopes\<close>

record resource_scope =
  ScopeIsAdmin :: bool
  NoTeamsExist :: bool
  UserTeamIDs :: "uuid list"
  AllowedStacks :: "uuid list"
  AllowedContainerGroups :: "string list"
  AllowedGiteaConns :: "uuid list"
  AllowedS3Conns :: "uuid list"
  AllowedHosts :: "uuid list"
  AllowedNetworks :: "string list"
  AllowedVolumes :: "string list"
  AssignedStacks :: "uuid list"
  AssignedContainerGroups :: "string list"
  AssignedGiteaConns :: "uuid list"
  AssignedS3Conns :: "uuid list"
  AssignedHosts :: "uuid list"
  AssignedNetworks :: "string list"
  AssignedVolumes :: "string list"

definition empty_scope :: resource_scope where
  "empty_scope =
     \<lparr>ScopeIsAdmin = False, NoTeamsExist = False, UserTeamIDs = [], AllowedStacks = [],
      AllowedContainerGroups = [], AllowedGiteaConns = [], AllowedS3Conns = [], AllowedHosts = [],
      AllowedNetworks = [], AllowedVolumes = [], AssignedStacks = [], AssignedContainerGroups = [],
      AssignedGiteaConns = [], AssignedS3Conns = [], AssignedHosts = [], AssignedNetworks = [],
      AssignedVolumes = []\<rparr>"

text \<open>Adding a key to a set, kept as the list of its keys (the order of a Go map is unspecified).\<close>

definition add_key :: "'a \<Rightarrow> 'a list \<Rightarrow> 'a list" where
  "add_key x xs = (if x \<in> set xs then xs else xs @ [x])"

text \<open>
  One row of the loop of \<^verbatim>\<open>GetUserScope\<close>. \<open>parse\<close> is \<^verbatim>\<open>uuid.Parse\<close> of the
  \<^verbatim>\<open>google/uuid\<close> package.
\<close>

definition scope_row :: "(string \<Rightarrow> uuid option) \<Rightarrow> resource_permission \<Rightarrow> resource_scope \<Rightarrow> resource_scope" where
  "scope_row parse p sc =
     (let rID = rp_ResourceID p; isUserTeam = rp_TeamID p \<in> set (UserTeamIDs sc) in
      if rp_ResourceType p = ''stack'' then
        (case parse rID of
           None \<Rightarrow> sc
         | Some uid \<Rightarrow>
             sc\<lparr>AssignedStacks := add_key uid (AssignedStacks sc),
                AllowedStacks := (if isUserTeam then add_key uid (AllowedStacks sc) else AllowedStacks sc)\<rparr>)
      else if rp_ResourceType p = ''container_group'' then
        sc\<lparr>AssignedContainerGroups := add_key rID (AssignedContainerGroups sc),
           AllowedContainerGroups :=
             (if isUserTeam then add_key rID (AllowedContainerGroups sc) else AllowedContainerGroups sc)\<rparr>
      else if rp_ResourceType p = ''gitea_connection'' then
        (case parse rID of
           None \<Rightarrow> sc
         | Some uid \<Rightarrow>
             sc\<lparr>AssignedGiteaConns := add_key uid (AssignedGiteaConns sc),
                AllowedGiteaConns :=
                  (if isUserTeam then add_key uid (AllowedGiteaConns sc) else AllowedGiteaConns sc)\<rparr>)
      else if rp_ResourceType p = ''s3_connection'' then
        (case parse rID of
           None \<Rightarrow> sc
         | Some uid \<Rightarrow>
             sc\<lparr>AssignedS3Conns := add_key uid (AssignedS3Conns sc),
                AllowedS3Conns := (if isUserTeam then add_key uid (AllowedS3Conns sc) else AllowedS3Conns sc)\<rparr>)
      else sc)"

text \<open>\<open>db 0\<close> is the query of the memberships, \<open>db 1\<close> the one of the permissions.\<close>

definition repo_GetUserScope ::
    "db_outcome \<Rightarrow> (string \<Rightarrow> uuid option) \<Rightarrow> uuid \<Rightarrow> team_db \<Rightarrow> app_error + resource_scope" where
  "repo_GetUserScope db parse userID d =
     (if \<not> db 0 then Inl (DatabaseError ''failed to get user teams'')
      else if \<not> db 1 then Inl (DatabaseError ''failed to get resource permissions'')
      else let ids = map tm_TeamID (filter (\<lambda>m. tm_UserID m = userID) (team_members d))
           in Inr (fold (scope_row parse) (resource_permissions d) (empty_scope\<lparr>UserTeamIDs := ids\<rparr>)))"

text \<open>
  \<^verbatim>\<open>Service.GetUserScope\<close>; the error result is always nil, so only the scope is returned.
  \<open>db 0\<close> is the query for teams, \<open>db 1\<close> and \<open>db 2\<close> those of the repository.
\<close>

definition service_GetUserScope ::
    "db_outcome \<Rightarrow> (string \<Rightarrow> uuid option) \<Rightarrow> string \<Rightarrow> string \<Rightarrow> team_db \<Rightarrow> resource_scope" where
  "service_GetUserScope db parse userID userRole d =
     (if userRole = ''admin'' then empty_scope\<lparr>ScopeIsAdmin := True\<rparr>
      else case team_Exists (db 0) d of
             Inl _ \<Rightarrow> empty_scope\<lparr>NoTeamsExist := True\<rparr>
           | Inr exists \<Rightarrow>
               if \<not> exists then empty_scope\<lparr>NoTeamsExist := True\<rparr>
               else case parse userID of
                      None \<Rightarrow> empty_scope
                    | Some uid \<Rightarrow>
                        (case repo_GetUserScope (\<lambda>n. db (n + 1)) parse uid d of
                           Inl _ \<Rightarrow> empty_scope\<lparr>NoTeamsExist := True\<rparr>
                         | Inr computed \<Rightarrow> computed))"

subsection \<open>Checks; a nil scope is \<open>None\<close>\<close>

definition ShouldFilter :: "resource_scope option \<Rightarrow> bool" where
  "ShouldFilter s = (case s of None \<Rightarrow> False | Some sc \<Rightarrow> \<not> ScopeIsAdmin sc \<and> \<not> NoTeamsExist sc)"

fun in_slice :: "'a \<Rightarrow> 'a list \<Rightarrow> bool" where
  "in_slice x [] = False"
| "in_slice x (v # vs) = (if v = x then True else in_slice x vs)"

definition scope_has ::
    "(resource_scope \<Rightarrow> 'a list) \<Rightarrow> (resource_scope \<Rightarrow> 'a list) \<Rightarrow> resource_scope option \<Rightarrow> 'a \<Rightarrow> bool" where
  "scope_has assigned allowed s x =
     (if \<not> ShouldFilter s then True
      else if \<not> in_slice x (assigned (the s)) then True
      else in_slice x (allowed (the s)))"

definition HasAccessToStack :: "resource_scope option \<Rightarrow> uuid \<Rightarrow> bool" where
  "HasAccessToStack = scope_has AssignedStacks AllowedStacks"

definition HasAccessToContainerGroup :: "resource_scope option \<Rightarrow> string \<Rightarrow> bool" where
  "HasAccessToContainerGroup s grp =
     (if \<not> ShouldFilter s then True
      else if grp = [] then True
      else if \<not> in_slice grp (AssignedContainerGroups (the s)) then True
      else in_slice grp (AllowedContainerGroups (the s)))"

definition HasAccessToGiteaConn :: "resource_scope option \<Rightarrow> uuid \<Rightarrow> bool" where
  "HasAccessToGiteaConn = scope_has AssignedGiteaConns AllowedGiteaConns"

definition HasAccessToS3Conn :: "resource_scope option \<Rightarrow> uuid \<Rightarrow> bool" where
  "HasAccessToS3Conn = scope_has AssignedS3Conns AllowedS3Conns"

definition HasAccessToHost :: "resource_scope option \<Rightarrow> uuid \<Rightarrow> bool" where
  "HasAccessToHost = scope_has AssignedHosts AllowedHosts"

definition HasAccessToNetwork :: "resource_scope option \<Rightarrow> string \<Rightarrow> bool" where
  "HasAccessToNetwork = scope_has AssignedNetworks AllowedNetworks"

definition HasAccessToVolume :: "resource_scope option \<Rightarrow> string \<Rightarrow> bool" where
  "HasAccessToVolume = scope_has AssignedVolumes AllowedVolumes"

subsection \<open>Middleware\<close>

text \<open>
  \<^verbatim>\<open>ResourceScopeMiddleware\<close>: the scope of the context the next handler sees, \<open>None\<close> when
  none was put there. The provider is \<open>None\<close> when none is set; its error is \<open>Inl\<close>.
\<close>

definition scope_in_context ::
    "(string \<Rightarrow> string \<Rightarrow> app_error + resource_scope) option \<Rightarrow> (string \<times> string) option \<Rightarrow>
     resource_scope option" where
  "scope_in_context provider user =
     (case user of
        None \<Rightarrow> None
      | Some (userID, userRole) \<Rightarrow>
          (case provider of
             None \<Rightarrow> Some (empty_scope\<lparr>NoTeamsExist := True\<rparr>)
           | Some GetUserScope \<Rightarrow>
               (case GetUserScope userID userRole of
                  Inl _ \<Rightarrow> Some empty_scope
                | Inr scope \<Rightarrow> Some scope)))"

definition GetScopeFromContext :: "resource_scope option \<Rightarrow> resource_scope" where
  "GetScopeFromContext ctx =
     (case ctx of None \<Rightarrow> empty_scope\<lparr>NoTeamsExist := True\<rparr> | Some scope \<Rightarrow> scope)"

section \<open>Scope laws\<close>

lemma in_slice_set [simp]: "in_slice x xs \<longleftrightarrow> x \<in> set xs"
  by (induction xs) auto

lemma set_add_key [simp]: "set (add_key x xs) = insert x (set xs)"
  by (auto simp: add_key_def)

lemma scope_has_iff:
  "scope_has as al (Some sc) x \<longleftrightarrow>
     ScopeIsAdmin sc \<or> NoTeamsExist sc \<or> x \<notin> set (as sc) \<or> x \<in> set (al sc)"
  by (auto simp: scope_has_def ShouldFilter_def)

text \<open>
  What the loop over the permissions promises of one kind of resource: a row of that kind,
  and no other, adds its key to the assigned ones, and to the allowed ones when the row's
  team is one of the user's.
\<close>

locale scoped_kind =
  fixes kind :: string
    and key :: "(string \<Rightarrow> uuid option) \<Rightarrow> string \<Rightarrow> 'k option"
    and assigned allowed :: "resource_scope \<Rightarrow> 'k list"
  assumes row_assigned:
      "set (assigned (scope_row parse p sc)) =
         {k. rp_ResourceType p = kind \<and> key parse (rp_ResourceID p) = Some k} \<union> set (assigned sc)"
    and row_allowed:
      "set (allowed (scope_row parse p sc)) =
         {k. rp_ResourceType p = kind \<and> key parse (rp_ResourceID p) = Some k \<and>
             rp_TeamID p \<in> set (UserTeamIDs sc)} \<union> set (allowed sc)"
    and start: "assigned (empty_scope\<lparr>UserTeamIDs := ids\<rparr>) = []"
      "allowed (empty_scope\<lparr>UserTeamIDs := ids\<rparr>) = []"

lemma scope_row_keeps [simp]:
  "UserTeamIDs (scope_row parse p sc) = UserTeamIDs sc"
  "ScopeIsAdmin (scope_row parse p sc) = ScopeIsAdmin sc"
  "NoTeamsExist (scope_row parse p sc) = NoTeamsExist sc"
  "AssignedHosts (scope_row parse p sc) = AssignedHosts sc"
  "AssignedNetworks (scope_row parse p sc) = AssignedNetworks sc"
  "AssignedVolumes (scope_row parse p sc) = AssignedVolumes sc"
  by (auto simp: scope_row_def Let_def split: option.split)

lemma fold_scope_row_keeps [simp]:
  "UserTeamIDs (fold (scope_row parse) ps sc) = UserTeamIDs sc"
  "ScopeIsAdmin (fold (scope_row parse) ps sc) = ScopeIsAdmin sc"
  "NoTeamsExist (fold (scope_row parse) ps sc) = NoTeamsExist sc"
  "AssignedHosts (fold (scope_row parse) ps sc) = AssignedHosts sc"
  "AssignedNetworks (fold (scope_row parse) ps sc) = AssignedNetworks sc"
  "AssignedVolumes (fold (scope_row parse) ps sc) = AssignedVolumes sc"
  by (induction ps arbitrary: sc) auto

text \<open>
  The specification: a resource that some team has been granted is open to the members of
  the teams that have been granted it, every other resource to everybody.
\<close>

definition grants ::
    "string \<Rightarrow> (string \<Rightarrow> 'k option) \<Rightarrow> 'k \<Rightarrow> team_db \<Rightarrow> uuid set" where
  "grants kind key k d =
     {rp_TeamID p | p. p \<in> set (resource_permissions d) \<and> rp_ResourceType p = kind \<and>
                       key (rp_ResourceID p) = Some k}"

definition memberships :: "uuid \<Rightarrow> team_db \<Rightarrow> uuid set" where
  "memberships uid d = {tm_TeamID m | m. m \<in> set (team_members d) \<and> tm_UserID m = uid}"

definition spec_access ::
    "string \<Rightarrow> (string \<Rightarrow> 'k option) \<Rightarrow> uuid \<Rightarrow> team_db \<Rightarrow> 'k \<Rightarrow> bool" where
  "spec_access kind key uid d k \<longleftrightarrow>
     grants kind key k d = {} \<or> grants kind key k d \<inter> memberships uid d \<noteq> {}"

context scoped_kind
begin

lemma fold_assigned:
  "set (assigned (fold (scope_row parse) ps sc)) =
     {k. \<exists>p \<in> set ps. rp_ResourceType p = kind \<and> key parse (rp_ResourceID p) = Some k} \<union> set (assigned sc)"
  by (induction ps arbitrary: sc) (auto simp: row_assigned)

lemma fold_allowed:
  "set (allowed (fold (scope_row parse) ps sc)) =
     {k. \<exists>p \<in> set ps. rp_ResourceType p = kind \<and> key parse (rp_ResourceID p) = Some k \<and>
                      rp_TeamID p \<in> set (UserTeamIDs sc)} \<union> set (allowed sc)"
  by (induction ps arbitrary: sc) (auto simp: row_allowed)

lemma repo_scope_decision:
  assumes "repo_GetUserScope db parse uid d = Inr sc"
  shows "scope_has assigned allowed (Some sc) k \<longleftrightarrow> spec_access kind (key parse) uid d k"
proof -
  define ids where "ids = map tm_TeamID (filter (\<lambda>m. tm_UserID m = uid) (team_members d))"
  have sc: "sc = fold (scope_row parse) (resource_permissions d) (empty_scope\<lparr>UserTeamIDs := ids\<rparr>)"
    using assms by (simp add: repo_GetUserScope_def Let_def ids_def split: if_splits)
  have "\<not> ScopeIsAdmin sc" "\<not> NoTeamsExist sc"
    by (simp_all add: sc empty_scope_def)
  moreover have "memberships uid d = set ids"
    by (auto simp: ids_def memberships_def)
  moreover have "k \<in> set (assigned sc) \<longleftrightarrow> grants kind (key parse) k d \<noteq> {}"
    by (auto simp: sc fold_assigned start grants_def)
  moreover have "k \<in> set (allowed sc) \<longleftrightarrow> grants kind (key parse) k d \<inter> set ids \<noteq> {}"
    by (auto simp: sc fold_allowed start grants_def)
  ultimately show ?thesis by (auto simp: scope_has_iff spec_access_def)
qed

lemma service_scope_decision:
  assumes "parse userID = Some uid" and "\<And>n. db n"
  shows "scope_has assigned allowed (Some (service_GetUserScope db parse userID role d)) k \<longleftrightarrow>
    role = ''admin'' \<or> teams d = [] \<or> spec_access kind (key parse) uid d k"
proof -
  obtain sc where sc: "repo_GetUserScope (\<lambda>n. db (n + 1)) parse uid d = Inr sc"
    using assms(2) by (auto simp: repo_GetUserScope_def Let_def)
  then have "service_GetUserScope db parse userID role d =
      (if role = ''admin'' then empty_scope\<lparr>ScopeIsAdmin := True\<rparr>
       else if teams d = [] then empty_scope\<lparr>NoTeamsExist := True\<rparr> else sc)"
    using assms by (simp add: service_GetUserScope_def team_Exists_def)
  then show ?thesis
    using repo_scope_decision [OF sc] by (simp add: scope_has_iff)
qed

end

interpretation stack: scoped_kind "''stack''" "\<lambda>parse. parse" AssignedStacks AllowedStacks
  by unfold_locales (auto simp: scope_row_def Let_def empty_scope_def split: option.splits if_splits)

interpretation grp: scoped_kind "''container_group''" "\<lambda>_. Some" AssignedContainerGroups AllowedContainerGroups
  by unfold_locales (auto simp: scope_row_def Let_def empty_scope_def split: option.splits if_splits)

interpretation gitea: scoped_kind "''gitea_connection''" "\<lambda>parse. parse" AssignedGiteaConns AllowedGiteaConns
  by unfold_locales (auto simp: scope_row_def Let_def empty_scope_def split: option.splits if_splits)

interpretation s3: scoped_kind "''s3_connection''" "\<lambda>parse. parse" AssignedS3Conns AllowedS3Conns
  by unfold_locales (auto simp: scope_row_def Let_def empty_scope_def split: option.splits if_splits)

lemma HasAccessToContainerGroup_scope_has:
  "HasAccessToContainerGroup s g \<longleftrightarrow> g = [] \<or> scope_has AssignedContainerGroups AllowedContainerGroups s g"
  by (auto simp: HasAccessToContainerGroup_def scope_has_def)

lemmas access_defs =
  HasAccessToStack_def HasAccessToGiteaConn_def HasAccessToS3Conn_def HasAccessToHost_def
  HasAccessToNetwork_def HasAccessToVolume_def HasAccessToContainerGroup_scope_has

section \<open>Table invariant\<close>

text \<open>
  Keys are unique (ids and names of teams, team and user of a membership, id and
  team-type-resource of a permission), members and permissions belong to teams that exist, and
  what they hold is valid.
\<close>

definition perm_key :: "resource_permission \<Rightarrow> uuid \<times> string \<times> string" where
  "perm_key p = (rp_TeamID p, rp_ResourceType p, rp_ResourceID p)"

definition team_db_ok :: "team_db \<Rightarrow> bool" where
  "team_db_ok d \<longleftrightarrow>
     distinct (map team_ID (teams d)) \<and> distinct (map team_Name (teams d)) \<and>
     distinct (map (\<lambda>m. (tm_TeamID m, tm_UserID m)) (team_members d)) \<and>
     distinct (map rp_ID (resource_permissions d)) \<and>
     distinct (map perm_key (resource_permissions d)) \<and>
     (\<forall>m \<in> set (team_members d). tm_TeamID m \<in> team_ID ` set (teams d) \<and> TeamRole_IsValid (tm_RoleInTeam m)) \<and>
     (\<forall>p \<in> set (resource_permissions d). rp_TeamID p \<in> team_ID ` set (teams d) \<and>
        ResourceType_IsValid (rp_ResourceType p) \<and> AccessLevel_IsValid (rp_AccessLevel p) \<and>
        rp_ResourceID p \<noteq> [])"

lemmas row_key_simps = image_iff distinct_map inj_on_def

lemma map_upd_cong: "(\<And>x. f (g x) = f x) \<Longrightarrow> map f (map g xs) = map f xs"
  by simp

lemma team_Create_ok:
  assumes "team_db_ok d"
  shows "team_db_ok (snd (team_Create ok fresh now t d))"
  using assms by (auto simp: team_Create_def team_db_ok_def Let_def)

lemma team_Update_ok:
  assumes "team_db_ok d"
  shows "team_db_ok (snd (team_Update ok now t d))"
proof (cases "\<not> ok \<or> (\<exists>u \<in> set (teams d). team_Name u = team_Name t \<and> team_ID u \<noteq> team_ID t) \<or>
              team_ID t \<notin> team_ID ` set (teams d)")
  case True
  with assms show ?thesis by (auto simp: team_Update_def)
next
  case False
  let ?g = "\<lambda>u. if team_ID u = team_ID t
     then u\<lparr>team_Name := team_Name t, team_Description := team_Description t, team_UpdatedAt := now\<rparr> else u"
  define ts where "ts = map ?g (teams d)"
  have ids: "map team_ID ts = map team_ID (teams d)"
    unfolding ts_def by (rule map_upd_cong) simp
  then have idset: "team_ID ` set ts = team_ID ` set (teams d)"
    by (simp only: set_map [symmetric])
  have "distinct (map team_Name ts)"
    using False assms by (auto simp: team_db_ok_def ts_def distinct_map inj_on_def)
  moreover have "snd (team_Update ok now t d) = d\<lparr>teams := ts\<rparr>"
    using False by (auto simp: team_Update_def ts_def)
  ultimately show ?thesis
    using assms ids idset by (simp add: team_db_ok_def)
qed

lemma team_Delete_ok: "team_db_ok d \<Longrightarrow> team_db_ok (snd (team_Delete ok i d))"
  by (auto simp: team_Delete_def team_db_ok_def distinct_map inj_on_def)

lemma team_AddMember_ok:
  assumes "team_db_ok d" and "TeamRole_IsValid (tm_RoleInTeam m)"
  shows "team_db_ok (snd (team_AddMember ok now m d))"
proof -
  let ?g = "\<lambda>x. if tm_TeamID x = tm_TeamID m \<and> tm_UserID x = tm_UserID m
                then x\<lparr>tm_RoleInTeam := tm_RoleInTeam m\<rparr> else x"
  have "map (\<lambda>x. (tm_TeamID x, tm_UserID x)) (map ?g (team_members d)) =
        map (\<lambda>x. (tm_TeamID x, tm_UserID x)) (team_members d)"
    by (rule map_upd_cong) simp
  with assms show ?thesis
    by (auto simp: team_AddMember_def team_db_ok_def simp del: map_map)
qed

lemma team_RemoveMember_ok: "team_db_ok d \<Longrightarrow> team_db_ok (snd (team_RemoveMember ok i u d))"
  by (auto simp: team_RemoveMember_def team_db_ok_def Let_def distinct_map inj_on_def)

lemma perm_delete_where_ok: "team_db_ok d \<Longrightarrow> team_db_ok (snd (perm_delete_where P ok d))"
  by (auto simp: perm_delete_where_def team_db_ok_def Let_def distinct_map inj_on_def)

lemma perm_same_key_iff: "perm_same_key p q \<longleftrightarrow> perm_key p = perm_key q"
  by (simp add: perm_same_key_def perm_key_def)

lemma perm_Grant_ok:
  assumes "team_db_ok d" and "ResourceType_IsValid (rp_ResourceType p)"
    and "AccessLevel_IsValid (rp_AccessLevel p)" and "rp_ResourceID p \<noteq> []"
  shows "team_db_ok (snd (perm_Grant ok fresh now p d))"
proof -
  define p' where "p' = p\<lparr>rp_ID := (if rp_ID p = uuid_nil then fresh else rp_ID p), rp_GrantedAt := now\<rparr>"
  let ?g = "\<lambda>q. if perm_same_key q p'
     then q\<lparr>rp_AccessLevel := rp_AccessLevel p', rp_GrantedAt := rp_GrantedAt p', rp_GrantedBy := rp_GrantedBy p'\<rparr>
     else q"
  have "map rp_ID (map ?g (resource_permissions d)) = map rp_ID (resource_permissions d)"
    "map perm_key (map ?g (resource_permissions d)) = map perm_key (resource_permissions d)"
    by (rule map_upd_cong, simp add: perm_key_def)+
  moreover have "rp_ResourceType p' = rp_ResourceType p" "rp_AccessLevel p' = rp_AccessLevel p"
      "rp_ResourceID p' = rp_ResourceID p"
    by (simp_all add: p'_def)
  ultimately show ?thesis
    using assms unfolding perm_Grant_def p'_def [symmetric] Let_def
    by (auto simp: team_db_ok_def perm_same_key_iff simp del: map_map)
qed

section \<open>Operations in sequence\<close>

datatype team_op =
    OpCreateTeam uuid string string uuid
  | OpUpdateTeam uuid string string
  | OpDeleteTeam uuid
  | OpAddMember uuid uuid string uuid
  | OpRemoveMember uuid uuid
  | OpGrantAccess uuid uuid string string string uuid
  | OpRevokeAccess uuid string string
  | OpRevokeAccessByID uuid

text \<open>The tables after an operation, whether it succeeded or not.\<close>

fun run_team_op :: "int \<Rightarrow> db_outcome \<times> clock \<times> team_op \<Rightarrow> team_db \<Rightarrow> team_db" where
  "run_team_op mx (db, clk, OpCreateTeam fresh name desc by) d = snd (CreateTeam mx db clk fresh name desc by d)"
| "run_team_op mx (db, clk, OpUpdateTeam i name desc) d = snd (UpdateTeam db clk i name desc d)"
| "run_team_op mx (db, clk, OpDeleteTeam i) d = snd (DeleteTeam db i d)"
| "run_team_op mx (db, clk, OpAddMember i u role by) d = snd (AddMember db clk i u role by d)"
| "run_team_op mx (db, clk, OpRemoveMember i u) d = snd (RemoveMember db i u d)"
| "run_team_op mx (db, clk, OpGrantAccess fresh i rt rid lv by) d = snd (GrantAccess db clk fresh i rt rid lv by d)"
| "run_team_op mx (db, clk, OpRevokeAccess i rt rid) d = snd (RevokeAccess db i rt rid d)"
| "run_team_op mx (db, clk, OpRevokeAccessByID i) d = snd (RevokeAccessByID db i d)"

lemmas team_service_defs =
  CreateTeam_def UpdateTeam_def DeleteTeam_def AddMember_def RemoveMember_def GrantAccess_def
  RevokeAccess_def RevokeAccessByID_def perm_Revoke_def perm_RevokeByID_def

lemma team_AddMember_teams: "teams (snd (team_AddMember ok now m d)) = teams d"
  by (simp add: team_AddMember_def)

lemma team_Create_pair:
  "team_Create ok fresh now t d = (r, d') \<Longrightarrow> team_db_ok d \<Longrightarrow> team_db_ok d'"
  using team_Create_ok [of d ok fresh now t] by simp

lemma snd_result_case:
  "snd (case x of (Some e, d') \<Rightarrow> (Inl e, d') | (None, d') \<Rightarrow> (Inr t, d')) = snd x"
  by (cases x; cases "fst x") auto

lemma UpdateTeam_state:
  "snd (UpdateTeam db clk i n ds d) = d \<or> (\<exists>t. snd (UpdateTeam db clk i n ds d) = snd (team_Update (db 2) (clk 1) t d))"
proof (cases "team_GetByID (db 0) i d")
  case (Inl e)
  then show ?thesis by (simp add: UpdateTeam_def)
next
  case (Inr t)
  obtain c t' where "UpdateTeam db clk i n ds d =
      (if c then (Inl (BadRequest ''team name already exists''), d)
       else case team_Update (db 2) (clk 1) t' d of (Some e, d') \<Rightarrow> (Inl e, d') | (None, d') \<Rightarrow> (Inr t', d'))"
    unfolding UpdateTeam_def Inr Let_def sum.case by blast
  then show ?thesis by (cases c) (simp_all only: if_True if_False snd_conv snd_result_case, blast+)
qed

lemma CreateTeam_ok: "team_db_ok d \<Longrightarrow> team_db_ok (snd (CreateTeam mx db clk fresh n ds by d))"
  by (auto simp: CreateTeam_def Let_def TeamRole_IsValid_def
      intro!: team_AddMember_ok elim: team_Create_pair split: sum.split prod.split)

lemma run_team_op_ok:
  assumes "team_db_ok d"
  shows "team_db_ok (run_team_op mx op d)"
proof (cases "(mx, op, d)" rule: run_team_op.cases)
  case (1 mx db clk fresh name desc "by" d)
  then show ?thesis using assms by (auto intro: CreateTeam_ok)
next
  case (2 mx db clk i name desc d)
  then show ?thesis
    using assms UpdateTeam_state [of db clk i name desc d] team_Update_ok by fastforce
qed (use assms in \<open>auto simp: team_service_defs split: sum.split bool.split
       intro!: team_Delete_ok team_AddMember_ok team_RemoveMember_ok perm_Grant_ok perm_delete_where_ok\<close>)

interpretation team_tables: op_invariant "run_team_op mx" team_db_ok
  by unfold_locales (rule run_team_op_ok)

lemma length_teams_step:
  assumes "0 < mx" and "int (length (teams d)) \<le> mx"
  shows "int (length (teams (run_team_op mx op d))) \<le> mx"
proof (cases "(mx, op, d)" rule: run_team_op.cases)
  case (1 mx db clk fresh name desc "by" d)
  then show ?thesis using assms
    by (auto simp: CreateTeam_def team_Count_def team_Create_def team_AddMember_teams Let_def split: sum.split prod.split)
next
  case (3 mx db clk i d)
  then show ?thesis using assms by (auto simp: DeleteTeam_def team_Delete_def split: sum.split)
qed (use assms in \<open>auto simp: team_service_defs team_Update_def team_AddMember_def team_RemoveMember_def
       perm_Grant_def perm_delete_where_def Let_def split: sum.split bool.split option.split prod.split\<close>)

interpretation team_limit: op_invariant "run_team_op mx" "\<lambda>d. 0 < mx \<and> int (length (teams d)) \<le> mx"
  by unfold_locales (simp add: length_teams_step)

section \<open>Properties\<close>

text \<open>
  C3. Scope decision. With a database that answers, a user whose id parses sees a stack, a
  container group, a Gitea connection or an S3 connection exactly when they are admin, or no
  team exists, or no team was granted the resource, or one of their teams was granted it (the
  group without a name is seen by all).
\<close>

theorem team_scope_correct:
  assumes "parse userID = Some uid" and "\<And>n. db n"
  shows "let sc = Some (service_GetUserScope db parse userID role d); unscoped = (role = ''admin'' \<or> teams d = []) in
         (HasAccessToStack sc k \<longleftrightarrow> unscoped \<or> spec_access ''stack'' parse uid d k) \<and>
         (HasAccessToContainerGroup sc g \<longleftrightarrow> g = [] \<or> unscoped \<or> spec_access ''container_group'' Some uid d g) \<and>
         (HasAccessToGiteaConn sc k \<longleftrightarrow> unscoped \<or> spec_access ''gitea_connection'' parse uid d k) \<and>
         (HasAccessToS3Conn sc k \<longleftrightarrow> unscoped \<or> spec_access ''s3_connection'' parse uid d k)"
  using stack.service_scope_decision [where db = db and parse = parse and userID = userID, OF assms(1,2), where k = k and role = role and d = d]
    grp.service_scope_decision [where db = db and parse = parse and userID = userID, OF assms(1,2), where k = g and role = role and d = d]
    gitea.service_scope_decision [where db = db and parse = parse and userID = userID, OF assms(1,2), where k = k and role = role and d = d]
    s3.service_scope_decision [where db = db and parse = parse and userID = userID, OF assms(1,2), where k = k and role = role and d = d]
  by (simp add: access_defs Let_def)

definition demo_parse :: "string \<Rightarrow> uuid option" where
  "demo_parse s = (if s = ''alice'' then Some 1 else if s = ''bob'' then Some 2 else if s = ''st'' then Some 7 else None)"

definition demo_db :: team_db where
  "demo_db =
     \<lparr>teams = [\<lparr>team_ID = 10, team_Name = ''dev'', team_Description = None, team_CreatedBy = None,
                team_CreatedAt = 0, team_UpdatedAt = 0\<rparr>],
      team_members = [\<lparr>tm_TeamID = 10, tm_UserID = 1, tm_RoleInTeam = ''member'', tm_AddedAt = 0, tm_AddedBy = None\<rparr>],
      resource_permissions =
        [\<lparr>rp_ID = 20, rp_TeamID = 10, rp_ResourceType = ''stack'', rp_ResourceID = ''st'',
          rp_AccessLevel = ''view'', rp_GrantedAt = 0, rp_GrantedBy = None\<rparr>]\<rparr>"

theorem team_scope_correct_witness:
  "HasAccessToStack (Some (service_GetUserScope (\<lambda>_. True) demo_parse ''alice'' ''viewer'' demo_db)) 7 \<and>
   \<not> HasAccessToStack (Some (service_GetUserScope (\<lambda>_. True) demo_parse ''bob'' ''viewer'' demo_db)) 7"
proof -
  have "spec_access ''stack'' demo_parse 1 demo_db 7" and "\<not> spec_access ''stack'' demo_parse 2 demo_db 7"
    by (auto simp: spec_access_def grants_def memberships_def demo_db_def demo_parse_def)
  moreover have pa: "demo_parse ''alice'' = Some 1" and pb: "demo_parse ''bob'' = Some 2"
    and "teams demo_db \<noteq> []"
    by (simp_all add: demo_parse_def demo_db_def)
  ultimately show ?thesis
    using team_scope_correct [of demo_parse "''alice''" _ "\<lambda>_. True", OF pa TrueI, where role = "''viewer''" and d = demo_db and k = 7]
      team_scope_correct [of demo_parse "''bob''" _ "\<lambda>_. True", OF pb TrueI, where role = "''viewer''" and d = demo_db and k = 7]
    by (simp add: Let_def)
qed

text \<open>
  C34. Table invariant. From empty tables, any sequence of service operations, with any inputs
  and any database faults between and inside them, leaves tables with unique keys, members and
  permissions of existing teams only, and valid roles, types and levels.
\<close>

theorem team_tables_invariant:
  "team_db_ok (fold (run_team_op maxTeams) ops \<lparr>teams = [], team_members = [], resource_permissions = []\<rparr>)"
  by (rule team_tables.run_inv) (simp add: team_db_ok_def)

text \<open>
  Team limit. With a positive \<^verbatim>\<open>MaxTeams\<close>, no sequence of operations (each
  running to its end before the next starts) takes the number of teams past it.
\<close>

theorem max_teams_bound:
  assumes "0 < maxTeams" and "int (length (teams d)) \<le> maxTeams"
  shows "int (length (teams (fold (run_team_op maxTeams) ops d))) \<le> maxTeams"
  using team_limit.run_inv [of maxTeams d ops] assms by simp

theorem max_teams_bound_witness:
  "int (length (teams (fold (run_team_op 1)
     [(\<lambda>_. True, \<lambda>_. 0, OpCreateTeam 11 ''ops'' [] 1), (\<lambda>_. True, \<lambda>_. 0, OpCreateTeam 12 ''qa'' [] 1)] demo_db))) \<le> 1"
  by (rule max_teams_bound) (simp_all add: demo_db_def)

lemma grants_append:
  "grants kind key k (d\<lparr>resource_permissions := resource_permissions d @ [p]\<rparr>) =
     (if rp_ResourceType p = kind \<and> key (rp_ResourceID p) = Some k then insert (rp_TeamID p) else id)
       (grants kind key k d)"
  by (auto simp: grants_def)

lemma grants_perm_key:
  "grants kind key k d = {t. \<exists>r. (t, kind, r) \<in> perm_key ` set (resource_permissions d) \<and> key r = Some k}"
  by (force simp: grants_def perm_key_def)

lemma grants_map:
  assumes "\<And>q. perm_key (f q) = perm_key q"
  shows "grants kind key k (d\<lparr>resource_permissions := map f (resource_permissions d)\<rparr>) = grants kind key k d"
  by (simp add: grants_perm_key image_image assms)

lemma perm_Grant_grants:
  assumes "perm_Grant ok fresh now p d = (None, d')"
  shows "grants kind key k d' =
     (if rp_ResourceType p = kind \<and> key (rp_ResourceID p) = Some k then insert (rp_TeamID p) else id) (grants kind key k d) \<and>
     teams d' = teams d \<and> team_members d' = team_members d"
proof -
  define p' where "p' = p\<lparr>rp_ID := (if rp_ID p = uuid_nil then fresh else rp_ID p), rp_GrantedAt := now\<rparr>"
  have p': "rp_ResourceType p' = rp_ResourceType p" "rp_ResourceID p' = rp_ResourceID p" "rp_TeamID p' = rp_TeamID p"
    by (simp_all add: p'_def)
  let ?f = "\<lambda>q. if perm_same_key q p' then q\<lparr>rp_AccessLevel := rp_AccessLevel p', rp_GrantedAt := rp_GrantedAt p',
      rp_GrantedBy := rp_GrantedBy p'\<rparr> else q"
  show ?thesis
  proof (cases "\<exists>q \<in> set (resource_permissions d). perm_same_key q p'")
    case True
    with assms have d': "d' = d\<lparr>resource_permissions := map ?f (resource_permissions d)\<rparr>"
      by (simp add: perm_Grant_def Let_def p'_def [symmetric] split: if_splits)
    have same: "grants kind key k d' = grants kind key k d"
      unfolding d' by (rule grants_map) (simp add: perm_key_def)
    from True have "perm_key p' \<in> perm_key ` set (resource_permissions d)"
      by (metis image_eqI perm_same_key_iff)
    then have "rp_TeamID p \<in> grants kind key k d" if "rp_ResourceType p = kind" "key (rp_ResourceID p) = Some k"
      using that p' by (auto simp: grants_perm_key perm_key_def)
    with same show ?thesis by (auto simp: d' insert_absorb)
  next
    case False
    with assms have "d' = d\<lparr>resource_permissions := resource_permissions d @ [p']\<rparr>"
      by (simp add: perm_Grant_def Let_def p'_def [symmetric] split: if_splits)
    then show ?thesis by (simp add: grants_append p')
  qed
qed

text \<open>
  Granting. A successful \<^verbatim>\<open>GrantAccess\<close> of a stack adds the team to those that may
  see it: afterwards a member of the team sees the stack, somebody in none of the teams
  granted it does not (unless admin), and what anybody sees of other stacks is unchanged.
\<close>

theorem grant_access_effect:
  assumes "GrantAccess db clk fresh t ''stack'' rid level grantedBy d = (None, d')"
    and "parse rid = Some k" and "parse userID = Some uid" and "role \<noteq> ''admin''"
  shows "let sees = \<lambda>d. HasAccessToStack (Some (service_GetUserScope (\<lambda>_. True) parse userID role d)) in
         (sees d' k \<longleftrightarrow> t \<in> memberships uid d \<or> grants ''stack'' parse k d \<inter> memberships uid d \<noteq> {}) \<and>
         (\<forall>j. j \<noteq> k \<longrightarrow> (sees d' j \<longleftrightarrow> sees d j))"
proof -
  obtain g where g: "perm_Grant (db 1) fresh (clk 0)
      \<lparr>rp_ID = uuid_nil, rp_TeamID = t, rp_ResourceType = ''stack'', rp_ResourceID = rid, rp_AccessLevel = level,
       rp_GrantedAt = time_zero, rp_GrantedBy = Some grantedBy\<rparr> d = (None, d')" and t: "team_GetByID (db 0) t d = Inr g"
    using assms(1) by (auto simp: GrantAccess_def split: if_splits sum.splits)
  note eff = perm_Grant_grants [OF g, where kind = "''stack''" and key = parse]
  have "teams d \<noteq> []"
    using t by (auto simp: team_GetByID_def split: if_splits)
  moreover have "teams d' = teams d" "memberships uid d' = memberships uid d"
    using eff by (auto simp: memberships_def)
  moreover have "grants ''stack'' parse j d' = (if j = k then insert t else id) (grants ''stack'' parse j d)" for j
    using eff assms(2) by auto
  ultimately show ?thesis
    using stack.service_scope_decision [of parse userID uid "\<lambda>_. True" role] assms(3,4)
    by (auto simp: Let_def HasAccessToStack_def spec_access_def)
qed

theorem grant_access_effect_witness:
  "\<exists>d'. GrantAccess (\<lambda>_. True) (\<lambda>_. 5) 21 10 ''stack'' ''bob'' ''view'' 1 demo_db = (None, d') \<and>
        HasAccessToStack (Some (service_GetUserScope (\<lambda>_. True) demo_parse ''alice'' ''viewer'' d')) 2"
proof -
  let ?r = "GrantAccess (\<lambda>_. True) (\<lambda>_. 5) 21 10 ''stack'' ''bob'' ''view'' 1 demo_db"
  have "fst ?r = None" by code_simp
  then have r: "?r = (None, snd ?r)" by (metis prod.collapse)
  have "10 \<in> memberships 1 demo_db"
    by (auto simp: memberships_def demo_db_def)
  moreover have "demo_parse ''bob'' = Some 2" "demo_parse ''alice'' = Some 1"
    by (simp_all add: demo_parse_def)
  ultimately show ?thesis
    using grant_access_effect [OF r, of demo_parse 2 "''alice''" 1 "''viewer''"] r
    by (auto simp: Let_def)
qed

text \<open>
  Deleting. A successful \<^verbatim>\<open>DeleteTeam\<close> leaves no team, member or permission with the
  team's id and exactly the rows of the other teams.
\<close>

theorem delete_team_cascades:
  assumes "DeleteTeam db i d = (None, d')"
  shows "teams d' = filter (\<lambda>t. team_ID t \<noteq> i) (teams d) \<and>
         team_members d' = filter (\<lambda>m. tm_TeamID m \<noteq> i) (team_members d) \<and>
         resource_permissions d' = filter (\<lambda>p. rp_TeamID p \<noteq> i) (resource_permissions d) \<and>
         i \<in> team_ID ` set (teams d) \<and> (\<forall>kind key k. grants kind key k d' = grants kind key k d - {i})"
  using assms
  by (auto simp: DeleteTeam_def team_Delete_def grants_def split: sum.splits if_splits)

theorem delete_team_cascades_witness:
  "\<exists>d'. DeleteTeam (\<lambda>_. True) 10 demo_db = (None, d') \<and> resource_permissions d' = []"
proof -
  have r: "DeleteTeam (\<lambda>_. True) 10 demo_db = (None, snd (DeleteTeam (\<lambda>_. True) 10 demo_db))"
    by (simp add: DeleteTeam_def team_GetByID_def team_Delete_def demo_db_def)
  with delete_team_cascades [OF r] show ?thesis by (auto simp: demo_db_def)
qed

text \<open>
  Hosts, networks and volumes are not scoped: \<^verbatim>\<open>GrantAccess\<close> accepts permissions of
  these types, but the computed scope never lists one as assigned, so every user sees every
  host, network and volume whatever the tables hold.
\<close>

theorem host_grants_ignored:
  "HasAccessToHost (Some (service_GetUserScope db parse userID role d)) h \<and>
   HasAccessToNetwork (Some (service_GetUserScope db parse userID role d)) n \<and>
   HasAccessToVolume (Some (service_GetUserScope db parse userID role d)) v"
  by (auto simp: access_defs scope_has_iff service_GetUserScope_def repo_GetUserScope_def Let_def
      empty_scope_def split: sum.split option.split)

text \<open>
  Scope errors open access: a failing provider, a failing database query and a user id
  that does not parse all end in a scope under which every resource is accessible, also where
  the middleware says that it restricts access.
\<close>

theorem scope_errors_fail_open:
  "HasAccessToStack (scope_in_context (Some (\<lambda>_ _. Inl e)) user) k \<and>
   HasAccessToContainerGroup (scope_in_context (Some (\<lambda>_ _. Inl e)) user) g \<and>
   (HasAccessToStack (Some (service_GetUserScope db parse userID role d)) k \<or>
    (db 0 \<and> db 1 \<and> db 2 \<and> parse userID \<noteq> None))"
proof -
  have "HasAccessToStack (scope_in_context (Some (\<lambda>_ _. Inl e)) user) k"
    "HasAccessToContainerGroup (scope_in_context (Some (\<lambda>_ _. Inl e)) user) g"
    by (auto simp: access_defs scope_in_context_def scope_has_def ShouldFilter_def empty_scope_def split: option.split)
  moreover have "HasAccessToStack (Some (service_GetUserScope db parse userID role d)) k"
    if "\<not> (db 0 \<and> db 1 \<and> db 2 \<and> parse userID \<noteq> None)"
  proof (cases "parse userID")
    case None
    then show ?thesis
      by (auto simp: HasAccessToStack_def scope_has_iff service_GetUserScope_def team_Exists_def empty_scope_def
          split: sum.split)
  next
    case (Some uid)
    with that show ?thesis
      by (auto simp: HasAccessToStack_def scope_has_iff service_GetUserScope_def repo_GetUserScope_def
          team_Exists_def numeral_2_eq_2 split: sum.split)
  qed
  ultimately show ?thesis by blast
qed

end
