(* ===== verification/Alerts.thy ===== *)
theory Alerts
  imports Go_Prelude
begin

text \<open>
  Alerting: rules, events and silences (\<^verbatim>\<open>internal/models/alert.go\<close>), their tables
  (\<^verbatim>\<open>internal/repository/postgres/alert_repo.go\<close>, migration 022) and the alert service
  that evaluates the rules (\<^verbatim>\<open>internal/services/monitoring/alerts.go\<close>).

  A rule is evaluated on the copy that was loaded from its row; the evaluation's inputs (the
  metric's value, the clock, the database's answers, a fresh id) are the record
  \<open>eval_env\<close>. Rules are evaluated in some order; the properties hold for every order.
\<close>

section \<open>Models\<close>

record alert_rule =
  ar_ID :: uuid
  ar_HostID :: "uuid option"
  ar_ContainerID :: "string option"
  ar_Name :: string
  ar_Description :: string
  ar_Metric :: string
  ar_Operator :: string
  ar_Threshold :: float64
  ar_Severity :: string
  ar_Duration :: int
  ar_Cooldown :: int
  ar_EvalInterval :: int
  ar_State :: string
  ar_StateChangedAt :: "gotime option"
  ar_LastEvaluated :: "gotime option"
  ar_LastFiredAt :: "gotime option"
  ar_FiringValue :: "float64 option"
  ar_NotifyChannels :: "string list"
  ar_AutoActions :: "string option"
  ar_IsEnabled :: bool
  ar_Labels :: "(string \<times> string) list option"
  ar_CreatedBy :: "uuid option"
  ar_CreatedAt :: gotime
  ar_UpdatedAt :: gotime

definition MatchesValue :: "alert_rule \<Rightarrow> float64 \<Rightarrow> bool" where
  "MatchesValue r value =
     (if ar_Operator r = ''gt'' then float_lt (ar_Threshold r) value
      else if ar_Operator r = ''gte'' then float_le (ar_Threshold r) value
      else if ar_Operator r = ''lt'' then float_lt value (ar_Threshold r)
      else if ar_Operator r = ''lte'' then float_le value (ar_Threshold r)
      else if ar_Operator r = ''eq'' then float_eq value (ar_Threshold r)
      else if ar_Operator r = ''neq'' then \<not> float_eq value (ar_Threshold r)
      else False)"

text \<open>The message of an event, \<^verbatim>\<open>"%s: %s is %.2f (threshold: %s %.2f)"\<close>, by its arguments.\<close>

datatype alert_message = AlertMessage string string float64 string float64

record alert_event =
  ae_ID :: uuid
  ae_AlertID :: uuid
  ae_HostID :: uuid
  ae_ContainerID :: "string option"
  ae_State :: string
  ae_Value :: float64
  ae_Threshold :: float64
  ae_Message :: alert_message
  ae_Labels :: "(string \<times> string) list option"
  ae_FiredAt :: gotime
  ae_ResolvedAt :: "gotime option"
  ae_AcknowledgedAt :: "gotime option"
  ae_AcknowledgedBy :: "uuid option"
  ae_CreatedAt :: gotime

record alert_silence =
  si_ID :: uuid
  si_AlertID :: "uuid option"
  si_HostID :: "uuid option"
  si_Reason :: string
  si_StartsAt :: gotime
  si_EndsAt :: gotime
  si_CreatedBy :: "uuid option"
  si_CreatedAt :: gotime

definition silence_IsActive :: "gotime \<Rightarrow> alert_silence \<Rightarrow> bool" where
  "silence_IsActive now s \<longleftrightarrow> si_StartsAt s < now \<and> now < si_EndsAt s"

record rule_state =
  pendingSince :: "gotime option"
  lastFired :: gotime
  lastValue :: float64

text \<open>
  The service: the three tables, the in-memory state of the rules and, for what the notifier
  was asked to send, the rules and events in order.
\<close>

record alert_store =
  st_rules :: "alert_rule list"
  st_events :: "alert_event list"
  st_silences :: "alert_silence list"
  ruleStates :: "uuid \<rightharpoonup> rule_state"
  st_sent :: "(alert_rule \<times> alert_event) list"

record alert_config =
  DefaultEvalInterval :: duration
  MaxConcurrentEvaluations :: int
  EnableAutoResolve :: bool
  has_notifier :: bool

definition DefaultAlertConfig :: "alert_config" where
  "DefaultAlertConfig =
     \<lparr>DefaultEvalInterval = 30 * second, MaxConcurrentEvaluations = 10, EnableAutoResolve = True,
      has_notifier = True\<rparr>"

datatype alert_error = AlertDBError | AlertNoRows

section \<open>Repository\<close>

definition repo_CreateRule :: "gotime option \<Rightarrow> uuid \<Rightarrow> alert_rule \<Rightarrow> alert_store \<Rightarrow> (alert_error + alert_rule) \<times> alert_store" where
  "repo_CreateRule stmt fresh rule s =
     (let rule = (if ar_ID rule = uuid_nil then rule\<lparr>ar_ID := fresh\<rparr> else rule) in
      case stmt of
        None \<Rightarrow> (Inl AlertDBError, s)
      | Some t \<Rightarrow>
          if ar_ID rule \<in> ar_ID ` set (st_rules s) then (Inl AlertDBError, s)
          else (Inr rule, s\<lparr>st_rules := st_rules s @
                 [rule\<lparr>ar_AutoActions := Some (case ar_AutoActions rule of None \<Rightarrow> ''null'' | Some a \<Rightarrow> a),
                       ar_StateChangedAt := None, ar_LastEvaluated := None, ar_LastFiredAt := None,
                       ar_FiringValue := None, ar_CreatedAt := t, ar_UpdatedAt := t\<rparr>]\<rparr>))"

definition repo_GetRule :: "gotime option \<Rightarrow> uuid \<Rightarrow> alert_store \<Rightarrow> alert_error + alert_rule" where
  "repo_GetRule stmt i s =
     (case stmt of
        None \<Rightarrow> Inl AlertDBError
      | Some _ \<Rightarrow> (case find (\<lambda>r. ar_ID r = i) (st_rules s) of None \<Rightarrow> Inl AlertNoRows | Some r \<Rightarrow> Inr r))"

text \<open>The columns that the statement sets; a trigger sets the update time.\<close>

definition update_row :: "gotime \<Rightarrow> alert_rule \<Rightarrow> alert_rule \<Rightarrow> alert_rule" where
  "update_row t rule row =
     row\<lparr>ar_Name := ar_Name rule, ar_Description := ar_Description rule, ar_Threshold := ar_Threshold rule,
         ar_Severity := ar_Severity rule, ar_Duration := ar_Duration rule, ar_Cooldown := ar_Cooldown rule,
         ar_EvalInterval := ar_EvalInterval rule, ar_State := ar_State rule,
         ar_StateChangedAt := ar_StateChangedAt rule, ar_LastEvaluated := ar_LastEvaluated rule,
         ar_LastFiredAt := ar_LastFiredAt rule, ar_FiringValue := ar_FiringValue rule,
         ar_NotifyChannels := ar_NotifyChannels rule,
         ar_AutoActions := Some (case ar_AutoActions rule of None \<Rightarrow> ''null'' | Some a \<Rightarrow> a),
         ar_IsEnabled := ar_IsEnabled rule, ar_Labels := ar_Labels rule, ar_UpdatedAt := t\<rparr>"

definition repo_UpdateRule :: "gotime option \<Rightarrow> alert_rule \<Rightarrow> alert_store \<Rightarrow> alert_error option \<times> alert_store" where
  "repo_UpdateRule stmt rule s =
     (case stmt of
        None \<Rightarrow> (Some AlertDBError, s)
      | Some t \<Rightarrow>
          (None, s\<lparr>st_rules := map (\<lambda>row. if ar_ID row = ar_ID rule then update_row t rule row else row) (st_rules s)\<rparr>))"

text \<open>Events and silences of the rule go with it (\<^verbatim>\<open>ON DELETE CASCADE\<close>).\<close>

definition repo_DeleteRule :: "gotime option \<Rightarrow> uuid \<Rightarrow> alert_store \<Rightarrow> alert_error option \<times> alert_store" where
  "repo_DeleteRule stmt i s =
     (case stmt of
        None \<Rightarrow> (Some AlertDBError, s)
      | Some _ \<Rightarrow>
          (None, s\<lparr>st_rules := filter (\<lambda>r. ar_ID r \<noteq> i) (st_rules s),
                   st_events := filter (\<lambda>e. ae_AlertID e \<noteq> i) (st_events s),
                   st_silences := filter (\<lambda>x. si_AlertID x \<noteq> Some i) (st_silences s)\<rparr>))"

record alert_list_options =
  lo_HostID :: "uuid option"
  lo_ContainerID :: "string option"
  lo_Metric :: "string option"
  lo_Severity :: "string option"
  lo_State :: "string option"
  lo_IsEnabled :: "bool option"
  lo_Limit :: int
  lo_Offset :: int

definition no_options :: alert_list_options where
  "no_options =
     \<lparr>lo_HostID = None, lo_ContainerID = None, lo_Metric = None, lo_Severity = None, lo_State = None,
      lo_IsEnabled = None, lo_Limit = 0, lo_Offset = 0\<rparr>"

definition opt_matches :: "'a option \<Rightarrow> 'a \<Rightarrow> bool" where
  "opt_matches opt x = (case opt of None \<Rightarrow> True | Some y \<Rightarrow> x = y)"

definition rule_selected :: "alert_list_options \<Rightarrow> alert_rule \<Rightarrow> bool" where
  "rule_selected opts r \<longleftrightarrow>
     (case lo_HostID opts of None \<Rightarrow> True | Some h \<Rightarrow> ar_HostID r = Some h \<or> ar_HostID r = None) \<and>
     opt_matches (lo_Metric opts) (ar_Metric r) \<and> opt_matches (lo_Severity opts) (ar_Severity r) \<and>
     opt_matches (lo_State opts) (ar_State r) \<and> opt_matches (lo_IsEnabled opts) (ar_IsEnabled r)"

definition limit_offset :: "int \<Rightarrow> int \<Rightarrow> 'a list \<Rightarrow> 'a list" where
  "limit_offset limit offset xs =
     (let ys = (if 0 < offset then drop (nat offset) xs else xs) in
      if 0 < limit then take (nat limit) ys else ys)"

text \<open>Newest first; rows with the same creation time in the order of the table.\<close>

definition repo_ListRules ::
    "statements \<Rightarrow> alert_list_options \<Rightarrow> alert_store \<Rightarrow> alert_error + (alert_rule list \<times> int)" where
  "repo_ListRules stmt opts s =
     (let sel = filter (rule_selected opts) (st_rules s) in
      if stmt 0 = None then Inl AlertDBError
      else if stmt 1 = None then Inl AlertDBError
      else Inr (limit_offset (lo_Limit opts) (lo_Offset opts) (sort_key (\<lambda>r. - ar_CreatedAt r) sel),
                int (length sel)))"

definition repo_ListEnabledRules :: "statements \<Rightarrow> alert_store \<Rightarrow> alert_error + alert_rule list" where
  "repo_ListEnabledRules stmt s =
     (case repo_ListRules stmt (no_options\<lparr>lo_IsEnabled := Some True, lo_Limit := 1000\<rparr>) s of
        Inl e \<Rightarrow> Inl e
      | Inr (rules, _) \<Rightarrow> Inr rules)"

definition repo_CreateEvent :: "gotime option \<Rightarrow> uuid \<Rightarrow> alert_event \<Rightarrow> alert_store \<Rightarrow> alert_error option \<times> alert_store" where
  "repo_CreateEvent stmt fresh event s =
     (let event = (if ae_ID event = uuid_nil then event\<lparr>ae_ID := fresh\<rparr> else event) in
      case stmt of
        None \<Rightarrow> (Some AlertDBError, s)
      | Some t \<Rightarrow>
          if ae_ID event \<in> ae_ID ` set (st_events s) \<or> ae_AlertID event \<notin> ar_ID ` set (st_rules s)
          then (Some AlertDBError, s)
          else (None, s\<lparr>st_events := st_events s @
                 [event\<lparr>ae_ResolvedAt := None, ae_AcknowledgedAt := None, ae_AcknowledgedBy := None,
                        ae_CreatedAt := t\<rparr>]\<rparr>))"

definition repo_GetEvent :: "gotime option \<Rightarrow> uuid \<Rightarrow> alert_store \<Rightarrow> alert_error + alert_event" where
  "repo_GetEvent stmt i s =
     (case stmt of
        None \<Rightarrow> Inl AlertDBError
      | Some _ \<Rightarrow> (case find (\<lambda>e. ae_ID e = i) (st_events s) of None \<Rightarrow> Inl AlertNoRows | Some e \<Rightarrow> Inr e))"

definition repo_UpdateEvent :: "gotime option \<Rightarrow> alert_event \<Rightarrow> alert_store \<Rightarrow> alert_error option \<times> alert_store" where
  "repo_UpdateEvent stmt event s =
     (case stmt of
        None \<Rightarrow> (Some AlertDBError, s)
      | Some _ \<Rightarrow>
          (None, s\<lparr>st_events := map (\<lambda>row. if ae_ID row = ae_ID event
                     then row\<lparr>ae_State := ae_State event, ae_ResolvedAt := ae_ResolvedAt event,
                              ae_AcknowledgedAt := ae_AcknowledgedAt event,
                              ae_AcknowledgedBy := ae_AcknowledgedBy event\<rparr>
                     else row) (st_events s)\<rparr>))"

definition repo_ResolveActiveEvents :: "gotime option \<Rightarrow> uuid \<Rightarrow> gotime \<Rightarrow> alert_store \<Rightarrow> alert_error option \<times> alert_store" where
  "repo_ResolveActiveEvents stmt ruleID resolvedAt s =
     (case stmt of
        None \<Rightarrow> (Some AlertDBError, s)
      | Some _ \<Rightarrow>
          (None, s\<lparr>st_events := map (\<lambda>row. if ae_AlertID row = ruleID \<and> ae_State row = ''firing''
                     then row\<lparr>ae_State := ''resolved'', ae_ResolvedAt := Some resolvedAt\<rparr> else row)
                   (st_events s)\<rparr>))"

definition repo_CreateSilence :: "gotime option \<Rightarrow> uuid \<Rightarrow> alert_silence \<Rightarrow> alert_store \<Rightarrow> (alert_error + alert_silence) \<times> alert_store" where
  "repo_CreateSilence stmt fresh silence s =
     (let silence = (if si_ID silence = uuid_nil then silence\<lparr>si_ID := fresh\<rparr> else silence) in
      case stmt of
        None \<Rightarrow> (Inl AlertDBError, s)
      | Some t \<Rightarrow>
          if si_ID silence \<in> si_ID ` set (st_silences s) \<or>
             (case si_AlertID silence of None \<Rightarrow> False | Some a \<Rightarrow> a \<notin> ar_ID ` set (st_rules s))
          then (Inl AlertDBError, s)
          else (Inr silence, s\<lparr>st_silences := st_silences s @ [silence\<lparr>si_CreatedAt := t\<rparr>]\<rparr>))"

definition repo_DeleteSilence :: "gotime option \<Rightarrow> uuid \<Rightarrow> alert_store \<Rightarrow> alert_error option \<times> alert_store" where
  "repo_DeleteSilence stmt i s =
     (case stmt of
        None \<Rightarrow> (Some AlertDBError, s)
      | Some _ \<Rightarrow> (None, s\<lparr>st_silences := filter (\<lambda>x. si_ID x \<noteq> i) (st_silences s)\<rparr>))"

definition repo_GetActiveSilences :: "gotime option \<Rightarrow> alert_store \<Rightarrow> alert_error + alert_silence list" where
  "repo_GetActiveSilences stmt s =
     (case stmt of
        None \<Rightarrow> Inl AlertDBError
      | Some t \<Rightarrow> Inr (sort_key (\<lambda>x. - si_StartsAt x)
                   (filter (\<lambda>x. si_StartsAt x \<le> t \<and> t < si_EndsAt x) (st_silences s))))"

section \<open>Evaluation\<close>

text \<open>The metrics provider: the current value of a metric, \<open>None\<close> an error.\<close>

record metrics_provider =
  GetHostMetric :: "uuid \<Rightarrow> string \<Rightarrow> float64 option"
  GetContainerMetric :: "uuid \<Rightarrow> string \<Rightarrow> string \<Rightarrow> float64 option"

text \<open>
  The inputs of one evaluation of a rule: the metrics provider (\<open>None\<close> when there is none) as
  it answers at that time, the clock, a fresh id, and the statements, numbered as
  \<open>evaluateRule\<close> can reach them: 0 and 1 in the handlers, 2 the final update.
\<close>

record eval_env =
  ev_metrics :: "metrics_provider option"
  ev_now :: gotime
  ev_stmt :: statements
  ev_fresh :: uuid

definition getHostIDForRule :: "alert_rule \<Rightarrow> uuid" where
  "getHostIDForRule rule = (case ar_HostID rule of Some h \<Rightarrow> h | None \<Rightarrow> uuid_nil)"

definition operatorStr :: "string \<Rightarrow> string" where
  "operatorStr op =
     (if op = ''gt'' then ''>'' else if op = ''gte'' then ''>='' else if op = ''lt'' then ''<''
      else if op = ''lte'' then ''<='' else if op = ''eq'' then ''=='' else if op = ''neq'' then ''!='' else [])"

definition formatAlertMessage :: "alert_rule \<Rightarrow> float64 \<Rightarrow> alert_message" where
  "formatAlertMessage rule value =
     AlertMessage (ar_Name rule) (ar_Metric rule) value (operatorStr (ar_Operator rule)) (ar_Threshold rule)"

definition getMetricValue :: "metrics_provider option \<Rightarrow> alert_rule \<Rightarrow> float64 option" where
  "getMetricValue metrics rule =
     (case metrics of
        None \<Rightarrow> None
      | Some m \<Rightarrow>
          (case ar_ContainerID rule of
             Some c \<Rightarrow> GetContainerMetric m (getHostIDForRule rule) c (ar_Metric rule)
           | None \<Rightarrow> GetHostMetric m (getHostIDForRule rule) (ar_Metric rule)))"

type_synonym eval_state = "alert_rule \<times> rule_state \<times> alert_store"

definition fireAlert :: "alert_config \<Rightarrow> eval_env \<Rightarrow> float64 \<Rightarrow> eval_state \<Rightarrow> eval_state" where
  "fireAlert cfg e value = (\<lambda>(rule, state, s).
     let now = ev_now e;
         rule = rule\<lparr>ar_State := ''firing'', ar_StateChangedAt := Some now, ar_LastFiredAt := Some now,
                     ar_FiringValue := Some value\<rparr>;
         s = snd (repo_UpdateRule (ev_stmt e 0) rule s);
         state = state\<lparr>lastFired := now\<rparr>;
         event = \<lparr>ae_ID = ev_fresh e, ae_AlertID = ar_ID rule, ae_HostID = getHostIDForRule rule,
                  ae_ContainerID = ar_ContainerID rule, ae_State = ''firing'', ae_Value = value,
                  ae_Threshold = ar_Threshold rule, ae_Message = formatAlertMessage rule value,
                  ae_Labels = ar_Labels rule, ae_FiredAt = now, ae_ResolvedAt = None,
                  ae_AcknowledgedAt = None, ae_AcknowledgedBy = None, ae_CreatedAt = now\<rparr>
     in case repo_CreateEvent (ev_stmt e 1) (ev_fresh e) event s of
          (Some _, s) \<Rightarrow> (rule, state, s)
        | (None, s) \<Rightarrow>
            if has_notifier cfg then (rule, state, s\<lparr>st_sent := st_sent s @ [(rule, event)]\<rparr>)
            else (rule, state, s))"

definition handleConditionMet :: "alert_config \<Rightarrow> eval_env \<Rightarrow> float64 \<Rightarrow> eval_state \<Rightarrow> eval_state" where
  "handleConditionMet cfg e value = (\<lambda>(rule, state, s).
     let now = ev_now e;
         since = (case pendingSince state of None \<Rightarrow> now | Some t \<Rightarrow> t);
         state = state\<lparr>pendingSince := Some since\<rparr>
     in if time_sub now since < seconds (ar_Duration rule) then
          (if ar_State rule \<noteq> ''pending'' then
             (let rule = rule\<lparr>ar_State := ''pending'', ar_StateChangedAt := Some now\<rparr>
              in (rule, state, snd (repo_UpdateRule (ev_stmt e 0) rule s)))
           else (rule, state, s))
        else if 0 < seconds (ar_Cooldown rule) \<and> \<not> is_zero (lastFired state) \<and>
                time_sub now (lastFired state) < seconds (ar_Cooldown rule)
        then (rule, state, s)
        else fireAlert cfg e value (rule, state, s))"

definition handleConditionCleared :: "alert_config \<Rightarrow> eval_env \<Rightarrow> eval_state \<Rightarrow> eval_state" where
  "handleConditionCleared cfg e = (\<lambda>(rule, state, s).
     let now = ev_now e; state = state\<lparr>pendingSince := None\<rparr>
     in if EnableAutoResolve cfg \<and> ar_State rule = ''firing'' then
          (let rule = rule\<lparr>ar_State := ''resolved'', ar_StateChangedAt := Some now\<rparr>;
               s = snd (repo_UpdateRule (ev_stmt e 0) rule s);
               s = snd (repo_ResolveActiveEvents (ev_stmt e 1) (ar_ID rule) now s)
           in (rule, state, s))
        else if ar_State rule = ''pending'' then
          (let rule = rule\<lparr>ar_State := ''ok'', ar_StateChangedAt := Some now\<rparr>
           in (rule, state, snd (repo_UpdateRule (ev_stmt e 0) rule s)))
        else (rule, state, s))"

definition new_rule_state :: rule_state where
  "new_rule_state = \<lparr>pendingSince = None, lastFired = time_zero, lastValue = Finite 0\<rparr>"

definition evaluateRule :: "alert_config \<Rightarrow> eval_env \<Rightarrow> alert_rule \<Rightarrow> alert_store \<Rightarrow> alert_store" where
  "evaluateRule cfg e rule s =
     (case getMetricValue (ev_metrics e) rule of
        None \<Rightarrow> s
      | Some value \<Rightarrow>
          let state = (case ruleStates s (ar_ID rule) of None \<Rightarrow> new_rule_state | Some st \<Rightarrow> st);
              state = state\<lparr>lastValue := value\<rparr>;
              (rule, state, s) =
                (if MatchesValue rule value then handleConditionMet cfg e value (rule, state, s)
                 else handleConditionCleared cfg e (rule, state, s));
              s = s\<lparr>ruleStates := (ruleStates s)(ar_ID rule \<mapsto> state)\<rparr>;
              rule = rule\<lparr>ar_LastEvaluated := Some (ev_now e)\<rparr>
          in snd (repo_UpdateRule (ev_stmt e 2) rule s))"

text \<open>\<open>clk n\<close> is the clock at the check of the \<open>n\<close>-th silence.\<close>

fun isSilenced :: "(nat \<Rightarrow> gotime) \<Rightarrow> alert_rule \<Rightarrow> nat \<Rightarrow> alert_silence list \<Rightarrow> bool" where
  "isSilenced clk rule n [] = False"
| "isSilenced clk rule n (silence # silences) =
     (if \<not> silence_IsActive (clk n) silence then isSilenced clk rule (n + 1) silences
      else if si_AlertID silence \<noteq> None \<and> si_AlertID silence = Some (ar_ID rule) then True
      else if si_HostID silence \<noteq> None \<and> ar_HostID rule \<noteq> None \<and> si_HostID silence = ar_HostID rule then True
      else if si_AlertID silence = None \<and> si_HostID silence = None then True
      else isSilenced clk rule (n + 1) silences)"

text \<open>
  One round: \<open>stmt\<close> answers the two queries of the list and the one of the silences, \<open>clk\<close> and
  \<open>env\<close> give each rule its clock readings and its evaluation's inputs.
\<close>

definition evaluateAllRules ::
    "alert_config \<Rightarrow> statements \<Rightarrow> (uuid \<Rightarrow> nat \<Rightarrow> gotime) \<Rightarrow> (uuid \<Rightarrow> eval_env) \<Rightarrow> alert_store \<Rightarrow> alert_store" where
  "evaluateAllRules cfg stmt clk env s =
     (case repo_ListEnabledRules stmt s of
        Inl _ \<Rightarrow> s
      | Inr rules \<Rightarrow>
          let silences = (case repo_GetActiveSilences (stmt 2) s of Inl _ \<Rightarrow> [] | Inr xs \<Rightarrow> xs)
          in fold (\<lambda>rule. evaluateRule cfg (env (ar_ID rule)) rule)
               (filter (\<lambda>rule. \<not> isSilenced (clk (ar_ID rule)) rule 0 silences) rules) s)"

section \<open>Rule, silence and event operations\<close>

record create_rule_input =
  ci_Name :: string
  ci_Description :: string
  ci_HostID :: "uuid option"
  ci_ContainerID :: "string option"
  ci_Metric :: string
  ci_Operator :: string
  ci_Threshold :: float64
  ci_Severity :: string
  ci_DurationSeconds :: int
  ci_CooldownSeconds :: int
  ci_EvalInterval :: int
  ci_NotifyChannels :: "string list"
  ci_Labels :: "(string \<times> string) list option"
  ci_IsEnabled :: bool

record update_rule_input =
  ui_Name :: "string option"
  ui_Description :: "string option"
  ui_Threshold :: "float64 option"
  ui_Severity :: "string option"
  ui_DurationSeconds :: "int option"
  ui_CooldownSeconds :: "int option"
  ui_NotifyChannels :: "string list option"
  ui_Labels :: "(string \<times> string) list option"
  ui_IsEnabled :: "bool option"

text \<open>The interval's whole seconds; exact below 2^22 seconds, where the source's floats are.\<close>

definition interval_seconds :: "duration \<Rightarrow> int" where
  "interval_seconds d = go_quot d second"

definition CreateRule ::
    "alert_config \<Rightarrow> (nat \<Rightarrow> gotime) \<Rightarrow> gotime option \<Rightarrow> uuid \<Rightarrow> create_rule_input \<Rightarrow> uuid option \<Rightarrow> alert_store \<Rightarrow>
     (alert_error + alert_rule) \<times> alert_store" where
  "CreateRule cfg clk stmt fresh input createdBy s =
     (let rule = \<lparr>ar_ID = fresh, ar_HostID = ci_HostID input, ar_ContainerID = ci_ContainerID input,
                  ar_Name = ci_Name input, ar_Description = ci_Description input, ar_Metric = ci_Metric input,
                  ar_Operator = ci_Operator input, ar_Threshold = ci_Threshold input,
                  ar_Severity = ci_Severity input, ar_Duration = ci_DurationSeconds input,
                  ar_Cooldown = ci_CooldownSeconds input, ar_EvalInterval = ci_EvalInterval input,
                  ar_State = ''ok'', ar_StateChangedAt = None, ar_LastEvaluated = None, ar_LastFiredAt = None,
                  ar_FiringValue = None, ar_NotifyChannels = ci_NotifyChannels input, ar_AutoActions = None,
                  ar_IsEnabled = ci_IsEnabled input, ar_Labels = ci_Labels input, ar_CreatedBy = createdBy,
                  ar_CreatedAt = clk 0, ar_UpdatedAt = clk 1\<rparr>;
          rule = (if ar_EvalInterval rule = 0
                  then rule\<lparr>ar_EvalInterval := interval_seconds (DefaultEvalInterval cfg)\<rparr> else rule);
          rule = (if ar_Cooldown rule = 0 then rule\<lparr>ar_Cooldown := 300\<rparr> else rule)
      in repo_CreateRule stmt fresh rule s)"

definition set_if :: "('b \<Rightarrow> 'r \<Rightarrow> 'r) \<Rightarrow> 'b option \<Rightarrow> 'r \<Rightarrow> 'r" where
  "set_if upd v r = (case v of None \<Rightarrow> r | Some x \<Rightarrow> upd x r)"

definition UpdateRule ::
    "gotime \<Rightarrow> statements \<Rightarrow> uuid \<Rightarrow> update_rule_input \<Rightarrow> alert_store \<Rightarrow> (alert_error + alert_rule) \<times> alert_store" where
  "UpdateRule now stmt i input s =
     (case repo_GetRule (stmt 0) i s of
        Inl err \<Rightarrow> (Inl err, s)
      | Inr rule \<Rightarrow>
          let rule = set_if (\<lambda>v r. r\<lparr>ar_Name := v\<rparr>) (ui_Name input) rule;
              rule = set_if (\<lambda>v r. r\<lparr>ar_Description := v\<rparr>) (ui_Description input) rule;
              rule = set_if (\<lambda>v r. r\<lparr>ar_Threshold := v\<rparr>) (ui_Threshold input) rule;
              rule = set_if (\<lambda>v r. r\<lparr>ar_Severity := v\<rparr>) (ui_Severity input) rule;
              rule = set_if (\<lambda>v r. r\<lparr>ar_Duration := v\<rparr>) (ui_DurationSeconds input) rule;
              rule = set_if (\<lambda>v r. r\<lparr>ar_Cooldown := v\<rparr>) (ui_CooldownSeconds input) rule;
              rule = set_if (\<lambda>v r. r\<lparr>ar_NotifyChannels := v\<rparr>) (ui_NotifyChannels input) rule;
              rule = set_if (\<lambda>v r. r\<lparr>ar_Labels := Some v\<rparr>) (ui_Labels input) rule;
              rule = set_if (\<lambda>v r. r\<lparr>ar_IsEnabled := v\<rparr>) (ui_IsEnabled input) rule;
              rule = rule\<lparr>ar_UpdatedAt := now\<rparr>
          in case repo_UpdateRule (stmt 1) rule s of
               (Some err, s) \<Rightarrow> (Inl err, s)
             | (None, s) \<Rightarrow> (Inr rule, s))"

definition DeleteRule :: "gotime option \<Rightarrow> uuid \<Rightarrow> alert_store \<Rightarrow> alert_error option \<times> alert_store" where
  "DeleteRule stmt i s = repo_DeleteRule stmt i (s\<lparr>ruleStates := (ruleStates s)(i := None)\<rparr>)"

record create_silence_input =
  cs_AlertID :: "uuid option"
  cs_HostID :: "uuid option"
  cs_Reason :: string
  cs_StartsAt :: gotime
  cs_EndsAt :: gotime

definition CreateSilence ::
    "gotime \<Rightarrow> gotime option \<Rightarrow> uuid \<Rightarrow> create_silence_input \<Rightarrow> uuid option \<Rightarrow> alert_store \<Rightarrow>
     (alert_error + alert_silence) \<times> alert_store" where
  "CreateSilence now stmt fresh input createdBy s =
     repo_CreateSilence stmt fresh
       \<lparr>si_ID = fresh, si_AlertID = cs_AlertID input, si_HostID = cs_HostID input, si_Reason = cs_Reason input,
        si_StartsAt = cs_StartsAt input, si_EndsAt = cs_EndsAt input, si_CreatedBy = createdBy, si_CreatedAt = now\<rparr> s"

definition DeleteSilence :: "gotime option \<Rightarrow> uuid \<Rightarrow> alert_store \<Rightarrow> alert_error option \<times> alert_store" where
  "DeleteSilence = repo_DeleteSilence"

definition AcknowledgeEvent ::
    "gotime \<Rightarrow> statements \<Rightarrow> uuid \<Rightarrow> uuid \<Rightarrow> alert_store \<Rightarrow> alert_error option \<times> alert_store" where
  "AcknowledgeEvent now stmt i userID s =
     (case repo_GetEvent (stmt 0) i s of
        Inl err \<Rightarrow> (Some err, s)
      | Inr event \<Rightarrow>
          repo_UpdateEvent (stmt 1) (event\<lparr>ae_AcknowledgedAt := Some now, ae_AcknowledgedBy := Some userID\<rparr>) s)"

abbreviation default_rule ::
    "string \<Rightarrow> string \<Rightarrow> string \<Rightarrow> string \<Rightarrow> int \<Rightarrow> string \<Rightarrow> int \<Rightarrow> int \<Rightarrow> create_rule_input" where
  "default_rule name desc metric op threshold severity dur cool \<equiv>
     \<lparr>ci_Name = name, ci_Description = desc, ci_HostID = None, ci_ContainerID = None, ci_Metric = metric,
      ci_Operator = op, ci_Threshold = Finite (of_int threshold), ci_Severity = severity,
      ci_DurationSeconds = dur, ci_CooldownSeconds = cool, ci_EvalInterval = 0, ci_NotifyChannels = [],
      ci_Labels = None, ci_IsEnabled = True\<rparr>"

definition DefaultAlertRules :: "create_rule_input list" where
  "DefaultAlertRules =
     [default_rule ''High Host CPU Usage'' ''Alerts when host CPU usage exceeds 90%'' ''host_cpu'' ''gt'' 90 ''warning'' 300 900,
      default_rule ''Critical Host CPU Usage'' ''Alerts when host CPU usage exceeds 95%'' ''host_cpu'' ''gt'' 95 ''critical'' 60 300,
      default_rule ''High Host Memory Usage'' ''Alerts when host memory usage exceeds 85%'' ''host_memory'' ''gt'' 85 ''warning'' 300 900,
      default_rule ''Critical Host Memory Usage'' ''Alerts when host memory usage exceeds 95%'' ''host_memory'' ''gt'' 95 ''critical'' 60 300,
      default_rule ''High Host Disk Usage'' ''Alerts when host disk usage exceeds 80%'' ''host_disk'' ''gt'' 80 ''warning'' 0 3600,
      default_rule ''Critical Host Disk Usage'' ''Alerts when host disk usage exceeds 90%'' ''host_disk'' ''gt'' 90 ''critical'' 0 1800,
      default_rule ''High Container Memory Usage'' ''Alerts when container memory usage exceeds 90%'' ''container_memory'' ''gt'' 90 ''warning'' 180 600,
      default_rule ''Container Unhealthy'' ''Alerts when a container reports unhealthy status'' ''container_health'' ''eq'' 0 ''critical'' 60 300]"

text \<open>One \<^verbatim>\<open>CreateRule\<close> per default; a failure is logged and the next one follows.\<close>

fun create_defaults ::
    "alert_config \<Rightarrow> (nat \<Rightarrow> nat \<Rightarrow> gotime) \<Rightarrow> (nat \<Rightarrow> gotime option) \<Rightarrow> (nat \<Rightarrow> uuid) \<Rightarrow> uuid option \<Rightarrow> nat \<Rightarrow>
     create_rule_input list \<Rightarrow> alert_store \<Rightarrow> alert_store" where
  "create_defaults cfg clk stmt fresh createdBy n [] s = s"
| "create_defaults cfg clk stmt fresh createdBy n (input # inputs) s =
     create_defaults cfg clk stmt fresh createdBy (n + 1) inputs
       (snd (CreateRule cfg (clk n) (stmt n) (fresh n) input createdBy s))"

definition InitializeDefaults ::
    "alert_config \<Rightarrow> statements \<Rightarrow> (nat \<Rightarrow> nat \<Rightarrow> gotime) \<Rightarrow> (nat \<Rightarrow> gotime option) \<Rightarrow> (nat \<Rightarrow> uuid) \<Rightarrow> uuid option \<Rightarrow>
     alert_store \<Rightarrow> alert_error option \<times> alert_store" where
  "InitializeDefaults cfg stmt clk inserts fresh createdBy s =
     (case repo_ListRules stmt (no_options\<lparr>lo_Limit := 1\<rparr>) s of
        Inl err \<Rightarrow> (Some err, s)
      | Inr (rules, _) \<Rightarrow>
          if rules \<noteq> [] then (None, s)
          else (None, create_defaults cfg clk inserts fresh createdBy 0 DefaultAlertRules s))"

section \<open>What an evaluation does\<close>

definition evaluated :: "eval_env \<Rightarrow> alert_rule \<Rightarrow> bool" where
  "evaluated e rule \<longleftrightarrow> getMetricValue (ev_metrics e) rule \<noteq> None"

definition cond_met :: "eval_env \<Rightarrow> alert_rule \<Rightarrow> bool" where
  "cond_met e rule \<longleftrightarrow> (\<exists>v. getMetricValue (ev_metrics e) rule = Some v \<and> MatchesValue rule v)"

definition state_of :: "alert_store \<Rightarrow> uuid \<Rightarrow> rule_state" where
  "state_of s i = (case ruleStates s i of None \<Rightarrow> new_rule_state | Some st \<Rightarrow> st)"

definition since :: "gotime \<Rightarrow> rule_state \<Rightarrow> gotime" where
  "since now st = (case pendingSince st of None \<Rightarrow> now | Some t \<Rightarrow> t)"

definition due :: "gotime \<Rightarrow> alert_rule \<Rightarrow> rule_state \<Rightarrow> bool" where
  "due now rule st \<longleftrightarrow> seconds (ar_Duration rule) \<le> time_sub now (since now st)"

definition cooling :: "gotime \<Rightarrow> alert_rule \<Rightarrow> rule_state \<Rightarrow> bool" where
  "cooling now rule st \<longleftrightarrow>
     0 < seconds (ar_Cooldown rule) \<and> \<not> is_zero (lastFired st) \<and>
     time_sub now (lastFired st) < seconds (ar_Cooldown rule)"

definition fires :: "eval_env \<Rightarrow> alert_rule \<Rightarrow> alert_store \<Rightarrow> bool" where
  "fires e rule s \<longleftrightarrow> cond_met e rule \<and> due (ev_now e) rule (state_of s (ar_ID rule)) \<and>
     \<not> cooling (ev_now e) rule (state_of s (ar_ID rule))"

named_theorems eval_simps \<open>the handlers and the statements they run\<close>

lemmas [eval_simps] =
  handleConditionMet_def handleConditionCleared_def fireAlert_def Let_def since_def due_def cooling_def

lemma repo_UpdateRule_keeps [simp]:
  "ruleStates (snd (repo_UpdateRule st r s)) = ruleStates s"
  "st_events (snd (repo_UpdateRule st r s)) = st_events s"
  "st_silences (snd (repo_UpdateRule st r s)) = st_silences s"
  "st_sent (snd (repo_UpdateRule st r s)) = st_sent s"
  by (simp_all add: repo_UpdateRule_def split: option.split)

lemma repo_CreateEvent_keeps [simp]:
  "ruleStates (snd (repo_CreateEvent st i e s)) = ruleStates s"
  "st_rules (snd (repo_CreateEvent st i e s)) = st_rules s"
  by (simp_all add: repo_CreateEvent_def Let_def split: option.split)

lemma repo_ResolveActiveEvents_keeps [simp]:
  "ruleStates (snd (repo_ResolveActiveEvents st i t s)) = ruleStates s"
  "st_rules (snd (repo_ResolveActiveEvents st i t s)) = st_rules s"
  "st_sent (snd (repo_ResolveActiveEvents st i t s)) = st_sent s"
  by (simp_all add: repo_ResolveActiveEvents_def split: option.split)

text \<open>The part of a store that belongs to the other rules.\<close>

definition others :: "uuid \<Rightarrow> alert_store \<Rightarrow> alert_rule list \<times> alert_event list \<times> (uuid \<rightharpoonup> rule_state)" where
  "others i s = (filter (\<lambda>r. ar_ID r \<noteq> i) (st_rules s), filter (\<lambda>e. ae_AlertID e \<noteq> i) (st_events s),
     (ruleStates s)(i := None))"

lemma ar_ID_update_row [simp]: "ar_ID (update_row t r row) = ar_ID row"
  by (simp add: update_row_def)

lemma filter_map_other:
  assumes "\<And>x. P x \<Longrightarrow> g x = x" and "\<And>x. P (g x) \<longleftrightarrow> P x"
  shows "filter P (map g xs) = filter P xs"
  using assms by (induction xs) auto

lemma repo_UpdateRule_others: "ar_ID r = i \<Longrightarrow> others i (snd (repo_UpdateRule st r s)) = others i s"
  by (auto simp: others_def repo_UpdateRule_def filter_map_other split: option.split)

lemma repo_ResolveActiveEvents_others: "others i (snd (repo_ResolveActiveEvents st i t s)) = others i s"
  by (auto simp: others_def repo_ResolveActiveEvents_def filter_map_other split: option.split)

lemma repo_CreateEvent_others: "ae_AlertID e = i \<Longrightarrow> others i (snd (repo_CreateEvent st f e s)) = others i s"
  by (auto simp: others_def repo_CreateEvent_def Let_def split: option.split)

text \<open>The rule as an evaluation leaves it, before it notes the evaluation's time.\<close>

definition rule_after :: "alert_config \<Rightarrow> eval_env \<Rightarrow> float64 \<Rightarrow> rule_state \<Rightarrow> alert_rule \<Rightarrow> alert_rule" where
  "rule_after cfg e v st rule =
     (let now = ev_now e in
      if MatchesValue rule v then
        (if \<not> due now rule st then
           (if ar_State rule \<noteq> ''pending'' then rule\<lparr>ar_State := ''pending'', ar_StateChangedAt := Some now\<rparr> else rule)
         else if cooling now rule st then rule
         else rule\<lparr>ar_State := ''firing'', ar_StateChangedAt := Some now, ar_LastFiredAt := Some now,
                   ar_FiringValue := Some v\<rparr>)
      else if EnableAutoResolve cfg \<and> ar_State rule = ''firing'' then
        rule\<lparr>ar_State := ''resolved'', ar_StateChangedAt := Some now\<rparr>
      else if ar_State rule = ''pending'' then rule\<lparr>ar_State := ''ok'', ar_StateChangedAt := Some now\<rparr>
      else rule)"

definition state_after :: "eval_env \<Rightarrow> float64 \<Rightarrow> alert_rule \<Rightarrow> rule_state \<Rightarrow> rule_state" where
  "state_after e v rule st =
     \<lparr>pendingSince = (if MatchesValue rule v then Some (since (ev_now e) st) else None),
      lastFired = (if MatchesValue rule v \<and> due (ev_now e) rule st \<and> \<not> cooling (ev_now e) rule st
                   then ev_now e else lastFired st),
      lastValue = v\<rparr>"

lemma ar_ID_rule_after [simp]: "ar_ID (rule_after cfg e v st rule) = ar_ID rule"
  by (simp add: rule_after_def Let_def)

text \<open>
  The handlers as a function: the rule and the state they leave, and a store in which only what
  belongs to the rule can have changed, its row being as before or written with the rule.
\<close>

definition row_written :: "alert_rule \<Rightarrow> alert_rule \<Rightarrow> alert_rule \<Rightarrow> bool" where
  "row_written rule row row' \<longleftrightarrow> row' = row \<or> (ar_ID row = ar_ID rule \<and> (\<exists>t. row' = update_row t rule row))"

definition store_step :: "alert_rule \<Rightarrow> alert_store \<Rightarrow> alert_store \<Rightarrow> bool" where
  "store_step rule s s' \<longleftrightarrow>
     ruleStates s' = ruleStates s \<and> others (ar_ID rule) s' = others (ar_ID rule) s \<and>
     list_all2 (row_written rule) (st_rules s) (st_rules s')"

lemma list_all2_same: "(\<And>x. R x x) \<Longrightarrow> list_all2 R xs xs"
  by (simp add: list_all2_conv_all_nth)

lemma store_step_refl [simp]: "store_step rule s s"
  by (simp add: store_step_def row_written_def list_all2_same)

lemma store_step_UpdateRule [simp]: "store_step rule s (snd (repo_UpdateRule st rule s))"
  by (auto simp: store_step_def repo_UpdateRule_others)
     (auto simp: repo_UpdateRule_def row_written_def list_all2_conv_all_nth split: option.split)

lemma store_step_CreateEvent:
  "store_step rule s s' \<Longrightarrow> ae_AlertID ev = ar_ID rule \<Longrightarrow> store_step rule s (snd (repo_CreateEvent st f ev s'))"
  by (simp add: store_step_def repo_CreateEvent_others)

lemma store_step_Resolve:
  "store_step rule s s' \<Longrightarrow> i = ar_ID rule \<Longrightarrow> store_step rule s (snd (repo_ResolveActiveEvents st i t s'))"
  by (simp add: store_step_def repo_ResolveActiveEvents_others)

lemma store_step_sent: "store_step rule s (s'\<lparr>st_sent := x\<rparr>) \<longleftrightarrow> store_step rule s s'"
  by (simp add: store_step_def others_def)

lemma fireAlert_eq:
  assumes "rule' = rule\<lparr>ar_State := ''firing'', ar_StateChangedAt := Some (ev_now e),
    ar_LastFiredAt := Some (ev_now e), ar_FiringValue := Some v\<rparr>"
  shows "\<exists>s'. fireAlert cfg e v (rule, st, s) = (rule', st\<lparr>lastFired := ev_now e\<rparr>, s') \<and> store_step rule' s s'"
proof -
  define ev where "ev = \<lparr>ae_ID = ev_fresh e, ae_AlertID = ar_ID rule', ae_HostID = getHostIDForRule rule',
                  ae_ContainerID = ar_ContainerID rule', ae_State = ''firing'', ae_Value = v,
                  ae_Threshold = ar_Threshold rule', ae_Message = formatAlertMessage rule' v,
                  ae_Labels = ar_Labels rule', ae_FiredAt = ev_now e, ae_ResolvedAt = None,
                  ae_AcknowledgedAt = None, ae_AcknowledgedBy = None, ae_CreatedAt = ev_now e\<rparr>"
  obtain err s1 where c: "repo_CreateEvent (ev_stmt e 1) (ev_fresh e) ev (snd (repo_UpdateRule (ev_stmt e 0) rule' s)) = (err, s1)"
    by (cases "repo_CreateEvent (ev_stmt e 1) (ev_fresh e) ev (snd (repo_UpdateRule (ev_stmt e 0) rule' s))")
  have "store_step rule' s (snd (repo_CreateEvent (ev_stmt e 1) (ev_fresh e) ev (snd (repo_UpdateRule (ev_stmt e 0) rule' s))))"
    by (intro store_step_CreateEvent store_step_UpdateRule) (simp add: ev_def)
  then have "store_step rule' s s1" unfolding c by simp
  then show ?thesis
    unfolding fireAlert_def Let_def prod.case assms [symmetric] ev_def [symmetric] c
    by (cases err) (auto simp: store_step_sent)
qed

lemma timing_lastValue [simp]:
  "since now (st\<lparr>lastValue := v\<rparr>) = since now st"
  "due now rule (st\<lparr>lastValue := v\<rparr>) = due now rule st"
  "cooling now rule (st\<lparr>lastValue := v\<rparr>) = cooling now rule st"
  by (simp_all add: since_def due_def cooling_def)

lemma handleConditionMet_eq:
  "handleConditionMet cfg e v (rule, st, s) =
     (let st' = st\<lparr>pendingSince := Some (since (ev_now e) st)\<rparr> in
      if \<not> due (ev_now e) rule st then
        (if ar_State rule \<noteq> ''pending'' then
           (let rule = rule\<lparr>ar_State := ''pending'', ar_StateChangedAt := Some (ev_now e)\<rparr>
            in (rule, st', snd (repo_UpdateRule (ev_stmt e 0) rule s)))
         else (rule, st', s))
      else if cooling (ev_now e) rule st then (rule, st', s)
      else fireAlert cfg e v (rule, st', s))"
  by (simp add: handleConditionMet_def due_def cooling_def since_def Let_def not_le)

lemma rule_state_eqs:
  "st\<lparr>lastValue := v, pendingSince := p\<rparr> = \<lparr>pendingSince = p, lastFired = lastFired st, lastValue = v\<rparr>"
  "st\<lparr>lastValue := v, pendingSince := p, lastFired := t\<rparr> = \<lparr>pendingSince = p, lastFired = t, lastValue = v\<rparr>"
  by (cases st; simp)+

lemma store_step_resolved:
  "store_step (rule\<lparr>ar_State := x, ar_StateChangedAt := y\<rparr>) s
     (snd (repo_ResolveActiveEvents st (ar_ID (rule\<lparr>ar_State := x, ar_StateChangedAt := y\<rparr>)) t
       (snd (repo_UpdateRule st' (rule\<lparr>ar_State := x, ar_StateChangedAt := y\<rparr>) s))))"
  by (intro store_step_Resolve store_step_UpdateRule refl)

lemmas handler_simps =
  if_True if_False simp_thms prod.inject store_step_refl store_step_UpdateRule store_step_resolved

lemma handlers_eq:
  "\<exists>s'. (if MatchesValue rule v then handleConditionMet cfg e v (rule, st\<lparr>lastValue := v\<rparr>, s)
         else handleConditionCleared cfg e (rule, st\<lparr>lastValue := v\<rparr>, s)) =
        (rule_after cfg e v st rule, state_after e v rule st, s') \<and> store_step (rule_after cfg e v st rule) s s'"
proof -
  let ?st = "st\<lparr>lastValue := v, pendingSince := Some (since (ev_now e) st)\<rparr>"
  consider (met) "MatchesValue rule v" "\<not> (due (ev_now e) rule st \<and> \<not> cooling (ev_now e) rule st)"
    | (fire) "MatchesValue rule v" "due (ev_now e) rule st" "\<not> cooling (ev_now e) rule st"
    | (clear) "\<not> MatchesValue rule v"
    by blast
  then show ?thesis
  proof cases
    case fire
    then have "rule_after cfg e v st rule = rule\<lparr>ar_State := ''firing'', ar_StateChangedAt := Some (ev_now e),
      ar_LastFiredAt := Some (ev_now e), ar_FiringValue := Some v\<rparr>"
      by (simp add: rule_after_def Let_def)
    then obtain s' where "fireAlert cfg e v (rule, ?st, s) = (rule_after cfg e v st rule, ?st\<lparr>lastFired := ev_now e\<rparr>, s')"
      "store_step (rule_after cfg e v st rule) s s'"
      using fireAlert_eq [where rule' = "rule_after cfg e v st rule" and rule = rule and e = e and v = v and cfg = cfg and st = ?st and s = s] by blast
    with fire show ?thesis
      by (simp only: handleConditionMet_eq state_after_def rule_state_eqs rule_state.simps timing_lastValue Let_def handler_simps)
  next
    case met
    then show ?thesis
      by (cases "due (ev_now e) rule st"; cases "ar_State rule = ''pending''")
         (simp_all only: handleConditionMet_eq rule_after_def state_after_def rule_state_eqs Let_def
           timing_lastValue handler_simps)
  next
    case clear
    then show ?thesis
      by (cases "EnableAutoResolve cfg \<and> ar_State rule = ''firing''"; cases "ar_State rule = ''pending''")
         (simp_all only: handleConditionCleared_def rule_after_def state_after_def rule_state_eqs Let_def
           prod.case handler_simps)
  qed
qed

lemma evaluateRule_eq:
  assumes "getMetricValue (ev_metrics e) rule = Some v"
    and st_def: "st = state_of s (ar_ID rule)"
  shows "\<exists>s1. store_step (rule_after cfg e v st rule) s s1 \<and>
     evaluateRule cfg e rule s =
       snd (repo_UpdateRule (ev_stmt e 2) ((rule_after cfg e v st rule)\<lparr>ar_LastEvaluated := Some (ev_now e)\<rparr>)
             (s1\<lparr>ruleStates := (ruleStates s)(ar_ID rule \<mapsto> state_after e v rule st)\<rparr>))"
proof -
  obtain s1 where s1: "(if MatchesValue rule v then handleConditionMet cfg e v (rule, st\<lparr>lastValue := v\<rparr>, s)
         else handleConditionCleared cfg e (rule, st\<lparr>lastValue := v\<rparr>, s)) =
        (rule_after cfg e v st rule, state_after e v rule st, s1)" "store_step (rule_after cfg e v st rule) s s1"
    using handlers_eq by blast
  have "evaluateRule cfg e rule s =
       snd (repo_UpdateRule (ev_stmt e 2) ((rule_after cfg e v st rule)\<lparr>ar_LastEvaluated := Some (ev_now e)\<rparr>)
             (s1\<lparr>ruleStates := (ruleStates s1)(ar_ID rule \<mapsto> state_after e v rule st)\<rparr>))"
    unfolding evaluateRule_def assms(1) option.case state_of_def [symmetric] st_def [symmetric] Let_def s1(1)
    by simp
  with s1(2) show ?thesis by (auto simp: store_step_def)
qed

lemma evaluateRule_none: "\<not> evaluated e rule \<Longrightarrow> evaluateRule cfg e rule s = s"
  by (simp add: evaluated_def evaluateRule_def)

lemma evaluateRule_states:
  "ruleStates (evaluateRule cfg e rule s) =
     (case getMetricValue (ev_metrics e) rule of
        None \<Rightarrow> ruleStates s
      | Some v \<Rightarrow> (ruleStates s)(ar_ID rule \<mapsto> state_after e v rule (state_of s (ar_ID rule))))"
proof (cases "getMetricValue (ev_metrics e) rule")
  case None
  then show ?thesis by (simp add: evaluateRule_def)
next
  case (Some v)
  then show ?thesis using evaluateRule_eq [OF Some refl, of cfg s] by auto
qed

lemma evaluateRule_others: "others (ar_ID rule) (evaluateRule cfg e rule s) = others (ar_ID rule) s"
proof (cases "getMetricValue (ev_metrics e) rule")
  case None
  then show ?thesis by (simp add: evaluateRule_def)
next
  case (Some v)
  then obtain s1 r' st' where s1: "store_step r' s s1" "ar_ID r' = ar_ID rule" and
    ev: "evaluateRule cfg e rule s = snd (repo_UpdateRule (ev_stmt e 2) (r'\<lparr>ar_LastEvaluated := Some (ev_now e)\<rparr>)
       (s1\<lparr>ruleStates := (ruleStates s)(ar_ID rule \<mapsto> st')\<rparr>))"
    using evaluateRule_eq [OF Some refl, of cfg s] by (metis ar_ID_rule_after)
  have "others (ar_ID rule) (evaluateRule cfg e rule s) =
      others (ar_ID rule) (s1\<lparr>ruleStates := (ruleStates s)(ar_ID rule \<mapsto> st')\<rparr>)"
    unfolding ev using s1(2) by (intro repo_UpdateRule_others) simp
  also have "\<dots> = others (ar_ID rule) s"
    using s1 by (auto simp: store_step_def others_def)
  finally show ?thesis .
qed

subsection \<open>What the notifier is sent\<close>

definition new_event :: "eval_env \<Rightarrow> float64 \<Rightarrow> alert_rule \<Rightarrow> alert_event" where
  "new_event e v rule = \<lparr>ae_ID = ev_fresh e, ae_AlertID = ar_ID rule, ae_HostID = getHostIDForRule rule,
                  ae_ContainerID = ar_ContainerID rule, ae_State = ''firing'', ae_Value = v,
                  ae_Threshold = ar_Threshold rule, ae_Message = formatAlertMessage rule v,
                  ae_Labels = ar_Labels rule, ae_FiredAt = ev_now e, ae_ResolvedAt = None,
                  ae_AcknowledgedAt = None, ae_AcknowledgedBy = None, ae_CreatedAt = ev_now e\<rparr>"

text \<open>The insert of the event succeeds.\<close>

definition event_stored :: "eval_env \<Rightarrow> alert_rule \<Rightarrow> alert_store \<Rightarrow> bool" where
  "event_stored e rule s \<longleftrightarrow>
     ev_stmt e 1 \<noteq> None \<and> ev_fresh e \<notin> ae_ID ` set (st_events s) \<and> ar_ID rule \<in> ar_ID ` set (st_rules s)"

lemma UpdateRule_id_list: "map ar_ID (st_rules (snd (repo_UpdateRule st r s))) = map ar_ID (st_rules s)"
  by (cases st) (simp_all add: repo_UpdateRule_def)

lemma UpdateRule_ids [simp]: "ar_ID ` set (st_rules (snd (repo_UpdateRule st r s))) = ar_ID ` set (st_rules s)"
  using arg_cong [OF UpdateRule_id_list, of set st r s] by (simp only: set_map)

lemma fireAlert_sent:
  "st_sent (snd (snd (fireAlert cfg e v (rule, st, s)))) =
     st_sent s @ (if event_stored e rule s \<and> has_notifier cfg
       then [(rule\<lparr>ar_State := ''firing'', ar_StateChangedAt := Some (ev_now e), ar_LastFiredAt := Some (ev_now e),
                   ar_FiringValue := Some v\<rparr>, new_event e v rule)] else [])"
  "map ae_AlertID (st_events (snd (snd (fireAlert cfg e v (rule, st, s))))) =
     map ae_AlertID (st_events s) @ (if event_stored e rule s then [ar_ID rule] else [])"
  by (auto simp: fireAlert_def Let_def repo_CreateEvent_def event_stored_def new_event_def formatAlertMessage_def
      getHostIDForRule_def split: option.split)

lemma evaluateRule_sent:
  assumes "getMetricValue (ev_metrics e) rule = Some v"
  shows "st_sent (evaluateRule cfg e rule s) =
     st_sent s @ (if fires e rule s \<and> event_stored e rule s \<and> has_notifier cfg
       then [(rule_after cfg e v (state_of s (ar_ID rule)) rule, new_event e v rule)] else [])"
proof -
  let ?st = "state_of s (ar_ID rule)"
  have f: "fires e rule s \<longleftrightarrow> MatchesValue rule v \<and> due (ev_now e) rule ?st \<and> \<not> cooling (ev_now e) rule ?st"
    using assms by (auto simp: fires_def cond_met_def)
  have "st_sent (evaluateRule cfg e rule s) =
      st_sent (snd (snd (if MatchesValue rule v then handleConditionMet cfg e v (rule, ?st\<lparr>lastValue := v\<rparr>, s)
        else handleConditionCleared cfg e (rule, ?st\<lparr>lastValue := v\<rparr>, s))))"
    unfolding evaluateRule_def assms option.case state_of_def [symmetric] Let_def
    by (simp add: case_prod_beta)
  also have "\<dots> = st_sent s @ (if fires e rule s \<and> event_stored e rule s \<and> has_notifier cfg
       then [(rule_after cfg e v ?st rule, new_event e v rule)] else [])"
  proof (cases "fires e rule s")
    case True
    then have "rule_after cfg e v ?st rule = rule\<lparr>ar_State := ''firing'', ar_StateChangedAt := Some (ev_now e),
        ar_LastFiredAt := Some (ev_now e), ar_FiringValue := Some v\<rparr>"
      by (simp only: f rule_after_def Let_def handler_simps)
    with True show ?thesis
      by (simp only: f handleConditionMet_eq Let_def timing_lastValue handler_simps fireAlert_sent)
  next
    case False
    then show ?thesis
      by (auto simp only: f handleConditionMet_eq handleConditionCleared_def Let_def timing_lastValue handler_simps
          prod.case snd_conv repo_UpdateRule_keeps repo_ResolveActiveEvents_keeps append_Nil2 split: if_split)
  qed
  finally show ?thesis .
qed

lemma sent_fires: "st_sent (evaluateRule cfg e rule s) \<noteq> st_sent s \<Longrightarrow> fires e rule s"
  using evaluateRule_sent [of e rule _ cfg s] evaluateRule_none [of e rule cfg s]
  by (fastforce simp: evaluated_def split: if_splits)

section \<open>Runs\<close>

text \<open>Evaluations one after the other, each of a rule as it was loaded, with its inputs.\<close>

definition eval_run :: "alert_config \<Rightarrow> (alert_rule \<times> eval_env) list \<Rightarrow> alert_store \<Rightarrow> alert_store" where
  "eval_run cfg xs s = fold (\<lambda>(rule, e). evaluateRule cfg e rule) xs s"

lemma eval_run_simps [simp]:
  "eval_run cfg [] s = s"
  "eval_run cfg (xs @ [(rule, e)]) s = evaluateRule cfg e rule (eval_run cfg xs s)"
  by (simp_all add: eval_run_def)

text \<open>Every evaluation of rule \<open>i\<close> in the list that got a value met the condition, the first at \<open>t\<close>.\<close>

definition held_since :: "uuid \<Rightarrow> gotime \<Rightarrow> (alert_rule \<times> eval_env) list \<Rightarrow> bool" where
  "held_since i t zs \<longleftrightarrow>
     (\<exists>r e ws. zs = (r, e) # ws \<and> ar_ID r = i \<and> cond_met e r \<and> ev_now e = t) \<and>
     (\<forall>(r, e) \<in> set zs. ar_ID r = i \<and> evaluated e r \<longrightarrow> cond_met e r)"

lemma held_since_snoc:
  "held_since i t zs \<Longrightarrow> ar_ID r \<noteq> i \<or> \<not> evaluated e r \<or> cond_met e r \<Longrightarrow> held_since i t (zs @ [(r, e)])"
  by (auto simp: held_since_def)

lemma held_since_start: "cond_met e r \<Longrightarrow> held_since (ar_ID r) (ev_now e) [(r, e)]"
  by (simp add: held_since_def)

lemma state_of_evaluateRule:
  "state_of (evaluateRule cfg e rule s) i =
     (if i = ar_ID rule \<and> evaluated e rule
      then state_after e (the (getMetricValue (ev_metrics e) rule)) rule (state_of s i) else state_of s i)"
  by (auto simp: state_of_def [of "evaluateRule cfg e rule s"] evaluateRule_states evaluated_def
      split: option.split) (auto simp: state_of_def)

lemma pending_held:
  assumes "ruleStates s0 = Map.empty" and "pendingSince (state_of (eval_run cfg xs s0) i) = Some t"
  shows "\<exists>ys zs. xs = ys @ zs \<and> held_since i t zs"
  using assms(2)
proof (induction xs rule: rev_induct)
  case Nil
  then show ?case using assms(1) by (simp add: state_of_def new_rule_state_def)
next
  case (snoc x xs)
  obtain r e where x: "x = (r, e)" by (cases x)
  let ?st = "state_of (eval_run cfg xs s0) i"
  show ?case
  proof (cases "ar_ID r = i \<and> evaluated e r")
    case False
    then have "pendingSince ?st = Some t"
      using snoc.prems by (auto simp: x state_of_evaluateRule)
    then obtain ys zs where "xs = ys @ zs" "held_since i t zs" using snoc.IH by blast
    moreover have "held_since i t (zs @ [x])"
      unfolding x using False \<open>held_since i t zs\<close> by (intro held_since_snoc) auto
    ultimately show ?thesis by (intro exI [of _ ys] exI [of _ "zs @ [x]"]) simp
  next
    case True
    then obtain v where v: "getMetricValue (ev_metrics e) r = Some v" by (auto simp: evaluated_def)
    with True snoc.prems have m: "MatchesValue r v" and t: "since (ev_now e) ?st = t"
      by (auto simp: x state_of_evaluateRule state_after_def split: if_splits)
    have met: "cond_met e r" using v m by (auto simp: cond_met_def)
    show ?thesis
    proof (cases "pendingSince ?st")
      case None
      then have "held_since i t [x]"
        using held_since_start [OF met] True t by (simp add: x since_def)
      then show ?thesis by blast
    next
      case (Some u)
      then obtain ys zs where "xs = ys @ zs" "held_since i t zs" using snoc.IH t by (auto simp: since_def)
      moreover have "held_since i t (zs @ [x])"
        unfolding x using met \<open>held_since i t zs\<close> by (intro held_since_snoc) auto
      ultimately show ?thesis by (intro exI [of _ ys] exI [of _ "zs @ [x]"]) simp
    qed
  qed
qed

lemma time_sub_mono: "u \<le> u' \<Longrightarrow> time_sub t u' \<le> time_sub t u"
  by (auto simp: time_sub_def)

lemma lastFired_after:
  assumes "\<forall>(r, e) \<in> set zs. t \<le> ev_now e" and "t \<le> lastFired (state_of s i)"
  shows "t \<le> lastFired (state_of (eval_run cfg zs s) i)"
  using assms
proof (induction zs rule: rev_induct)
  case (snoc x xs)
  obtain r e where x: "x = (r, e)" by (cases x)
  with snoc show ?case by (auto simp: state_of_evaluateRule state_after_def)
qed simp

lemma eval_run_append: "eval_run cfg (xs @ ys) s = eval_run cfg ys (eval_run cfg xs s)"
  by (simp add: eval_run_def)

lemma fires_lastFired:
  assumes "fires e rule s"
  shows "lastFired (state_of (evaluateRule cfg e rule s) (ar_ID rule)) = ev_now e"
proof -
  obtain v where "getMetricValue (ev_metrics e) rule = Some v" "MatchesValue rule v"
    using assms by (auto simp: fires_def cond_met_def)
  with assms show ?thesis
    by (simp add: state_of_evaluateRule evaluated_def state_after_def fires_def)
qed

lemma held_pending:
  assumes "pendingSince (state_of s i) = None" and "held_since i t zs"
  shows "pendingSince (state_of (eval_run cfg zs s) i) = Some t"
  using assms(2)
proof (induction zs rule: rev_induct)
  case Nil
  then show ?case by (simp add: held_since_def)
next
  case (snoc x xs)
  obtain r e where x: "x = (r, e)" by (cases x)
  let ?s = "eval_run cfg xs s"
  have met: "cond_met e r" if "ar_ID r = i" "evaluated e r"
    using snoc.prems that by (auto simp: held_since_def x)
  have p: "pendingSince (state_of ?s i) = (if xs = [] then None else Some t)"
  proof (cases "xs = []")
    case False
    then have "held_since i t xs"
      using snoc.prems by (cases xs) (auto simp: held_since_def)
    with snoc.IH False show ?thesis by simp
  qed (simp add: assms(1))
  show ?case
  proof (cases "ar_ID r = i \<and> evaluated e r")
    case True
    then obtain v where v: "getMetricValue (ev_metrics e) r = Some v" "MatchesValue r v"
      using met by (auto simp: cond_met_def)
    have "since (ev_now e) (state_of ?s i) = t"
      using p snoc.prems by (cases xs) (auto simp: since_def held_since_def x)
    with True v show ?thesis by (simp add: x state_of_evaluateRule state_after_def)
  next
    case False
    then have "xs \<noteq> []" using snoc.prems by (cases xs) (auto simp: held_since_def x cond_met_def evaluated_def)
    with p False show ?thesis by (auto simp: x state_of_evaluateRule)
  qed
qed

lemma evaluateRule_rows:
  assumes "getMetricValue (ev_metrics e) rule = Some v"
    and "row' \<in> set (st_rules (evaluateRule cfg e rule s))" and "ar_ID row' = ar_ID rule"
  shows "(\<exists>t row. row' = update_row t ((rule_after cfg e v (state_of s (ar_ID rule)) rule)\<lparr>ar_LastEvaluated := Some (ev_now e)\<rparr>) row) \<or>
         ev_stmt e 2 = None \<and> (\<exists>row \<in> set (st_rules s). row_written (rule_after cfg e v (state_of s (ar_ID rule)) rule) row row')"
proof -
  obtain s1 r' st' where s1: "store_step (rule_after cfg e v (state_of s (ar_ID rule)) rule) s s1"
    and ev: "evaluateRule cfg e rule s =
      snd (repo_UpdateRule (ev_stmt e 2) ((rule_after cfg e v (state_of s (ar_ID rule)) rule)\<lparr>ar_LastEvaluated := Some (ev_now e)\<rparr>)
        (s1\<lparr>ruleStates := (ruleStates s)(ar_ID rule \<mapsto> st')\<rparr>))"
    using evaluateRule_eq [OF assms(1) refl, of cfg s] by blast
  show ?thesis
  proof (cases "ev_stmt e 2")
    case None
    then have "row' \<in> set (st_rules s1)" using assms(2) by (simp add: ev repo_UpdateRule_def)
    then obtain n where "n < length (st_rules s1)" "row' = st_rules s1 ! n" by (auto simp: in_set_conv_nth)
    then have "\<exists>row \<in> set (st_rules s). row_written (rule_after cfg e v (state_of s (ar_ID rule)) rule) row row'"
      using s1 unfolding store_step_def list_all2_conv_all_nth by (metis nth_mem)
    with None show ?thesis by blast
  next
    case (Some t)
    then show ?thesis
      using assms(2,3) by (auto simp: ev repo_UpdateRule_def split: if_splits)
  qed
qed

lemma update_row_fields [simp]:
  "ar_State (update_row t r row) = ar_State r" "ar_IsEnabled (update_row t r row) = ar_IsEnabled r"
  "ar_Threshold (update_row t r row) = ar_Threshold r"
  by (simp_all add: update_row_def)

lemma rule_after_fields [simp]:
  "ar_IsEnabled (rule_after cfg e v st rule) = ar_IsEnabled rule"
  "ar_Threshold (rule_after cfg e v st rule) = ar_Threshold rule"
  by (simp_all add: rule_after_def Let_def)

definition resolve_events :: "uuid \<Rightarrow> gotime \<Rightarrow> alert_event list \<Rightarrow> alert_event list" where
  "resolve_events i t evs = map (\<lambda>row. if ae_AlertID row = i \<and> ae_State row = ''firing''
     then row\<lparr>ae_State := ''resolved'', ae_ResolvedAt := Some t\<rparr> else row) evs"

lemma evaluateRule_events:
  assumes "getMetricValue (ev_metrics e) rule = Some v" and "\<not> fires e rule s"
  shows "st_events (evaluateRule cfg e rule s) =
     (if \<not> MatchesValue rule v \<and> EnableAutoResolve cfg \<and> ar_State rule = ''firing'' \<and> ev_stmt e 1 \<noteq> None
      then resolve_events (ar_ID rule) (ev_now e) (st_events s) else st_events s)"
proof -
  let ?st = "state_of s (ar_ID rule)"
  have f: "\<not> (MatchesValue rule v \<and> due (ev_now e) rule ?st \<and> \<not> cooling (ev_now e) rule ?st)"
    using assms by (auto simp: fires_def cond_met_def)
  have "st_events (evaluateRule cfg e rule s) =
      st_events (snd (snd (if MatchesValue rule v then handleConditionMet cfg e v (rule, ?st\<lparr>lastValue := v\<rparr>, s)
        else handleConditionCleared cfg e (rule, ?st\<lparr>lastValue := v\<rparr>, s))))"
    unfolding evaluateRule_def assms option.case state_of_def [symmetric] Let_def
    by (simp add: case_prod_beta)
  also have "\<dots> = (if \<not> MatchesValue rule v \<and> EnableAutoResolve cfg \<and> ar_State rule = ''firing'' \<and> ev_stmt e 1 \<noteq> None
      then resolve_events (ar_ID rule) (ev_now e) (st_events s) else st_events s)"
  proof (cases "MatchesValue rule v")
    case True
    with f show ?thesis
      by (auto simp only: handleConditionMet_eq Let_def timing_lastValue handler_simps snd_conv
          repo_UpdateRule_keeps split: if_split)
  next
    case False
    then show ?thesis
      by (simp add: handleConditionCleared_def Let_def repo_ResolveActiveEvents_def resolve_events_def
          split: option.split)
  qed
  finally show ?thesis .
qed

text \<open>What a store holds of one rule.\<close>

definition own :: "uuid \<Rightarrow> alert_store \<Rightarrow> alert_rule list \<times> alert_event list \<times> rule_state option" where
  "own i s = (filter (\<lambda>r. ar_ID r = i) (st_rules s), filter (\<lambda>e. ae_AlertID e = i) (st_events s), ruleStates s i)"

lemma own_others: "i \<noteq> j \<Longrightarrow> others j s' = others j s \<Longrightarrow> own i s' = own i s"
proof -
  assume ne: "i \<noteq> j" and eq: "others j s' = others j s"
  have "filter (\<lambda>r. ar_ID r = i) (st_rules x) = filter (\<lambda>r. ar_ID r = i) (fst (others j x))" for x
    using ne by (auto simp: others_def intro: filter_cong)
  moreover have "filter (\<lambda>e. ae_AlertID e = i) (st_events x) = filter (\<lambda>e. ae_AlertID e = i) (fst (snd (others j x)))" for x
    using ne by (auto simp: others_def intro: filter_cong)
  moreover have "ruleStates x i = snd (snd (others j x)) i" for x
    using ne by (simp add: others_def)
  ultimately show "own i s' = own i s" using eq by (simp add: own_def)
qed

lemma fold_evaluateRule_own:
  "\<forall>rule \<in> set rules. ar_ID rule \<noteq> i \<Longrightarrow>
   own i (fold (\<lambda>rule. evaluateRule cfg (env (ar_ID rule)) rule) rules s) = own i s"
proof (induction rules arbitrary: s)
  case (Cons r rules)
  then show ?case using own_others [OF _ evaluateRule_others, of i r cfg "env (ar_ID r)" s] by auto
qed simp

lemma isSilenced_covers:
  assumes "x \<in> set silences" and "\<And>n. silence_IsActive (clk n) x"
    and "si_AlertID x = Some (ar_ID rule) \<or> si_AlertID x = None \<and> si_HostID x = None"
  shows "isSilenced clk rule n silences"
  using assms by (induction silences arbitrary: n) auto

section \<open>Table invariant\<close>

text \<open>Ids are unique, and events and silences refer to rules that exist.\<close>

definition alert_ok :: "alert_store \<Rightarrow> bool" where
  "alert_ok s \<longleftrightarrow>
     distinct (map ar_ID (st_rules s)) \<and> distinct (map ae_ID (st_events s)) \<and> distinct (map si_ID (st_silences s)) \<and>
     ae_AlertID ` set (st_events s) \<subseteq> ar_ID ` set (st_rules s) \<and>
     (\<forall>x \<in> set (st_silences s). \<forall>a. si_AlertID x = Some a \<longrightarrow> a \<in> ar_ID ` set (st_rules s))"

lemma alert_ok_memory [simp]:
  "alert_ok (s\<lparr>ruleStates := x\<rparr>) = alert_ok s" "alert_ok (s\<lparr>st_sent := y\<rparr>) = alert_ok s"
  by (simp_all add: alert_ok_def)

lemma repo_UpdateRule_ok: "alert_ok s \<Longrightarrow> alert_ok (snd (repo_UpdateRule st r s))"
  by (simp add: alert_ok_def UpdateRule_id_list)

lemma repo_CreateRule_ok: "alert_ok s \<Longrightarrow> alert_ok (snd (repo_CreateRule st f r s))"
  by (auto simp: alert_ok_def repo_CreateRule_def Let_def split: option.split)

lemma repo_DeleteRule_ok: "alert_ok s \<Longrightarrow> alert_ok (snd (repo_DeleteRule st i s))"
  by (cases st) (fastforce simp: alert_ok_def repo_DeleteRule_def distinct_map_filter)+

lemma repo_CreateEvent_ok: "alert_ok s \<Longrightarrow> alert_ok (snd (repo_CreateEvent st f ev s))"
  by (auto simp: alert_ok_def repo_CreateEvent_def Let_def split: option.split)

lemma events_map_ok:
  assumes "alert_ok s" and "\<And>x. ae_ID (g x) = ae_ID x" and "\<And>x. ae_AlertID (g x) = ae_AlertID x"
  shows "alert_ok (s\<lparr>st_events := map g (st_events s)\<rparr>)"
proof -
  have "map ae_ID (map g (st_events s)) = map ae_ID (st_events s)" by (simp add: assms(2))
  with assms show ?thesis by (simp add: alert_ok_def image_image del: map_map)
qed

lemma repo_UpdateEvent_ok: "alert_ok s \<Longrightarrow> alert_ok (snd (repo_UpdateEvent st ev s))"
  by (cases st) (simp_all add: repo_UpdateEvent_def events_map_ok)

lemma repo_ResolveActiveEvents_ok: "alert_ok s \<Longrightarrow> alert_ok (snd (repo_ResolveActiveEvents st i t s))"
  by (cases st) (simp_all add: repo_ResolveActiveEvents_def events_map_ok)

lemma repo_silence_ok:
  "alert_ok s \<Longrightarrow> alert_ok (snd (repo_CreateSilence st f x s))"
  "alert_ok s \<Longrightarrow> alert_ok (snd (repo_DeleteSilence st i s))"
  by (auto simp: alert_ok_def repo_CreateSilence_def repo_DeleteSilence_def Let_def distinct_map_filter
      split: option.splits)

lemmas repo_ok = repo_UpdateRule_ok repo_CreateRule_ok repo_DeleteRule_ok repo_CreateEvent_ok repo_UpdateEvent_ok
  repo_ResolveActiveEvents_ok repo_silence_ok

lemma alert_ok_created:
  "repo_CreateEvent st f ev s = (err, s') \<Longrightarrow> alert_ok s \<Longrightarrow> alert_ok s'"
  using repo_CreateEvent_ok [of s st f ev] by simp

lemma fireAlert_ok: "alert_ok s \<Longrightarrow> alert_ok (snd (snd (fireAlert cfg e v (rule, st, s))))"
  by (auto simp: fireAlert_def Let_def split: option.split prod.split
      elim!: alert_ok_created intro!: repo_UpdateRule_ok)

lemma evaluateRule_ok:
  assumes "alert_ok s"
  shows "alert_ok (evaluateRule cfg e rule s)"
proof (cases "getMetricValue (ev_metrics e) rule")
  case None
  with assms show ?thesis by (simp add: evaluateRule_def)
next
  case (Some v)
  let ?h = "if MatchesValue rule v
      then handleConditionMet cfg e v (rule, (state_of s (ar_ID rule))\<lparr>lastValue := v\<rparr>, s)
      else handleConditionCleared cfg e (rule, (state_of s (ar_ID rule))\<lparr>lastValue := v\<rparr>, s)"
  have "alert_ok (snd (snd ?h))"
    using assms by (auto simp: handleConditionMet_eq handleConditionCleared_def Let_def
        intro!: repo_ok fireAlert_ok)
  then show ?thesis
    unfolding evaluateRule_def Some option.case state_of_def [symmetric] Let_def case_prod_beta
    by (intro repo_UpdateRule_ok) simp
qed

datatype alert_op =
    OpEvaluate alert_config statements "uuid \<Rightarrow> nat \<Rightarrow> gotime" "uuid \<Rightarrow> eval_env"
  | OpCreateRule alert_config "nat \<Rightarrow> gotime" "gotime option" uuid create_rule_input "uuid option"
  | OpUpdateRule gotime statements uuid update_rule_input
  | OpDeleteRule "gotime option" uuid
  | OpCreateSilence gotime "gotime option" uuid create_silence_input "uuid option"
  | OpDeleteSilence "gotime option" uuid
  | OpAcknowledge gotime statements uuid uuid
  | OpDefaults alert_config statements "nat \<Rightarrow> nat \<Rightarrow> gotime" "nat \<Rightarrow> gotime option" "nat \<Rightarrow> uuid" "uuid option"

fun run_alert_op :: "alert_op \<Rightarrow> alert_store \<Rightarrow> alert_store" where
  "run_alert_op (OpEvaluate cfg stmt clk env) s = evaluateAllRules cfg stmt clk env s"
| "run_alert_op (OpCreateRule cfg clk stmt f i u) s = snd (CreateRule cfg clk stmt f i u s)"
| "run_alert_op (OpUpdateRule t stmt i inp) s = snd (UpdateRule t stmt i inp s)"
| "run_alert_op (OpDeleteRule stmt i) s = snd (DeleteRule stmt i s)"
| "run_alert_op (OpCreateSilence t stmt f inp u) s = snd (CreateSilence t stmt f inp u s)"
| "run_alert_op (OpDeleteSilence stmt i) s = snd (DeleteSilence stmt i s)"
| "run_alert_op (OpAcknowledge t stmt i u) s = snd (AcknowledgeEvent t stmt i u s)"
| "run_alert_op (OpDefaults cfg stmt clk ins f u) s = snd (InitializeDefaults cfg stmt clk ins f u s)"

lemma fold_evaluateRule_ok:
  "alert_ok s \<Longrightarrow> alert_ok (fold (\<lambda>rule. evaluateRule cfg (env (ar_ID rule)) rule) rules s)"
  by (induction rules arbitrary: s) (auto intro: evaluateRule_ok)

lemma CreateRule_ok: "alert_ok s \<Longrightarrow> alert_ok (snd (CreateRule cfg clk st f i u s))"
  unfolding CreateRule_def Let_def by (rule repo_CreateRule_ok)

lemma create_defaults_ok: "alert_ok s \<Longrightarrow> alert_ok (create_defaults cfg clk st f u n is s)"
  by (induction "is" arbitrary: s n) (auto intro: CreateRule_ok)

lemma snd_update_case:
  "snd (case x of (Some err, s) \<Rightarrow> (Inl err, s) | (None, s) \<Rightarrow> (Inr r, s)) = snd x"
  by (cases x; cases "fst x") auto

lemma run_alert_op_ok: "alert_ok s \<Longrightarrow> alert_ok (run_alert_op op s)"
proof (cases op)
  case (OpUpdateRule t stmt i inp)
  assume "alert_ok s"
  then show ?thesis
    unfolding OpUpdateRule run_alert_op.simps UpdateRule_def
    by (cases "repo_GetRule (stmt 0) i s") (simp_all only: sum.case Let_def snd_update_case snd_conv repo_UpdateRule_ok)
qed (auto simp: evaluateAllRules_def DeleteRule_def CreateSilence_def DeleteSilence_def AcknowledgeEvent_def
      InitializeDefaults_def Let_def split: sum.split
      intro!: fold_evaluateRule_ok CreateRule_ok create_defaults_ok repo_ok)

interpretation alert_tables: op_invariant run_alert_op alert_ok
  by unfold_locales (rule run_alert_op_ok)

section \<open>Properties\<close>


definition demo_rule :: alert_rule where
  "demo_rule =
     \<lparr>ar_ID = 1, ar_HostID = None, ar_ContainerID = None, ar_Name = ''cpu'', ar_Description = [],
      ar_Metric = ''host_cpu'', ar_Operator = ''gt'', ar_Threshold = Finite 90, ar_Severity = ''warning'',
      ar_Duration = 60, ar_Cooldown = 300, ar_EvalInterval = 30, ar_State = ''ok'', ar_StateChangedAt = None,
      ar_LastEvaluated = None, ar_LastFiredAt = None, ar_FiringValue = None, ar_NotifyChannels = [],
      ar_AutoActions = None, ar_IsEnabled = True, ar_Labels = None, ar_CreatedBy = None,
      ar_CreatedAt = 0, ar_UpdatedAt = 0\<rparr>"

definition demo_env :: "rat \<Rightarrow> int \<Rightarrow> uuid \<Rightarrow> eval_env" where
  "demo_env value secs fresh =
     \<lparr>ev_metrics = Some \<lparr>GetHostMetric = \<lambda>_ _. Some (Finite value), GetContainerMetric = \<lambda>_ _ _. None\<rparr>,
      ev_now = secs * second, ev_stmt = \<lambda>_. Some (secs * second), ev_fresh = fresh\<rparr>"

definition demo_store :: alert_store where
  "demo_store = \<lparr>st_rules = [demo_rule], st_events = [], st_silences = [], ruleStates = Map.empty, st_sent = []\<rparr>"

lemma demo_conditions [simp]:
  "evaluated (demo_env v n f) demo_rule" "cond_met (demo_env v n f) demo_rule \<longleftrightarrow> 90 < v"
  "ar_ID demo_rule = 1" "ev_now (demo_env v n f) = n * second" "ev_stmt (demo_env v n f) k = Some (n * second)"
  "ar_Duration demo_rule = 60" "ar_Cooldown demo_rule = 300" "ev_fresh (demo_env v n f) = f" "ar_IsEnabled demo_rule"
  by (simp_all add: evaluated_def cond_met_def demo_env_def demo_rule_def getMetricValue_def MatchesValue_def)

text \<open>
  C1. No alert before its time. In a service started without rule states, after any sequence
  of evaluations (of any rules, as loaded, with any inputs and database faults): when the
  notifier is sent something for a rule, the rule's condition was met at every evaluation of
  it that got a value, back to one that lies at least the rule's duration ago.
\<close>

theorem alert_fires_after_duration:
  assumes "ruleStates s0 = Map.empty" and "s = eval_run cfg xs s0"
    and "st_sent (evaluateRule cfg e rule s) \<noteq> st_sent s"
  shows "\<exists>ys zs t. xs @ [(rule, e)] = ys @ zs \<and> held_since (ar_ID rule) t zs \<and>
                   seconds (ar_Duration rule) \<le> time_sub (ev_now e) t"
proof -
  let ?st = "state_of s (ar_ID rule)"
  have f: "cond_met e rule" "seconds (ar_Duration rule) \<le> time_sub (ev_now e) (since (ev_now e) ?st)"
    using sent_fires [OF assms(3)] by (simp_all add: fires_def due_def)
  show ?thesis
  proof (cases "pendingSince ?st")
    case None
    then show ?thesis
      using f held_since_start [OF f(1)] by (intro exI [of _ xs] exI [of _ "[(rule, e)]"]) (auto simp: since_def)
  next
    case (Some t)
    then obtain ys zs where "xs = ys @ zs" "held_since (ar_ID rule) t zs"
      using pending_held assms(1,2) by blast
    then show ?thesis
      using f Some held_since_snoc
      by (intro exI [of _ ys] exI [of _ "zs @ [(rule, e)]"] exI [of _ t]) (auto simp: since_def)
  qed
qed

theorem alert_fires_after_duration_witness:
  "\<exists>ys zs t. [(demo_rule, demo_env 95 10 5), (demo_rule, demo_env 95 70 6)] = ys @ zs \<and>
     held_since 1 t zs \<and> seconds 60 \<le> time_sub (70 * second) t"
proof -
  let ?s = "eval_run DefaultAlertConfig [(demo_rule, demo_env 95 10 5)] demo_store"
  have "length (st_sent (evaluateRule DefaultAlertConfig (demo_env 95 70 6) demo_rule ?s)) = 1"
    and "length (st_sent ?s) = 0"
    by code_simp+
  then have "st_sent (evaluateRule DefaultAlertConfig (demo_env 95 70 6) demo_rule ?s) \<noteq> st_sent ?s"
    by auto
  from alert_fires_after_duration [OF _ refl this] show ?thesis
    by (simp add: demo_store_def)
qed

text \<open>
  C6. Cooldown. After the notifier was sent an alert of a rule at time \<open>t\<close>, with clock
  readings that do not go back behind it, the next one for the rule comes only when the rule's
  cooldown (when positive) has passed since.
\<close>

theorem alert_cooldown_respected:
  assumes "st_sent (evaluateRule cfg e1 r1 s) \<noteq> st_sent s" and "time_zero < ev_now e1"
    and "\<forall>(r, e) \<in> set zs. ev_now e1 \<le> ev_now e"
    and "s' = eval_run cfg zs (evaluateRule cfg e1 r1 s)"
    and "st_sent (evaluateRule cfg e rule s') \<noteq> st_sent s'" and "ar_ID rule = ar_ID r1"
  shows "seconds (ar_Cooldown rule) \<le> 0 \<or> seconds (ar_Cooldown rule) \<le> time_sub (ev_now e) (ev_now e1)"
proof -
  have "ev_now e1 \<le> lastFired (state_of s' (ar_ID r1))"
    unfolding assms(4) using assms(3) fires_lastFired [OF sent_fires [OF assms(1)]] by (intro lastFired_after) auto
  moreover have "\<not> cooling (ev_now e) rule (state_of s' (ar_ID r1))"
    using sent_fires [OF assms(5)] assms(6) by (simp add: fires_def)
  ultimately show ?thesis
    using assms(2) time_sub_mono [of "ev_now e1" "lastFired (state_of s' (ar_ID r1))" "ev_now e"]
    by (auto simp: cooling_def is_zero_def)
qed

theorem alert_cooldown_respected_witness:
  "seconds 300 \<le> 0 \<or> seconds 300 \<le> time_sub (400 * second) (70 * second)"
proof -
  let ?s = "evaluateRule DefaultAlertConfig (demo_env 95 10 5) demo_rule demo_store"
  let ?s1 = "evaluateRule DefaultAlertConfig (demo_env 95 70 6) demo_rule ?s"
  let ?s2 = "eval_run DefaultAlertConfig [(demo_rule, demo_env 95 100 7)] ?s1"
  have "length (st_sent ?s) = 0" "length (st_sent ?s1) = 1" "length (st_sent ?s2) = 1"
    "length (st_sent (evaluateRule DefaultAlertConfig (demo_env 95 400 8) demo_rule ?s2)) = 2"
    by code_simp+
  then have "st_sent ?s1 \<noteq> st_sent ?s"
    and "st_sent (evaluateRule DefaultAlertConfig (demo_env 95 400 8) demo_rule ?s2) \<noteq> st_sent ?s2"
    by auto
  from alert_cooldown_respected [OF this(1) _ _ refl this(2)] show ?thesis
    by (simp add: time_simps)
qed



text \<open>
  State machine. When a rule is evaluated as its row has it, the row's state afterwards is the
  one before, or pending or firing (only when the condition is met), or resolved after firing or
  ok after pending (only when it is not).
\<close>

theorem alert_state_transitions:
  assumes "\<forall>row \<in> set (st_rules s). ar_ID row = ar_ID rule \<longrightarrow> ar_State row = ar_State rule"
    and "row' \<in> set (st_rules (evaluateRule cfg e rule s))" and "ar_ID row' = ar_ID rule"
  shows "ar_State row' = ar_State rule \<or>
         cond_met e rule \<and> ar_State row' \<in> {''pending'', ''firing''} \<or>
         \<not> cond_met e rule \<and> (ar_State rule, ar_State row') \<in> {(''firing'', ''resolved''), (''pending'', ''ok'')}"
proof (cases "getMetricValue (ev_metrics e) rule")
  case None
  then show ?thesis using assms evaluateRule_none [of e rule cfg s] by (auto simp: evaluated_def)
next
  case (Some v)
  let ?r = "rule_after cfg e v (state_of s (ar_ID rule)) rule"
  have "ar_State row' = ar_State ?r \<or> ar_State row' = ar_State rule"
    using evaluateRule_rows [OF Some assms(2,3)] assms(1,3) by (auto simp: row_written_def)
  moreover have "cond_met e rule \<longleftrightarrow> MatchesValue rule v" using Some by (auto simp: cond_met_def)
  ultimately show ?thesis by (auto simp: rule_after_def Let_def split: if_splits)
qed

theorem alert_state_transitions_witness:
  "ar_State ` set (st_rules (evaluateRule DefaultAlertConfig (demo_env 95 10 5) demo_rule demo_store))
     \<subseteq> {''ok'', ''pending'', ''firing''}"
proof (rule image_subsetI)
  fix row
  assume row: "row \<in> set (st_rules (evaluateRule DefaultAlertConfig (demo_env 95 10 5) demo_rule demo_store))"
  have "ar_ID row = 1"
    using row evaluateRule_others [of demo_rule DefaultAlertConfig "demo_env 95 10 5" demo_store]
    by (auto simp: others_def demo_store_def filter_empty_conv)
  then show "ar_State row \<in> {''ok'', ''pending'', ''firing''}"
    using alert_state_transitions [OF _ row] by (auto simp: demo_store_def demo_rule_def)
qed

text \<open>
  Recovery. With auto-resolve on, an evaluation that finds a firing rule's condition cleared
  leaves no firing event of the rule (when the statement that resolves them runs) and touches no
  event of another rule or state.
\<close>

theorem alert_recovery_resolves:
  assumes "EnableAutoResolve cfg" and "ar_State rule = ''firing''" and "evaluated e rule" and "\<not> cond_met e rule"
    and "ev_stmt e 1 \<noteq> None"
  shows "st_events (evaluateRule cfg e rule s) = resolve_events (ar_ID rule) (ev_now e) (st_events s) \<and>
         (\<forall>ev \<in> set (st_events (evaluateRule cfg e rule s)). ae_AlertID ev = ar_ID rule \<longrightarrow> ae_State ev \<noteq> ''firing'')"
proof -
  obtain v where v: "getMetricValue (ev_metrics e) rule = Some v" "\<not> MatchesValue rule v"
    using assms(3,4) by (auto simp: evaluated_def cond_met_def)
  have "\<not> fires e rule s" using assms(4) by (simp add: fires_def)
  with evaluateRule_events [OF v(1) this, of cfg] assms v(2) show ?thesis
    by (auto simp: resolve_events_def)
qed

theorem alert_recovery_resolves_witness:
  "st_events (evaluateRule DefaultAlertConfig (demo_env 10 500 9) (demo_rule\<lparr>ar_State := ''firing''\<rparr>)
     (demo_store\<lparr>st_events := [new_event (demo_env 95 70 6) (Finite 95) demo_rule]\<rparr>)) =
   resolve_events 1 (500 * second) [new_event (demo_env 95 70 6) (Finite 95) demo_rule]"
proof -
  have "evaluated (demo_env 10 500 9) (demo_rule\<lparr>ar_State := ''firing''\<rparr>)"
    "\<not> cond_met (demo_env 10 500 9) (demo_rule\<lparr>ar_State := ''firing''\<rparr>)"
    by (simp_all add: evaluated_def cond_met_def demo_env_def demo_rule_def getMetricValue_def MatchesValue_def)
  with alert_recovery_resolves [of DefaultAlertConfig "demo_rule\<lparr>ar_State := ''firing''\<rparr>" "demo_env 10 500 9"
      "demo_store\<lparr>st_events := [new_event (demo_env 95 70 6) (Finite 95) demo_rule]\<rparr>"] show ?thesis
    by (simp add: DefaultAlertConfig_def)
qed

text \<open>
  A restart strands firing events. The states are in memory only: when a service that has
  just started evaluates a rule whose row is firing, with the condition still met and a positive
  duration, the rule goes back to pending; when the condition then clears, it goes to ok, and the
  events of the earlier firing are still firing.
\<close>

theorem alert_restart_strands_events:
  assumes "ruleStates s (ar_ID rule) = None" and "cond_met e1 rule" and "0 < seconds (ar_Duration rule)"
    and "ev_stmt e1 2 \<noteq> None" and "s1 = evaluateRule cfg e1 rule s"
    and "rule' \<in> set (st_rules s1)" and "ar_ID rule' = ar_ID rule" and "evaluated e2 rule'" and "\<not> cond_met e2 rule'"
    and "ev_stmt e2 2 \<noteq> None" and "s2 = evaluateRule cfg e2 rule' s1"
  shows "ar_State rule' = ''pending'' \<and> st_events s2 = st_events s \<and>
         (\<forall>row \<in> set (st_rules s2). ar_ID row = ar_ID rule \<longrightarrow> ar_State row = ''ok'')"
proof -
  obtain v where v: "getMetricValue (ev_metrics e1) rule = Some v" "MatchesValue rule v"
    using assms(2) by (auto simp: cond_met_def)
  have "\<not> due (ev_now e1) rule (state_of s (ar_ID rule))"
    using assms(1,3) by (simp add: due_def since_def state_of_def new_rule_state_def time_sub_def)
  then have nf: "\<not> fires e1 rule s" and after: "ar_State (rule_after cfg e1 v (state_of s (ar_ID rule)) rule) = ''pending''"
    using v by (simp_all add: fires_def rule_after_def Let_def)
  have ev1: "st_events s1 = st_events s"
    using evaluateRule_events [OF v(1) nf] v(2) assms(5) by simp
  have pend: "ar_State rule' = ''pending''"
    using evaluateRule_rows [OF v(1) assms(6) [unfolded assms(5)] assms(7)] assms(4) after by auto
  obtain w where w: "getMetricValue (ev_metrics e2) rule' = Some w" "\<not> MatchesValue rule' w"
    using assms(8,9) by (auto simp: evaluated_def cond_met_def)
  have nf2: "\<not> fires e2 rule' s1" using assms(9) by (simp add: fires_def)
  have "st_events s2 = st_events s"
    using evaluateRule_events [OF w(1) nf2] pend ev1 assms(11) by simp
  moreover have "ar_State row = ''ok''" if "row \<in> set (st_rules s2)" "ar_ID row = ar_ID rule" for row
  proof -
    have "ar_State (rule_after cfg e2 w (state_of s1 (ar_ID rule')) rule') = ''ok''"
      using w(2) pend by (simp add: rule_after_def Let_def)
    then show ?thesis
      using evaluateRule_rows [OF w(1) that(1) [unfolded assms(11)]] that(2) assms(7,10) by auto
  qed
  ultimately show ?thesis using pend by blast
qed

theorem alert_restart_strands_events_witness:
  "\<exists>s2. s2 = evaluateRule DefaultAlertConfig (demo_env 10 40 9)
            (hd (st_rules (evaluateRule DefaultAlertConfig (demo_env 95 10 8) demo_rule
               (demo_store\<lparr>st_events := [new_event (demo_env 95 0 6) (Finite 95) demo_rule]\<rparr>))))
            (evaluateRule DefaultAlertConfig (demo_env 95 10 8) demo_rule
               (demo_store\<lparr>st_events := [new_event (demo_env 95 0 6) (Finite 95) demo_rule]\<rparr>)) \<and>
        map ae_State (st_events s2) = [''firing'']"
proof -
  let ?s = "demo_store\<lparr>st_events := [new_event (demo_env 95 0 6) (Finite 95) demo_rule]\<rparr>"
  let ?s1 = "evaluateRule DefaultAlertConfig (demo_env 95 10 8) demo_rule ?s"
  let ?r = "hd (st_rules ?s1)"
  have "length (st_rules ?s1) = 1" "ar_ID ?r = 1" and d2: "getMetricValue (ev_metrics (demo_env 10 40 9)) ?r = Some (Finite 10)"
    "\<not> MatchesValue ?r (Finite 10)"
    by code_simp+
  then have r: "?r \<in> set (st_rules ?s1)" "ar_ID ?r = ar_ID demo_rule" by (cases "st_rules ?s1"; simp)+
  have e2: "evaluated (demo_env 10 40 9) ?r" "\<not> cond_met (demo_env 10 40 9) ?r"
    using d2 by (simp_all add: evaluated_def cond_met_def)
  have "st_events (evaluateRule DefaultAlertConfig (demo_env 10 40 9) ?r ?s1) = st_events ?s"
    using alert_restart_strands_events [OF _ _ _ _ refl r e2 _ refl]
    by (simp add: demo_store_def seconds_exact second_def)
  then show ?thesis by (simp add: new_event_def)
qed

text \<open>
  A silenced rule is left alone: while a silence of the rule (or a global one) is active, a
  round of evaluations changes neither the rule's row nor its events nor its state in memory.
\<close>

theorem silenced_rule_untouched:
  assumes "x \<in> set (st_silences s)" and "stmt 2 = Some t" and "si_StartsAt x \<le> t" and "t < si_EndsAt x"
    and "\<And>n. silence_IsActive (clk i n) x"
    and "si_AlertID x = Some i \<or> si_AlertID x = None \<and> si_HostID x = None"
  shows "own i (evaluateAllRules cfg stmt clk env s) = own i s"
proof (cases "repo_ListEnabledRules stmt s")
  case (Inl err)
  then show ?thesis by (simp add: evaluateAllRules_def)
next
  case (Inr rules)
  define sil where "sil = sort_key (\<lambda>x. - si_StartsAt x) (filter (\<lambda>x. si_StartsAt x \<le> t \<and> t < si_EndsAt x) (st_silences s))"
  have "x \<in> set sil" using assms by (simp add: sil_def)
  then have "\<forall>rule \<in> set (filter (\<lambda>rule. \<not> isSilenced (clk (ar_ID rule)) rule 0 sil) rules). ar_ID rule \<noteq> i"
    using isSilenced_covers [of x sil "clk i"] assms(5,6) by auto
  then have "own i (fold (\<lambda>rule. evaluateRule cfg (env (ar_ID rule)) rule)
      (filter (\<lambda>rule. \<not> isSilenced (clk (ar_ID rule)) rule 0 sil) rules) s) = own i s"
    by (rule fold_evaluateRule_own)
  then show ?thesis
    using Inr assms(2) by (simp add: evaluateAllRules_def repo_GetActiveSilences_def sil_def)
qed

theorem silenced_rule_untouched_witness:
  "own 1 (evaluateAllRules DefaultAlertConfig (\<lambda>_. Some 50) (\<lambda>_ _. 50) (\<lambda>_. demo_env 95 70 6)
     (demo_store\<lparr>st_silences := [\<lparr>si_ID = 3, si_AlertID = Some 1, si_HostID = None, si_Reason = [], si_StartsAt = 10,
        si_EndsAt = 100, si_CreatedBy = None, si_CreatedAt = 5\<rparr>]\<rparr>)) = ([demo_rule], [], None)"
proof -
  let ?x = "\<lparr>si_ID = 3, si_AlertID = Some 1, si_HostID = None, si_Reason = [], si_StartsAt = 10,
        si_EndsAt = 100, si_CreatedBy = None, si_CreatedAt = 5\<rparr> :: alert_silence"
  have "own 1 (evaluateAllRules DefaultAlertConfig (\<lambda>_. Some 50) (\<lambda>_ _. 50) (\<lambda>_. demo_env 95 70 6)
     (demo_store\<lparr>st_silences := [?x]\<rparr>)) = own 1 (demo_store\<lparr>st_silences := [?x]\<rparr>)"
    by (rule silenced_rule_untouched [where x = ?x and t = 50]) (simp_all add: silence_IsActive_def)
  then show ?thesis by (simp add: own_def demo_store_def)
qed

text \<open>
  An evaluation overwrites concurrent edits: it ends by writing the copy of the rule that was
  loaded at the start of the round, so whatever the table holds by then (a rule disabled or
  given a new threshold in between), the row has the loaded copy's enabled flag and threshold
  again.
\<close>

theorem evaluation_overwrites_edits:
  assumes "evaluated e rule" and "ev_stmt e 2 \<noteq> None"
    and "row \<in> set (st_rules (evaluateRule cfg e rule s))" and "ar_ID row = ar_ID rule"
  shows "ar_IsEnabled row = ar_IsEnabled rule \<and> ar_Threshold row = ar_Threshold rule"
proof -
  obtain v where v: "getMetricValue (ev_metrics e) rule = Some v"
    using assms(1) by (auto simp: evaluated_def)
  show ?thesis
    using evaluateRule_rows [OF v assms(3,4)] assms(2) by auto
qed

theorem evaluation_overwrites_edits_witness:
  "ar_IsEnabled ` set (st_rules (evaluateRule DefaultAlertConfig (demo_env 95 10 5) demo_rule
     (demo_store\<lparr>st_rules := [demo_rule\<lparr>ar_IsEnabled := False\<rparr>]\<rparr>))) \<subseteq> {True}"
proof (rule image_subsetI)
  let ?s = "demo_store\<lparr>st_rules := [demo_rule\<lparr>ar_IsEnabled := False\<rparr>]\<rparr>"
  fix row
  assume row: "row \<in> set (st_rules (evaluateRule DefaultAlertConfig (demo_env 95 10 5) demo_rule ?s))"
  have "ar_ID row = ar_ID demo_rule"
    using row evaluateRule_others [of demo_rule DefaultAlertConfig "demo_env 95 10 5" ?s]
    by (auto simp: others_def demo_store_def filter_empty_conv)
  then show "ar_IsEnabled row \<in> {True}"
    using evaluation_overwrites_edits [OF _ _ row] by simp
qed

end
