(* ===== verification/Job_Queue.thy ===== *)
theory Job_Queue
  imports Go_Prelude "HOL-Library.AList"
begin

text \<open>
  The background job queue: \<^verbatim>\<open>internal/scheduler/queue.go\<close> over the job model
  \<^verbatim>\<open>internal/models/job.go\<close>.

  Redis, the JSON text of a job and the text of a UUID are not defined here. The queue takes them
  as the record \<open>queue_deps\<close> of the calls it makes, over a state \<open>'r\<close> of the
  server and a type \<open>'d\<close> of encoded jobs; what it relies on is the locale \<open>job_redis\<close>. Clock
  readings are arguments.
\<close>

section \<open>Jobs\<close>

record job =
  j_ID :: uuid
  j_Type :: string
  j_Status :: string
  j_Priority :: int
  j_HostID :: "uuid option"
  j_TargetID :: "string option"
  j_TargetName :: "string option"
  j_Payload :: "string option"
  j_Result :: "string option"
  j_ErrorMessage :: "string option"
  j_Progress :: int
  j_ProgressMessage :: "string option"
  j_Attempts :: int
  j_MaxAttempts :: int
  j_ScheduledAt :: "gotime option"
  j_StartedAt :: "gotime option"
  j_CompletedAt :: "gotime option"
  j_CreatedBy :: "uuid option"
  j_CreatedAt :: gotime
  j_UpdatedAt :: gotime

definition job_IsFinished :: "job \<Rightarrow> bool" where
  "job_IsFinished j \<longleftrightarrow> j_Status j = ''completed'' \<or> j_Status j = ''failed'' \<or> j_Status j = ''canceled''"

definition job_CanRetry :: "job \<Rightarrow> bool" where
  "job_CanRetry j \<longleftrightarrow> j_Status j = ''failed'' \<and> j_Attempts j < j_MaxAttempts j"

definition job_Duration :: "gotime \<Rightarrow> job \<Rightarrow> duration" where
  "job_Duration now j =
     (case j_StartedAt j of
        None \<Rightarrow> 0
      | Some t \<Rightarrow> time_sub (case j_CompletedAt j of None \<Rightarrow> now | Some u \<Rightarrow> u) t)"

abbreviation (input) JobPriorityLow :: int where "JobPriorityLow \<equiv> 1"
abbreviation (input) JobPriorityNormal :: int where "JobPriorityNormal \<equiv> 5"
abbreviation (input) JobPriorityHigh :: int where "JobPriorityHigh \<equiv> 10"
abbreviation (input) JobPriorityCritical :: int where "JobPriorityCritical \<equiv> 20"

section \<open>What the queue calls\<close>

text \<open>
  \<open>None\<close> and \<open>False\<close> are errors; \<open>Some None\<close> of \<open>rd_Get\<close> is
  \<^verbatim>\<open>redis.Nil\<close>. \<open>rd_Run\<close> runs a script, \<open>call_ZREM\<close> and \<open>call_ZADD\<close> are the
  commands inside it. A sorted set's scores are the values of \<^verbatim>\<open>float64\<close>
  numbers, which are integers here.
\<close>

record ('r, 'd) queue_deps =
  rd_Set :: "string \<Rightarrow> 'd \<Rightarrow> duration \<Rightarrow> 'r \<Rightarrow> bool \<times> 'r"
  rd_Get :: "string \<Rightarrow> 'r \<Rightarrow> 'd option option \<times> 'r"
  rd_Del :: "string \<Rightarrow> 'r \<Rightarrow> 'r"
  rd_Expire :: "string \<Rightarrow> duration \<Rightarrow> 'r \<Rightarrow> 'r"
  rd_ZAdd :: "string \<Rightarrow> int \<Rightarrow> string \<Rightarrow> 'r \<Rightarrow> bool \<times> 'r"
  rd_ZRem :: "string \<Rightarrow> string \<Rightarrow> 'r \<Rightarrow> 'r"
  rd_ZRangeByScore :: "string \<Rightarrow> int \<Rightarrow> nat option \<Rightarrow> 'r \<Rightarrow> string list option \<times> 'r"
  rd_ZRemRangeByScore :: "string \<Rightarrow> int \<Rightarrow> 'r \<Rightarrow> int option \<times> 'r"
  rd_ZCard :: "string \<Rightarrow> 'r \<Rightarrow> int option \<times> 'r"
  rd_Run :: "('r \<Rightarrow> int \<times> 'r) \<Rightarrow> 'r \<Rightarrow> int option \<times> 'r"
  call_ZREM :: "string \<Rightarrow> string \<Rightarrow> 'r \<Rightarrow> int \<times> 'r"
  call_ZADD :: "string \<Rightarrow> int \<Rightarrow> string \<Rightarrow> 'r \<Rightarrow> 'r"
  json_Marshal :: "job \<Rightarrow> 'd option"
  json_Unmarshal :: "'d \<Rightarrow> job option"
  uuid_String :: "uuid \<Rightarrow> string"
  uuid_Parse :: "string \<Rightarrow> uuid option"

section \<open>Scores\<close>

text \<open>
  \<^verbatim>\<open>float64(n)\<close> of an \<^verbatim>\<open>int64\<close>: 53 significant bits, to nearest with ties to even.
\<close>

fun bit_length :: "nat \<Rightarrow> nat" where
  "bit_length n = (if n = 0 then 0 else Suc (bit_length (n div 2)))"

declare bit_length.simps [simp del]

definition round53 :: "nat \<Rightarrow> nat" where
  "round53 n =
     (let e = bit_length n - 53; p = 2 ^ e; q = n div p; r = n mod p in
      if 2 * r < p \<or> (2 * r = p \<and> even q) then q * p else (q + 1) * p)"

definition float_of_int :: "int \<Rightarrow> int" where
  "float_of_int x = (if x < 0 then - int (round53 (nat (- x))) else int (round53 (nat x)))"

text \<open>\<^verbatim>\<open>float64(t.UnixNano())\<close>\<close>

definition score :: "gotime \<Rightarrow> int" where
  "score t = float_of_int (wrap64 t)"

section \<open>Keys\<close>

definition priorityName :: "int \<Rightarrow> string" where
  "priorityName p =
     (if p = JobPriorityCritical then ''critical'' else if p = JobPriorityHigh then ''high''
      else if p = JobPriorityNormal then ''normal'' else if p = JobPriorityLow then ''low'' else ''normal'')"

definition queueKey :: "int \<Rightarrow> string" where
  "queueKey p = ''usulnet:jobs:queue:'' @ priorityName p"

definition jobDataKey :: "('r, 'd) queue_deps \<Rightarrow> uuid \<Rightarrow> string" where
  "jobDataKey R i = ''usulnet:jobs:data:'' @ uuid_String R i"

definition runningKey :: string where
  "runningKey = ''usulnet:jobs:running''"

definition deadLetterKey :: string where
  "deadLetterKey = ''usulnet:jobs:dead''"

definition defaultVisibilityTimeout :: duration where "defaultVisibilityTimeout = 5 * minute"
definition defaultJobTTL :: duration where "defaultJobTTL = 24 * hour"
definition deadLetterTTL :: duration where "deadLetterTTL = 7 * 24 * hour"

definition priorities :: "int list" where
  "priorities = [JobPriorityCritical, JobPriorityHigh, JobPriorityNormal, JobPriorityLow]"

section \<open>Operations\<close>

datatype queue_error =
    MarshalFailed | StoreFailed | EnqueueFailed | JobNotFound | GetFailed | UnmarshalFailed
  | CannotCancelFinished | StaleQueryFailed | DeadQueryFailed | DeadRemoveFailed

definition GetJob :: "('r, 'd) queue_deps \<Rightarrow> uuid \<Rightarrow> 'r \<Rightarrow> (queue_error + job) \<times> 'r" where
  "GetJob R jobID s =
     (case rd_Get R (jobDataKey R jobID) s of
        (None, s) \<Rightarrow> (Inl GetFailed, s)
      | (Some None, s) \<Rightarrow> (Inl JobNotFound, s)
      | (Some (Some d), s) \<Rightarrow>
          (case json_Unmarshal R d of None \<Rightarrow> (Inl UnmarshalFailed, s) | Some job \<Rightarrow> (Inr job, s)))"

definition updateJobData :: "('r, 'd) queue_deps \<Rightarrow> job \<Rightarrow> 'r \<Rightarrow> queue_error option \<times> 'r" where
  "updateJobData R job s =
     (case json_Marshal R job of
        None \<Rightarrow> (Some MarshalFailed, s)
      | Some d \<Rightarrow>
          (case rd_Set R (jobDataKey R (j_ID job)) d defaultJobTTL s of
             (True, s) \<Rightarrow> (None, s)
           | (False, s) \<Rightarrow> (Some StoreFailed, s)))"

definition Enqueue ::
    "('r, 'd) queue_deps \<Rightarrow> (nat \<Rightarrow> gotime) \<Rightarrow> uuid \<Rightarrow> job \<Rightarrow> 'r \<Rightarrow> (queue_error option \<times> job) \<times> 'r" where
  "Enqueue R clk fresh job s =
     (let job = (if j_ID job = uuid_nil then job\<lparr>j_ID := fresh\<rparr> else job);
          job = (if j_Status job = [] then job\<lparr>j_Status := ''pending''\<rparr> else job);
          job = (if j_Priority job = 0 then job\<lparr>j_Priority := JobPriorityNormal\<rparr> else job);
          job = (if j_MaxAttempts job = 0 then job\<lparr>j_MaxAttempts := 3\<rparr> else job);
          job = job\<lparr>j_CreatedAt := clk 0, j_UpdatedAt := clk 1\<rparr>
      in case json_Marshal R job of
           None \<Rightarrow> ((Some MarshalFailed, job), s)
         | Some d \<Rightarrow>
             (case rd_Set R (jobDataKey R (j_ID job)) d defaultJobTTL s of
                (False, s) \<Rightarrow> ((Some StoreFailed, job), s)
              | (True, s) \<Rightarrow>
                  let sc = (case j_ScheduledAt job of
                              Some t \<Rightarrow> if clk 2 < t then score t else score (clk 3)
                            | None \<Rightarrow> score (clk 3))
                  in case rd_ZAdd R (queueKey (j_Priority job)) sc (uuid_String R (j_ID job)) s of
                       (False, s) \<Rightarrow> ((Some EnqueueFailed, job), rd_Del R (jobDataKey R (j_ID job)) s)
                     | (True, s) \<Rightarrow> ((None, job), s)))"

text \<open>The Lua script: move the member when it is still in the queue.\<close>

definition move_script :: "('r, 'd) queue_deps \<Rightarrow> string \<Rightarrow> string \<Rightarrow> string \<Rightarrow> int \<Rightarrow> 'r \<Rightarrow> int \<times> 'r" where
  "move_script R from to member sc s =
     (case call_ZREM R from member s of
        (removed, s) \<Rightarrow> if removed = 1 then (1, call_ZADD R to sc member s) else (0, s))"

definition atomicMoveToRunning ::
    "('r, 'd) queue_deps \<Rightarrow> duration \<Rightarrow> gotime \<Rightarrow> string \<Rightarrow> uuid \<Rightarrow> 'r \<Rightarrow> bool option \<times> 'r" where
  "atomicMoveToRunning R vt now qk jobID s =
     (case rd_Run R (move_script R qk runningKey (uuid_String R jobID) (score (time_add now vt))) s of
        (None, s) \<Rightarrow> (None, s)
      | (Some n, s) \<Rightarrow> (Some (n = 1), s))"

definition requeueJob :: "('r, 'd) queue_deps \<Rightarrow> gotime \<Rightarrow> uuid \<Rightarrow> 'r \<Rightarrow> queue_error option \<times> 'r" where
  "requeueJob R now jobID s =
     (case GetJob R jobID s of
        (Inl e, s) \<Rightarrow> (Some e, s)
      | (Inr job, s) \<Rightarrow>
          let s = rd_ZRem R runningKey (uuid_String R jobID) s;
              job = job\<lparr>j_Status := ''pending'', j_StartedAt := None\<rparr>
          in case updateJobData R job s of
               (Some e, s) \<Rightarrow> (Some e, s)
             | (None, s) \<Rightarrow>
                 (case rd_ZAdd R (queueKey (j_Priority job)) (score now) (uuid_String R jobID) s of
                    (True, s) \<Rightarrow> (None, s)
                  | (False, s) \<Rightarrow> (Some EnqueueFailed, s)))"

text \<open>
  One pass over the queues; \<open>clk n\<close> gives the clock readings of the \<open>n\<close>-th queue: the move, the
  start of the job, a requeue.
\<close>

fun dequeue_loop ::
    "('r, 'd) queue_deps \<Rightarrow> duration \<Rightarrow> int \<Rightarrow> (nat \<Rightarrow> nat \<Rightarrow> gotime) \<Rightarrow> nat \<Rightarrow> string list \<Rightarrow> 'r \<Rightarrow> job option \<times> 'r" where
  "dequeue_loop R vt now clk n [] s = (None, s)"
| "dequeue_loop R vt now clk n (qk # qks) s =
     (case rd_ZRangeByScore R qk now (Some 1) s of
        (None, s) \<Rightarrow> dequeue_loop R vt now clk (n + 1) qks s
      | (Some [], s) \<Rightarrow> dequeue_loop R vt now clk (n + 1) qks s
      | (Some (m # _), s) \<Rightarrow>
          (case uuid_Parse R m of
             None \<Rightarrow> dequeue_loop R vt now clk (n + 1) qks (rd_ZRem R qk m s)
           | Some jobID \<Rightarrow>
               (case atomicMoveToRunning R vt (clk n 0) qk jobID s of
                  (None, s) \<Rightarrow> dequeue_loop R vt now clk (n + 1) qks s
                | (Some False, s) \<Rightarrow> dequeue_loop R vt now clk (n + 1) qks s
                | (Some True, s) \<Rightarrow>
                    (case GetJob R jobID s of
                       (Inl _, s) \<Rightarrow>
                         dequeue_loop R vt now clk (n + 1) qks (snd (requeueJob R (clk n 2) jobID s))
                     | (Inr job, s) \<Rightarrow>
                         let job = job\<lparr>j_Status := ''running'', j_Attempts := j_Attempts job + 1,
                                       j_StartedAt := Some (clk n 1), j_UpdatedAt := clk n 1\<rparr>
                         in (Some job, snd (updateJobData R job s))))))"

definition Dequeue ::
    "('r, 'd) queue_deps \<Rightarrow> duration \<Rightarrow> gotime \<Rightarrow> (nat \<Rightarrow> nat \<Rightarrow> gotime) \<Rightarrow> 'r \<Rightarrow> job option \<times> 'r" where
  "Dequeue R vt now clk s = dequeue_loop R vt (score now) clk 0 (map queueKey priorities) s"

text \<open>\<open>result\<close> is the encoded result: \<open>None\<close> for nil, \<open>Some None\<close> when it does not encode.\<close>

definition Complete ::
    "('r, 'd) queue_deps \<Rightarrow> gotime \<Rightarrow> uuid \<Rightarrow> string option option \<Rightarrow> 'r \<Rightarrow> queue_error option \<times> 'r" where
  "Complete R now jobID result s =
     (case GetJob R jobID s of
        (Inl e, s) \<Rightarrow> (Some e, s)
      | (Inr job, s) \<Rightarrow>
          let job = job\<lparr>j_Status := ''completed'', j_CompletedAt := Some now, j_UpdatedAt := now, j_Progress := 100\<rparr>;
              job = (case result of Some (Some r) \<Rightarrow> job\<lparr>j_Result := Some r\<rparr> | _ \<Rightarrow> job)
          in case updateJobData R job s of
               (Some e, s) \<Rightarrow> (Some e, s)
             | (None, s) \<Rightarrow> (None, rd_ZRem R runningKey (uuid_String R jobID) s))"

text \<open>\<^verbatim>\<open>base *= 3\<close> on an \<^verbatim>\<open>int64\<close>, once per attempt after the first.\<close>

fun triple_times :: "nat \<Rightarrow> duration \<Rightarrow> duration" where
  "triple_times 0 base = base"
| "triple_times (Suc n) base = triple_times n (wrap64 (base * 3))"

definition calculateBackoff :: "int \<Rightarrow> duration" where
  "calculateBackoff attempt =
     (let base = triple_times (nat (attempt - 1)) (10 * second) in if hour < base then hour else base)"

definition Fail ::
    "('r, 'd) queue_deps \<Rightarrow> (nat \<Rightarrow> gotime) \<Rightarrow> uuid \<Rightarrow> string \<Rightarrow> 'r \<Rightarrow> queue_error option \<times> 'r" where
  "Fail R clk jobID errMsg s =
     (case GetJob R jobID s of
        (Inl e, s) \<Rightarrow> (Some e, s)
      | (Inr job, s) \<Rightarrow>
          let job = job\<lparr>j_ErrorMessage := Some errMsg, j_UpdatedAt := clk 0\<rparr>;
              member = uuid_String R jobID
          in if job_CanRetry job then
               (let scheduledAt = time_add (clk 1) (calculateBackoff (j_Attempts job));
                    job = job\<lparr>j_Status := ''retrying'', j_ScheduledAt := Some scheduledAt\<rparr>
                in case updateJobData R job s of
                     (Some e, s) \<Rightarrow> (Some e, s)
                   | (None, s) \<Rightarrow>
                       (None, snd (rd_ZAdd R (queueKey (j_Priority job)) (score scheduledAt) member
                                     (rd_ZRem R runningKey member s))))
             else
               (let job = job\<lparr>j_Status := ''failed'', j_CompletedAt := Some (clk 1)\<rparr>
                in case updateJobData R job s of
                     (Some e, s) \<Rightarrow> (Some e, s)
                   | (None, s) \<Rightarrow>
                       (None, rd_Expire R (jobDataKey R jobID) deadLetterTTL
                                (snd (rd_ZAdd R deadLetterKey (score (clk 2)) member
                                        (rd_ZRem R runningKey member s))))))"

definition removeFromAllQueues :: "('r, 'd) queue_deps \<Rightarrow> uuid \<Rightarrow> 'r \<Rightarrow> 'r" where
  "removeFromAllQueues R jobID s =
     rd_ZRem R runningKey (uuid_String R jobID)
       (fold (\<lambda>p. rd_ZRem R (queueKey p) (uuid_String R jobID)) priorities s)"

definition Cancel :: "('r, 'd) queue_deps \<Rightarrow> gotime \<Rightarrow> uuid \<Rightarrow> 'r \<Rightarrow> queue_error option \<times> 'r" where
  "Cancel R now jobID s =
     (case GetJob R jobID s of
        (Inl e, s) \<Rightarrow> (Some e, s)
      | (Inr job, s) \<Rightarrow>
          if job_IsFinished job then (Some CannotCancelFinished, s)
          else
            let job = job\<lparr>j_Status := ''canceled'', j_CompletedAt := Some now, j_UpdatedAt := now\<rparr>
            in case updateJobData R job s of
                 (Some e, s) \<Rightarrow> (Some e, s)
               | (None, s) \<Rightarrow> (None, removeFromAllQueues R jobID s))"

definition UpdateProgress ::
    "('r, 'd) queue_deps \<Rightarrow> duration \<Rightarrow> (nat \<Rightarrow> gotime) \<Rightarrow> uuid \<Rightarrow> int \<Rightarrow> string \<Rightarrow> 'r \<Rightarrow> queue_error option \<times> 'r" where
  "UpdateProgress R vt clk jobID progress message s =
     (case GetJob R jobID s of
        (Inl e, s) \<Rightarrow> (Some e, s)
      | (Inr job, s) \<Rightarrow>
          let job = job\<lparr>j_Progress := progress\<rparr>;
              job = (if message \<noteq> [] then job\<lparr>j_ProgressMessage := Some message\<rparr> else job);
              job = job\<lparr>j_UpdatedAt := clk 0\<rparr>;
              s = snd (rd_ZAdd R runningKey (score (time_add (clk 1) vt)) (uuid_String R jobID) s)
          in updateJobData R job s)"

record queue_stats =
  qs_TotalPending :: int
  qs_Running :: int
  qs_DeadLetter :: int
  qs_QueueLengths :: "(string \<times> int) list"

fun count_queues :: "('r, 'd) queue_deps \<Rightarrow> int list \<Rightarrow> queue_stats \<Rightarrow> 'r \<Rightarrow> queue_stats \<times> 'r" where
  "count_queues R [] st s = (st, s)"
| "count_queues R (p # ps) st s =
     (case rd_ZCard R (queueKey p) s of
        (None, s) \<Rightarrow> count_queues R ps st s
      | (Some c, s) \<Rightarrow>
          count_queues R ps (st\<lparr>qs_QueueLengths := qs_QueueLengths st @ [(priorityName p, c)],
                                qs_TotalPending := qs_TotalPending st + c\<rparr>) s)"

definition GetQueueStats :: "('r, 'd) queue_deps \<Rightarrow> 'r \<Rightarrow> queue_stats \<times> 'r" where
  "GetQueueStats R s =
     (let (st, s) = count_queues R priorities
            \<lparr>qs_TotalPending = 0, qs_Running = 0, qs_DeadLetter = 0, qs_QueueLengths = []\<rparr> s;
          (r, s) = rd_ZCard R runningKey s;
          st = (case r of None \<Rightarrow> st | Some c \<Rightarrow> st\<lparr>qs_Running := c\<rparr>);
          (d, s) = rd_ZCard R deadLetterKey s;
          st = (case d of None \<Rightarrow> st | Some c \<Rightarrow> st\<lparr>qs_DeadLetter := c\<rparr>)
      in (st, s))"

text \<open>\<open>clk n\<close> is the clock at the requeue of the \<open>n\<close>-th stale entry.\<close>

fun recover_loop :: "('r, 'd) queue_deps \<Rightarrow> (nat \<Rightarrow> gotime) \<Rightarrow> nat \<Rightarrow> int \<Rightarrow> string list \<Rightarrow> 'r \<Rightarrow> int \<times> 'r" where
  "recover_loop R clk n recovered [] s = (recovered, s)"
| "recover_loop R clk n recovered (m # ms) s =
     (case uuid_Parse R m of
        None \<Rightarrow> recover_loop R clk (n + 1) recovered ms s
      | Some jobID \<Rightarrow>
          (case requeueJob R (clk n) jobID s of
             (Some _, s) \<Rightarrow> recover_loop R clk (n + 1) recovered ms s
           | (None, s) \<Rightarrow> recover_loop R clk (n + 1) (recovered + 1) ms s))"

definition RecoverStaleJobs ::
    "('r, 'd) queue_deps \<Rightarrow> gotime \<Rightarrow> (nat \<Rightarrow> gotime) \<Rightarrow> 'r \<Rightarrow> (queue_error + int) \<times> 'r" where
  "RecoverStaleJobs R now clk s =
     (case rd_ZRangeByScore R runningKey (score now) None s of
        (None, s) \<Rightarrow> (Inl StaleQueryFailed, s)
      | (Some stale, s) \<Rightarrow> (case recover_loop R clk 0 0 stale s of (n, s) \<Rightarrow> (Inr n, s)))"

fun delete_data :: "('r, 'd) queue_deps \<Rightarrow> string list \<Rightarrow> 'r \<Rightarrow> 'r" where
  "delete_data R [] s = s"
| "delete_data R (m # ms) s =
     (case uuid_Parse R m of
        None \<Rightarrow> delete_data R ms s
      | Some jobID \<Rightarrow> delete_data R ms (rd_Del R (jobDataKey R jobID) s))"

definition CleanupDeadLetterQueue ::
    "('r, 'd) queue_deps \<Rightarrow> gotime \<Rightarrow> duration \<Rightarrow> 'r \<Rightarrow> (queue_error + int) \<times> 'r" where
  "CleanupDeadLetterQueue R now maxAge s =
     (let cutoff = score (time_add now (wrap64 (- maxAge))) in
      case rd_ZRangeByScore R deadLetterKey cutoff None s of
        (None, s) \<Rightarrow> (Inl DeadQueryFailed, s)
      | (Some [], s) \<Rightarrow> (Inr 0, s)
      | (Some (m # ms), s) \<Rightarrow>
          (case rd_ZRemRangeByScore R deadLetterKey cutoff (delete_data R (m # ms) s) of
             (None, s) \<Rightarrow> (Inl DeadRemoveFailed, s)
           | (Some removed, s) \<Rightarrow> (Inr removed, s)))"

section \<open>What the queue relies on\<close>

text \<open>The job stored under an id.\<close>

definition stored :: "('r, 'd) queue_deps \<Rightarrow> ('r \<Rightarrow> string \<Rightarrow> 'd option) \<Rightarrow> 'r \<Rightarrow> uuid \<Rightarrow> job option" where
  "stored R dat s u = (case dat s (jobDataKey R u) of None \<Rightarrow> None | Some d \<Rightarrow> json_Unmarshal R d)"

text \<open>Every entry of a queue is the text of an id under which a job of that id is stored.\<close>

definition entry_ok :: "('r, 'd) queue_deps \<Rightarrow> ('r \<Rightarrow> string \<Rightarrow> 'd option) \<Rightarrow> 'r \<Rightarrow> string \<Rightarrow> bool" where
  "entry_ok R dat s m \<longleftrightarrow> (\<exists>u j. m = uuid_String R u \<and> stored R dat s u = Some j \<and> j_ID j = u)"

text \<open>No entry of the sorted set has a score up to \<open>now\<close>.\<close>

definition not_ready :: "('r \<Rightarrow> string \<Rightarrow> string \<Rightarrow> int option) \<Rightarrow> 'r \<Rightarrow> int \<Rightarrow> string \<Rightarrow> bool" where
  "not_ready zs s now k \<longleftrightarrow> (\<forall>m sc. zs s k m = Some sc \<longrightarrow> now < sc)"

text \<open>
  The job was an entry of queue \<open>k\<close> with the least score of the queue, ready at \<open>now\<close>; its entry
  has moved to the running set, and the job as stored has become running with one more attempt.
\<close>

definition taken ::
    "('r, 'd) queue_deps \<Rightarrow> ('r \<Rightarrow> string \<Rightarrow> 'd option) \<Rightarrow> ('r \<Rightarrow> string \<Rightarrow> string \<Rightarrow> int option) \<Rightarrow>
     'r \<Rightarrow> int \<Rightarrow> string \<Rightarrow> job \<Rightarrow> 'r \<Rightarrow> bool" where
  "taken R dat zs s now k job s' \<longleftrightarrow>
     (let m = uuid_String R (j_ID job) in
      (\<exists>sc. zs s k m = Some sc \<and> sc \<le> now \<and> (\<forall>m' sc'. zs s k m' = Some sc' \<longrightarrow> sc \<le> sc')) \<and>
      (\<exists>vis. zs s' = (zs s)(k := (zs s k)(m := None), runningKey := (zs s runningKey)(m \<mapsto> vis))) \<and>
      (\<exists>j t. stored R dat s (j_ID job) = Some j \<and>
         job = j\<lparr>j_Status := ''running'', j_Attempts := j_Attempts j + 1, j_StartedAt := Some t, j_UpdatedAt := t\<rparr>) \<and>
      (\<forall>u. stored R dat s' u =
         (if u = j_ID job \<and> json_Marshal R job \<noteq> None then Some job else stored R dat s u)))"

text \<open>
  A Redis server that answers, seen through the values of its keys (\<open>dat\<close>) and the scores of
  its sorted sets (\<open>zs\<close>), a codec that reads back what it wrote, and UUIDs that parse back
  from their text. A range by score comes in ascending order.
\<close>

locale job_redis =
  fixes R :: "('r, 'd) queue_deps"
    and dat :: "'r \<Rightarrow> string \<Rightarrow> 'd option"
    and zs :: "'r \<Rightarrow> string \<Rightarrow> string \<Rightarrow> int option"
  assumes set_law: "fst (rd_Set R k d ttl s)" "dat (snd (rd_Set R k d ttl s)) = (dat s)(k \<mapsto> d)"
      "zs (snd (rd_Set R k d ttl s)) = zs s"
    and get_law: "fst (rd_Get R k s) = Some (dat s k)" "dat (snd (rd_Get R k s)) = dat s" "zs (snd (rd_Get R k s)) = zs s"
    and del_law: "dat (rd_Del R k s) = (dat s)(k := None)" "zs (rd_Del R k s) = zs s"
    and expire_law: "0 < ttl \<Longrightarrow> dat (rd_Expire R k ttl s) = dat s" "zs (rd_Expire R k ttl s) = zs s"
    and zadd_law: "fst (rd_ZAdd R k sc m s)" "dat (snd (rd_ZAdd R k sc m s)) = dat s"
      "zs (snd (rd_ZAdd R k sc m s)) = (zs s)(k := (zs s k)(m \<mapsto> sc))"
    and zrem_law: "dat (rd_ZRem R k m s) = dat s" "zs (rd_ZRem R k m s) = (zs s)(k := (zs s k)(m := None))"
    and range_law: "\<exists>ms. fst (rd_ZRangeByScore R k mx cnt s) = Some (case cnt of None \<Rightarrow> ms | Some n \<Rightarrow> take n ms) \<and>
        distinct ms \<and> sorted (map (\<lambda>m. the (zs s k m)) ms) \<and>
        set ms = {m. \<exists>sc. zs s k m = Some sc \<and> sc \<le> mx}"
      "dat (snd (rd_ZRangeByScore R k mx cnt s)) = dat s" "zs (snd (rd_ZRangeByScore R k mx cnt s)) = zs s"
    and run_law: "rd_Run R f s = (Some (fst (f s)), snd (f s))"
    and call_zrem_law: "fst (call_ZREM R k m s) = (if zs s k m = None then 0 else 1)"
      "dat (snd (call_ZREM R k m s)) = dat s" "zs (snd (call_ZREM R k m s)) = (zs s)(k := (zs s k)(m := None))"
    and call_zadd_law: "dat (call_ZADD R k sc m s) = dat s" "zs (call_ZADD R k sc m s) = (zs s)(k := (zs s k)(m \<mapsto> sc))"
    and codec_law: "json_Marshal R j = Some d \<Longrightarrow> json_Unmarshal R d = Some j"
    and uuid_law: "uuid_Parse R (uuid_String R u) = Some u"
begin

lemma uuid_String_inj [simp]: "uuid_String R u = uuid_String R v \<longleftrightarrow> u = v"
  using uuid_law [of u] uuid_law [of v] by (metis option.inject)

lemma jobDataKey_inj [simp]: "jobDataKey R u = jobDataKey R v \<longleftrightarrow> u = v"
  by (simp add: jobDataKey_def)

lemma GetJob_eq:
  "\<exists>s'. GetJob R u s =
     ((case dat s (jobDataKey R u) of
         None \<Rightarrow> Inl JobNotFound
       | Some d \<Rightarrow> (case json_Unmarshal R d of None \<Rightarrow> Inl UnmarshalFailed | Some j \<Rightarrow> Inr j)), s') \<and>
     dat s' = dat s \<and> zs s' = zs s"
proof -
  obtain s' where "rd_Get R (jobDataKey R u) s = (Some (dat s (jobDataKey R u)), s')" "dat s' = dat s" "zs s' = zs s"
    using get_law [of "jobDataKey R u" s] by (cases "rd_Get R (jobDataKey R u) s") auto
  then show ?thesis by (auto simp: GetJob_def split: option.split)
qed

lemma GetJob_view:
  "dat (snd (GetJob R u s)) = dat s" "zs (snd (GetJob R u s)) = zs s"
  "fst (GetJob R u s) = Inr j \<longleftrightarrow> stored R dat s u = Some j"
  "dat s (jobDataKey R u) = None \<Longrightarrow> fst (GetJob R u s) = Inl JobNotFound"
  using GetJob_eq [of u s] by (auto simp: stored_def split: option.splits)

lemma updateJobData_eq:
  "\<exists>s'. updateJobData R j s = (if json_Marshal R j = None then Some MarshalFailed else None, s') \<and> zs s' = zs s \<and>
     dat s' = (case json_Marshal R j of None \<Rightarrow> dat s | Some d \<Rightarrow> (dat s)(jobDataKey R (j_ID j) \<mapsto> d))"
proof (cases "json_Marshal R j")
  case None
  then show ?thesis by (simp add: updateJobData_def)
next
  case (Some d)
  obtain s' where "rd_Set R (jobDataKey R (j_ID j)) d defaultJobTTL s = (True, s')"
      "dat s' = (dat s)(jobDataKey R (j_ID j) \<mapsto> d)" "zs s' = zs s"
    using set_law [of "jobDataKey R (j_ID j)" d defaultJobTTL s]
    by (cases "rd_Set R (jobDataKey R (j_ID j)) d defaultJobTTL s") auto
  with Some show ?thesis by (simp add: updateJobData_def)
qed

lemma stored_data:
  "dat s' = (case json_Marshal R j of None \<Rightarrow> dat s | Some d \<Rightarrow> (dat s)(jobDataKey R (j_ID j) \<mapsto> d)) \<Longrightarrow>
   stored R dat s' u = (if u = j_ID j \<and> json_Marshal R j \<noteq> None then Some j else stored R dat s u)"
  using codec_law [of j] by (auto simp: stored_def split: option.splits)

lemma stored_cong: "dat s' = dat s \<Longrightarrow> stored R dat s' u = stored R dat s u"
  by (simp add: stored_def)

lemma atomicMoveToRunning_eq:
  assumes "m = uuid_String R u" and "zs s k m = Some sc" and "k \<noteq> runningKey"
  shows "\<exists>s'. atomicMoveToRunning R vt now k u s = (Some True, s') \<and> dat s' = dat s \<and>
     zs s' = (zs s)(k := (zs s k)(m := None), runningKey := (zs s runningKey)(m \<mapsto> score (time_add now vt)))"
  using assms call_zrem_law [of k m s]
  by (auto simp: atomicMoveToRunning_def run_law move_script_def call_zadd_law split: prod.split)

lemma requeueJob_eq:
  assumes "stored R dat s u = Some j" and "j_ID j = u"
    and "j' = j\<lparr>j_Status := ''pending'', j_StartedAt := None\<rparr>" and "json_Marshal R j' \<noteq> None"
  shows "\<exists>s'. requeueJob R now u s = (None, s') \<and>
     (\<forall>v. stored R dat s' v = (if v = u then Some j' else stored R dat s v)) \<and>
     zs s' = (let z = (zs s)(runningKey := (zs s runningKey)(uuid_String R u := None));
                  q = queueKey (j_Priority j) in z(q := (z q)(uuid_String R u \<mapsto> score now)))"
proof -
  let ?m = "uuid_String R u"
  obtain s1 where s1: "GetJob R u s = (Inr j, s1)" "dat s1 = dat s" "zs s1 = zs s"
    using GetJob_view(1,2) [of u s] GetJob_view(3) [of u s j] assms(1) by (metis prod.collapse)
  obtain s2 where s2: "updateJobData R j' (rd_ZRem R runningKey ?m s1) = (None, s2)"
      "zs s2 = (zs s)(runningKey := (zs s runningKey)(?m := None))"
      "dat s2 = (case json_Marshal R j' of None \<Rightarrow> dat s | Some d \<Rightarrow> (dat s)(jobDataKey R (j_ID j') \<mapsto> d))"
    using updateJobData_eq [of j' "rd_ZRem R runningKey ?m s1"] assms(4) s1 by (auto simp: zrem_law)
  obtain s3 where s3: "rd_ZAdd R (queueKey (j_Priority j)) (score now) ?m s2 = (True, s3)" "dat s3 = dat s2"
      "zs s3 = (zs s2)(queueKey (j_Priority j) := (zs s2 (queueKey (j_Priority j)))(?m \<mapsto> score now))"
    using zadd_law [of "queueKey (j_Priority j)" "score now" ?m s2]
    by (cases "rd_ZAdd R (queueKey (j_Priority j)) (score now) ?m s2") auto
  have "requeueJob R now u s = (None, s3)"
    using s1 s2 s3 assms(3) by (simp add: requeueJob_def)
  moreover have "stored R dat s3 v = (if v = u then Some j' else stored R dat s v)" for v
    using stored_data [OF s2(3)] stored_cong [OF s3(2)] assms(2,3,4) by simp
  ultimately show ?thesis using s2(2) s3(3) by (auto simp: Let_def)
qed

lemma range_first:
  obtains s' where "rd_ZRangeByScore R k now (Some 1) s = (Some [], s')" "not_ready zs s now k" "dat s' = dat s" "zs s' = zs s"
  | m sc s' where "rd_ZRangeByScore R k now (Some 1) s = (Some [m], s')" "zs s k m = Some sc" "sc \<le> now"
      "\<forall>m' sc'. zs s k m' = Some sc' \<longrightarrow> sc \<le> sc'" "dat s' = dat s" "zs s' = zs s"
proof -
  obtain ms where ms: "fst (rd_ZRangeByScore R k now (Some 1) s) = Some (take 1 ms)" "sorted (map (\<lambda>m. the (zs s k m)) ms)"
      "set ms = {m. \<exists>sc. zs s k m = Some sc \<and> sc \<le> now}"
    using range_law(1) [of k now "Some 1" s] by auto
  obtain r s' where rs: "rd_ZRangeByScore R k now (Some 1) s = (r, s')" by fastforce
  have view: "dat s' = dat s" "zs s' = zs s"
    using range_law(2,3) [of k now "Some 1" s] rs by simp_all
  show thesis
  proof (cases ms)
    case Nil
    then have "not_ready zs s now k" using ms(3) by (auto simp: not_ready_def not_le [symmetric])
    with that(1) rs ms(1) Nil view show ?thesis by simp
  next
    case (Cons m ms')
    then obtain sc where sc: "zs s k m = Some sc" "sc \<le> now" using ms(3) by auto
    have "sc \<le> sc'" if m': "zs s k m' = Some sc'" for m' sc'
    proof (cases "sc' \<le> now")
      case True
      then have "m' \<in> set ms" using ms(3) m' by auto
      then show ?thesis using ms(2) Cons sc(1) m' by auto
    qed (use sc(2) in simp)
    then show ?thesis using that(2) [of m s' sc] rs ms(1) Cons view sc by auto
  qed
qed

lemma dequeue_loop_spec:
  assumes "dequeue_loop R vt now clk n ks s = (r, s')" and "runningKey \<notin> set ks"
    and "\<forall>k \<in> set ks. \<forall>m. zs s k m \<noteq> None \<longrightarrow> entry_ok R dat s m"
  shows "(r = None \<and> (\<forall>k \<in> set ks. not_ready zs s now k) \<and> zs s' = zs s \<and> dat s' = dat s) \<or>
         (\<exists>ks1 k ks2 job. ks = ks1 @ k # ks2 \<and> (\<forall>k' \<in> set ks1. not_ready zs s now k') \<and> r = Some job \<and> taken R dat zs s now k job s')"
  using assms
proof (induction ks arbitrary: n s)
  case Nil
  then show ?case by simp
next
  case (Cons k ks)
  show ?case
  proof (cases rule: range_first [of k now s])
    case (1 s1)
    then have "dequeue_loop R vt now clk (n + 1) ks s1 = (r, s')" using Cons.prems(1) by simp
    moreover have "entry_ok R dat s1 m \<longleftrightarrow> entry_ok R dat s m" "not_ready zs s1 now k' \<longleftrightarrow> not_ready zs s now k'"
        "taken R dat zs s1 now k' job s' \<longleftrightarrow> taken R dat zs s now k' job s'" for m k' job
      using 1 stored_cong [OF 1(3)] by (simp_all add: entry_ok_def not_ready_def taken_def)
    ultimately have "(r = None \<and> (\<forall>k \<in> set ks. not_ready zs s now k) \<and> zs s' = zs s1 \<and> dat s' = dat s1) \<or>
         (\<exists>ks1 k ks2 job. ks = ks1 @ k # ks2 \<and> (\<forall>k' \<in> set ks1. not_ready zs s now k') \<and> r = Some job \<and> taken R dat zs s now k job s')"
      using Cons.IH [of "n + 1" s1] Cons.prems(2,3) 1 by simp
    then show ?thesis
    proof
      assume "\<exists>ks1 k ks2 job. ks = ks1 @ k # ks2 \<and> (\<forall>k' \<in> set ks1. not_ready zs s now k') \<and> r = Some job \<and> taken R dat zs s now k job s'"
      then obtain ks1 k2 ks2 job where "ks = ks1 @ k2 # ks2" "\<forall>k' \<in> set ks1. not_ready zs s now k'" "r = Some job" "taken R dat zs s now k2 job s'"
        by blast
      then show ?thesis
        using 1(2) by (intro disjI2 exI [of _ "k # ks1"] exI [of _ k2] exI [of _ ks2] exI [of _ job]) simp
    qed (use 1 in simp)
  next
    case (2 m sc s1)
    then obtain u j where u: "m = uuid_String R u" "stored R dat s u = Some j" "j_ID j = u"
      using Cons.prems(3) by (auto simp: entry_ok_def)
    obtain s2 where s2: "atomicMoveToRunning R vt (clk n 0) k u s1 = (Some True, s2)" "dat s2 = dat s1"
       "zs s2 = (zs s1)(k := (zs s1 k)(m := None), runningKey := (zs s1 runningKey)(m \<mapsto> score (time_add (clk n 0) vt)))"
      using atomicMoveToRunning_eq [of m u s1 k sc vt "clk n 0"] u(1) 2 Cons.prems(2) by auto
    obtain s3 where s3: "GetJob R u s2 = (Inr j, s3)" "dat s3 = dat s2" "zs s3 = zs s2"
      using GetJob_view(1,2) [of u s2] GetJob_view(3) [of u s2 j] u(2) s2(2) 2(5) stored_cong [of s2 s] by (metis prod.collapse)
    define job where "job = j\<lparr>j_Status := ''running'', j_Attempts := j_Attempts j + 1,
        j_StartedAt := Some (clk n 1), j_UpdatedAt := clk n 1\<rparr>"
    obtain e s4 where s4: "updateJobData R job s3 = (e, s4)" "zs s4 = zs s3"
        "dat s4 = (case json_Marshal R job of None \<Rightarrow> dat s3 | Some d \<Rightarrow> (dat s3)(jobDataKey R (j_ID job) \<mapsto> d))"
      using updateJobData_eq [of job s3] by blast
    have jid: "j_ID job = u" using u(3) by (simp add: job_def)
    have "r = Some job" and "s' = s4"
      using Cons.prems(1) 2(1) u(1) s2(1) s3(1) s4(1) by (auto simp: uuid_law job_def)
    moreover have "stored R dat s4 v = (if v = u \<and> json_Marshal R job \<noteq> None then Some job else stored R dat s v)" for v
      using stored_data [OF s4(3), of v] stored_cong [of s3 s v] s3(2) s2(2) 2(5) jid by auto
    ultimately have "taken R dat zs s now k job s'"
      using 2 u s2 s3 s4 by (auto simp: taken_def Let_def job_def)
    then show ?thesis using \<open>r = Some job\<close> by (intro disjI2 exI [of _ "[]"] exI [of _ k] exI [of _ ks] exI [of _ job]) simp
  qed
qed

lemma queue_keys:
  "runningKey \<notin> set (map queueKey priorities)" "deadLetterKey \<notin> set (map queueKey priorities)"
  "queueKey p \<noteq> runningKey" "queueKey p \<noteq> deadLetterKey" "runningKey \<noteq> deadLetterKey"
  by (simp_all add: runningKey_def deadLetterKey_def queueKey_def priorities_def priorityName_def)

lemma Dequeue_spec:
  assumes "Dequeue R vt now clk s = (r, s')"
    and "\<forall>p \<in> set priorities. \<forall>m. zs s (queueKey p) m \<noteq> None \<longrightarrow> entry_ok R dat s m"
  shows "(r = None \<and> (\<forall>p \<in> set priorities. not_ready zs s (score now) (queueKey p)) \<and> zs s' = zs s \<and> dat s' = dat s) \<or>
         (\<exists>ps1 p ps2 job. priorities = ps1 @ p # ps2 \<and> (\<forall>p' \<in> set ps1. not_ready zs s (score now) (queueKey p')) \<and>
            r = Some job \<and> taken R dat zs s (score now) (queueKey p) job s')"
proof -
  have "(r = None \<and> (\<forall>k \<in> set (map queueKey priorities). not_ready zs s (score now) k) \<and> zs s' = zs s \<and> dat s' = dat s) \<or>
        (\<exists>ks1 k ks2 job. map queueKey priorities = ks1 @ k # ks2 \<and> (\<forall>k' \<in> set ks1. not_ready zs s (score now) k') \<and>
           r = Some job \<and> taken R dat zs s (score now) k job s')"
    using assms queue_keys(1) by (intro dequeue_loop_spec) (auto simp: Dequeue_def)
  then show ?thesis
  proof
    assume "\<exists>ks1 k ks2 job. map queueKey priorities = ks1 @ k # ks2 \<and> (\<forall>k' \<in> set ks1. not_ready zs s (score now) k') \<and>
           r = Some job \<and> taken R dat zs s (score now) k job s'"
    then obtain ks1 k ks2 job where *: "map queueKey priorities = ks1 @ k # ks2" "\<forall>k' \<in> set ks1. not_ready zs s (score now) k'"
        "r = Some job" "taken R dat zs s (score now) k job s'" by blast
    then obtain ps1 p ps2 where "priorities = ps1 @ p # ps2" "ks1 = map queueKey ps1" "k = queueKey p"
      by (auto simp: map_eq_append_conv)
    with * show ?thesis by (intro disjI2 exI [of _ ps1] exI [of _ p] exI [of _ ps2] exI [of _ job]) auto
  qed simp
qed

lemma Fail_dead:
  assumes "stored R dat s u = Some j" and "j_ID j = u" and "j_Status j \<noteq> ''failed''"
    and "Fail R clk u msg s = (None, s')"
  shows "\<exists>j'. stored R dat s' u = Some j' \<and> j_Status j' = ''failed'' \<and>
     zs s' = (zs s)(runningKey := (zs s runningKey)(uuid_String R u := None),
                    deadLetterKey := (zs s deadLetterKey)(uuid_String R u \<mapsto> score (clk 2)))"
proof -
  let ?m = "uuid_String R u"
  define j' where "j' = j\<lparr>j_ErrorMessage := Some msg, j_UpdatedAt := clk 0, j_Status := ''failed'', j_CompletedAt := Some (clk 1)\<rparr>"
  have j': "j_ID j' = u" "j_Status j' = ''failed''" using assms(2) by (simp_all add: j'_def)
  obtain s1 where s1: "GetJob R u s = (Inr j, s1)" "dat s1 = dat s" "zs s1 = zs s"
    using GetJob_view(1,2) [of u s] GetJob_view(3) [of u s j] assms(1) by (metis prod.collapse)
  have nr: "\<not> job_CanRetry (j\<lparr>j_ErrorMessage := Some msg, j_UpdatedAt := clk 0\<rparr>)"
    using assms(3) by (simp add: job_CanRetry_def)
  obtain e s2 where s2: "updateJobData R j' s1 = (e, s2)" "e = (if json_Marshal R j' = None then Some MarshalFailed else None)"
      "zs s2 = zs s1" "dat s2 = (case json_Marshal R j' of None \<Rightarrow> dat s1 | Some d \<Rightarrow> (dat s1)(jobDataKey R (j_ID j') \<mapsto> d))"
    using updateJobData_eq [of j' s1] by blast
  have step: "Fail R clk u msg s = (case e of Some e \<Rightarrow> (Some e, s2) | None \<Rightarrow>
      (None, rd_Expire R (jobDataKey R u) deadLetterTTL
         (snd (rd_ZAdd R deadLetterKey (score (clk 2)) ?m (rd_ZRem R runningKey ?m s2)))))"
    using s1(1) nr s2(1) by (simp add: Fail_def j'_def Let_def split: option.split)
  then have e: "e = None" and s': "s' = rd_Expire R (jobDataKey R u) deadLetterTTL
         (snd (rd_ZAdd R deadLetterKey (score (clk 2)) ?m (rd_ZRem R runningKey ?m s2)))"
    using assms(4) by (auto split: option.splits)
  have d: "dat s' = dat s2"
    unfolding s' by (subst expire_law(1)) (simp_all add: zadd_law zrem_law deadLetterTTL_def second_def)
  have "stored R dat s' u = Some j'"
    using stored_data [OF s2(4), of u] stored_cong [OF d, of u] e s2(2) j'(1) by (simp split: if_splits)
  moreover have "zs s' = (zs s)(runningKey := (zs s runningKey)(?m := None),
                    deadLetterKey := (zs s deadLetterKey)(?m \<mapsto> score (clk 2)))"
    unfolding s' by (simp add: expire_law zadd_law zrem_law s2(3) s1(3) queue_keys)
  ultimately show ?thesis using j'(2) by blast
qed

text \<open>A pass over stale entries: entries of jobs that are stored go back to their queues.\<close>

lemma recover_loop_spec:
  assumes "recover_loop R clk n c ms s = (c', s')" and "distinct ms" and "\<forall>m \<in> set ms. entry_ok R dat s m"
    and "\<And>j. json_Marshal R j \<noteq> None"
  shows "c' = c + int (length ms) \<and>
     (\<forall>m. zs s' runningKey m = (if m \<in> set ms then None else zs s runningKey m)) \<and>
     (\<forall>u j. uuid_String R u \<in> set ms \<longrightarrow> stored R dat s u = Some j \<longrightarrow>
        zs s' (queueKey (j_Priority j)) (uuid_String R u) \<noteq> None \<and>
        stored R dat s' u = Some (j\<lparr>j_Status := ''pending'', j_StartedAt := None\<rparr>)) \<and>
     (\<forall>m k. m \<notin> set ms \<longrightarrow> zs s' k m = zs s k m) \<and>
     (\<forall>u. uuid_String R u \<notin> set ms \<longrightarrow> stored R dat s' u = stored R dat s u)"
  using assms(1-3)
proof (induction ms arbitrary: n c s)
  case Nil
  then show ?case by simp
next
  case (Cons m ms)
  obtain u j where u: "m = uuid_String R u" "stored R dat s u = Some j" "j_ID j = u"
    using Cons.prems(3) by (auto simp: entry_ok_def)
  define j' where "j' = j\<lparr>j_Status := ''pending'', j_StartedAt := None\<rparr>"
  define q where "q = queueKey (j_Priority j)"
  obtain s1 where s1: "requeueJob R (clk n) u s = (None, s1)"
      "\<forall>v. stored R dat s1 v = (if v = u then Some j' else stored R dat s v)"
      "zs s1 = (zs s)(runningKey := (zs s runningKey)(m := None), q := (zs s q)(m \<mapsto> score (clk n)))"
    using requeueJob_eq [OF u(2,3) refl assms(4), of "clk n"] u(1) queue_keys(3) [of "j_Priority j"]
    by (auto simp: j'_def q_def Let_def)
  have q: "q \<noteq> runningKey" by (simp add: q_def queue_keys)
  have rest: "recover_loop R clk (n + 1) (c + 1) ms s1 = (c', s')"
    using Cons.prems(1) u(1) s1(1) by (simp add: uuid_law)
  have nm: "m \<notin> set ms" "distinct ms" using Cons.prems(2) by auto
  have ok: "\<forall>m \<in> set ms. entry_ok R dat s1 m"
  proof
    fix m' assume m': "m' \<in> set ms"
    then obtain v jv where "m' = uuid_String R v" "stored R dat s v = Some jv" "j_ID jv = v"
      using Cons.prems(3) by (auto simp: entry_ok_def)
    moreover have "v \<noteq> u" using m' nm(1) u(1) calculation(1) by auto
    ultimately show "entry_ok R dat s1 m'" using s1(2) by (auto simp: entry_ok_def)
  qed
  note IH = Cons.IH [OF rest nm(2) ok]
  show ?case
  proof (intro conjI allI impI)
    show "c' = c + int (length (m # ms))" using IH by simp
    show "zs s' runningKey x = (if x \<in> set (m # ms) then None else zs s runningKey x)" for x
      using IH s1(3) q by simp
    show "zs s' k x = zs s k x" if "x \<notin> set (m # ms)" for x k
      using IH that s1(3) by auto
    show "stored R dat s' v = stored R dat s v" if "uuid_String R v \<notin> set (m # ms)" for v
      using IH that s1(2) u(1) by auto
    fix v jv
    assume v: "uuid_String R v \<in> set (m # ms)" "stored R dat s v = Some jv"
    have eq: "v = u \<longleftrightarrow> uuid_String R v = m" using u(1) by simp
    show "zs s' (queueKey (j_Priority jv)) (uuid_String R v) \<noteq> None"
    proof (cases "v = u")
      case True
      then have "zs s' (queueKey (j_Priority jv)) m = Some (score (clk n))"
        using IH nm(1) s1(3) v(2) u by (simp add: q_def)
      then show ?thesis using True u(1) by simp
    next
      case False
      with IH v s1(2) eq show ?thesis by simp
    qed
    show "stored R dat s' v = Some (jv\<lparr>j_Status := ''pending'', j_StartedAt := None\<rparr>)"
    proof (cases "v = u")
      case True
      then show ?thesis using IH nm(1) s1(2) v(2) u by (simp add: j'_def)
    next
      case False
      with IH v s1(2) eq show ?thesis by simp
    qed
  qed
qed

lemma RecoverStaleJobs_spec:
  assumes "RecoverStaleJobs R now clk s = (Inr n, s')" and "\<And>j. json_Marshal R j \<noteq> None"
    and "\<forall>m sc. zs s runningKey m = Some sc \<and> sc \<le> score now \<longrightarrow> entry_ok R dat s m"
  shows "(\<forall>m sc. zs s' runningKey m = Some sc \<longleftrightarrow> zs s runningKey m = Some sc \<and> score now < sc) \<and>
     (\<forall>u j sc. zs s runningKey (uuid_String R u) = Some sc \<and> sc \<le> score now \<and> stored R dat s u = Some j \<longrightarrow>
        zs s' (queueKey (j_Priority j)) (uuid_String R u) \<noteq> None \<and>
        stored R dat s' u = Some (j\<lparr>j_Status := ''pending'', j_StartedAt := None\<rparr>)) \<and>
     n = int (card {m. \<exists>sc. zs s runningKey m = Some sc \<and> sc \<le> score now})"
proof -
  obtain ms where ms: "fst (rd_ZRangeByScore R runningKey (score now) None s) = Some ms" "distinct ms"
      "set ms = {m. \<exists>sc. zs s runningKey m = Some sc \<and> sc \<le> score now}"
    using range_law(1) [of runningKey "score now" None s] by auto
  obtain s1 where s1: "rd_ZRangeByScore R runningKey (score now) None s = (Some ms, s1)" "dat s1 = dat s" "zs s1 = zs s"
    using ms(1) range_law(2,3) [of runningKey "score now" None s] by (metis prod.collapse)
  have st: "stored R dat s1 u = stored R dat s u" for u
    using s1(2) by (rule stored_cong)
  have loop: "recover_loop R clk 0 0 ms s1 = (n, s')"
    using assms(1) s1(1) by (auto simp: RecoverStaleJobs_def split: prod.splits)
  have "\<forall>m \<in> set ms. entry_ok R dat s1 m"
    using assms(3) ms(3) by (simp add: entry_ok_def st)
  note spec = recover_loop_spec [OF loop ms(2) this assms(2)]
  have "zs s' runningKey m = Some sc \<longleftrightarrow> zs s runningKey m = Some sc \<and> score now < sc" for m sc
    using spec ms(3) s1(3) by (auto simp: not_le [symmetric])
  moreover have "n = int (card (set ms))" using spec distinct_card [OF ms(2)] by simp
  ultimately show ?thesis using spec ms(3) by (simp add: st)
qed

end

section \<open>A server in memory\<close>

text \<open>
  A server that meets the contract: keys and sorted sets as maps and lists, jobs stored as they
  are, and UUIDs written as their bits.
\<close>

record mem =
  m_data :: "string \<Rightarrow> job option"
  m_z :: "string \<Rightarrow> (string \<times> int) list"

definition mem_zs :: "mem \<Rightarrow> string \<Rightarrow> string \<Rightarrow> int option" where
  "mem_zs s k = map_of (m_z s k)"

definition mem_zadd :: "string \<Rightarrow> int \<Rightarrow> string \<Rightarrow> mem \<Rightarrow> mem" where
  "mem_zadd k sc m s = s\<lparr>m_z := (m_z s)(k := AList.update m sc (m_z s k))\<rparr>"

definition mem_zrem :: "string \<Rightarrow> string \<Rightarrow> mem \<Rightarrow> mem" where
  "mem_zrem k m s = s\<lparr>m_z := (m_z s)(k := AList.delete m (m_z s k))\<rparr>"

definition mem_range :: "string \<Rightarrow> int \<Rightarrow> mem \<Rightarrow> string list" where
  "mem_range k mx s = map fst (sort_key snd (filter (\<lambda>(m, sc). sc \<le> mx) (AList.clearjunk (m_z s k))))"

definition bits_String :: "uuid \<Rightarrow> string" where
  "bits_String u = map (\<lambda>n. if bit u n then CHR ''1'' else CHR ''0'') [0..<128]"

definition bits_Parse :: "string \<Rightarrow> uuid option" where
  "bits_Parse s = (if length s = 128 then Some (horner_sum of_bool 2 (map (\<lambda>c. c = CHR ''1'') s)) else None)"

definition mem_redis :: "(mem, job) queue_deps" where
  "mem_redis =
     \<lparr>rd_Set = \<lambda>k d ttl s. (True, s\<lparr>m_data := (m_data s)(k \<mapsto> d)\<rparr>),
      rd_Get = \<lambda>k s. (Some (m_data s k), s),
      rd_Del = \<lambda>k s. s\<lparr>m_data := (m_data s)(k := None)\<rparr>,
      rd_Expire = \<lambda>k ttl s. s,
      rd_ZAdd = \<lambda>k sc m s. (True, mem_zadd k sc m s),
      rd_ZRem = mem_zrem,
      rd_ZRangeByScore = \<lambda>k mx cnt s.
        (Some (case cnt of None \<Rightarrow> mem_range k mx s | Some n \<Rightarrow> take n (mem_range k mx s)), s),
      rd_ZRemRangeByScore = \<lambda>k mx s.
        (Some (int (length (mem_range k mx s))), s\<lparr>m_z := (m_z s)(k := filter (\<lambda>(m, sc). mx < sc) (m_z s k))\<rparr>),
      rd_ZCard = \<lambda>k s. (Some (int (length (AList.clearjunk (m_z s k)))), s),
      rd_Run = \<lambda>f s. (Some (fst (f s)), snd (f s)),
      call_ZREM = \<lambda>k m s. (if map_of (m_z s k) m = None then 0 else 1, mem_zrem k m s),
      call_ZADD = mem_zadd,
      json_Marshal = Some, json_Unmarshal = Some,
      uuid_String = bits_String, uuid_Parse = bits_Parse\<rparr>"

lemma bits_round: "bits_Parse (bits_String u) = Some u"
proof -
  have "map (\<lambda>c. c = CHR ''1'') (bits_String u) = map (bit u) [0..<128]"
    by (auto simp: bits_String_def)
  then show ?thesis
    by (simp add: bits_Parse_def horner_sum_bit_eq_take_bit take_bit_word_eq_self) (simp add: bits_String_def)
qed

lemma mem_zs_simps [simp]:
  "mem_zs (mem_zadd k sc m s) = (mem_zs s)(k := (mem_zs s k)(m \<mapsto> sc))"
  "mem_zs (mem_zrem k m s) = (mem_zs s)(k := (mem_zs s k)(m := None))"
  "m_data (mem_zadd k sc m s) = m_data s" "m_data (mem_zrem k m s) = m_data s"
  "mem_zs (s\<lparr>m_data := x\<rparr>) = mem_zs s"
  by (auto simp: mem_zs_def mem_zadd_def mem_zrem_def update_conv' delete_conv')

lemma mem_range_law:
  "distinct (mem_range k mx s)" "sorted (map (\<lambda>m. the (mem_zs s k m)) (mem_range k mx s))"
  "set (mem_range k mx s) = {m. \<exists>sc. mem_zs s k m = Some sc \<and> sc \<le> mx}"
proof -
  let ?l = "AList.clearjunk (m_z s k)"
  let ?f = "sort_key snd (filter (\<lambda>(m, sc). sc \<le> mx) ?l)"
  have d: "distinct (map fst ?l)" by (rule distinct_clearjunk)
  have look: "mem_zs s k m = Some sc" if "(m, sc) \<in> set ?l" for m sc
    using that d by (metis mem_zs_def map_of_clearjunk map_of_is_SomeI)
  show "distinct (mem_range k mx s)"
    unfolding mem_range_def using distinct_map_filter [OF d] by (simp add: distinct_map)
  have "map (\<lambda>m. the (mem_zs s k m)) (mem_range k mx s) = map snd ?f"
    using look by (auto simp: mem_range_def)
  then show "sorted (map (\<lambda>m. the (mem_zs s k m)) (mem_range k mx s))" by simp
  show "set (mem_range k mx s) = {m. \<exists>sc. mem_zs s k m = Some sc \<and> sc \<le> mx}"
    using look by (auto simp: mem_range_def mem_zs_def image_iff) (metis map_of_SomeD map_of_clearjunk case_prodI fst_conv mem_Collect_eq)
qed

interpretation mem: job_redis mem_redis m_data mem_zs
proof
  show "\<exists>ms. fst (rd_ZRangeByScore mem_redis k mx cnt s) = Some (case cnt of None \<Rightarrow> ms | Some n \<Rightarrow> take n ms) \<and>
        distinct ms \<and> sorted (map (\<lambda>m. the (mem_zs s k m)) ms) \<and>
        set ms = {m. \<exists>sc. mem_zs s k m = Some sc \<and> sc \<le> mx}" for k mx cnt s
    using mem_range_law [where k = k and mx = mx and s = s] by (intro exI [of _ "mem_range k mx s"]) (simp add: mem_redis_def)
qed (simp_all add: mem_redis_def bits_round, simp_all add: mem_zs_def)

section \<open>Properties\<close>

text \<open>A job and servers holding it, for the examples.\<close>

definition demo_job :: job where
  "demo_job =
     \<lparr>j_ID = 7, j_Type = ''cleanup'', j_Status = ''pending'', j_Priority = JobPriorityHigh, j_HostID = None,
      j_TargetID = None, j_TargetName = None, j_Payload = Some ''{}'', j_Result = None, j_ErrorMessage = None,
      j_Progress = 0, j_ProgressMessage = None, j_Attempts = 0, j_MaxAttempts = 3, j_ScheduledAt = None,
      j_StartedAt = None, j_CompletedAt = None, j_CreatedBy = None, j_CreatedAt = 0, j_UpdatedAt = 0\<rparr>"

definition mem_with :: "job \<Rightarrow> string \<Rightarrow> int \<Rightarrow> mem" where
  "mem_with j k sc =
     \<lparr>m_data = [jobDataKey mem_redis (j_ID j) \<mapsto> j], m_z = (\<lambda>_. [])(k := [(bits_String (j_ID j), sc)])\<rparr>"

lemma mem_fields [simp]:
  "uuid_String mem_redis = bits_String" "json_Marshal mem_redis = Some" "json_Unmarshal mem_redis = Some"
  by (simp_all add: mem_redis_def)

lemma mem_writes:
  "rd_Set mem_redis k d ttl s = (True, s\<lparr>m_data := (m_data s)(k \<mapsto> d)\<rparr>)"
  "rd_ZAdd mem_redis k sc m s = (True, mem_zadd k sc m s)"
  by (simp_all add: mem_redis_def)

lemma mem_recover: "\<exists>n. RecoverStaleJobs mem_redis now clk s = (Inr n, snd (RecoverStaleJobs mem_redis now clk s))"
proof -
  have "rd_ZRangeByScore mem_redis k mx None s = (Some (mem_range k mx s), s)" for k mx
    by (simp add: mem_redis_def)
  then show ?thesis by (simp add: RecoverStaleJobs_def split: prod.split)
qed

lemma mem_with_view [simp]:
  "mem_zs (mem_with j k sc) = (\<lambda>_ _. None)(k := [bits_String (j_ID j) \<mapsto> sc])"
  "stored mem_redis m_data (mem_with j k sc) u = (if u = j_ID j then Some j else None)"
  by (auto simp: mem_with_def mem_zs_def stored_def)

lemma mem_with_entry: "entry_ok mem_redis m_data (mem_with j k sc) (bits_String (j_ID j))"
  by (auto simp: entry_ok_def)

lemma demo_job_simps [simp]: "j_ID demo_job = 7" "j_Priority demo_job = 10" "j_ScheduledAt demo_job = None"
  by (simp_all add: demo_job_def)

lemma demo_entries:
  "\<forall>p \<in> set priorities. \<forall>m. mem_zs (mem_with demo_job k sc) (queueKey p) m \<noteq> None \<longrightarrow>
     entry_ok mem_redis m_data (mem_with demo_job k sc) m"
  using mem_with_entry [of demo_job k sc] by (auto split: if_splits)

lemma priorities_desc: "priorities = ps1 @ p # ps2 \<Longrightarrow> p' \<in> set priorities \<Longrightarrow> p < p' \<Longrightarrow> p' \<in> set ps1"
proof -
  assume ps: "priorities = ps1 @ p # ps2" and p': "p' \<in> set priorities" "p < p'"
  have "sorted_wrt (>) priorities" by (simp add: priorities_def)
  then have "\<forall>y \<in> set ps2. y < p" unfolding ps by (simp add: sorted_wrt_append)
  with p' show ?thesis unfolding ps by auto
qed

text \<open>
  C13. Dequeue takes the right job. With a Redis that answers and well-formed entries, Dequeue
  returns nothing exactly when no queue has an entry that is ready; otherwise the job it returns
  is ready, has the least score of its queue, and no queue of a higher priority has a ready
  entry. The job's entry has moved to the running set and no other entry has moved.
\<close>

theorem dequeue_takes_first_ready:
  assumes "job_redis R dat zs" and "Dequeue R vt now clk s = (r, s')"
    and "\<forall>p \<in> set priorities. \<forall>m. zs s (queueKey p) m \<noteq> None \<longrightarrow> entry_ok R dat s m"
  shows "(r = None \<longleftrightarrow> (\<forall>p \<in> set priorities. not_ready zs s (score now) (queueKey p))) \<and>
         (\<forall>job. r = Some job \<longrightarrow>
            (\<exists>p \<in> set priorities. taken R dat zs s (score now) (queueKey p) job s' \<and>
               (\<forall>p' \<in> set priorities. p < p' \<longrightarrow> not_ready zs s (score now) (queueKey p'))))"
  using job_redis.Dequeue_spec [OF assms]
proof
  assume "\<exists>ps1 p ps2 job. priorities = ps1 @ p # ps2 \<and> (\<forall>p' \<in> set ps1. not_ready zs s (score now) (queueKey p')) \<and>
            r = Some job \<and> taken R dat zs s (score now) (queueKey p) job s'"
  then obtain ps1 p ps2 job where *: "priorities = ps1 @ p # ps2" "\<forall>p' \<in> set ps1. not_ready zs s (score now) (queueKey p')"
      "r = Some job" "taken R dat zs s (score now) (queueKey p) job s'" by blast
  have "\<not> not_ready zs s (score now) (queueKey p)"
    using *(4) by (auto simp: taken_def not_ready_def Let_def not_less)
  moreover have "p \<in> set priorities" unfolding *(1) by simp
  ultimately show ?thesis using * priorities_desc [OF *(1)] by blast
qed auto

theorem dequeue_takes_first_ready_witness:
  "\<exists>job. fst (Dequeue mem_redis minute 100 (\<lambda>_ _. 100) (mem_with demo_job (queueKey 10) 50)) = Some job"
proof -
  let ?s = "mem_with demo_job (queueKey 10) 50"
  have "\<not> not_ready mem_zs ?s (score 100) (queueKey 10)"
    by (auto simp: not_ready_def) code_simp
  moreover have "10 \<in> set priorities" by (simp add: priorities_def)
  moreover obtain r s' where "Dequeue mem_redis minute 100 (\<lambda>_ _. 100) ?s = (r, s')" by fastforce
  ultimately show ?thesis
    using dequeue_takes_first_ready [OF mem.job_redis_axioms _ demo_entries] by fastforce
qed

text \<open>Several workers dequeuing one after the other; the jobs that were handed out.\<close>

fun dequeue_many ::
    "('r, 'd) queue_deps \<Rightarrow> duration \<Rightarrow> (gotime \<times> (nat \<Rightarrow> nat \<Rightarrow> gotime)) list \<Rightarrow> 'r \<Rightarrow> job list" where
  "dequeue_many R vt [] s = []"
| "dequeue_many R vt ((now, clk) # xs) s =
     (case Dequeue R vt now clk s of
        (None, s) \<Rightarrow> dequeue_many R vt xs s
      | (Some job, s) \<Rightarrow> job # dequeue_many R vt xs s)"

definition queues_ok ::
    "('r, 'd) queue_deps \<Rightarrow> ('r \<Rightarrow> string \<Rightarrow> 'd option) \<Rightarrow> ('r \<Rightarrow> string \<Rightarrow> string \<Rightarrow> int option) \<Rightarrow> 'r \<Rightarrow> bool" where
  "queues_ok R dat zs s \<longleftrightarrow>
     (\<forall>p \<in> set priorities. \<forall>m. zs s (queueKey p) m \<noteq> None \<longrightarrow> entry_ok R dat s m) \<and>
     (\<forall>m. \<forall>p \<in> set priorities. \<forall>q \<in> set priorities.
        zs s (queueKey p) m \<noteq> None \<and> zs s (queueKey q) m \<noteq> None \<longrightarrow> p = q)"

definition queued :: "('r \<Rightarrow> string \<Rightarrow> string \<Rightarrow> int option) \<Rightarrow> 'r \<Rightarrow> string \<Rightarrow> bool" where
  "queued zs s m \<longleftrightarrow> (\<exists>p \<in> set priorities. zs s (queueKey p) m \<noteq> None)"

lemma queueKey_inj: "p \<in> set priorities \<Longrightarrow> q \<in> set priorities \<Longrightarrow> queueKey p = queueKey q \<Longrightarrow> p = q"
  by (auto simp: priorities_def queueKey_def priorityName_def)

context job_redis
begin

lemma Dequeue_step:
  assumes ok: "queues_ok R dat zs s" and "Dequeue R vt now clk s = (r, s')"
  shows "queues_ok R dat zs s'"
    and "queued zs s' m \<longleftrightarrow> queued zs s m \<and> (\<forall>job. r = Some job \<longrightarrow> m \<noteq> uuid_String R (j_ID job))"
    and "r = Some job \<Longrightarrow> queued zs s (uuid_String R (j_ID job))"
proof -
  have ent: "\<forall>p \<in> set priorities. \<forall>m. zs s (queueKey p) m \<noteq> None \<longrightarrow> entry_ok R dat s m"
    and one: "\<And>m p q. p \<in> set priorities \<Longrightarrow> q \<in> set priorities \<Longrightarrow>
      zs s (queueKey p) m \<noteq> None \<Longrightarrow> zs s (queueKey q) m \<noteq> None \<Longrightarrow> p = q"
    using ok unfolding queues_ok_def by blast+
  consider (none) "r = None" "zs s' = zs s" "dat s' = dat s"
    | (some) p job where "p \<in> set priorities" "r = Some job" "taken R dat zs s (score now) (queueKey p) job s'"
    using Dequeue_spec [OF assms(2) ent] by (metis in_set_conv_decomp)
  then have "queues_ok R dat zs s' \<and>
    (queued zs s' m \<longleftrightarrow> queued zs s m \<and> (\<forall>job. r = Some job \<longrightarrow> m \<noteq> uuid_String R (j_ID job))) \<and>
    (r = Some job \<longrightarrow> queued zs s (uuid_String R (j_ID job)))"
  proof cases
    case none
    then show ?thesis using ok stored_cong [OF none(3)] by (simp add: queues_ok_def queued_def entry_ok_def)
  next
    case (some p job')
    let ?m = "uuid_String R (j_ID job')"
    obtain vis where z: "zs s' = (zs s)(queueKey p := (zs s (queueKey p))(?m := None), runningKey := (zs s runningKey)(?m \<mapsto> vis))"
      and here: "zs s (queueKey p) ?m \<noteq> None"
      and st: "\<And>u. stored R dat s' u = (if u = j_ID job' \<and> json_Marshal R job' \<noteq> None then Some job' else stored R dat s u)"
      using some(3) by (auto simp: taken_def Let_def)
    have row: "zs s' (queueKey q) m \<noteq> None \<longleftrightarrow> zs s (queueKey q) m \<noteq> None \<and> m \<noteq> ?m" if "q \<in> set priorities" for q m
    proof (cases "q = p")
      case True
      then show ?thesis using z queue_keys(3) [of p] by auto
    next
      case False
      then have "queueKey q \<noteq> queueKey p" "zs s (queueKey q) ?m = None"
        using queueKey_inj [OF that some(1)] one [OF that some(1), of ?m] here by blast+
      then show ?thesis using z queue_keys(3) [of q] by auto
    qed
    have "entry_ok R dat s' m" if e: "entry_ok R dat s m" for m
    proof -
      obtain u j where u: "m = uuid_String R u" "stored R dat s u = Some j" "j_ID j = u"
        using e by (auto simp: entry_ok_def)
      then have "\<exists>j. stored R dat s' u = Some j \<and> j_ID j = u"
        using st [of u] by (cases "u = j_ID job' \<and> json_Marshal R job' \<noteq> None") auto
      with u(1) show ?thesis unfolding entry_ok_def by blast
    qed
    note keep = this
    have "queues_ok R dat zs s'"
      unfolding queues_ok_def
    proof (intro conjI ballI allI impI)
      fix q m
      assume "q \<in> set priorities" "zs s' (queueKey q) m \<noteq> None"
      then show "entry_ok R dat s' m" using row [of q m] ent keep by auto
    next
      fix m q q'
      assume "q \<in> set priorities" "q' \<in> set priorities" "zs s' (queueKey q) m \<noteq> None \<and> zs s' (queueKey q') m \<noteq> None"
      then show "q = q'" using row [of q m] row [of q' m] one [of q q' m] by simp
    qed
    moreover have "queued zs s' m \<longleftrightarrow> queued zs s m \<and> m \<noteq> ?m"
      using row unfolding queued_def by blast
    moreover have "queued zs s ?m" using here some(1) unfolding queued_def by blast
    ultimately show ?thesis using some(2) by auto
  qed
  then show "queues_ok R dat zs s'"
    "queued zs s' m \<longleftrightarrow> queued zs s m \<and> (\<forall>job. r = Some job \<longrightarrow> m \<noteq> uuid_String R (j_ID job))"
    "r = Some job \<Longrightarrow> queued zs s (uuid_String R (j_ID job))"
    by blast+
qed

lemma dequeue_many_queued:
  "queues_ok R dat zs s \<Longrightarrow> distinct (map j_ID (dequeue_many R vt xs s)) \<and>
   (\<forall>job \<in> set (dequeue_many R vt xs s). queued zs s (uuid_String R (j_ID job)))"
proof (induction xs arbitrary: s)
  case (Cons x xs)
  obtain now clk where x: "x = (now, clk)" by (cases x)
  obtain r s1 where step: "Dequeue R vt now clk s = (r, s1)" by fastforce
  note step1 = Dequeue_step [OF Cons.prems step]
  note IH = Cons.IH [OF step1(1)]
  show ?case
  proof (cases r)
    case None
    then show ?thesis using IH step1(2) by (simp add: x step)
  next
    case (Some job)
    then show ?thesis using IH step1(2,3) by (force simp: x step)
  qed
qed simp

end



text \<open>
  One call of Fail never retries. Whatever attempts it has left, a job that is not already
  marked failed (a running one, for instance) goes to the dead letter set with status failed
  when Fail succeeds, and to no queue. The retries of the scheduler come from a second call.
\<close>

theorem fail_never_retries:
  assumes "job_redis R dat zs" and "stored R dat s u = Some j" and "j_ID j = u" and "j_Status j \<noteq> ''failed''"
    and "j_Attempts j < j_MaxAttempts j" and "Fail R clk u msg s = (None, s')"
  shows "zs s' deadLetterKey (uuid_String R u) \<noteq> None \<and> zs s' runningKey (uuid_String R u) = None \<and>
         (\<forall>p. zs s' (queueKey p) = zs s (queueKey p)) \<and> map_option j_Status (stored R dat s' u) = Some ''failed''"
  using job_redis.Fail_dead [OF assms(1-4,6)] job_redis.queue_keys [OF assms(1)] by auto

theorem fail_never_retries_witness:
  "mem_zs (snd (Fail mem_redis (\<lambda>_. 5) 7 ''boom'' (mem_with (demo_job\<lparr>j_Status := ''running''\<rparr>) runningKey 50)))
     deadLetterKey (bits_String 7) \<noteq> None"
proof -
  let ?s = "mem_with (demo_job\<lparr>j_Status := ''running''\<rparr>) runningKey 50"
  have "fst (Fail mem_redis (\<lambda>_. 5) 7 ''boom'' ?s) = None" by code_simp
  then have "Fail mem_redis (\<lambda>_. 5) 7 ''boom'' ?s = (None, snd (Fail mem_redis (\<lambda>_. 5) 7 ''boom'' ?s))"
    by (metis prod.collapse)
  from fail_never_retries [OF mem.job_redis_axioms _ _ _ _ this] show ?thesis
    by (simp add: demo_job_def)
qed

lemma triple_times_exact:
  "0 \<le> base \<Longrightarrow> base * 3 ^ n < 2 ^ 63 \<Longrightarrow> triple_times n base = base * 3 ^ n"
proof (induction n arbitrary: base)
  case (Suc n)
  have "base * 3 * 1 \<le> base * 3 * 3 ^ n"
    using Suc.prems(1) by (intro mult_left_mono) auto
  then have "fits64 (base * 3)"
    using Suc.prems by (simp add: fits64_def mult.assoc)
  then show ?case using Suc.IH [of "base * 3"] Suc.prems by (simp add: mult.assoc)
qed simp

text \<open>
  Back-off. For attempts 1 to 19 the delay is ten seconds times three per further attempt,
  capped at an hour; at attempt 20 the multiplication wraps around and the delay is negative.
\<close>

theorem backoff_bounds:
  assumes "1 \<le> attempt" and "attempt \<le> 19"
  shows "calculateBackoff attempt = min (10 * second * 3 ^ nat (attempt - 1)) hour \<and>
         10 * second \<le> calculateBackoff attempt \<and> calculateBackoff attempt \<le> hour \<and>
         calculateBackoff 20 < 0"
proof -
  define n where "n = nat (attempt - 1)"
  have "(3 :: int) ^ n \<le> 3 ^ 18"
    using assms by (intro power_increasing) (auto simp: n_def)
  then have "10 * second * 3 ^ n < 2 ^ 63" by (simp add: second_def)
  then have t: "triple_times n (10 * second) = 10 * second * 3 ^ n"
    by (intro triple_times_exact) (simp_all add: second_def)
  then have "calculateBackoff attempt = min (10 * second * 3 ^ n) hour"
    by (simp add: calculateBackoff_def n_def [symmetric] Let_def min_def)
  moreover have "(1 :: int) \<le> 3 ^ n" by simp
  moreover have "calculateBackoff 20 < 0" by code_simp
  ultimately show ?thesis by (simp add: n_def [symmetric] second_def)
qed

theorem backoff_bounds_witness: "calculateBackoff 4 = 270 * second"
  using backoff_bounds [of 4] by (simp add: second_def)



text \<open>Enqueue on the job with its defaults filled in.\<close>

lemma Enqueue_form:
  obtains j sc where "j_ID j = (if j_ID job = uuid_nil then fresh else j_ID job)" "j_Payload j = j_Payload job" "j_Type j = j_Type job"
    "j_Attempts j = j_Attempts job" "j_ScheduledAt job = None \<longrightarrow> sc = score (clk 3)"
    "Enqueue R clk fresh job s = (case json_Marshal R j of None \<Rightarrow> ((Some MarshalFailed, j), s)
     | Some d \<Rightarrow> (case rd_Set R (jobDataKey R (j_ID j)) d defaultJobTTL s of
          (False, s) \<Rightarrow> ((Some StoreFailed, j), s)
        | (True, s) \<Rightarrow> (case rd_ZAdd R (queueKey (j_Priority j)) sc (uuid_String R (j_ID j)) s of
             (False, s) \<Rightarrow> ((Some EnqueueFailed, j), rd_Del R (jobDataKey R (j_ID j)) s)
           | (True, s) \<Rightarrow> ((None, j), s))))"
proof -
  define j where "j = (let job = (if j_ID job = uuid_nil then job\<lparr>j_ID := fresh\<rparr> else job);
          job = (if j_Status job = [] then job\<lparr>j_Status := ''pending''\<rparr> else job);
          job = (if j_Priority job = 0 then job\<lparr>j_Priority := JobPriorityNormal\<rparr> else job);
          job = (if j_MaxAttempts job = 0 then job\<lparr>j_MaxAttempts := 3\<rparr> else job)
      in job\<lparr>j_CreatedAt := clk 0, j_UpdatedAt := clk 1\<rparr>)"
  define sc where "sc = (case j_ScheduledAt j of Some t \<Rightarrow> if clk 2 < t then score t else score (clk 3) | None \<Rightarrow> score (clk 3))"
  have same: "j_ID j = (if j_ID job = uuid_nil then fresh else j_ID job)" "j_Payload j = j_Payload job" "j_Type j = j_Type job"
    "j_Attempts j = j_Attempts job" "j_ScheduledAt j = j_ScheduledAt job"
    by (simp_all add: j_def Let_def)
  have sc: "j_ScheduledAt job = None \<longrightarrow> sc = score (clk 3)" by (simp add: sc_def same)
  have "Enqueue R clk fresh job s = (case json_Marshal R j of None \<Rightarrow> ((Some MarshalFailed, j), s)
     | Some d \<Rightarrow> (case rd_Set R (jobDataKey R (j_ID j)) d defaultJobTTL s of
          (False, s) \<Rightarrow> ((Some StoreFailed, j), s)
        | (True, s) \<Rightarrow> (case rd_ZAdd R (queueKey (j_Priority j)) sc (uuid_String R (j_ID j)) s of
             (False, s) \<Rightarrow> ((Some EnqueueFailed, j), rd_Del R (jobDataKey R (j_ID j)) s)
           | (True, s) \<Rightarrow> ((None, j), s))))"
    unfolding Enqueue_def j_def sc_def Let_def ..
  with that [OF same(1-4) sc] show thesis .
qed

context job_redis
begin

lemma Enqueue_ok:
  assumes "Enqueue R clk fresh job s = ((None, job'), s')"
  shows "stored R dat s' u = (if u = j_ID job' then Some job' else stored R dat s u)"
    and "\<exists>sc. (j_ScheduledAt job = None \<longrightarrow> sc = score (clk 3)) \<and>
      zs s' = (zs s)(queueKey (j_Priority job') := (zs s (queueKey (j_Priority job')))(uuid_String R (j_ID job') \<mapsto> sc))"
    and "j_Payload job' = j_Payload job" and "j_Type job' = j_Type job" and "j_Attempts job' = j_Attempts job"
    and "j_ID job \<noteq> uuid_nil \<Longrightarrow> j_ID job' = j_ID job"
proof -
  obtain j sc where same: "j_ID j = (if j_ID job = uuid_nil then fresh else j_ID job)" "j_Payload j = j_Payload job"
      "j_Type j = j_Type job" "j_Attempts j = j_Attempts job" "j_ScheduledAt job = None \<longrightarrow> sc = score (clk 3)"
    and eq: "Enqueue R clk fresh job s = (case json_Marshal R j of None \<Rightarrow> ((Some MarshalFailed, j), s)
     | Some d \<Rightarrow> (case rd_Set R (jobDataKey R (j_ID j)) d defaultJobTTL s of
          (False, s) \<Rightarrow> ((Some StoreFailed, j), s)
        | (True, s) \<Rightarrow> (case rd_ZAdd R (queueKey (j_Priority j)) sc (uuid_String R (j_ID j)) s of
             (False, s) \<Rightarrow> ((Some EnqueueFailed, j), rd_Del R (jobDataKey R (j_ID j)) s)
           | (True, s) \<Rightarrow> ((None, j), s))))"
    using Enqueue_form [where R = R and clk = clk and fresh = fresh and job = job and s = s] .
  then obtain d where d: "json_Marshal R j = Some d"
    using assms by (auto split: option.splits)
  obtain s1 where s1: "rd_Set R (jobDataKey R (j_ID j)) d defaultJobTTL s = (True, s1)"
      "dat s1 = (dat s)(jobDataKey R (j_ID j) \<mapsto> d)" "zs s1 = zs s"
    using set_law [of "jobDataKey R (j_ID j)" d defaultJobTTL s]
    by (cases "rd_Set R (jobDataKey R (j_ID j)) d defaultJobTTL s") auto
  obtain s2 where s2: "rd_ZAdd R (queueKey (j_Priority j)) sc (uuid_String R (j_ID j)) s1 = (True, s2)" "dat s2 = dat s1"
      "zs s2 = (zs s1)(queueKey (j_Priority j) := (zs s1 (queueKey (j_Priority j)))(uuid_String R (j_ID j) \<mapsto> sc))"
    using zadd_law [of "queueKey (j_Priority j)" sc "uuid_String R (j_ID j)" s1]
    by (cases "rd_ZAdd R (queueKey (j_Priority j)) sc (uuid_String R (j_ID j)) s1") auto
  have res: "job' = j" "s' = s2" using assms eq d s1(1) s2(1) by simp_all
  show "stored R dat s' u = (if u = j_ID job' then Some job' else stored R dat s u)"
    using stored_data [where s' = s2 and j = j and s = s and u = u] stored_cong [OF s2(2)] s1(2) s2(2) d by (simp add: res)
  show "\<exists>sc. (j_ScheduledAt job = None \<longrightarrow> sc = score (clk 3)) \<and>
      zs s' = (zs s)(queueKey (j_Priority job') := (zs s (queueKey (j_Priority job')))(uuid_String R (j_ID job') \<mapsto> sc))"
    using s2(3) s1(3) same(5) by (auto simp: res)
  show "j_Payload job' = j_Payload job" "j_Type job' = j_Type job" "j_Attempts job' = j_Attempts job"
    "j_ID job \<noteq> uuid_nil \<Longrightarrow> j_ID job' = j_ID job"
    by (simp_all add: res same)
qed

lemma Enqueue_returns:
  assumes "\<And>j. json_Marshal R j \<noteq> None"
  shows "\<exists>job' s'. Enqueue R clk fresh job s = ((None, job'), s')"
proof -
  obtain j sc where "j_ID j = (if j_ID job = uuid_nil then fresh else j_ID job)" "j_Payload j = j_Payload job"
      "j_Type j = j_Type job" "j_Attempts j = j_Attempts job" "j_ScheduledAt job = None \<longrightarrow> sc = score (clk 3)"
    and eq: "Enqueue R clk fresh job s = (case json_Marshal R j of None \<Rightarrow> ((Some MarshalFailed, j), s)
     | Some d \<Rightarrow> (case rd_Set R (jobDataKey R (j_ID j)) d defaultJobTTL s of
          (False, s) \<Rightarrow> ((Some StoreFailed, j), s)
        | (True, s) \<Rightarrow> (case rd_ZAdd R (queueKey (j_Priority j)) sc (uuid_String R (j_ID j)) s of
             (False, s) \<Rightarrow> ((Some EnqueueFailed, j), rd_Del R (jobDataKey R (j_ID j)) s)
           | (True, s) \<Rightarrow> ((None, j), s))))"
    using Enqueue_form [where R = R and clk = clk and fresh = fresh and job = job and s = s] .
  obtain d where "json_Marshal R j = Some d" using assms [of j] by blast
  moreover obtain s1 where "rd_Set R (jobDataKey R (j_ID j)) d defaultJobTTL s = (True, s1)"
    using set_law(1) [of "jobDataKey R (j_ID j)" d defaultJobTTL s] by (metis prod.collapse)
  moreover obtain s2 where "rd_ZAdd R (queueKey (j_Priority j)) sc (uuid_String R (j_ID j)) s1 = (True, s2)"
    using zadd_law(1) [of "queueKey (j_Priority j)" sc "uuid_String R (j_ID j)" s1] by (metis prod.collapse)
  ultimately show ?thesis using eq by simp
qed

lemma queueKey_known: "\<exists>p \<in> set priorities. queueKey q = queueKey p"
  by (auto simp: priorities_def queueKey_def priorityName_def)

lemma UpdateProgress_ok:
  assumes "stored R dat s u = Some j" and "j_ID j = u" and "\<And>j. json_Marshal R j \<noteq> None"
  shows "\<exists>s' j'. UpdateProgress R vt clk u pr msg s = (None, s') \<and>
     zs s' = (zs s)(runningKey := (zs s runningKey)(uuid_String R u \<mapsto> score (time_add (clk 1) vt))) \<and>
     (\<forall>v. stored R dat s' v = (if v = u then Some j' else stored R dat s v)) \<and>
     j_ID j' = u \<and> j_Priority j' = j_Priority j"
proof -
  let ?m = "uuid_String R u"
  define j' where "j' = (let j = j\<lparr>j_Progress := pr\<rparr>; j = (if msg \<noteq> [] then j\<lparr>j_ProgressMessage := Some msg\<rparr> else j)
     in j\<lparr>j_UpdatedAt := clk 0\<rparr>)"
  have j': "j_ID j' = u" "j_Priority j' = j_Priority j" using assms(2) by (simp_all add: j'_def Let_def)
  obtain s1 where s1: "GetJob R u s = (Inr j, s1)" "dat s1 = dat s" "zs s1 = zs s"
    using GetJob_view(1,2) [of u s] GetJob_view(3) [of u s j] assms(1) by (metis prod.collapse)
  define s2 where "s2 = snd (rd_ZAdd R runningKey (score (time_add (clk 1) vt)) ?m s1)"
  obtain s3 where s3: "updateJobData R j' s2 = (None, s3)" "zs s3 = zs s2"
      "dat s3 = (case json_Marshal R j' of None \<Rightarrow> dat s2 | Some d \<Rightarrow> (dat s2)(jobDataKey R (j_ID j') \<mapsto> d))"
    using updateJobData_eq [of j' s2] assms(3) [of j'] by auto
  have "UpdateProgress R vt clk u pr msg s = (None, s3)"
    using s1(1) s3(1) by (simp add: UpdateProgress_def j'_def s2_def Let_def)
  moreover have "stored R dat s3 v = (if v = u then Some j' else stored R dat s v)" for v
    using stored_data [OF s3(3), of v] stored_cong [of s2 s v] s1(2) j'(1) assms(3) [of j'] by (simp add: s2_def zadd_law)
  ultimately show ?thesis using s3(2) s1(3) j' by (auto simp: s2_def zadd_law)
qed

end

text \<open>
  C20. Round trip. A job enqueued without a schedule into empty queues is what the next Dequeue
  returns, with its type and payload, marked running with one more attempt.
\<close>

theorem enqueue_dequeue_roundtrip:
  assumes "job_redis R dat zs" and "\<forall>p \<in> set priorities. zs s (queueKey p) = Map.empty"
    and "Enqueue R clk fresh job s = ((None, job'), s1)" and "j_ScheduledAt job = None"
    and "score (clk 3) \<le> score now" and "Dequeue R vt now clk' s1 = (r, s2)"
  shows "\<exists>t. r = Some (job'\<lparr>j_Status := ''running'', j_Attempts := j_Attempts job + 1, j_StartedAt := Some t, j_UpdatedAt := t\<rparr>) \<and>
     j_Type job' = j_Type job \<and> j_Payload job' = j_Payload job"
proof -
  let ?m = "uuid_String R (j_ID job')" and ?q = "queueKey (j_Priority job')"
  note enq = job_redis.Enqueue_ok [OF assms(1,3)]
  have z: "zs s1 = (zs s)(?q := (zs s ?q)(?m \<mapsto> score (clk 3)))" using enq(2) assms(4) by auto
  have st: "stored R dat s1 (j_ID job') = Some job'" using enq(1) by simp
  obtain p where p: "p \<in> set priorities" "?q = queueKey p"
    using job_redis.queueKey_known [OF assms(1)] by blast
  have only: "zs s1 (queueKey p') m = Some sc \<Longrightarrow> m = ?m \<and> queueKey p' = ?q \<and> sc = score (clk 3)"
    if "p' \<in> set priorities" for p' m sc
    using that assms(2) p by (auto simp: z split: if_splits)
  have "\<forall>p' \<in> set priorities. \<forall>m. zs s1 (queueKey p') m \<noteq> None \<longrightarrow> entry_ok R dat s1 m"
    using only st unfolding entry_ok_def by (metis not_None_eq)
  from job_redis.Dequeue_spec [OF assms(1,6) this] show ?thesis
  proof
    assume "r = None \<and> (\<forall>p \<in> set priorities. not_ready zs s1 (score now) (queueKey p)) \<and> zs s2 = zs s1 \<and> dat s2 = dat s1"
    moreover have "zs s1 (queueKey p) ?m = Some (score (clk 3))" using z p by simp
    ultimately have "score now < score (clk 3)" using p(1) unfolding not_ready_def by blast
    with assms(5) show ?thesis by simp
  next
    assume "\<exists>ps1 p ps2 job. priorities = ps1 @ p # ps2 \<and> (\<forall>p' \<in> set ps1. not_ready zs s1 (score now) (queueKey p')) \<and>
            r = Some job \<and> taken R dat zs s1 (score now) (queueKey p) job s2"
    then obtain p' j where j: "p' \<in> set priorities" "r = Some j" "taken R dat zs s1 (score now) (queueKey p') j s2"
      by (metis in_set_conv_decomp)
    then obtain sc where "zs s1 (queueKey p') (uuid_String R (j_ID j)) = Some sc" by (auto simp: taken_def Let_def)
    then have "j_ID j = j_ID job'" using only [OF j(1)] job_redis.uuid_String_inj [OF assms(1)] by blast
    with j st enq(3-5) show ?thesis by (auto simp: taken_def Let_def)
  qed
qed

theorem enqueue_dequeue_roundtrip_witness:
  "map_option j_Payload (fst (Dequeue mem_redis minute 100 (\<lambda>_ _. 100)
     (snd (Enqueue mem_redis (\<lambda>_. 50) 7 demo_job \<lparr>m_data = Map.empty, m_z = \<lambda>_. []\<rparr>)))) = Some (Some ''{}'')"
proof -
  let ?s = "\<lparr>m_data = Map.empty, m_z = \<lambda>_. []\<rparr>"
  have "fst (fst (Enqueue mem_redis (\<lambda>_. 50) 7 demo_job ?s)) = None"
    by (simp add: Enqueue_def Let_def mem_writes)
  then obtain job' s1 where e: "Enqueue mem_redis (\<lambda>_. 50) 7 demo_job ?s = ((None, job'), s1)"
    by (metis prod.collapse)
  obtain r s2 where d: "Dequeue mem_redis minute 100 (\<lambda>_ _. 100) s1 = (r, s2)" by fastforce
  have "score 50 \<le> score 100" by code_simp
  with enqueue_dequeue_roundtrip [OF mem.job_redis_axioms _ e _ _ d] e d show ?thesis
    by (auto simp: mem_zs_def demo_job_def)
qed

text \<open>
  A finished job can come back. A progress report of a worker that is late (after the job was
  cancelled, say) puts the job back into the running set, and once the visibility timeout has
  passed the recovery makes the finished job pending again in its queue.
\<close>

theorem late_progress_revives_finished:
  assumes "job_redis R dat zs" and "stored R dat s u = Some j" and "j_ID j = u" and "job_IsFinished j"
    and "\<And>j. json_Marshal R j \<noteq> None"
    and "\<forall>m sc. zs s runningKey m = Some sc \<and> sc \<le> score now \<longrightarrow> entry_ok R dat s m"
    and "UpdateProgress R vt clk u progress message s = (e, s1)" and "score (time_add (clk 1) vt) \<le> score now"
    and "RecoverStaleJobs R now clk' s1 = (Inr n, s2)"
  shows "zs s2 (queueKey (j_Priority j)) (uuid_String R u) \<noteq> None \<and>
         map_option j_Status (stored R dat s2 u) = Some ''pending''"
proof -
  obtain j' where z: "zs s1 = (zs s)(runningKey := (zs s runningKey)(uuid_String R u \<mapsto> score (time_add (clk 1) vt)))"
    and st: "\<And>v. stored R dat s1 v = (if v = u then Some j' else stored R dat s v)"
    and j': "j_ID j' = u" "j_Priority j' = j_Priority j"
    using job_redis.UpdateProgress_ok [OF assms(1-3) assms(5), of vt clk progress message] assms(7) by auto
  have "entry_ok R dat s1 m" if "zs s1 runningKey m = Some sc" "sc \<le> score now" for m sc
  proof (cases "m = uuid_String R u")
    case True
    then show ?thesis using st j'(1) by (auto simp: entry_ok_def)
  next
    case False
    then have "entry_ok R dat s m" using that z assms(6) by auto
    then obtain w jw where "m = uuid_String R w" "stored R dat s w = Some jw" "j_ID jw = w" by (auto simp: entry_ok_def)
    moreover have "w \<noteq> u" using False calculation(1) by auto
    ultimately show ?thesis using st [of w] unfolding entry_ok_def by auto
  qed
  then show ?thesis
    using job_redis.RecoverStaleJobs_spec [OF assms(1,9) assms(5)] z st assms(8) j'(2) by fastforce
qed

theorem late_progress_revives_finished_witness:
  "mem_zs (snd (RecoverStaleJobs mem_redis 100 (\<lambda>_. 0)
      (snd (UpdateProgress mem_redis 60 (\<lambda>_. 0) 7 50 [] (mem_with (demo_job\<lparr>j_Status := ''canceled''\<rparr>) [] 0)))))
     (queueKey 10) (bits_String 7) \<noteq> None"
proof -
  let ?s = "mem_with (demo_job\<lparr>j_Status := ''canceled''\<rparr>) [] 0"
  obtain e s1 where u: "UpdateProgress mem_redis 60 (\<lambda>_. 0) 7 50 [] ?s = (e, s1)" by fastforce
  obtain n where r: "RecoverStaleJobs mem_redis 100 (\<lambda>_. 0) s1 =
      (Inr n, snd (RecoverStaleJobs mem_redis 100 (\<lambda>_. 0) s1))"
    using mem_recover by blast
  have "score (time_add 0 60) \<le> score 100" by code_simp
  with late_progress_revives_finished [OF mem.job_redis_axioms _ _ _ _ _ u _ r] u show ?thesis
    by (simp add: job_IsFinished_def runningKey_def)
qed

end
