(* ===== verification/Go_Strings.thy ===== *)
theory Go_Strings
  imports Go_Prelude
begin

text \<open>
  What the components use of Go's \<^verbatim>\<open>strings\<close>, \<^verbatim>\<open>strconv\<close>, \<^verbatim>\<open>fmt\<close> and \<^verbatim>\<open>unicode/utf8\<close>.
  A Go string is the list of its bytes.
\<close>

section \<open>Decimal numbers\<close>

fun decimal :: "nat \<Rightarrow> string" where
  "decimal n = (if n < 10 then [char_of (48 + n)] else decimal (n div 10) @ [char_of (48 + n mod 10)])"

declare decimal.simps [simp del]

definition is_digit :: "char \<Rightarrow> bool" where
  "is_digit c \<longleftrightarrow> 48 \<le> (of_char c :: nat) \<and> (of_char c :: nat) \<le> 57"

definition digit_val :: "char \<Rightarrow> nat" where
  "digit_val c = of_char c - 48"

definition decimal_val :: "string \<Rightarrow> nat" where
  "decimal_val s = foldl (\<lambda>n c. 10 * n + digit_val c) 0 s"

lemma decimal_val_snoc [simp]: "decimal_val (s @ [c]) = 10 * decimal_val s + digit_val c"
  by (simp add: decimal_val_def)

lemma of_char_digit: "n < 10 \<Longrightarrow> (of_char (char_of (48 + n) :: char) :: nat) = 48 + n"
  by simp

lemma digit_char [simp]: "n < 10 \<Longrightarrow> digit_val (char_of (48 + n)) = n" "n < 10 \<Longrightarrow> is_digit (char_of (48 + n))"
  by (simp_all add: digit_val_def is_digit_def del: of_char_of add: of_char_digit)

lemma decimal_val_decimal [simp]: "decimal_val (decimal n) = n"
proof (induction n rule: decimal.induct)
  case (1 n)
  show ?case
  proof (cases "n < 10")
    case True
    then show ?thesis by (subst decimal.simps) (simp add: decimal_val_def)
  next
    case False
    with 1 show ?thesis by (subst decimal.simps) simp
  qed
qed

lemma decimal_digits [simp]: "\<forall>c \<in> set (decimal n). is_digit c"
proof (induction n rule: decimal.induct)
  case (1 n)
  then show ?case by (subst decimal.simps) simp
qed

lemma decimal_not_Nil [simp]: "decimal n \<noteq> []"
  by (subst decimal.simps) simp

text \<open>\<^verbatim>\<open>strconv.FormatInt(i, 10)\<close>, which is also how Redis stores an integer.\<close>

definition format_int :: "int \<Rightarrow> string" where
  "format_int i = (if i < 0 then ''-'' else []) @ decimal (nat \<bar>i\<bar>)"

text \<open>Evaluation goes over the integers.\<close>

function decimal_int :: "int \<Rightarrow> string" where
  "decimal_int i = (if i < 10 then [char_of (48 + i)] else decimal_int (i div 10) @ [char_of (48 + i mod 10)])"
  by auto
termination by (relation "measure nat") auto

declare decimal_int.simps [simp del]

lemma char_of_int_nat: "char_of (int n) = (char_of n :: char)"
  by (simp add: char_of_def bit_of_nat_iff_bit [where 'a = int])

lemma decimal_int: "decimal_int (int n) = decimal n"
proof (induction n rule: decimal.induct)
  case (1 n)
  have "decimal_int (int n) = (if n < 10 then [char_of (int (48 + n))] else decimal_int (int (n div 10)) @ [char_of (int (48 + n mod 10))])"
    by (subst decimal_int.simps) (simp add: zdiv_int zmod_int)
  also have "\<dots> = (if n < 10 then [char_of (48 + n)] else decimal (n div 10) @ [char_of (48 + n mod 10)])"
    using 1 unfolding char_of_int_nat by simp
  also have "\<dots> = decimal n" by (rule decimal.simps [symmetric])
  finally show ?case .
qed

lemma format_int_code [code]: "format_int i = (if i < 0 then ''-'' @ decimal_int (- i) else decimal_int i)"
  using decimal_int [of "nat i"] decimal_int [of "nat (- i)"] by (cases "i < 0") (simp_all add: format_int_def)

text \<open>
  \<^verbatim>\<open>fmt.Sscanf(s, "%d", &n)\<close> and \<^verbatim>\<open>strconv.Atoi\<close> of a text without leading blanks: a sign and digits.
  The first stops at the first character that is no digit, the second refuses the text; both refuse a
  number that does not fit.
\<close>

definition signed_digits :: "string \<Rightarrow> bool \<times> string" where
  "signed_digits s =
     (if s \<noteq> [] \<and> hd s = CHR ''-'' then (True, tl s)
      else if s \<noteq> [] \<and> hd s = CHR ''+'' then (False, tl s) else (False, s))"

definition signed_val :: "bool \<times> string \<Rightarrow> int option" where
  "signed_val p = (case p of (neg, ds) \<Rightarrow>
     (let n = (if neg then - int (decimal_val ds) else int (decimal_val ds))
      in if ds = [] \<or> \<not> fits64 n then None else Some n))"

definition scan_int :: "string \<Rightarrow> int option" where
  "scan_int s = (case signed_digits s of (neg, ds) \<Rightarrow> signed_val (neg, takeWhile is_digit ds))"

definition Atoi :: "string \<Rightarrow> int option" where
  "Atoi s = (case signed_digits s of (neg, ds) \<Rightarrow> if list_all is_digit ds then signed_val (neg, ds) else None)"

lemma decimal_head: "hd (decimal n) \<noteq> CHR ''-'' \<and> hd (decimal n) \<noteq> CHR ''+''"
proof -
  have "is_digit (hd (decimal n))" using decimal_digits [of n] hd_in_set [of "decimal n"] decimal_not_Nil by blast
  then show ?thesis by (auto simp: is_digit_def)
qed

lemma signed_digits_format: "signed_digits (format_int i) = (i < 0, decimal (nat \<bar>i\<bar>))"
  using decimal_head [of "nat \<bar>i\<bar>"] by (cases "i < 0") (simp_all add: signed_digits_def format_int_def)

lemma takeWhile_decimal [simp]: "takeWhile is_digit (decimal n) = decimal n"
  by (simp add: takeWhile_eq_all_conv)

lemma list_all_decimal [simp]: "list_all is_digit (decimal n)"
  by (simp add: list_all_iff)

lemma scan_format [simp]: "fits64 i \<Longrightarrow> scan_int (format_int i) = Some i"
  by (auto simp: scan_int_def signed_digits_format signed_val_def Let_def)

lemma Atoi_format [simp]: "fits64 i \<Longrightarrow> Atoi (format_int i) = Some i"
  by (auto simp: Atoi_def signed_digits_format signed_val_def Let_def)

lemma format_int_inject [simp]: "format_int i = format_int j \<longleftrightarrow> i = j"
proof
  assume "format_int i = format_int j"
  then have "(i < 0, decimal (nat \<bar>i\<bar>)) = (j < 0, decimal (nat \<bar>j\<bar>))"
    by (metis signed_digits_format)
  then have "i < 0 \<longleftrightarrow> j < 0" "nat \<bar>i\<bar> = nat \<bar>j\<bar>" by (auto dest: arg_cong [of _ _ decimal_val])
  then show "i = j" by linarith
qed simp

section \<open>Parts of strings\<close>

fun HasPrefix :: "string \<Rightarrow> string \<Rightarrow> bool" where
  "HasPrefix s [] = True"
| "HasPrefix [] (p # ps) = False"
| "HasPrefix (c # s) (p # ps) = (c = p \<and> HasPrefix s ps)"

fun Contains :: "string \<Rightarrow> string \<Rightarrow> bool" where
  "Contains [] sub = (sub = [])"
| "Contains (c # s) sub = (HasPrefix (c # s) sub \<or> Contains s sub)"

lemma HasPrefix_iff: "HasPrefix s p \<longleftrightarrow> (\<exists>t. s = p @ t)"
  by (induction s p rule: HasPrefix.induct) auto

lemma Contains_iff: "Contains s sub \<longleftrightarrow> (\<exists>a b. s = a @ sub @ b)"
proof (induction s sub rule: Contains.induct)
  case (2 c s sub)
  have "(\<exists>a b. c # s = a @ sub @ b) \<longleftrightarrow> (\<exists>b. c # s = sub @ b) \<or> (\<exists>a b. s = a @ sub @ b)"
    by (metis append_Cons append_Nil list.exhaust list.sel(3))
  with 2 show ?case by (simp only: Contains.simps HasPrefix_iff)
qed auto

text \<open>\<^verbatim>\<open>strings.Split\<close> at a one-byte separator.\<close>

fun split_at :: "char \<Rightarrow> string \<Rightarrow> string list" where
  "split_at sep [] = [[]]"
| "split_at sep (c # s) =
     (if c = sep then [] # split_at sep s
      else case split_at sep s of [] \<Rightarrow> [[c]] | x # xs \<Rightarrow> (c # x) # xs)"

lemma split_at_not_Nil [simp]: "split_at sep s \<noteq> []"
  by (induction s) (auto split: list.splits)

text \<open>\<^verbatim>\<open>strings.SplitN(s, sep, 2)\<close> at a one-byte separator; \<open>None\<close> when there is no separator.\<close>

fun Cut :: "char \<Rightarrow> string \<Rightarrow> (string \<times> string) option" where
  "Cut sep [] = None"
| "Cut sep (c # s) = (if c = sep then Some ([], s) else case Cut sep s of None \<Rightarrow> None | Some (a, b) \<Rightarrow> Some (c # a, b))"

lemma Cut_append: "sep \<notin> set a \<Longrightarrow> Cut sep (a @ sep # b) = Some (a, b)"
  by (induction a) auto

lemma Cut_none: "sep \<notin> set a \<Longrightarrow> Cut sep a = None"
  by (induction a) auto

definition is_space :: "char \<Rightarrow> bool" where
  "is_space c \<longleftrightarrow> (of_char c :: nat) \<in> {9, 10, 11, 12, 13, 32}"

text \<open>\<^verbatim>\<open>strings.TrimSpace\<close> of ASCII text.\<close>

definition TrimSpace :: "string \<Rightarrow> string" where
  "TrimSpace s = rev (dropWhile is_space (rev (dropWhile is_space s)))"

fun Join :: "string \<Rightarrow> string list \<Rightarrow> string" where
  "Join sep [] = []"
| "Join sep [s] = s"
| "Join sep (s # t # ss) = s @ sep @ Join sep (t # ss)"

lemma Join_Cons: "ss \<noteq> [] \<Longrightarrow> Join sep (s # ss) = s @ sep @ Join sep ss"
  by (cases ss) auto

lemma Join_split_at [simp]: "Join [sep] (split_at sep s) = s"
proof (induction s)
  case (Cons c s)
  obtain x xs where x: "split_at sep s = x # xs" by (metis list.exhaust split_at_not_Nil)
  with Cons show ?case by (cases xs) auto
qed simp

lemma split_at_append: "sep \<notin> set a \<Longrightarrow> split_at sep (a @ sep # s) = a # split_at sep s"
  by (induction a) auto

lemma split_at_concat: "split_at sep (a @ sep # s) = split_at sep a @ split_at sep s"
  by (induction a) (auto split: list.splits)

lemma split_at_none: "sep \<notin> set a \<Longrightarrow> split_at sep a = [a]"
  by (induction a) auto

text \<open>The text before the last occurrence of a character and the text after it.\<close>

definition cut_last :: "char \<Rightarrow> string \<Rightarrow> (string \<times> string) option" where
  "cut_last c s =
     (let t = takeWhile (\<lambda>d. d \<noteq> c) (rev s); n = length s - length t in
      if n = 0 then None else Some (take (n - 1) s, rev t))"

lemma takeWhile_rev_append: "c \<notin> set t \<Longrightarrow> takeWhile (\<lambda>d. d \<noteq> c) (rev (s @ c # t)) = rev t"
  using takeWhile_append2 [of "rev t" "\<lambda>d. d \<noteq> c" "c # rev s"] by auto

lemma takeWhile_none: "c \<notin> set s \<Longrightarrow> takeWhile (\<lambda>d. d \<noteq> c) s = s"
  by (induction s) auto

lemma takeWhile_rev_none: "c \<notin> set s \<Longrightarrow> takeWhile (\<lambda>d. d \<noteq> c) (rev s) = rev s"
  by (rule takeWhile_none) simp

lemma cut_last_append: "c \<notin> set t \<Longrightarrow> cut_last c (s @ c # t) = Some (s, t)"
  unfolding cut_last_def takeWhile_rev_append by (simp add: Let_def)

lemma cut_last_none: "c \<notin> set s \<Longrightarrow> cut_last c s = None"
  by (simp add: cut_last_def takeWhile_rev_none)

definition HasSuffix :: "string \<Rightarrow> string \<Rightarrow> bool" where
  "HasSuffix s p = HasPrefix (rev s) (rev p)"

definition TrimPrefix :: "string \<Rightarrow> string \<Rightarrow> string" where
  "TrimPrefix s p = (if HasPrefix s p then drop (length p) s else s)"

definition TrimSuffix :: "string \<Rightarrow> string \<Rightarrow> string" where
  "TrimSuffix s p = (if HasSuffix s p then take (length s - length p) s else s)"

lemma HasPrefix_append [simp]: "HasPrefix (p @ t) p"
  by (auto simp: HasPrefix_iff)

lemma HasSuffix_append [simp]: "HasSuffix (t @ p) p"
  by (simp add: HasSuffix_def)

lemma TrimSuffix_append [simp]: "TrimSuffix (t @ p) p = t"
  by (simp add: TrimSuffix_def)

lemma TrimPrefix_append [simp]: "TrimPrefix (p @ t) p = t"
  by (simp add: TrimPrefix_def)

section \<open>UTF-8\<close>

text \<open>
  \<^verbatim>\<open>for _, r := range s\<close>: the code points of a string; a byte that starts no valid sequence counts
  as U+FFFD.
\<close>

definition cont_byte :: "nat \<Rightarrow> nat \<Rightarrow> char \<Rightarrow> bool" where
  "cont_byte lo hi c \<longleftrightarrow> lo \<le> of_char c \<and> of_char c \<le> hi"

definition low6 :: "char \<Rightarrow> nat" where
  "low6 c = of_char c mod 64"

definition second_range :: "nat \<Rightarrow> nat \<times> nat" where
  "second_range b =
     (if b = 224 then (160, 191) else if b = 237 then (128, 159) else if b = 240 then (144, 191)
      else if b = 244 then (128, 143) else (128, 191))"

fun decode_rune :: "string \<Rightarrow> nat \<times> nat" where
  "decode_rune [] = (65533, 0)"
| "decode_rune (c # s) =
     (let b = of_char c; (lo, hi) = second_range b in
      if b < 128 then (b, 1)
      else if 194 \<le> b \<and> b \<le> 223 then
        (case s of d # _ \<Rightarrow> if cont_byte lo hi d then ((b mod 32) * 64 + low6 d, 2) else (65533, 1) | _ \<Rightarrow> (65533, 1))
      else if 224 \<le> b \<and> b \<le> 239 then
        (case s of d # e # _ \<Rightarrow>
           if cont_byte lo hi d \<and> cont_byte 128 191 e then ((b mod 16) * 4096 + low6 d * 64 + low6 e, 3) else (65533, 1)
         | _ \<Rightarrow> (65533, 1))
      else if 240 \<le> b \<and> b \<le> 244 then
        (case s of d # e # f # _ \<Rightarrow>
           if cont_byte lo hi d \<and> cont_byte 128 191 e \<and> cont_byte 128 191 f
           then ((b mod 8) * 262144 + low6 d * 4096 + low6 e * 64 + low6 f, 4) else (65533, 1)
         | _ \<Rightarrow> (65533, 1))
      else (65533, 1))"

lemma decode_rune_width: "s \<noteq> [] \<Longrightarrow> 0 < snd (decode_rune s)"
  by (cases s rule: decode_rune.cases) (auto simp: Let_def split: list.splits prod.splits)

function runes :: "string \<Rightarrow> nat list" where
  "runes s = (if s = [] then [] else case decode_rune s of (r, w) \<Rightarrow> r # runes (drop w s))"
  by auto
termination
proof (relation "measure length")
  fix s r w
  assume "s \<noteq> []" "(r, w) = decode_rune s"
  then have "0 < w" "0 < length s" using decode_rune_width [of s] by (auto dest: arg_cong [of _ _ snd])
  then show "(drop w s, s) \<in> measure length" by simp
qed simp

declare runes.simps [simp del]

lemma runes_ascii: "\<forall>c \<in> set s. (of_char c :: nat) < 128 \<Longrightarrow> runes s = map of_char s"
proof (induction s)
  case Nil
  then show ?case by (simp add: runes.simps)
next
  case (Cons c s)
  then have "decode_rune (c # s) = (of_char c, 1)" by (simp add: split_beta)
  with Cons show ?case by (simp add: runes.simps [of "c # s"])
qed

end
