(* ===== verification/Retention.thy ===== *)
theory Retention
  imports Go_Strings
begin

text \<open>
  Backup retention: \<^verbatim>\<open>internal/services/backup/retention.go\<close> over the backup rows
  (\<^verbatim>\<open>internal/models/backup.go\<close>, \<^verbatim>\<open>internal/repository/postgres/backup_repository.go\<close>) and the
  files of the storage backend.

  The state is the rows and the files with their sizes. The outcome of each call to the storage or
  the database is an input (\<open>retention_io\<close>). The time zone of the rows' times is the
  argument \<open>loc\<close>, the offset from UTC at an instant.
\<close>

section \<open>Calendar\<close>

text \<open>The civil date of a day number counted from 1 January 1970, in the Gregorian calendar.\<close>

definition civil_from_days :: "int \<Rightarrow> int \<times> int \<times> int" where
  "civil_from_days days =
     (let z = days + 719468; era = z div 146097; doe = z mod 146097;
          yoe = (doe - doe div 1460 + doe div 36524 - doe div 146096) div 365;
          doy = doe - (365 * yoe + yoe div 4 - yoe div 100);
          mp = (5 * doy + 2) div 153;
          d = doy - (153 * mp + 2) div 5 + 1;
          m = (if mp < 10 then mp + 3 else mp - 9)
      in (yoe + era * 400 + (if m \<le> 2 then 1 else 0), m, d))"

definition days_from_civil :: "int \<Rightarrow> int \<Rightarrow> int \<Rightarrow> int" where
  "days_from_civil y m d =
     (let y = (if m \<le> 2 then y - 1 else y); era = y div 400; yoe = y mod 400;
          doy = (153 * (if 2 < m then m - 3 else m + 9) + 2) div 5 + d - 1;
          doe = yoe * 365 + yoe div 4 - yoe div 100 + doy
      in era * 146097 + doe - 719468)"

definition local_day :: "(gotime \<Rightarrow> int) \<Rightarrow> gotime \<Rightarrow> int" where
  "local_day loc t = (t + loc t) div (24 * hour)"

text \<open>The ISO week: the year and the number of the week's Thursday.\<close>

definition ISOWeek :: "(gotime \<Rightarrow> int) \<Rightarrow> gotime \<Rightarrow> int \<times> int" where
  "ISOWeek loc t =
     (let days = local_day loc t; thursday = days + 3 - (days + 3) mod 7;
          year = fst (civil_from_days thursday)
      in (year, (thursday - days_from_civil year 1 1) div 7 + 1))"

text \<open>Zero-padded to a width, as the layouts \<^verbatim>\<open>2006\<close>, \<^verbatim>\<open>01\<close> and \<^verbatim>\<open>02\<close> print.\<close>

definition padded :: "nat \<Rightarrow> int \<Rightarrow> string" where
  "padded w n =
     (let ds = decimal (nat \<bar>n\<bar>)
      in (if n < 0 then ''-'' else []) @ replicate (w - length ds) (CHR ''0'') @ ds)"

definition day_key :: "(gotime \<Rightarrow> int) \<Rightarrow> gotime \<Rightarrow> string" where
  "day_key loc t = (case civil_from_days (local_day loc t) of
     (y, m, d) \<Rightarrow> padded 4 y @ ''-'' @ padded 2 m @ ''-'' @ padded 2 d)"

text \<open>The layout \<^verbatim>\<open>2006-W02\<close>: the year and the day of the month of the computed date.\<close>

definition week_key :: "(gotime \<Rightarrow> int) \<Rightarrow> gotime \<Rightarrow> string" where
  "week_key loc t = (case ISOWeek loc t of
     (year, week) \<Rightarrow>
       (case civil_from_days (days_from_civil year 1 1 + (week - 1) * 7) of
          (y, m, d) \<Rightarrow> padded 4 y @ ''-W'' @ padded 2 d))"

definition month_key :: "(gotime \<Rightarrow> int) \<Rightarrow> gotime \<Rightarrow> string" where
  "month_key loc t = (case civil_from_days (local_day loc t) of (y, m, d) \<Rightarrow> padded 4 y @ ''-'' @ padded 2 m)"

section \<open>Rows, files and policies\<close>

text \<open>A row of the table; the metadata is kept as its text.\<close>

record backup =
  b_ID :: uuid
  b_HostID :: uuid
  b_Type :: string
  b_TargetID :: string
  b_TargetName :: string
  b_Status :: string
  b_Trigger :: string
  b_Path :: string
  b_Filename :: string
  b_SizeBytes :: int
  b_Compression :: string
  b_Encrypted :: bool
  b_Checksum :: "string option"
  b_Verified :: bool
  b_VerifiedAt :: "gotime option"
  b_Metadata :: "string option"
  b_ErrorMessage :: "string option"
  b_CreatedBy :: "uuid option"
  b_StartedAt :: "gotime option"
  b_CompletedAt :: "gotime option"
  b_ExpiresAt :: "gotime option"
  b_CreatedAt :: gotime

record retention_policy =
  MaxBackups :: int
  MaxAgeDays :: int
  MinBackups :: int
  KeepDaily :: int
  KeepWeekly :: int
  KeepMonthly :: int

definition DefaultRetentionPolicy :: retention_policy where
  "DefaultRetentionPolicy =
     \<lparr>MaxBackups = 50, MaxAgeDays = 90, MinBackups = 3, KeepDaily = 7, KeepWeekly = 4, KeepMonthly = 6\<rparr>"

record backup_world =
  w_rows :: "backup list"
  w_files :: "(string \<times> int) list"

record cleanup_result =
  DeletedCount :: int
  DeletedSize :: int
  FailedCount :: int
  SkippedCount :: int
  ProcessedCount :: int
  DeletedBackups :: "uuid list"
  FailedBackups :: "uuid list"
  Errors :: int

definition no_result :: cleanup_result where
  "no_result =
     \<lparr>DeletedCount = 0, DeletedSize = 0, FailedCount = 0, SkippedCount = 0, ProcessedCount = 0,
      DeletedBackups = [], FailedBackups = [], Errors = 0\<rparr>"

text \<open>
  The outcomes of the calls of an operation: its queries, and for the \<open>n\<close>-th backup it handles
  the read of the row, the deletion of the file and the deletion of the row.
\<close>

record retention_io =
  io_query :: "nat \<Rightarrow> bool"
  io_get :: "nat \<Rightarrow> bool"
  io_file :: "nat \<Rightarrow> bool"
  io_row :: "nat \<Rightarrow> bool"

datatype retention_error = QueryFailed | IndexPanic

section \<open>Repository and storage\<close>

definition storage_Delete :: "bool \<Rightarrow> string \<Rightarrow> backup_world \<Rightarrow> bool \<times> backup_world" where
  "storage_Delete ok path w =
     (if ok then (True, w\<lparr>w_files := filter (\<lambda>f. fst f \<noteq> path) (w_files w)\<rparr>) else (False, w))"

definition backup_Delete :: "bool \<Rightarrow> uuid \<Rightarrow> backup_world \<Rightarrow> bool \<times> backup_world" where
  "backup_Delete ok i w =
     (if ok \<and> i \<in> b_ID ` set (w_rows w) then (True, w\<lparr>w_rows := filter (\<lambda>b. b_ID b \<noteq> i) (w_rows w)\<rparr>)
      else (False, w))"

definition backup_Get :: "bool \<Rightarrow> uuid \<Rightarrow> backup_world \<Rightarrow> backup option" where
  "backup_Get ok i w = (if ok then find (\<lambda>b. b_ID b = i) (w_rows w) else None)"

definition newest_first :: "backup list \<Rightarrow> backup list" where
  "newest_first bs = sort_key (\<lambda>b. - b_CreatedAt b) bs"

record backup_list_options =
  opt_HostID :: "uuid option"
  opt_Type :: "string option"
  opt_Status :: "string option"
  opt_TargetID :: "string option"
  opt_Trigger :: "string option"
  opt_Before :: "gotime option"
  opt_After :: "gotime option"
  opt_Limit :: int
  opt_Offset :: int

definition no_options :: backup_list_options where
  "no_options =
     \<lparr>opt_HostID = None, opt_Type = None, opt_Status = None, opt_TargetID = None, opt_Trigger = None,
      opt_Before = None, opt_After = None, opt_Limit = 0, opt_Offset = 0\<rparr>"

definition matches_options :: "backup_list_options \<Rightarrow> backup \<Rightarrow> bool" where
  "matches_options opts b \<longleftrightarrow>
     opt_HostID opts \<in> {None, Some (b_HostID b)} \<and> opt_Type opts \<in> {None, Some (b_Type b)} \<and>
     opt_Status opts \<in> {None, Some (b_Status b)} \<and> opt_TargetID opts \<in> {None, Some (b_TargetID b)} \<and>
     opt_Trigger opts \<in> {None, Some (b_Trigger b)} \<and>
     (case opt_Before opts of None \<Rightarrow> True | Some t \<Rightarrow> b_CreatedAt b < t) \<and>
     (case opt_After opts of None \<Rightarrow> True | Some t \<Rightarrow> t < b_CreatedAt b)"

definition backup_List :: "backup_list_options \<Rightarrow> backup_world \<Rightarrow> backup list \<times> nat" where
  "backup_List opts w =
     (let found = newest_first (filter (matches_options opts) (w_rows w));
          page = (if 0 < opt_Offset opts then drop (nat (opt_Offset opts)) found else found)
      in (if 0 < opt_Limit opts then take (nat (opt_Limit opts)) page else page, length found))"

definition backup_ListCompleted :: "int \<Rightarrow> backup_world \<Rightarrow> backup list" where
  "backup_ListCompleted limit w =
     fst (backup_List (no_options\<lparr>opt_Status := Some ''completed'', opt_Limit := limit\<rparr>) w)"

definition backup_ListAll :: "int \<Rightarrow> backup_world \<Rightarrow> backup list" where
  "backup_ListAll limit w = fst (backup_List (no_options\<lparr>opt_Limit := limit\<rparr>) w)"

lemma backup_ListCompleted_eq:
  "0 < k \<Longrightarrow> backup_ListCompleted k w =
     take (nat k) (newest_first (filter (\<lambda>b. b_Status b = ''completed'') (w_rows w)))"
  by (simp add: backup_ListCompleted_def backup_List_def matches_options_def [abs_def] no_options_def Let_def)
    (metis (no_types, lifting))

definition backup_GetByHostAndTarget :: "uuid \<Rightarrow> string \<Rightarrow> backup_world \<Rightarrow> backup list" where
  "backup_GetByHostAndTarget h t w = newest_first (filter (\<lambda>b. b_HostID b = h \<and> b_TargetID b = t) (w_rows w))"

definition backup_DeleteExpired :: "gotime \<Rightarrow> backup_world \<Rightarrow> uuid list" where
  "backup_DeleteExpired now w =
     map b_ID (filter (\<lambda>b. case b_ExpiresAt b of None \<Rightarrow> False | Some t \<Rightarrow> t < now) (w_rows w))"

section \<open>Selection\<close>

text \<open>
  One of the three loops: walk from the newest backup on and keep one per key until \<open>limit\<close> are
  kept, where a key is new when it differs from the last one kept.
\<close>

fun keep_by :: "(gotime \<Rightarrow> string) \<Rightarrow> int \<Rightarrow> int \<Rightarrow> string \<Rightarrow> backup list \<Rightarrow> uuid list \<Rightarrow> uuid list" where
  "keep_by key limit kept lastKey [] keep = keep"
| "keep_by key limit kept lastKey (b # bs) keep =
     (if limit \<le> kept then keep
      else if key (b_CreatedAt b) \<noteq> lastKey
      then keep_by key limit (kept + 1) (key (b_CreatedAt b)) bs (b_ID b # keep)
      else keep_by key limit kept lastKey bs keep)"

definition kept_ids :: "(gotime \<Rightarrow> int) \<Rightarrow> retention_policy \<Rightarrow> backup list \<Rightarrow> uuid list" where
  "kept_ids loc policy bs =
     (let keep = map b_ID (take (nat (MinBackups policy)) bs);
          keep = (if 0 < KeepDaily policy then keep_by (day_key loc) (KeepDaily policy) 0 [] bs keep else keep);
          keep = (if 0 < KeepWeekly policy then keep_by (week_key loc) (KeepWeekly policy) 0 [] bs keep else keep)
      in if 0 < KeepMonthly policy then keep_by (month_key loc) (KeepMonthly policy) 0 [] bs keep else keep)"

definition max_age :: "retention_policy \<Rightarrow> duration" where
  "max_age policy = wrap64 (wrap64 (MaxAgeDays policy * 24) * hour)"

definition too_old :: "gotime \<Rightarrow> retention_policy \<Rightarrow> backup \<Rightarrow> bool" where
  "too_old now policy b \<longleftrightarrow> 0 < MaxAgeDays policy \<and> max_age policy < time_sub now (b_CreatedAt b)"

fun choose_loop :: "gotime \<Rightarrow> retention_policy \<Rightarrow> int \<Rightarrow> uuid list \<Rightarrow> backup list \<Rightarrow> backup list \<Rightarrow> backup list" where
  "choose_loop now policy count keep [] toDelete = toDelete"
| "choose_loop now policy count keep (b # bs) toDelete =
     (if b_ID b \<in> set keep then choose_loop now policy count keep bs toDelete
      else if too_old now policy b then choose_loop now policy count keep bs (toDelete @ [b])
      else if 0 < MaxBackups policy \<and> MaxBackups policy < count - int (length toDelete)
      then choose_loop now policy count keep bs (toDelete @ [b])
      else choose_loop now policy count keep bs toDelete)"

definition selectBackupsToDelete ::
    "(gotime \<Rightarrow> int) \<Rightarrow> gotime \<Rightarrow> retention_policy \<Rightarrow> backup list \<Rightarrow> backup list" where
  "selectBackupsToDelete loc now policy backups =
     (if backups = [] then []
      else let bs = newest_first backups
           in choose_loop now policy (int (length bs)) (kept_ids loc policy bs) bs [])"

section \<open>Cleanup\<close>

text \<open>
  Delete one backup, its file first and then its row; \<open>track\<close> tells whether a file that cannot be
  deleted is noted as a failed backup.
\<close>

definition delete_one ::
    "retention_io \<Rightarrow> nat \<Rightarrow> bool \<Rightarrow> backup \<Rightarrow> cleanup_result \<times> backup_world \<Rightarrow> cleanup_result \<times> backup_world" where
  "delete_one io n track b = (\<lambda>(res, w).
     case storage_Delete (io_file io n) (b_Path b) w of
       (False, w) \<Rightarrow>
         (res\<lparr>FailedCount := FailedCount res + 1, Errors := Errors res + 1,
              FailedBackups := (if track then FailedBackups res @ [b_ID b] else FailedBackups res)\<rparr>, w)
     | (True, w) \<Rightarrow>
         (case backup_Delete (io_row io n) (b_ID b) w of
            (False, w) \<Rightarrow> (res\<lparr>FailedCount := FailedCount res + 1, Errors := Errors res + 1\<rparr>, w)
          | (True, w) \<Rightarrow>
              (res\<lparr>DeletedCount := DeletedCount res + 1,
                   DeletedSize := wrap64 (DeletedSize res + b_SizeBytes b),
                   DeletedBackups := DeletedBackups res @ [b_ID b]\<rparr>, w)))"

definition processed :: "cleanup_result \<Rightarrow> cleanup_result" where
  "processed res = res\<lparr>ProcessedCount := ProcessedCount res + 1\<rparr>"

fun delete_all ::
    "retention_io \<Rightarrow> nat \<Rightarrow> backup list \<Rightarrow> cleanup_result \<times> backup_world \<Rightarrow> cleanup_result \<times> backup_world" where
  "delete_all io n [] rw = rw"
| "delete_all io n (b # bs) (res, w) = delete_all io (n + 1) bs (delete_one io n False b (processed res, w))"

fun delete_expired ::
    "retention_io \<Rightarrow> nat \<Rightarrow> uuid list \<Rightarrow> cleanup_result \<times> backup_world \<Rightarrow> cleanup_result \<times> backup_world" where
  "delete_expired io n [] rw = rw"
| "delete_expired io n (i # ids) (res, w) =
     delete_expired io (n + 1) ids
       (case backup_Get (io_get io n) i w of
          None \<Rightarrow> ((processed res)\<lparr>FailedCount := FailedCount res + 1, FailedBackups := FailedBackups res @ [i]\<rparr>, w)
        | Some b \<Rightarrow> delete_one io n True b (processed res, w))"

definition target_key :: "backup \<Rightarrow> uuid \<times> string" where
  "target_key b = (b_HostID b, b_TargetID b)"

text \<open>
  The targets in the order in which their newest backups are listed (a Go map's order is
  unspecified), each with the backups to delete.
\<close>

definition policy_deletions :: "(gotime \<Rightarrow> int) \<Rightarrow> gotime \<Rightarrow> retention_policy \<Rightarrow> backup list \<Rightarrow> backup list" where
  "policy_deletions loc now policy backups =
     concat (map (\<lambda>k. selectBackupsToDelete loc now policy (filter (\<lambda>b. target_key b = k) backups))
               (remdups (map target_key backups)))"

definition applyRetentionPolicy ::
    "retention_io \<Rightarrow> nat \<Rightarrow> (gotime \<Rightarrow> int) \<Rightarrow> gotime \<Rightarrow> retention_policy \<Rightarrow>
     cleanup_result \<times> backup_world \<Rightarrow> cleanup_result \<times> backup_world" where
  "applyRetentionPolicy io n loc now policy rw =
     (if \<not> io_query io 1 then rw
      else delete_all io n (policy_deletions loc now policy (backup_ListCompleted 10000 (snd rw))) rw)"

definition Cleanup ::
    "retention_io \<Rightarrow> (gotime \<Rightarrow> int) \<Rightarrow> gotime \<Rightarrow> gotime \<Rightarrow> retention_policy option \<Rightarrow> backup_world \<Rightarrow>
     cleanup_result \<times> backup_world" where
  "Cleanup io loc dbnow now policy w =
     (let policy = (case policy of None \<Rightarrow> DefaultRetentionPolicy | Some p \<Rightarrow> p);
          expiredIDs = (if io_query io 0 then backup_DeleteExpired dbnow w else []);
          rw = delete_expired io 0 expiredIDs (no_result, w)
      in applyRetentionPolicy io (length expiredIDs) loc now policy rw)"

fun delete_orphans ::
    "retention_io \<Rightarrow> nat \<Rightarrow> string set \<Rightarrow> (string \<times> int) list \<Rightarrow> cleanup_result \<times> backup_world \<Rightarrow>
     cleanup_result \<times> backup_world" where
  "delete_orphans io n dbPaths [] rw = rw"
| "delete_orphans io n dbPaths ((path, bytes) # es) (res, w) =
     delete_orphans io (n + 1) dbPaths es
       (let res = processed res in
        if path \<in> dbPaths then (res, w)
        else case storage_Delete (io_file io n) path w of
               (False, w) \<Rightarrow> (res\<lparr>FailedCount := FailedCount res + 1, Errors := Errors res + 1\<rparr>, w)
             | (True, w) \<Rightarrow> (res\<lparr>DeletedCount := DeletedCount res + 1,
                               DeletedSize := wrap64 (DeletedSize res + bytes)\<rparr>, w))"

definition CleanupOrphaned ::
    "retention_io \<Rightarrow> backup_world \<Rightarrow> (retention_error + cleanup_result) \<times> backup_world" where
  "CleanupOrphaned io w =
     (if \<not> io_query io 0 \<or> \<not> io_query io 1 then (Inl QueryFailed, w)
      else let dbPaths = b_Path ` set (backup_ListAll 100000 w)
           in case delete_orphans io 0 dbPaths (w_files w) (no_result, w) of (res, w) \<Rightarrow> (Inr res, w))"

fun prune_loop ::
    "retention_io \<Rightarrow> nat \<Rightarrow> backup list \<Rightarrow> cleanup_result \<times> backup_world \<Rightarrow> cleanup_result \<times> backup_world" where
  "prune_loop io n [] rw = rw"
| "prune_loop io n (b # bs) (res, w) =
     prune_loop io (n + 1) bs
       (let res = processed res in
        if b_Status b \<noteq> ''completed'' then (res\<lparr>SkippedCount := SkippedCount res + 1\<rparr>, w)
        else delete_one io n False b (res, w))"

text \<open>A negative count indexes the slice out of range, which panics.\<close>

definition PruneTarget ::
    "retention_io \<Rightarrow> uuid \<Rightarrow> string \<Rightarrow> int \<Rightarrow> backup_world \<Rightarrow> (retention_error + cleanup_result) \<times> backup_world" where
  "PruneTarget io h t keepCount w =
     (if \<not> io_query io 0 then (Inl QueryFailed, w)
      else if keepCount < 0 then (Inl IndexPanic, w)
      else let bs = newest_first (backup_GetByHostAndTarget h t w)
           in case prune_loop io 0 (drop (nat keepCount) bs) (no_result, w) of (res, w) \<Rightarrow> (Inr res, w))"

section \<open>What is kept\<close>

lemma keep_by_mono: "set keep \<subseteq> set (keep_by key limit kept lastKey bs keep)"
  by (induction key limit kept lastKey bs keep rule: keep_by.induct) auto

lemma keep_by_ids: "set (keep_by key limit kept lastKey bs keep) \<subseteq> set keep \<union> b_ID ` set bs"
  by (induction key limit kept lastKey bs keep rule: keep_by.induct) auto

text \<open>
  The backups that start a run of equal keys, from the newest on: the newest backup of each day
  (month) when the keys of a sorted list do not return.
\<close>

fun run_heads :: "(gotime \<Rightarrow> string) \<Rightarrow> string \<Rightarrow> backup list \<Rightarrow> backup list" where
  "run_heads key lastKey [] = []"
| "run_heads key lastKey (b # bs) =
     (if key (b_CreatedAt b) \<noteq> lastKey then b # run_heads key (key (b_CreatedAt b)) bs
      else run_heads key lastKey bs)"

lemma keep_by_heads:
  "set (keep_by key limit kept lastKey bs keep) =
     set keep \<union> b_ID ` set (take (nat (limit - kept)) (run_heads key lastKey bs))"
proof (induction key limit kept lastKey bs keep rule: keep_by.induct)
  case (2 key limit kept lastKey b bs keep)
  show ?case
  proof (cases "limit \<le> kept")
    case False
    then have "nat (limit - kept) = Suc (nat (limit - (kept + 1)))" by simp
    with 2 False show ?thesis by auto
  qed simp
qed simp

text \<open>The protected backups of a target, as the policy says.\<close>

definition protected :: "(gotime \<Rightarrow> int) \<Rightarrow> retention_policy \<Rightarrow> backup list \<Rightarrow> backup set" where
  "protected loc policy bs =
     set (take (nat (MinBackups policy)) bs) \<union>
     set (take (nat (KeepDaily policy)) (run_heads (day_key loc) [] bs)) \<union>
     set (take (nat (KeepWeekly policy)) (run_heads (week_key loc) [] bs)) \<union>
     set (take (nat (KeepMonthly policy)) (run_heads (month_key loc) [] bs))"

lemma kept_ids_protected: "set (kept_ids loc policy bs) = b_ID ` protected loc policy bs"
  by (auto simp: kept_ids_def protected_def keep_by_heads Let_def)

lemma set_run_heads: "set (run_heads key lastKey bs) \<subseteq> set bs"
  by (induction key lastKey bs rule: run_heads.induct) auto

lemma protected_subset: "protected loc policy bs \<subseteq> set bs"
  using set_run_heads set_take_subset unfolding protected_def by (fastforce dest: in_set_takeD)

text \<open>
  What is chosen of a list beyond the kept ones: all that are too old, and of the others at most
  as many as the \<open>excess\<close> over the maximum.
\<close>

definition chosen :: "gotime \<Rightarrow> retention_policy \<Rightarrow> uuid list \<Rightarrow> int \<Rightarrow> backup list \<Rightarrow> backup list \<Rightarrow> bool" where
  "chosen now policy keep excess bs cs \<longleftrightarrow>
     set cs \<subseteq> set bs \<and> b_ID ` set cs \<inter> set keep = {} \<and>
     (\<forall>b \<in> set bs. b_ID b \<notin> set keep \<and> too_old now policy b \<longrightarrow> b \<in> set cs) \<and>
     int (length (filter (\<lambda>b. \<not> too_old now policy b) cs)) \<le> (if 0 < MaxBackups policy then max 0 excess else 0)"

lemma chosen_skip:
  "chosen now policy keep x bs cs \<Longrightarrow> b_ID b \<in> set keep \<or> \<not> too_old now policy b \<Longrightarrow> chosen now policy keep x (b # bs) cs"
  by (auto simp: chosen_def)

lemma chosen_old:
  "chosen now policy keep (x - 1) bs cs \<Longrightarrow> b_ID b \<notin> set keep \<Longrightarrow> too_old now policy b \<Longrightarrow>
   chosen now policy keep x (b # bs) (b # cs)"
  by (auto simp: chosen_def)

lemma chosen_excess:
  "chosen now policy keep (x - 1) bs cs \<Longrightarrow> b_ID b \<notin> set keep \<Longrightarrow> \<not> too_old now policy b \<Longrightarrow> 0 < MaxBackups policy \<Longrightarrow> 0 < x \<Longrightarrow>
   chosen now policy keep x (b # bs) (b # cs)"
  by (auto simp: chosen_def)

lemma choose_chosen:
  "\<exists>cs. choose_loop now policy count keep bs toDelete = toDelete @ cs \<and>
     chosen now policy keep (count - int (length toDelete) - MaxBackups policy) bs cs"
proof (induction now policy count keep bs toDelete rule: choose_loop.induct)
  case (1 now policy count keep toDelete)
  show ?case by (simp add: chosen_def)
next
  case (2 now policy count keep b bs toDelete)
  let ?x = "count - int (length toDelete) - MaxBackups policy"
  have len: "count - int (length (toDelete @ [b])) - MaxBackups policy = ?x - 1" by simp
  consider (keep) "b_ID b \<in> set keep"
    | (old) "b_ID b \<notin> set keep" "too_old now policy b"
    | (excess) "b_ID b \<notin> set keep" "\<not> too_old now policy b" "0 < MaxBackups policy \<and> MaxBackups policy < count - int (length toDelete)"
    | (pass) "b_ID b \<notin> set keep" "\<not> too_old now policy b" "\<not> (0 < MaxBackups policy \<and> MaxBackups policy < count - int (length toDelete))"
    by blast
  then show ?case
  proof cases
    case keep
    obtain cs where "choose_loop now policy count keep bs toDelete = toDelete @ cs" "chosen now policy keep ?x bs cs"
      using "2.IH"(1) [OF keep] by blast
    with keep chosen_skip [of now policy keep ?x bs cs b] show ?thesis by auto
  next
    case old
    obtain cs where "choose_loop now policy count keep bs (toDelete @ [b]) = (toDelete @ [b]) @ cs"
      "chosen now policy keep (?x - 1) bs cs"
      using "2.IH"(2) [OF old] unfolding len by blast
    with old chosen_old [of now policy keep ?x bs cs b] show ?thesis by auto
  next
    case excess
    obtain cs where "choose_loop now policy count keep bs (toDelete @ [b]) = (toDelete @ [b]) @ cs"
      "chosen now policy keep (?x - 1) bs cs"
      using "2.IH"(3) [OF excess] unfolding len by blast
    with excess chosen_excess [of now policy keep ?x bs cs b] show ?thesis by auto
  next
    case pass
    obtain cs where "choose_loop now policy count keep bs toDelete = toDelete @ cs" "chosen now policy keep ?x bs cs"
      using "2.IH"(4) [OF pass] by blast
    with pass chosen_skip [of now policy keep ?x bs cs b] show ?thesis by auto
  qed
qed

lemma selectBackupsToDelete_chosen:
  "chosen now policy (kept_ids loc policy (newest_first bs)) (int (length bs) - MaxBackups policy) (newest_first bs)
     (selectBackupsToDelete loc now policy bs)"
proof (cases "bs = []")
  case True
  then show ?thesis by (simp add: selectBackupsToDelete_def chosen_def newest_first_def)
next
  case False
  have "length (newest_first bs) = length bs" by (simp add: newest_first_def)
  with False show ?thesis
    using choose_chosen [of now policy "int (length (newest_first bs))" "kept_ids loc policy (newest_first bs)" "newest_first bs" "[]"]
    by (auto simp: selectBackupsToDelete_def Let_def)
qed

section \<open>What the deletions leave\<close>

lemma delete_one_rows:
  "set (w_rows (snd (delete_one io n tr b (res, w)))) =
     {x \<in> set (w_rows w). b_ID x = b_ID b \<longrightarrow> \<not> (io_file io n \<and> io_row io n)}"
  by (auto simp: delete_one_def storage_Delete_def backup_Delete_def split: if_splits) (metis image_eqI)+

lemma delete_all_keeps:
  "x \<in> set (w_rows w) \<Longrightarrow> b_ID x \<notin> b_ID ` set bs \<Longrightarrow> x \<in> set (w_rows (snd (delete_all io n bs (res, w))))"
proof (induction bs arbitrary: n res w)
  case (Cons b bs)
  obtain res' w' where rw: "delete_one io n False b (processed res, w) = (res', w')" by fastforce
  then have "x \<in> set (w_rows w')"
    using Cons.prems delete_one_rows [of io n False b "processed res" w] by auto
  with Cons.IH Cons.prems(2) rw show ?case by simp
qed simp

text \<open>
  The step from \<open>w\<close> to \<open>w'\<close> removes rows and files only, and leaves no file behind whose row
  it removed.
\<close>

definition no_new_orphan :: "backup_world \<Rightarrow> backup_world \<Rightarrow> bool" where
  "no_new_orphan w w' \<longleftrightarrow>
     set (w_rows w') \<subseteq> set (w_rows w) \<and> set (w_files w') \<subseteq> set (w_files w) \<and>
     (\<forall>p \<in> fst ` set (w_files w'). p \<notin> b_Path ` set (w_rows w') \<longrightarrow> p \<notin> b_Path ` set (w_rows w))"

lemma no_new_orphan_refl: "no_new_orphan w w"
  by (simp add: no_new_orphan_def)

lemma no_new_orphan_trans: "no_new_orphan w w' \<Longrightarrow> no_new_orphan w' w'' \<Longrightarrow> no_new_orphan w w''"
  unfolding no_new_orphan_def by (meson image_mono subset_eq)

definition ids_distinct :: "backup_world \<Rightarrow> bool" where
  "ids_distinct w \<longleftrightarrow> inj_on b_ID (set (w_rows w))"

lemma delete_one_orphan:
  assumes "\<forall>x \<in> set (w_rows w). b_ID x = b_ID b \<longrightarrow> x = b"
  shows "no_new_orphan w (snd (delete_one io n tr b (res, w)))"
  using assms
  by (auto simp: no_new_orphan_def delete_one_def storage_Delete_def backup_Delete_def split: if_splits)

lemma delete_all_orphan:
  assumes "\<forall>b \<in> set bs. \<forall>x \<in> set (w_rows w). b_ID x = b_ID b \<longrightarrow> x = b"
  shows "no_new_orphan w (snd (delete_all io n bs (res, w)))"
  using assms
proof (induction bs arbitrary: n res w)
  case Nil
  then show ?case by (simp add: no_new_orphan_refl)
next
  case (Cons b bs)
  obtain res' w' where rw: "delete_one io n False b (processed res, w) = (res', w')" by fastforce
  have step: "no_new_orphan w w'"
    using delete_one_orphan [of w b io n False "processed res"] Cons.prems rw by simp
  moreover have "no_new_orphan w' (snd (delete_all io (n + 1) bs (res', w')))"
    using Cons.prems step by (intro Cons.IH) (auto simp: no_new_orphan_def)
  ultimately show ?case using rw no_new_orphan_trans by simp
qed

lemma delete_expired_orphan:
  assumes "ids_distinct w"
  shows "no_new_orphan w (snd (delete_expired io n ids (res, w))) \<and> ids_distinct (snd (delete_expired io n ids (res, w)))"
  using assms
proof (induction ids arbitrary: n res w)
  case Nil
  then show ?case by (simp add: no_new_orphan_refl)
next
  case (Cons i ids)
  let ?step = "case backup_Get (io_get io n) i w of
          None \<Rightarrow> ((processed res)\<lparr>FailedCount := FailedCount res + 1, FailedBackups := FailedBackups res @ [i]\<rparr>, w)
        | Some b \<Rightarrow> delete_one io n True b (processed res, w)"
  obtain res' w' where rw: "?step = (res', w')" by fastforce
  have step: "no_new_orphan w w'"
  proof (cases "backup_Get (io_get io n) i w")
    case None
    then show ?thesis using rw no_new_orphan_refl by simp
  next
    case (Some b)
    then have "b \<in> set (w_rows w)" by (auto simp: backup_Get_def find_Some_iff split: if_splits)
    then show ?thesis
      using Some rw delete_one_orphan [of w b io n True "processed res"] Cons.prems
      by (auto simp: ids_distinct_def inj_on_def)
  qed
  then have "ids_distinct w'"
    using Cons.prems by (auto simp: no_new_orphan_def ids_distinct_def intro: inj_on_subset)
  with Cons.IH [of w' "n + 1" res'] rw step show ?case using no_new_orphan_trans by auto
qed

lemma set_policy_deletions: "set (policy_deletions loc now policy bs) \<subseteq> set bs"
  using selectBackupsToDelete_chosen by (fastforce simp: policy_deletions_def chosen_def newest_first_def)

lemma set_ListCompleted: "set (backup_ListCompleted 10000 w) \<subseteq> set (w_rows w)"
  by (auto simp: backup_ListCompleted_eq newest_first_def dest: in_set_takeD)

lemma choose_unprotected:
  "\<forall>b \<in> set bs. b_ID b \<notin> set keep \<and> \<not> too_old now policy b \<Longrightarrow> 0 < MaxBackups policy \<Longrightarrow>
   choose_loop now policy count keep bs toDelete =
     toDelete @ take (nat (count - int (length toDelete) - MaxBackups policy)) bs"
proof (induction bs arbitrary: toDelete)
  case (Cons b bs)
  show ?case
  proof (cases "MaxBackups policy < count - int (length toDelete)")
    case True
    then have "nat (count - int (length toDelete) - MaxBackups policy) =
        Suc (nat (count - int (length (toDelete @ [b])) - MaxBackups policy))" by simp
    with Cons True show ?thesis by simp
  next
    case False
    with Cons show ?thesis by simp
  qed
qed simp

lemma choose_protected:
  "\<forall>b \<in> set bs. b_ID b \<in> set keep \<Longrightarrow>
   choose_loop now policy count keep (bs @ cs) toDelete = choose_loop now policy count keep cs toDelete"
  by (induction bs) auto


lemma removed_by_delete_all:
  assumes "ids_distinct w" "set bs \<subseteq> set (w_rows w)"
    and "x \<in> set (w_rows w)" "x \<notin> set (w_rows (snd (delete_all io n bs (res, w))))"
  shows "x \<in> set bs"
proof -
  have "b_ID x \<in> b_ID ` set bs" using assms(3,4) delete_all_keeps by blast
  with assms(1-3) show ?thesis by (auto simp: ids_distinct_def inj_on_def)
qed

definition target_backups :: "uuid \<times> string \<Rightarrow> backup list \<Rightarrow> backup list" where
  "target_backups k bs = newest_first (filter (\<lambda>b. target_key b = k) bs)"

lemma in_policy_deletions:
  assumes "x \<in> set (policy_deletions loc now policy bs)"
  defines "ts \<equiv> target_backups (target_key x) bs"
  shows "x \<in> set bs \<and> x \<notin> protected loc policy ts \<and>
    (too_old now policy x \<or> 0 < MaxBackups policy \<and> MaxBackups policy < int (length ts))"
proof -
  obtain k where x: "x \<in> set (selectBackupsToDelete loc now policy (filter (\<lambda>b. target_key b = k) bs))"
    using assms(1) unfolding policy_deletions_def set_concat set_map by blast
  have ch: "chosen now policy (kept_ids loc policy (target_backups k bs)) (int (length (target_backups k bs)) - MaxBackups policy)
      (target_backups k bs) (selectBackupsToDelete loc now policy (filter (\<lambda>b. target_key b = k) bs))"
    using selectBackupsToDelete_chosen [of now policy loc "filter (\<lambda>b. target_key b = k) bs"]
    by (simp add: target_backups_def newest_first_def)
  with x have xs: "x \<in> set bs" "target_key x = k" by (auto simp: chosen_def target_backups_def newest_first_def)
  have "x \<notin> protected loc policy (target_backups k bs)"
    using ch x kept_ids_protected by (fastforce simp: chosen_def)
  moreover have "0 < MaxBackups policy \<and> MaxBackups policy < int (length (target_backups k bs))"
    if "\<not> too_old now policy x"
  proof -
    have "0 < length (filter (\<lambda>b. \<not> too_old now policy b)
        (selectBackupsToDelete loc now policy (filter (\<lambda>b. target_key b = k) bs)))"
      using x that by (simp add: length_greater_0_conv filter_empty_conv) blast
    with ch show ?thesis by (auto simp: chosen_def split: if_splits)
  qed
  ultimately show ?thesis using xs unfolding ts_def by blast
qed

text \<open>The weekly key of a backup of 5 February 2025 equals that of one of 5 March 2025.\<close>

lemma decimal_examples: "decimal 2025 = ''2025''" "decimal 5 = ''5''"
  by (simp_all add: decimal.simps [of 2025] decimal.simps [of 202] decimal.simps [of 20] decimal.simps [of 2]
      decimal.simps [of 5] char_of_def bit_0)

lemma civil_examples:
  "days_from_civil 2025 1 1 = 20089" "days_from_civil 2025 2 5 = 20124" "days_from_civil 2025 3 5 = 20152"
  "civil_from_days 20125 = (2025, 2, 6)" "civil_from_days 20153 = (2025, 3, 6)"
  "civil_from_days 20124 = (2025, 2, 5)" "civil_from_days 20152 = (2025, 3, 5)"
  by code_simp+

lemma week_keys_collide:
  "week_key (\<lambda>t. 0) (days_from_civil 2025 2 5 * (24 * hour)) = ''2025-W05'' \<and>
   week_key (\<lambda>t. 0) (days_from_civil 2025 3 5 * (24 * hour)) = ''2025-W05''"
proof -
  have "ISOWeek (\<lambda>t. 0) (20124 * (24 * hour)) = (2025, 6)" "ISOWeek (\<lambda>t. 0) (20152 * (24 * hour)) = (2025, 10)"
    by (simp_all add: ISOWeek_def local_day_def civil_examples second_def)
  then show ?thesis by (simp add: civil_examples week_key_def padded_def decimal_examples)
qed

lemma all_less_Suc_split: "(\<forall>i < Suc n. P i) \<longleftrightarrow> P 0 \<and> (\<forall>i < n. P (Suc i))"
  by (auto simp: less_Suc_eq_0_disj)

lemma ex_less_Suc_split: "(\<exists>i < Suc n. P i) \<longleftrightarrow> P 0 \<or> (\<exists>i < n. P (Suc i))"
  by (auto simp: less_Suc_eq_0_disj)

text \<open>The rows that a prune leaves, call by call.\<close>

lemma prune_loop_rows:
  "set (w_rows (snd (prune_loop io n bs (res, w)))) =
     {x \<in> set (w_rows w). \<forall>i < length bs. b_ID x = b_ID (bs ! i) \<longrightarrow>
        \<not> (b_Status (bs ! i) = ''completed'' \<and> io_file io (n + i) \<and> io_row io (n + i))}"
proof (induction bs arbitrary: n res w)
  case (Cons b bs)
  let ?step = "if b_Status b \<noteq> ''completed'' then ((processed res)\<lparr>SkippedCount := SkippedCount (processed res) + 1\<rparr>, w)
     else delete_one io n False b (processed res, w)"
  obtain res' w' where rw: "?step = (res', w')" by fastforce
  have "set (w_rows w') = {x \<in> set (w_rows w). b_ID x = b_ID b \<longrightarrow>
      \<not> (b_Status b = ''completed'' \<and> io_file io n \<and> io_row io n)}"
    using rw delete_one_rows [of io n False b "processed res" w] by (auto split: if_splits)
  with Cons.IH [of "n + 1" res' w'] rw show ?case
    by (auto simp: Let_def all_less_Suc_split)
qed simp

definition sample_backup :: "uuid \<Rightarrow> string \<Rightarrow> gotime \<Rightarrow> backup" where
  "sample_backup i path t =
     \<lparr>b_ID = i, b_HostID = 9, b_Type = ''volume'', b_TargetID = ''data'', b_TargetName = ''data'',
      b_Status = ''completed'', b_Trigger = ''manual'', b_Path = path, b_Filename = path, b_SizeBytes = 10,
      b_Compression = ''gzip'', b_Encrypted = False, b_Checksum = None, b_Verified = False, b_VerifiedAt = None,
      b_Metadata = None, b_ErrorMessage = None, b_CreatedBy = None, b_StartedAt = None, b_CompletedAt = None,
      b_ExpiresAt = None, b_CreatedAt = t\<rparr>"

definition sample_policy :: retention_policy where
  "sample_policy = \<lparr>MaxBackups = 1, MaxAgeDays = 0, MinBackups = 1, KeepDaily = 0, KeepWeekly = 0, KeepMonthly = 0\<rparr>"

definition sample_world :: backup_world where
  "sample_world = \<lparr>w_rows = [sample_backup 1 ''a'' 100, sample_backup 2 ''b'' 200, sample_backup 3 ''c'' 300],
     w_files = [(''a'', 10), (''b'', 10), (''c'', 10)]\<rparr>"

definition all_well :: retention_io where
  "all_well = \<lparr>io_query = (\<lambda>n. True), io_get = (\<lambda>n. True), io_file = (\<lambda>n. True), io_row = (\<lambda>n. True)\<rparr>"

lemma sample_backup_simps [simp]:
  "b_ID (sample_backup i p t) = i" "target_key (sample_backup i p t) = (9, ''data'')"
  "b_HostID (sample_backup i p t) = 9" "b_TargetID (sample_backup i p t) = ''data''"
  "b_Status (sample_backup i p t) = ''completed''" "b_Path (sample_backup i p t) = p"
  "b_SizeBytes (sample_backup i p t) = 10" "b_CreatedAt (sample_backup i p t) = t"
  "sample_backup i p t = sample_backup j q u \<longleftrightarrow> i = j \<and> p = q \<and> t = u"
  by (auto simp: sample_backup_def target_key_def)

lemmas sample_defs = sample_policy_def sample_world_def all_well_def

section \<open>Properties\<close>

text \<open>
  C33. The retention policy spares the protected backups: \<^verbatim>\<open>applyRetentionPolicy\<close> removes a
  row only if it is one of the listed completed backups, is not among the \<open>MinBackups\<close> newest of its
  target nor among the daily, weekly or monthly ones the policy keeps, and is over the maximum age or
  its target has more than the maximum number of backups; whatever the storage and the database
  answer.
\<close>

theorem retention_protects:
  assumes "ids_distinct w"
    and "x \<in> set (w_rows w)" "x \<notin> set (w_rows (snd (applyRetentionPolicy io n loc now policy (res, w))))"
  shows "let listed = backup_ListCompleted 10000 w; ts = target_backups (target_key x) listed in
    x \<in> set listed \<and> b_Status x = ''completed'' \<and> x \<notin> protected loc policy ts \<and>
    (too_old now policy x \<or> 0 < MaxBackups policy \<and> MaxBackups policy < int (length ts))"
proof -
  let ?listed = "backup_ListCompleted 10000 w"
  have q: "applyRetentionPolicy io n loc now policy (res, w) =
      delete_all io n (policy_deletions loc now policy ?listed) (res, w)"
    using assms(2,3) by (auto simp: applyRetentionPolicy_def split: if_splits)
  have "set (policy_deletions loc now policy ?listed) \<subseteq> set (w_rows w)"
    using set_policy_deletions set_ListCompleted by blast
  with assms q have "x \<in> set (policy_deletions loc now policy ?listed)"
    using removed_by_delete_all by metis
  note in_policy_deletions [OF this]
  moreover have "b_Status b = ''completed''" if "b \<in> set ?listed" for b
    using that by (auto simp: backup_ListCompleted_eq newest_first_def dest: in_set_takeD)
  ultimately show ?thesis by (simp add: Let_def)
qed

lemma retention_protects_witness:
  "let listed = backup_ListCompleted 10000 sample_world; x = sample_backup 2 ''b'' 200;
       ts = target_backups (target_key x) listed in
    x \<in> set listed \<and> b_Status x = ''completed'' \<and> x \<notin> protected (\<lambda>t. 0) sample_policy ts \<and>
    (too_old 400 sample_policy x \<or> 0 < MaxBackups sample_policy \<and> MaxBackups sample_policy < int (length ts))"
proof -
  have "ids_distinct sample_world" by (simp add: ids_distinct_def sample_defs)
  moreover have "sample_backup 2 ''b'' 200 \<in> set (w_rows sample_world)" by (simp add: sample_defs)
  moreover have "sample_backup 2 ''b'' 200 \<notin>
      set (w_rows (snd (applyRetentionPolicy all_well 0 (\<lambda>t. 0) 400 sample_policy (no_result, sample_world))))"
  proof -
    let ?bs = "[sample_backup 3 ''c'' 300, sample_backup 2 ''b'' 200, sample_backup 1 ''a'' 100]"
    have "backup_ListCompleted 10000 sample_world = ?bs"
      by (simp add: backup_ListCompleted_eq newest_first_def sample_world_def)
    moreover have "selectBackupsToDelete (\<lambda>t. 0) 400 sample_policy ?bs =
        [sample_backup 2 ''b'' 200, sample_backup 1 ''a'' 100]"
      by (simp add: selectBackupsToDelete_def kept_ids_def newest_first_def too_old_def sample_policy_def)
    then have "policy_deletions (\<lambda>t. 0) 400 sample_policy ?bs = [sample_backup 2 ''b'' 200, sample_backup 1 ''a'' 100]"
      by (simp add: policy_deletions_def)
    ultimately show ?thesis
      by (simp add: applyRetentionPolicy_def delete_one_def storage_Delete_def backup_Delete_def sample_world_def all_well_def)
  qed
  ultimately show ?thesis unfolding Let_def by (rule retention_protects [unfolded Let_def])
qed

text \<open>
  Cleaning up leaves no new orphaned file: with unique row ids, \<^verbatim>\<open>Cleanup\<close> removes rows and
  files only, and never leaves a file whose row it removed, whatever the storage and the database
  answer, since each file is deleted before its row.
\<close>

theorem cleanup_no_new_orphans:
  assumes "ids_distinct w"
  shows "no_new_orphan w (snd (Cleanup io loc dbnow now policy w))"
proof -
  define p where "p = (case policy of None \<Rightarrow> DefaultRetentionPolicy | Some p \<Rightarrow> p)"
  define ids where "ids = (if io_query io 0 then backup_DeleteExpired dbnow w else [])"
  obtain res w' where rw: "delete_expired io 0 ids (no_result, w) = (res, w')" by fastforce
  have first: "no_new_orphan w w'" "ids_distinct w'"
    using delete_expired_orphan [OF assms, of io 0 ids no_result] rw by auto
  have "set (policy_deletions loc now p (backup_ListCompleted 10000 w')) \<subseteq> set (w_rows w')"
    using set_policy_deletions set_ListCompleted by blast
  then have "no_new_orphan w' (snd (applyRetentionPolicy io (length ids) loc now p (res, w')))"
    using first(2) delete_all_orphan no_new_orphan_refl
    by (auto simp: applyRetentionPolicy_def ids_distinct_def inj_on_def intro!: delete_all_orphan)
  with first(1) rw show ?thesis
    unfolding Cleanup_def p_def [symmetric] ids_def [symmetric] Let_def
    by (metis no_new_orphan_trans)
qed

lemma cleanup_no_new_orphans_witness:
  "no_new_orphan sample_world (snd (Cleanup all_well (\<lambda>t. 0) 400 400 (Some sample_policy) sample_world))"
  by (rule cleanup_no_new_orphans) (simp add: ids_distinct_def sample_defs)

text \<open>
  Of the backups over the maximum number, the newest are deleted: with no age limit and no daily,
  weekly or monthly rule, \<^verbatim>\<open>selectBackupsToDelete\<close> keeps the \<open>MinBackups\<close> newest, deletes
  the ones that follow them until \<open>MaxBackups\<close> are left, and so keeps the oldest ones.
\<close>

theorem max_count_deletes_newest:
  assumes "distinct (map b_ID bs)" "MaxAgeDays policy \<le> 0" "KeepDaily policy \<le> 0" "KeepWeekly policy \<le> 0"
    "KeepMonthly policy \<le> 0" "0 < MaxBackups policy"
  shows "selectBackupsToDelete loc now policy bs =
    take (length bs - nat (MaxBackups policy)) (drop (nat (MinBackups policy)) (newest_first bs))"
proof -
  let ?k = "nat (MinBackups policy)" and ?s = "newest_first bs"
  have keep: "kept_ids loc policy ?s = map b_ID (take ?k ?s)"
    using assms by (simp add: kept_ids_def)
  have "distinct (map b_ID ?s)"
    using assms(1) by (simp add: newest_first_def distinct_map inj_on_def)
  then have disj: "b_ID ` set (take ?k ?s) \<inter> b_ID ` set (drop ?k ?s) = {}"
    by (metis append_take_drop_id distinct_append image_set map_append)
  have "choose_loop now policy (int (length bs)) (map b_ID (take ?k ?s)) (take ?k ?s @ drop ?k ?s) [] =
      take (nat (int (length bs) - MaxBackups policy)) (drop ?k ?s)"
    using disj assms choose_unprotected [of "drop ?k ?s" "map b_ID (take ?k ?s)" now policy "int (length bs)" "[]"]
    by (subst choose_protected) (auto simp: too_old_def)
  moreover have "nat (int (length bs) - MaxBackups policy) = length bs - nat (MaxBackups policy)"
    using assms(6) by linarith
  moreover have "length ?s = length bs" "bs = [] \<longrightarrow> ?s = []" by (simp_all add: newest_first_def)
  ultimately show ?thesis by (simp add: selectBackupsToDelete_def keep Let_def)
qed

lemma max_count_deletes_newest_witness:
  "selectBackupsToDelete (\<lambda>t. 0) 400 sample_policy (w_rows sample_world) =
     [sample_backup 2 ''b'' 200, sample_backup 1 ''a'' 100] \<and>
   selectBackupsToDelete (\<lambda>t. 0) 400 (sample_policy\<lparr>MaxBackups := 2\<rparr>) (w_rows sample_world) =
     [sample_backup 2 ''b'' 200]"
proof -
  have "distinct (map b_ID (w_rows sample_world))" by (simp add: sample_defs)
  note rule = max_count_deletes_newest [OF this, of sample_policy "\<lambda>t. 0" 400]
    max_count_deletes_newest [OF this, of "sample_policy\<lparr>MaxBackups := 2\<rparr>" "\<lambda>t. 0" 400]
  have "newest_first (w_rows sample_world) =
      [sample_backup 3 ''c'' 300, sample_backup 2 ''b'' 200, sample_backup 1 ''a'' 100]"
    by (simp add: newest_first_def sample_defs)
  with rule show ?thesis by (simp add: sample_policy_def sample_world_def numeral_2_eq_2)
qed

text \<open>
  Pruning a target keeps its newest backups: with unique row ids and a count that is not negative,
  \<^verbatim>\<open>PruneTarget\<close> removes a row exactly if it is a completed backup of the target beyond
  the \<open>keepCount\<close> newest ones and the storage and the database both confirm its deletion.
\<close>

theorem prune_keeps_newest:
  assumes "ids_distinct w" "0 \<le> keepCount" "io_query io 0" "x \<in> set (w_rows w)"
  shows "x \<notin> set (w_rows (snd (PruneTarget io h t keepCount w))) \<longleftrightarrow>
    (\<exists>i < length (drop (nat keepCount) (newest_first (backup_GetByHostAndTarget h t w))).
       x = drop (nat keepCount) (newest_first (backup_GetByHostAndTarget h t w)) ! i \<and>
       b_Status x = ''completed'' \<and> io_file io i \<and> io_row io i)"
proof -
  let ?bs = "drop (nat keepCount) (newest_first (backup_GetByHostAndTarget h t w))"
  have rows: "snd (PruneTarget io h t keepCount w) = snd (prune_loop io 0 ?bs (no_result, w))"
    using assms by (simp add: PruneTarget_def Let_def split: prod.splits)
  have "set ?bs \<subseteq> set (w_rows w)"
    by (auto simp: backup_GetByHostAndTarget_def newest_first_def dest: in_set_dropD)
  then have "b_ID x = b_ID (?bs ! i) \<longleftrightarrow> x = ?bs ! i" if "i < length ?bs" for i
    using that assms(1,4) nth_mem unfolding ids_distinct_def inj_on_def by blast
  then show ?thesis
    using assms(4) unfolding rows prune_loop_rows by auto
qed

lemma prune_keeps_newest_witness:
  "sample_backup 1 ''a'' 100 \<notin> set (w_rows (snd (PruneTarget all_well 9 ''data'' 1 sample_world))) \<and>
   sample_backup 3 ''c'' 300 \<in> set (w_rows (snd (PruneTarget all_well 9 ''data'' 1 sample_world)))"
proof -
  have d: "ids_distinct sample_world" by (simp add: ids_distinct_def sample_defs)
  have bs: "drop (nat 1) (newest_first (backup_GetByHostAndTarget 9 ''data'' sample_world)) =
      [sample_backup 2 ''b'' 200, sample_backup 1 ''a'' 100]"
    by (simp add: backup_GetByHostAndTarget_def newest_first_def sample_defs)
  note rule = prune_keeps_newest [OF d, of 1 all_well _ 9 "''data''", unfolded bs]
  have "sample_backup 1 ''a'' 100 \<in> set (w_rows sample_world)" "sample_backup 3 ''c'' 300 \<in> set (w_rows sample_world)"
    by (simp_all add: sample_defs)
  from this [THEN rule [rotated 2]] show ?thesis
    by (auto simp: all_less_Suc_split ex_less_Suc_split sample_defs)
qed

end
