(* ===== verification/Password_Policy.thy ===== *)
theory Password_Policy
  imports Go_Strings
begin

text \<open>
  The password policy: \<^verbatim>\<open>internal/pkg/crypto/password_policy.go\<close>.

  Go's Unicode tables are the argument \<open>U\<close>: the classes of a code point and
  \<^verbatim>\<open>strings.ToLower\<close>. \<open>ascii\<close> is their part for ASCII text.
\<close>

section \<open>The policy\<close>

record unicode =
  IsUpper :: "nat \<Rightarrow> bool"
  IsLower :: "nat \<Rightarrow> bool"
  IsDigit :: "nat \<Rightarrow> bool"
  IsPunct :: "nat \<Rightarrow> bool"
  IsSymbol :: "nat \<Rightarrow> bool"
  ToLower :: "string \<Rightarrow> string"

definition ascii :: unicode where
  "ascii =
     \<lparr>IsUpper = (\<lambda>r. 65 \<le> r \<and> r \<le> 90), IsLower = (\<lambda>r. 97 \<le> r \<and> r \<le> 122), IsDigit = (\<lambda>r. 48 \<le> r \<and> r \<le> 57),
      IsPunct = (\<lambda>r. r < 128 \<and> r \<in> set (map of_char ''!%&*()-_,./:;?@[]{}#'') \<union> {34, 39, 92}),
      IsSymbol = (\<lambda>r. r \<in> set (map of_char ''$+<=>^|~'') \<union> {96}),
      ToLower = map (\<lambda>c. if 65 \<le> (of_char c :: nat) \<and> (of_char c :: nat) \<le> 90 then char_of (of_char c + 32 :: nat) else c)\<rparr>"

record password_policy =
  MinLength :: int
  MaxLength :: int
  RequireUppercase :: bool
  RequireLowercase :: bool
  RequireNumber :: bool
  RequireSpecial :: bool
  MinUppercase :: int
  MinLowercase :: int
  MinNumbers :: int
  MinSpecial :: int
  DisallowUsername :: bool
  DisallowCommonPasswords :: bool
  MaxConsecutiveChars :: int

definition DefaultPasswordPolicy :: password_policy where
  "DefaultPasswordPolicy =
     \<lparr>MinLength = 8, MaxLength = 128, RequireUppercase = True, RequireLowercase = True, RequireNumber = True,
      RequireSpecial = False, MinUppercase = 1, MinLowercase = 1, MinNumbers = 1, MinSpecial = 0,
      DisallowUsername = True, DisallowCommonPasswords = True, MaxConsecutiveChars = 3\<rparr>"

definition StrictPasswordPolicy :: password_policy where
  "StrictPasswordPolicy =
     \<lparr>MinLength = 12, MaxLength = 128, RequireUppercase = True, RequireLowercase = True, RequireNumber = True,
      RequireSpecial = True, MinUppercase = 1, MinLowercase = 1, MinNumbers = 1, MinSpecial = 1,
      DisallowUsername = True, DisallowCommonPasswords = True, MaxConsecutiveChars = 3\<rparr>"

definition MinimalPasswordPolicy :: password_policy where
  "MinimalPasswordPolicy =
     \<lparr>MinLength = 8, MaxLength = 128, RequireUppercase = False, RequireLowercase = False, RequireNumber = False,
      RequireSpecial = False, MinUppercase = 0, MinLowercase = 0, MinNumbers = 0, MinSpecial = 0,
      DisallowUsername = False, DisallowCommonPasswords = False, MaxConsecutiveChars = 0\<rparr>"

record password_result =
  Valid :: bool
  Errors :: "string list"
  Warnings :: "string list"
  Score :: int

section \<open>Helpers\<close>

text \<open>The digits of \<^verbatim>\<open>itoa\<close>: while the number is positive, prepend its last digit.\<close>

function itoa_digits :: "int \<Rightarrow> string \<Rightarrow> string" where
  "itoa_digits i digits =
     (if 0 < i then itoa_digits (i div 10) (char_of (48 + nat (i mod 10)) # digits) else digits)"
  by auto
termination by (relation "measure (\<lambda>(i, digits). nat i)") auto

declare itoa_digits.simps [simp del]

text \<open>Negation of an \<^verbatim>\<open>int\<close> wraps around, so the least one stays negative.\<close>

definition itoa :: "int \<Rightarrow> string" where
  "itoa i =
     (if i = 0 then ''0''
      else let negative = i < 0; i = (if negative then wrap64 (- i) else i); digits = itoa_digits i []
           in if negative then ''-'' @ digits else digits)"

text \<open>The loop over the code points from the second on.\<close>

fun consecutive_loop :: "int \<Rightarrow> nat \<Rightarrow> int \<Rightarrow> nat list \<Rightarrow> bool" where
  "consecutive_loop maxConsec prev count [] = False"
| "consecutive_loop maxConsec prev count (r # rs) =
     (if r = prev then (if maxConsec < count + 1 then True else consecutive_loop maxConsec r (count + 1) rs)
      else consecutive_loop maxConsec r 1 rs)"

definition checkConsecutive :: "string \<Rightarrow> int \<Rightarrow> bool" where
  "checkConsecutive password maxConsec =
     (if maxConsec \<le> 0 then False
      else case runes password of [] \<Rightarrow> False | r # rs \<Rightarrow> consecutive_loop maxConsec r 1 rs)"

definition commonPasswords :: "string list" where
  "commonPasswords = [
    ''123456'', ''password'', ''12345678'', ''qwerty'', ''123456789'', ''12345'', ''1234'', ''111111'',
    ''1234567'', ''dragon'', ''123123'', ''baseball'', ''abc123'', ''football'', ''monkey'',
    ''letmein'', ''696969'', ''shadow'', ''master'', ''666666'', ''qwertyuiop'', ''123321'',
    ''mustang'', ''1234567890'', ''michael'', ''654321'', ''pussy'', ''superman'', ''1qaz2wsx'',
    ''7777777'', ''fuckyou'', ''121212'', ''000000'', ''qazwsx'', ''123qwe'', ''killer'', ''trustno1'',
    ''jordan'', ''jennifer'', ''zxcvbnm'', ''asdfgh'', ''hunter'', ''buster'', ''soccer'', ''harley'',
    ''batman'', ''andrew'', ''tigger'', ''sunshine'', ''iloveyou'', ''fuckme'', ''2000'', ''charlie'',
    ''robert'', ''thomas'', ''hockey'', ''ranger'', ''daniel'', ''starwars'', ''klaster'', ''112233'',
    ''george'', ''asshole'', ''computer'', ''michelle'', ''jessica'', ''pepper'', ''1111'', ''zxcvbn'',
    ''555555'', ''11111111'', ''131313'', ''freedom'', ''777777'', ''pass'', ''fuck'', ''maggie'',
    ''159753'', ''aaaaaa'', ''ginger'', ''princess'', ''joshua'', ''cheese'', ''amanda'', ''summer'',
    ''love'', ''ashley'', ''6969'', ''nicole'', ''chelsea'', ''biteme'', ''matthew'', ''access'',
    ''yankees'', ''987654321'', ''dallas'', ''austin'', ''thunder'', ''taylor'', ''matrix'',
    ''password1'', ''password123'', ''admin'', ''admin123'', ''root'', ''toor'', ''pass123'', ''test'',
    ''test123'', ''guest'', ''master123'', ''changeme'', ''welcome'', ''welcome1'', ''welcome123'',
    ''passw0rd'', ''p@ssw0rd'', ''p@ssword'', ''letmein123'', ''qwerty123'']"

definition isCommonPassword :: "string \<Rightarrow> bool" where
  "isCommonPassword password \<longleftrightarrow> password \<in> set commonPasswords"

record char_counts =
  upperCount :: int
  lowerCount :: int
  numberCount :: int
  specialCount :: int

fun count_chars :: "unicode \<Rightarrow> nat list \<Rightarrow> char_counts \<Rightarrow> char_counts" where
  "count_chars U [] n = n"
| "count_chars U (r # rs) n =
     count_chars U rs
       (if IsUpper U r then n\<lparr>upperCount := upperCount n + 1\<rparr>
        else if IsLower U r then n\<lparr>lowerCount := lowerCount n + 1\<rparr>
        else if IsDigit U r then n\<lparr>numberCount := numberCount n + 1\<rparr>
        else if IsPunct U r \<or> IsSymbol U r then n\<lparr>specialCount := specialCount n + 1\<rparr>
        else n)"

definition no_chars :: char_counts where
  "no_chars = \<lparr>upperCount = 0, lowerCount = 0, numberCount = 0, specialCount = 0\<rparr>"

section \<open>Validation\<close>

definition fail_with :: "string \<Rightarrow> password_result \<Rightarrow> password_result" where
  "fail_with msg r = r\<lparr>Valid := False, Errors := Errors r @ [msg]\<rparr>"

definition add_score :: "int \<Rightarrow> password_result \<Rightarrow> password_result" where
  "add_score n r = r\<lparr>Score := Score r + n\<rparr>"

definition reject_if :: "bool \<Rightarrow> string \<Rightarrow> password_result \<Rightarrow> password_result" where
  "reject_if c msg r = (if c then fail_with msg r else r)"

definition score_if :: "bool \<Rightarrow> int \<Rightarrow> password_result \<Rightarrow> password_result" where
  "score_if c n r = (if c then add_score n r else r)"

definition reject_or_score :: "bool \<Rightarrow> string \<Rightarrow> int \<Rightarrow> password_result \<Rightarrow> password_result" where
  "reject_or_score c msg n r = (if c then fail_with msg r else add_score n r)"

definition cap_score :: "password_result \<Rightarrow> password_result" where
  "cap_score r = (if 100 < Score r then r\<lparr>Score := 100\<rparr> else r)"

definition warn_if_weak :: "password_result \<Rightarrow> password_result" where
  "warn_if_weak r =
     (if Valid r \<and> Score r < 50 then r\<lparr>Warnings := Warnings r @ [''Consider using a stronger password'']\<rparr> else r)"

text \<open>One of the four checks of a class of characters.\<close>

definition check_class ::
    "bool \<Rightarrow> int \<Rightarrow> int \<Rightarrow> string \<Rightarrow> string \<Rightarrow> password_result \<Rightarrow> password_result" where
  "check_class required minimum count one many r =
     (if required \<and> count < minimum then
        fail_with (if minimum = 1 then ''Password must contain at least one '' @ one
                   else ''Password must contain at least '' @ itoa minimum @ '' '' @ many) r
      else if 0 < count then add_score 15 r else r)"

definition ValidatePassword :: "unicode \<Rightarrow> password_policy \<Rightarrow> string \<Rightarrow> string \<Rightarrow> password_result" where
  "ValidatePassword U p password username =
     (let len = int (length password);
          r = \<lparr>Valid = True, Errors = [], Warnings = [], Score = 0\<rparr>;
          r = reject_or_score (len < MinLength p)
                (''Password must be at least '' @ itoa (MinLength p) @ '' characters'') 20 r;
          r = reject_if (MaxLength p < len) (''Password must be at most '' @ itoa (MaxLength p) @ '' characters'') r;
          n = count_chars U (runes password) no_chars;
          r = check_class (RequireUppercase p) (MinUppercase p) (upperCount n) ''uppercase letter'' ''uppercase letters'' r;
          r = check_class (RequireLowercase p) (MinLowercase p) (lowerCount n) ''lowercase letter'' ''lowercase letters'' r;
          r = check_class (RequireNumber p) (MinNumbers p) (numberCount n) ''number'' ''numbers'' r;
          r = check_class (RequireSpecial p) (MinSpecial p) (specialCount n) ''special character'' ''special characters'' r;
          r = reject_if (DisallowUsername p \<and> username \<noteq> [] \<and> Contains (ToLower U password) (ToLower U username))
                ''Password must not contain your username'' r;
          r = reject_if (0 < MaxConsecutiveChars p \<and> checkConsecutive password (MaxConsecutiveChars p))
                (''Password must not contain more than '' @ itoa (MaxConsecutiveChars p) @
                 '' consecutive identical characters'') r;
          r = reject_if (DisallowCommonPasswords p \<and> isCommonPassword (ToLower U password))
                ''Password is too common and easily guessable'' r;
          r = score_if (12 \<le> len) 10 r;
          r = score_if (16 \<le> len) 10 r
      in warn_if_weak (cap_score r))"

definition GetPasswordStrengthLabel :: "int \<Rightarrow> string" where
  "GetPasswordStrengthLabel sc =
     (if 80 \<le> sc then ''Strong'' else if 60 \<le> sc then ''Good'' else if 40 \<le> sc then ''Fair''
      else if 20 \<le> sc then ''Weak'' else ''Very Weak'')"


section \<open>The helpers do what they say\<close>

lemma itoa_digits_decimal: "0 < i \<Longrightarrow> itoa_digits i digits = decimal (nat i) @ digits"
proof (induction i digits rule: itoa_digits.induct)
  case (1 i digits)
  show ?case
  proof (cases "i < 10")
    case True
    with "1.prems" have "i div 10 = 0" "i mod 10 = i" "nat i < 10" by auto
    with "1.prems" show ?thesis
      by (subst itoa_digits.simps, subst itoa_digits.simps, subst decimal.simps) simp
  next
    case False
    then have "0 < i div 10" "\<not> nat i < 10" "nat (i div 10) = nat i div 10" "nat (i mod 10) = nat i mod 10"
      by (auto simp: nat_div_distrib nat_mod_distrib)
    with "1.IH" "1.prems" show ?thesis
      by (subst itoa_digits.simps, subst decimal.simps) simp
  qed
qed

lemma decimal_zero: "decimal 0 = ''0''"
  by (subst decimal.simps) (simp add: char_of_def bit_0)

lemma itoa_format: "fits64 (- i) \<Longrightarrow> itoa i = format_int i"
  by (auto simp: itoa_def format_int_def Let_def itoa_digits_decimal decimal_zero)

definition has_run :: "nat \<Rightarrow> 'a list \<Rightarrow> bool" where
  "has_run n xs \<longleftrightarrow> (\<exists>a x b. xs = a @ replicate n x @ b)"

lemma has_run_Cons: "has_run (Suc n) (y # ys) \<longleftrightarrow> (\<exists>b. ys = replicate n y @ b) \<or> has_run (Suc n) ys"
proof
  assume "has_run (Suc n) (y # ys)"
  then obtain a x b where "y # ys = a @ replicate (Suc n) x @ b" unfolding has_run_def by blast
  then show "(\<exists>b. ys = replicate n y @ b) \<or> has_run (Suc n) ys"
    unfolding has_run_def by (cases a) auto
next
  assume "(\<exists>b. ys = replicate n y @ b) \<or> has_run (Suc n) ys"
  then show "has_run (Suc n) (y # ys)"
    unfolding has_run_def by (metis append_Cons append_Nil replicate_Suc)
qed

lemma not_prefix_run: "c < n \<Longrightarrow> r \<noteq> p \<Longrightarrow> replicate c p @ r # rs \<noteq> replicate n p @ b"
proof (induction c arbitrary: n)
  case 0
  then show ?case by (cases n) auto
next
  case (Suc c)
  then show ?case by (cases n) auto
qed

lemma has_run_skip: "c \<le> n \<Longrightarrow> r \<noteq> p \<Longrightarrow> has_run (Suc n) (replicate c p @ r # rs) \<longleftrightarrow> has_run (Suc n) (r # rs)"
  by (induction c) (auto simp: has_run_Cons not_prefix_run)

lemma consecutive_loop_run:
  "0 < c \<Longrightarrow> c \<le> m \<Longrightarrow> consecutive_loop m p c rs \<longleftrightarrow> has_run (Suc (nat m)) (replicate (nat c) p @ rs)"
proof (induction m p c rs rule: consecutive_loop.induct)
  case (1 m p c)
  then have "nat c < Suc (nat m)" by linarith
  then have "replicate (nat c) p \<noteq> a @ replicate (Suc (nat m)) x @ b" for a x b
    by (metis add.commute length_append length_replicate not_add_less1 not_less_eq trans_less_add2 less_irrefl_nat add_lessD1)
  then show ?case by (simp add: has_run_def)
next
  case (2 m p c r rs)
  have step: "replicate (nat c) p @ p # rs = replicate (nat (c + 1)) p @ rs"
    using "2.prems" by (simp add: nat_add_distrib replicate_app_Cons_same)
  show ?case
  proof (cases "r = p")
    case True
    show ?thesis
    proof (cases "m < c + 1")
      case True
      with "2.prems" have "nat (c + 1) = Suc (nat m)" by linarith
      with True \<open>r = p\<close> step show ?thesis
        unfolding has_run_def by (metis append_Nil consecutive_loop.simps(2))
    next
      case False
      with "2.IH"(1) [OF True] "2.prems" True
      have "consecutive_loop m p c (r # rs) \<longleftrightarrow> has_run (Suc (nat m)) (replicate (nat (c + 1)) p @ rs)" by simp
      then show ?thesis by (simp only: step True)
    qed
  next
    case False
    with "2.IH"(2) [OF False] "2.prems" show ?thesis by (simp add: has_run_skip)
  qed
qed

lemma checkConsecutive_run:
  "checkConsecutive password m \<longleftrightarrow> 0 < m \<and> has_run (Suc (nat m)) (runes password)"
  by (cases "runes password") (auto simp: checkConsecutive_def consecutive_loop_run has_run_def)

lemma count_chars_filter:
  "upperCount (count_chars U rs n) = upperCount n + int (length (filter (IsUpper U) rs))"
  "lowerCount (count_chars U rs n) = lowerCount n + int (length (filter (\<lambda>r. \<not> IsUpper U r \<and> IsLower U r) rs))"
  "numberCount (count_chars U rs n) =
     numberCount n + int (length (filter (\<lambda>r. \<not> IsUpper U r \<and> \<not> IsLower U r \<and> IsDigit U r) rs))"
  "specialCount (count_chars U rs n) =
     specialCount n + int (length (filter (\<lambda>r. \<not> IsUpper U r \<and> \<not> IsLower U r \<and> \<not> IsDigit U r \<and>
       (IsPunct U r \<or> IsSymbol U r)) rs))"
  by (induction rs arbitrary: n) auto


text \<open>How a check changes the result.\<close>

lemma check_valid [simp]:
  "Valid (reject_if c m r) \<longleftrightarrow> Valid r \<and> \<not> c" "Valid (score_if c n r) = Valid r"
  "Valid (reject_or_score c m n r) \<longleftrightarrow> Valid r \<and> \<not> c" "Valid (cap_score r) = Valid r" "Valid (warn_if_weak r) = Valid r"
  "Valid (check_class required minimum count one many r) \<longleftrightarrow> Valid r \<and> \<not> (required \<and> count < minimum)"
  by (simp_all add: reject_if_def score_if_def reject_or_score_def cap_score_def warn_if_weak_def check_class_def
      fail_with_def add_score_def)

lemma check_errors [simp]:
  "Errors (reject_if c m r) = [] \<longleftrightarrow> Errors r = [] \<and> \<not> c" "Errors (score_if c n r) = Errors r"
  "Errors (reject_or_score c m n r) = [] \<longleftrightarrow> Errors r = [] \<and> \<not> c" "Errors (cap_score r) = Errors r"
  "Errors (warn_if_weak r) = Errors r"
  "Errors (check_class required minimum count one many r) = [] \<longleftrightarrow> Errors r = [] \<and> \<not> (required \<and> count < minimum)"
  by (simp_all add: reject_if_def score_if_def reject_or_score_def cap_score_def warn_if_weak_def check_class_def
      fail_with_def add_score_def)

section \<open>Properties\<close>

text \<open>The policy, declaratively.\<close>

definition satisfies_policy :: "unicode \<Rightarrow> password_policy \<Rightarrow> string \<Rightarrow> string \<Rightarrow> bool" where
  "satisfies_policy U p password username \<longleftrightarrow>
     (let rs = runes password; number_of = (\<lambda>c. int (length (filter c rs)));
          special = (\<lambda>r. \<not> IsUpper U r \<and> \<not> IsLower U r \<and> \<not> IsDigit U r \<and> (IsPunct U r \<or> IsSymbol U r))
      in MinLength p \<le> int (length password) \<and> int (length password) \<le> MaxLength p \<and>
         (RequireUppercase p \<longrightarrow> MinUppercase p \<le> number_of (IsUpper U)) \<and>
         (RequireLowercase p \<longrightarrow> MinLowercase p \<le> number_of (\<lambda>r. \<not> IsUpper U r \<and> IsLower U r)) \<and>
         (RequireNumber p \<longrightarrow> MinNumbers p \<le> number_of (\<lambda>r. \<not> IsUpper U r \<and> \<not> IsLower U r \<and> IsDigit U r)) \<and>
         (RequireSpecial p \<longrightarrow> MinSpecial p \<le> number_of special) \<and>
         (DisallowUsername p \<longrightarrow> username = [] \<or> (\<nexists>a b. ToLower U password = a @ ToLower U username @ b)) \<and>
         (MaxConsecutiveChars p \<le> 0 \<or>
            (\<nexists>a x b. rs = a @ replicate (Suc (nat (MaxConsecutiveChars p))) x @ b)) \<and>
         (DisallowCommonPasswords p \<longrightarrow> ToLower U password \<notin> set commonPasswords))"

text \<open>
  \<^verbatim>\<open>ValidatePassword\<close> accepts exactly the passwords that satisfy the policy: a length in
  bytes within the bounds, enough characters of each required class, no occurrence of the user name
  and no longer run of one character than allowed, in any case of letters no common password; and it
  reports an error exactly when it refuses.
\<close>

theorem validate_password_spec:
  "(Valid (ValidatePassword U p password username) \<longleftrightarrow> satisfies_policy U p password username) \<and>
   (Errors (ValidatePassword U p password username) = [] \<longleftrightarrow> Valid (ValidatePassword U p password username))"
  by (simp add: ValidatePassword_def satisfies_policy_def Let_def count_chars_filter no_chars_def checkConsecutive_run
      has_run_def Contains_iff isCommonPassword_def not_less)

lemma validate_password_spec_witness:
  "Valid (ValidatePassword ascii DefaultPasswordPolicy ''Tr0ub4dor&3'' ''randall'') \<and>
   \<not> Valid (ValidatePassword ascii DefaultPasswordPolicy ''Password123'' ''password'')"
proof -
  have "Valid (ValidatePassword ascii DefaultPasswordPolicy ''Tr0ub4dor&3'' ''randall'')" by code_simp
  moreover have "\<not> satisfies_policy ascii DefaultPasswordPolicy ''Password123'' ''password''"
  proof -
    have "ToLower ascii ''Password123'' = [] @ ToLower ascii ''password'' @ ''123''" by code_simp
    then have "\<exists>a b. ToLower ascii ''Password123'' = a @ ToLower ascii ''password'' @ b" by blast
    then show ?thesis unfolding satisfies_policy_def Let_def by (simp add: DefaultPasswordPolicy_def)
  qed
  ultimately show ?thesis
    using validate_password_spec [of ascii DefaultPasswordPolicy "''Password123''" "''password''"] by blast
qed

text \<open>
  The hand-written \<^verbatim>\<open>itoa\<close> prints every \<^verbatim>\<open>int\<close> so that reading it back gives the
  number, except the least one, whose negation wraps around: that one prints as a bare minus sign.
\<close>

theorem itoa_roundtrip:
  "fits64 i \<Longrightarrow> Atoi (itoa i) = (if i = - (2 ^ 63) then None else Some i) \<and>
   (i = - (2 ^ 63) \<longrightarrow> itoa i = ''-'')"
proof -
  assume i: "fits64 i"
  show ?thesis
  proof (cases "i = - (2 ^ 63)")
    case True
    then have "itoa i = ''-''"
      by (simp add: itoa_def Let_def wrap64_def itoa_digits.simps)
    moreover have "Atoi ''-'' = None" by (simp add: Atoi_def signed_digits_def signed_val_def)
    ultimately show ?thesis using True by simp
  next
    case False
    with i have "fits64 (- i)" by (auto simp: fits64_def)
    with i False show ?thesis by (simp add: itoa_format)
  qed
qed

lemma itoa_roundtrip_witness:
  "Atoi (itoa (- 120)) = Some (- 120) \<and> Atoi (itoa (- (2 ^ 63))) = None \<and> itoa (- (2 ^ 63)) = ''-''"
  using itoa_roundtrip [of "- 120"] itoa_roundtrip [of "- (2 ^ 63)"] unfolding fits64_def by fastforce

end
