(* ===== verification/Auth_Store.thy ===== *)
theory Auth_Store
  imports Go_Strings
begin

text \<open>
  What authentication stores: the tables of users, sessions and API keys
  (\<^verbatim>\<open>internal/models/user.go\<close>, \<^verbatim>\<open>internal/repository/postgres/user_repo.go\<close>,
  \<^verbatim>\<open>session_repo.go\<close>, migration \<^verbatim>\<open>001_foundation\<close>) and the blacklist of tokens in Redis
  (\<^verbatim>\<open>internal/repository/redis/jwt_blacklist.go\<close>).

  A table is the list of its rows. A statement is \<open>None\<close> when the database refuses it or cannot be
  reached, \<open>Some t\<close> when it runs with \<^verbatim>\<open>NOW()\<close> = \<open>t\<close>; \<open>now\<close> is a reading of the
  program's clock. Redis is a parameter (\<open>redis_kv\<close>), what is relied on is the locale
  \<open>kv_laws\<close>.
\<close>

section \<open>Rows\<close>

record user =
  u_ID :: uuid
  u_Username :: string
  u_Email :: "string option"
  u_PasswordHash :: string
  u_Role :: string
  u_IsActive :: bool
  u_IsLDAP :: bool
  u_LDAPDN :: "string option"
  u_FailedLoginAttempts :: int
  u_LockedUntil :: "gotime option"
  u_LastLoginAt :: "gotime option"
  u_PasswordChangedAt :: "gotime option"
  u_TOTPSecret :: "string option"
  u_TOTPEnabled :: bool
  u_TOTPVerifiedAt :: "gotime option"
  u_CreatedAt :: gotime
  u_UpdatedAt :: gotime

definition user_IsLocked :: "gotime \<Rightarrow> user \<Rightarrow> bool" where
  "user_IsLocked now u = (case u_LockedUntil u of None \<Rightarrow> False | Some t \<Rightarrow> now < t)"

definition user_CanLogin :: "gotime \<Rightarrow> user \<Rightarrow> bool" where
  "user_CanLogin now u \<longleftrightarrow> u_IsActive u \<and> \<not> user_IsLocked now u"

definition user_HasTOTP :: "user \<Rightarrow> bool" where
  "user_HasTOTP u \<longleftrightarrow> u_TOTPEnabled u \<and> u_TOTPSecret u \<noteq> None \<and> u_TOTPSecret u \<noteq> Some []"

record session =
  s_ID :: uuid
  s_UserID :: uuid
  s_RefreshTokenHash :: string
  s_UserAgent :: "string option"
  s_IPAddress :: "string option"
  s_ExpiresAt :: gotime
  s_CreatedAt :: gotime

definition session_IsExpired :: "gotime \<Rightarrow> session \<Rightarrow> bool" where
  "session_IsExpired now s \<longleftrightarrow> s_ExpiresAt s < now"

record api_key =
  k_ID :: uuid
  k_UserID :: uuid
  k_Name :: string
  k_KeyHash :: string
  k_Prefix :: string
  k_LastUsedAt :: "gotime option"
  k_ExpiresAt :: "gotime option"
  k_CreatedAt :: gotime

definition api_key_IsExpired :: "gotime \<Rightarrow> api_key \<Rightarrow> bool" where
  "api_key_IsExpired now k = (case k_ExpiresAt k of None \<Rightarrow> False | Some t \<Rightarrow> t < now)"

record auth_db =
  users :: "user list"
  sessions :: "session list"
  api_keys :: "api_key list"

datatype auth_error =
    ErrInvalidToken | ErrExpiredToken | ErrInvalidClaims | ErrInvalidSignature | ErrTokenNotYetValid
  | ErrTokenRevoked | ErrInvalidCredentials | ErrUserLocked | ErrUserDisabled | ErrWeakPassword string
  | NotFound string | AlreadyExists string | Forbidden string | Unauthorized string | DatabaseError | Failed string

section \<open>Users\<close>

text \<open>\<^verbatim>\<open>LOWER\<close> of the database is the argument \<open>lower\<close>.\<close>

definition user_Create :: "gotime option \<Rightarrow> gotime \<Rightarrow> user \<Rightarrow> auth_db \<Rightarrow> (auth_error + user) \<times> auth_db" where
  "user_Create st now u db =
     (let u = u\<lparr>u_CreatedAt := now, u_UpdatedAt := now\<rparr> in
      if st = None then (Inl DatabaseError, db)
      else if u_ID u \<in> u_ID ` set (users db) \<or> u_Username u \<in> u_Username ` set (users db) \<or>
              (u_Email u \<noteq> None \<and> u_Email u \<in> u_Email ` set (users db))
      then (Inl (AlreadyExists ''user''), db)
      else (Inr u, db\<lparr>users := users db @
              [u\<lparr>u_FailedLoginAttempts := 0, u_LockedUntil := None, u_LastLoginAt := None, u_PasswordChangedAt := None,
                 u_TOTPSecret := None, u_TOTPEnabled := False, u_TOTPVerifiedAt := None\<rparr>]\<rparr>))"

definition user_GetByID :: "gotime option \<Rightarrow> uuid \<Rightarrow> auth_db \<Rightarrow> auth_error + user" where
  "user_GetByID st i db =
     (if st = None then Inl DatabaseError
      else case find (\<lambda>u. u_ID u = i) (users db) of None \<Rightarrow> Inl (NotFound ''user'') | Some u \<Rightarrow> Inr u)"

definition user_GetByUsername ::
    "(string \<Rightarrow> string) \<Rightarrow> gotime option \<Rightarrow> string \<Rightarrow> auth_db \<Rightarrow> auth_error + user" where
  "user_GetByUsername lower st name db =
     (if st = None then Inl DatabaseError
      else case find (\<lambda>u. lower (u_Username u) = lower name) (users db) of
             None \<Rightarrow> Inl (NotFound ''user'') | Some u \<Rightarrow> Inr u)"

text \<open>\<^verbatim>\<open>UPDATE users SET \<dots> WHERE id = $1\<close>\<close>

definition update_user :: "uuid \<Rightarrow> (user \<Rightarrow> user) \<Rightarrow> auth_db \<Rightarrow> auth_db" where
  "update_user i f db = db\<lparr>users := map (\<lambda>u. if u_ID u = i then f u else u) (users db)\<rparr>"

lemma update_user_simps [simp]:
  "users (update_user i f db) = map (\<lambda>u. if u_ID u = i then f u else u) (users db)"
  "sessions (update_user i f db) = sessions db" "api_keys (update_user i f db) = api_keys db"
  by (simp_all add: update_user_def)

definition user_Update :: "gotime option \<Rightarrow> gotime \<Rightarrow> user \<Rightarrow> auth_db \<Rightarrow> auth_error option \<times> auth_db" where
  "user_Update st now u db =
     (if st = None \<or> (u_Email u \<noteq> None \<and>
           (\<exists>v \<in> set (users db). u_ID v \<noteq> u_ID u \<and> u_Email v = u_Email u \<and> u_ID u \<in> u_ID ` set (users db)))
      then (Some DatabaseError, db)
      else if u_ID u \<notin> u_ID ` set (users db) then (Some (NotFound ''user''), db)
      else (None, update_user (u_ID u)
              (\<lambda>v. v\<lparr>u_Email := u_Email u, u_PasswordHash := u_PasswordHash u, u_Role := u_Role u,
                    u_IsActive := u_IsActive u, u_UpdatedAt := now\<rparr>) db))"

definition user_Delete :: "gotime option \<Rightarrow> uuid \<Rightarrow> auth_db \<Rightarrow> auth_error option \<times> auth_db" where
  "user_Delete st i db =
     (if st = None then (Some DatabaseError, db)
      else if i \<notin> u_ID ` set (users db) then (Some (NotFound ''user''), db)
      else (None, db\<lparr>users := filter (\<lambda>u. u_ID u \<noteq> i) (users db),
                     sessions := filter (\<lambda>s. s_UserID s \<noteq> i) (sessions db),
                     api_keys := filter (\<lambda>k. k_UserID k \<noteq> i) (api_keys db)\<rparr>))"

definition UpdateLastLogin :: "gotime option \<Rightarrow> gotime \<Rightarrow> uuid \<Rightarrow> auth_db \<Rightarrow> auth_error option \<times> auth_db" where
  "UpdateLastLogin st now i db =
     (if st = None then (Some DatabaseError, db)
      else (None, update_user i (\<lambda>u. u\<lparr>u_LastLoginAt := Some now, u_FailedLoginAttempts := 0, u_LockedUntil := None\<rparr>) db))"

definition IncrementFailedAttempts ::
    "gotime option \<Rightarrow> gotime \<Rightarrow> uuid \<Rightarrow> int \<Rightarrow> duration \<Rightarrow> auth_db \<Rightarrow> auth_error option \<times> auth_db" where
  "IncrementFailedAttempts st now i maxAttempts lockDuration db =
     (if st = None then (Some DatabaseError, db)
      else (None, update_user i
              (\<lambda>u. u\<lparr>u_FailedLoginAttempts := u_FailedLoginAttempts u + 1,
                    u_LockedUntil := (if maxAttempts \<le> u_FailedLoginAttempts u + 1 then Some (time_add now lockDuration)
                                      else u_LockedUntil u),
                    u_UpdatedAt := now\<rparr>) db))"

definition ResetFailedAttempts :: "gotime option \<Rightarrow> gotime \<Rightarrow> uuid \<Rightarrow> auth_db \<Rightarrow> auth_error option \<times> auth_db" where
  "ResetFailedAttempts st now i db =
     (if st = None then (Some DatabaseError, db)
      else (None, update_user i (\<lambda>u. u\<lparr>u_FailedLoginAttempts := 0, u_LockedUntil := None, u_UpdatedAt := now\<rparr>) db))"

definition UpdatePassword :: "gotime option \<Rightarrow> gotime \<Rightarrow> uuid \<Rightarrow> string \<Rightarrow> auth_db \<Rightarrow> auth_error option \<times> auth_db" where
  "UpdatePassword st now i h db =
     (if st = None then (Some DatabaseError, db)
      else if i \<notin> u_ID ` set (users db) then (Some (NotFound ''user''), db)
      else (None, update_user i (\<lambda>u. u\<lparr>u_PasswordHash := h, u_PasswordChangedAt := Some now, u_UpdatedAt := now\<rparr>) db))"

section \<open>Sessions\<close>

definition session_Create :: "gotime option \<Rightarrow> gotime \<Rightarrow> session \<Rightarrow> auth_db \<Rightarrow> (auth_error + session) \<times> auth_db" where
  "session_Create st now s db =
     (let s = s\<lparr>s_CreatedAt := now\<rparr> in
      if st = None then (Inl DatabaseError, db)
      else if s_ID s \<in> s_ID ` set (sessions db) \<or> s_RefreshTokenHash s \<in> s_RefreshTokenHash ` set (sessions db)
      then (Inl (AlreadyExists ''session''), db)
      else if s_UserID s \<notin> u_ID ` set (users db) then (Inl DatabaseError, db)
      else (Inr s, db\<lparr>sessions := sessions db @ [s]\<rparr>))"

definition session_GetByID :: "gotime option \<Rightarrow> uuid \<Rightarrow> auth_db \<Rightarrow> auth_error + session" where
  "session_GetByID st i db =
     (if st = None then Inl DatabaseError
      else case find (\<lambda>s. s_ID s = i) (sessions db) of None \<Rightarrow> Inl (NotFound ''session'') | Some s \<Rightarrow> Inr s)"

definition GetByRefreshTokenHash :: "gotime option \<Rightarrow> string \<Rightarrow> auth_db \<Rightarrow> auth_error + session" where
  "GetByRefreshTokenHash st h db =
     (if st = None then Inl DatabaseError
      else case find (\<lambda>s. s_RefreshTokenHash s = h) (sessions db) of
             None \<Rightarrow> Inl (NotFound ''session'') | Some s \<Rightarrow> Inr s)"

definition session_Delete :: "gotime option \<Rightarrow> uuid \<Rightarrow> auth_db \<Rightarrow> auth_error option \<times> auth_db" where
  "session_Delete st i db =
     (if st = None then (Some DatabaseError, db)
      else if i \<notin> s_ID ` set (sessions db) then (Some (NotFound ''session''), db)
      else (None, db\<lparr>sessions := filter (\<lambda>s. s_ID s \<noteq> i) (sessions db)\<rparr>))"

text \<open>The statements that delete some sessions and return their number.\<close>

definition delete_sessions :: "gotime option \<Rightarrow> (session \<Rightarrow> bool) \<Rightarrow> auth_db \<Rightarrow> (auth_error + int) \<times> auth_db" where
  "delete_sessions st P db =
     (if st = None then (Inl DatabaseError, db)
      else (Inr (int (length (filter P (sessions db)))), db\<lparr>sessions := filter (\<lambda>s. \<not> P s) (sessions db)\<rparr>))"

definition DeleteByUserID :: "gotime option \<Rightarrow> uuid \<Rightarrow> auth_db \<Rightarrow> (auth_error + int) \<times> auth_db" where
  "DeleteByUserID st i db = delete_sessions st (\<lambda>s. s_UserID s = i) db"

definition DeleteAllExcept :: "gotime option \<Rightarrow> uuid \<Rightarrow> uuid \<Rightarrow> auth_db \<Rightarrow> (auth_error + int) \<times> auth_db" where
  "DeleteAllExcept st i keep db = delete_sessions st (\<lambda>s. s_UserID s = i \<and> s_ID s \<noteq> keep) db"

definition session_DeleteExpired :: "gotime option \<Rightarrow> auth_db \<Rightarrow> (auth_error + int) \<times> auth_db" where
  "session_DeleteExpired st db = delete_sessions st (\<lambda>s. \<exists>t \<in> set_option st. s_ExpiresAt s \<le> t) db"

definition newest_sessions :: "session list \<Rightarrow> session list" where
  "newest_sessions ss = sort_key (\<lambda>s. - s_CreatedAt s) ss"

text \<open>A negative \<^verbatim>\<open>LIMIT\<close> is an error.\<close>

definition DeleteOldest :: "gotime option \<Rightarrow> uuid \<Rightarrow> int \<Rightarrow> auth_db \<Rightarrow> (auth_error + int) \<times> auth_db" where
  "DeleteOldest st i keepCount db =
     (if keepCount < 0 then (Inl DatabaseError, db)
      else let keep = s_ID ` set (take (nat keepCount) (newest_sessions (filter (\<lambda>s. s_UserID s = i) (sessions db))))
           in delete_sessions st (\<lambda>s. s_UserID s = i \<and> s_ID s \<notin> keep) db)"

definition user_active :: "gotime \<Rightarrow> uuid \<Rightarrow> session \<Rightarrow> bool" where
  "user_active t i s \<longleftrightarrow> s_UserID s = i \<and> t < s_ExpiresAt s"

definition CountActiveByUserID :: "gotime option \<Rightarrow> uuid \<Rightarrow> auth_db \<Rightarrow> auth_error + int" where
  "CountActiveByUserID st i db =
     (case st of None \<Rightarrow> Inl DatabaseError
      | Some t \<Rightarrow> Inr (int (length (filter (user_active t i) (sessions db)))))"

definition session_ListByUserID :: "gotime option \<Rightarrow> uuid \<Rightarrow> auth_db \<Rightarrow> auth_error + session list" where
  "session_ListByUserID st i db =
     (if st = None then Inl DatabaseError else Inr (newest_sessions (filter (\<lambda>s. s_UserID s = i) (sessions db))))"

definition ListActiveByUserID :: "gotime option \<Rightarrow> uuid \<Rightarrow> auth_db \<Rightarrow> auth_error + session list" where
  "ListActiveByUserID st i db =
     (case st of None \<Rightarrow> Inl DatabaseError
      | Some t \<Rightarrow> Inr (newest_sessions (filter (user_active t i) (sessions db))))"

definition update_session :: "gotime option \<Rightarrow> uuid \<Rightarrow> (session \<Rightarrow> session) \<Rightarrow> auth_db \<Rightarrow> auth_error option \<times> auth_db" where
  "update_session st i f db =
     (if st = None then (Some DatabaseError, db)
      else if i \<notin> s_ID ` set (sessions db) then (Some (NotFound ''session''), db)
      else (None, db\<lparr>sessions := map (\<lambda>s. if s_ID s = i then f s else s) (sessions db)\<rparr>))"

text \<open>The new hash must not be the hash of another row.\<close>

definition UpdateRefreshToken ::
    "gotime option \<Rightarrow> uuid \<Rightarrow> string \<Rightarrow> gotime \<Rightarrow> auth_db \<Rightarrow> auth_error option \<times> auth_db" where
  "UpdateRefreshToken st i h expires db =
     (if i \<in> s_ID ` set (sessions db) \<and> h \<in> s_RefreshTokenHash ` {s \<in> set (sessions db). s_ID s \<noteq> i}
      then (Some DatabaseError, db)
      else update_session st i (\<lambda>s. s\<lparr>s_RefreshTokenHash := h, s_ExpiresAt := expires\<rparr>) db)"

definition session_Extend :: "gotime option \<Rightarrow> uuid \<Rightarrow> gotime \<Rightarrow> auth_db \<Rightarrow> auth_error option \<times> auth_db" where
  "session_Extend st i expires db = update_session st i (\<lambda>s. s\<lparr>s_ExpiresAt := expires\<rparr>) db"

definition session_IsValid :: "gotime option \<Rightarrow> uuid \<Rightarrow> auth_db \<Rightarrow> auth_error + bool" where
  "session_IsValid st i db =
     (case st of None \<Rightarrow> Inl DatabaseError
      | Some t \<Rightarrow> Inr (\<exists>s \<in> set (sessions db). s_ID s = i \<and> t < s_ExpiresAt s))"

section \<open>API keys\<close>

definition api_key_GetByKeyHash :: "gotime option \<Rightarrow> string \<Rightarrow> auth_db \<Rightarrow> auth_error + api_key" where
  "api_key_GetByKeyHash st h db =
     (if st = None then Inl DatabaseError
      else case find (\<lambda>k. k_KeyHash k = h) (api_keys db) of None \<Rightarrow> Inl (NotFound ''api_key'') | Some k \<Rightarrow> Inr k)"

definition api_key_UpdateLastUsed :: "gotime option \<Rightarrow> gotime \<Rightarrow> uuid \<Rightarrow> auth_db \<Rightarrow> auth_error option \<times> auth_db" where
  "api_key_UpdateLastUsed st now i db =
     (if st = None then (Some DatabaseError, db)
      else (None, db\<lparr>api_keys := map (\<lambda>k. if k_ID k = i then k\<lparr>k_LastUsedAt := Some now\<rparr> else k) (api_keys db)\<rparr>))"


definition api_key_Create :: "gotime option \<Rightarrow> gotime \<Rightarrow> api_key \<Rightarrow> auth_db \<Rightarrow> (auth_error + api_key) \<times> auth_db" where
  "api_key_Create st now k db =
     (let k = k\<lparr>k_CreatedAt := now\<rparr> in
      if st = None then (Inl DatabaseError, db)
      else if k_ID k \<in> k_ID ` set (api_keys db) \<or> k_KeyHash k \<in> k_KeyHash ` set (api_keys db)
      then (Inl (AlreadyExists ''api_key''), db)
      else if k_UserID k \<notin> u_ID ` set (users db) then (Inl DatabaseError, db)
      else (Inr k, db\<lparr>api_keys := api_keys db @ [k\<lparr>k_LastUsedAt := None\<rparr>]\<rparr>))"

definition api_key_Delete :: "gotime option \<Rightarrow> uuid \<Rightarrow> auth_db \<Rightarrow> auth_error option \<times> auth_db" where
  "api_key_Delete st i db =
     (if st = None then (Some DatabaseError, db)
      else if i \<notin> k_ID ` set (api_keys db) then (Some (NotFound ''api_key''), db)
      else (None, db\<lparr>api_keys := filter (\<lambda>k. k_ID k \<noteq> i) (api_keys db)\<rparr>))"

definition api_key_DeleteExpired :: "gotime option \<Rightarrow> auth_db \<Rightarrow> (auth_error + int) \<times> auth_db" where
  "api_key_DeleteExpired st db =
     (case st of None \<Rightarrow> (Inl DatabaseError, db)
      | Some t \<Rightarrow>
          let expired = (\<lambda>k. \<exists>e \<in> set_option (k_ExpiresAt k). e \<le> t)
          in (Inr (int (length (filter expired (api_keys db)))), db\<lparr>api_keys := filter (\<lambda>k. \<not> expired k) (api_keys db)\<rparr>))"

section \<open>The blacklist\<close>

text \<open>\<open>SET key value PX ttl\<close> and \<open>GET key\<close> at an instant; \<open>kv_Get\<close> is \<open>None\<close> when there is no such key.\<close>

record 'r redis_kv =
  kv_Set :: "string \<Rightarrow> string \<Rightarrow> duration \<Rightarrow> gotime \<Rightarrow> 'r \<Rightarrow> 'r"
  kv_Get :: "string \<Rightarrow> gotime \<Rightarrow> 'r \<Rightarrow> string option"
  kv_Del :: "string \<Rightarrow> 'r \<Rightarrow> 'r"

text \<open>A stored value is there until its time to live, in milliseconds, is over; other keys do not change.\<close>

locale kv_laws =
  fixes K :: "'r redis_kv"
  assumes get_set_same: "1000000 \<le> ttl \<Longrightarrow> t + 1000000 \<le> now + ttl \<Longrightarrow> kv_Get K k t (kv_Set K k v ttl now s) = Some v"
    and get_set_other: "k' \<noteq> k \<Longrightarrow> kv_Get K k' t (kv_Set K k v ttl now s) = kv_Get K k' t s"

definition blacklistKey :: "string \<Rightarrow> string" where
  "blacklistKey jti = ''jwt:blacklist:'' @ jti"

definition userBlacklistKey :: "string \<Rightarrow> string" where
  "userBlacklistKey userID = ''jwt:blacklist:user:'' @ userID"

text \<open>\<open>ok\<close> tells whether Redis answers.\<close>

definition bl_BlacklistToken ::
    "'r redis_kv \<Rightarrow> bool \<Rightarrow> gotime \<Rightarrow> string \<Rightarrow> gotime \<Rightarrow> string \<Rightarrow> 'r \<Rightarrow> auth_error option \<times> 'r" where
  "bl_BlacklistToken K ok now jti expiresAt reason s =
     (let ttl = time_sub expiresAt now in
      if ttl \<le> 0 then (None, s)
      else if \<not> ok then (Some (Failed ''failed to blacklist token''), s)
      else (None, kv_Set K (blacklistKey jti) (if reason = [] then ''revoked'' else reason) ttl now s))"

definition bl_IsBlacklisted :: "'r redis_kv \<Rightarrow> bool \<Rightarrow> gotime \<Rightarrow> string \<Rightarrow> 'r \<Rightarrow> auth_error + bool" where
  "bl_IsBlacklisted K ok now jti s =
     (if \<not> ok then Inl (Failed ''failed to check blacklist'') else Inr (kv_Get K (blacklistKey jti) now s \<noteq> None))"

definition bl_RemoveFromBlacklist :: "'r redis_kv \<Rightarrow> bool \<Rightarrow> string \<Rightarrow> 'r \<Rightarrow> auth_error option \<times> 'r" where
  "bl_RemoveFromBlacklist K ok jti s =
     (if \<not> ok then (Some (Failed ''failed to remove from blacklist''), s) else (None, kv_Del K (blacklistKey jti) s))"

definition bl_BlacklistUserTokens ::
    "'r redis_kv \<Rightarrow> bool \<Rightarrow> gotime \<Rightarrow> string \<Rightarrow> gotime \<Rightarrow> duration \<Rightarrow> 'r \<Rightarrow> auth_error option \<times> 'r" where
  "bl_BlacklistUserTokens K ok now userID issuedBefore ttl s =
     (if \<not> ok then (Some (Failed ''failed to blacklist user tokens''), s)
      else (None, kv_Set K (userBlacklistKey userID) (format_int (unix issuedBefore)) ttl now s))"

definition bl_IsUserTokenBlacklisted ::
    "'r redis_kv \<Rightarrow> bool \<Rightarrow> gotime \<Rightarrow> string \<Rightarrow> gotime \<Rightarrow> 'r \<Rightarrow> auth_error + bool" where
  "bl_IsUserTokenBlacklisted K ok now userID issuedAt s =
     (if \<not> ok then Inl (Failed ''failed to check user blacklist'')
      else case kv_Get K (userBlacklistKey userID) now s of
             None \<Rightarrow> Inr False
           | Some text \<Rightarrow>
               (case scan_int text of
                  None \<Rightarrow> Inl (Failed ''failed to parse blacklist timestamp'')
                | Some timestamp \<Rightarrow> Inr (unix issuedAt < timestamp)))"

definition bl_ClearUserBlacklist :: "'r redis_kv \<Rightarrow> bool \<Rightarrow> string \<Rightarrow> 'r \<Rightarrow> auth_error option \<times> 'r" where
  "bl_ClearUserBlacklist K ok userID s =
     (if \<not> ok then (Some (Failed ''failed to clear user blacklist''), s) else (None, kv_Del K (userBlacklistKey userID) s))"

text \<open>The check of a token by its id and its user; the calls are answered by \<open>rds 0\<close> and \<open>rds 1\<close>.\<close>

definition bl_ValidateToken ::
    "'r redis_kv \<Rightarrow> (nat \<Rightarrow> bool) \<Rightarrow> gotime \<Rightarrow> string \<Rightarrow> string \<Rightarrow> gotime \<Rightarrow> 'r \<Rightarrow> auth_error option" where
  "bl_ValidateToken K rds now jti userID issuedAt s =
     (let first = (if jti \<noteq> [] then bl_IsBlacklisted K (rds 0) now jti s else Inr False) in
      case first of
        Inl e \<Rightarrow> Some e
      | Inr True \<Rightarrow> Some ErrTokenRevoked
      | Inr False \<Rightarrow>
          (if userID \<noteq> [] \<and> \<not> is_zero issuedAt
           then case bl_IsUserTokenBlacklisted K (rds 1) now userID issuedAt s of
                  Inl e \<Rightarrow> Some e | Inr True \<Rightarrow> Some ErrTokenRevoked | Inr False \<Rightarrow> None
           else None))"

text \<open>A server in memory: each key with its value and the end of its time to live.\<close>

type_synonym mem_kv = "(string \<times> string \<times> gotime) list"

definition mem_kv :: "mem_kv redis_kv" where
  "mem_kv =
     \<lparr>kv_Set = (\<lambda>k v ttl now s. (k, v, now + (if ttl < 1000000 then 1000000 else ttl div 1000000 * 1000000)) # s),
      kv_Get = (\<lambda>k t s. case map_of s k of None \<Rightarrow> None | Some (v, e) \<Rightarrow> if t < e then Some v else None),
      kv_Del = (\<lambda>k s. filter (\<lambda>x. fst x \<noteq> k) s)\<rparr>"

interpretation mem_kv: kv_laws mem_kv
proof
  fix ttl t now :: int and k k' v :: string and s :: mem_kv
  assume "1000000 \<le> ttl" "t + 1000000 \<le> now + ttl"
  moreover have "ttl < ttl div 1000000 * 1000000 + 1000000"
    using pos_mod_bound [of 1000000 ttl] div_mult_mod_eq [of ttl 1000000] by linarith
  ultimately show "kv_Get mem_kv k t (kv_Set mem_kv k v ttl now s) = Some v" by (auto simp: mem_kv_def)
qed (simp add: mem_kv_def)

context kv_laws
begin

text \<open>After a user's tokens have been blacklisted, those of earlier seconds are refused until the entry expires.\<close>

lemma user_blacklisted:
  assumes "1000000 \<le> ttl" "t + 1000000 \<le> now + ttl" "fits64 (unix issuedBefore)"
  shows "bl_IsUserTokenBlacklisted K True t userID issuedAt (snd (bl_BlacklistUserTokens K True now userID issuedBefore ttl s)) =
    Inr (unix issuedAt < unix issuedBefore)"
  using assms by (simp add: bl_IsUserTokenBlacklisted_def bl_BlacklistUserTokens_def get_set_same)

end


section \<open>The constraints of the tables\<close>

definition emails_distinct :: "(uuid \<times> string option) list \<Rightarrow> bool" where
  "emails_distinct es \<longleftrightarrow> (\<forall>(i, e) \<in> set es. \<forall>(j, d) \<in> set es. e \<noteq> None \<longrightarrow> d = e \<longrightarrow> i = j)"

lemma emails_distinctD: "emails_distinct es \<Longrightarrow> (i, e) \<in> set es \<Longrightarrow> (j, e) \<in> set es \<Longrightarrow> e \<noteq> None \<Longrightarrow> i = j"
  unfolding emails_distinct_def by blast

lemma emails_distinctI:
  "(\<And>i e j. (i, e) \<in> set es \<Longrightarrow> (j, e) \<in> set es \<Longrightarrow> e \<noteq> None \<Longrightarrow> i = j) \<Longrightarrow> emails_distinct es"
  unfolding emails_distinct_def by blast

abbreviation id_email :: "user \<Rightarrow> uuid \<times> string option" where
  "id_email u \<equiv> (u_ID u, u_Email u)"

definition users_wf :: "user list \<Rightarrow> bool" where
  "users_wf us \<longleftrightarrow> distinct (map u_ID us) \<and> distinct (map u_Username us) \<and> emails_distinct (map id_email us)"

definition sessions_wf :: "uuid set \<Rightarrow> session list \<Rightarrow> bool" where
  "sessions_wf ids ss \<longleftrightarrow>
     distinct (map s_ID ss) \<and> distinct (map s_RefreshTokenHash ss) \<and> s_UserID ` set ss \<subseteq> ids"

definition keys_wf :: "uuid set \<Rightarrow> api_key list \<Rightarrow> bool" where
  "keys_wf ids ks \<longleftrightarrow> distinct (map k_ID ks) \<and> distinct (map k_KeyHash ks) \<and> k_UserID ` set ks \<subseteq> ids"

definition auth_wf :: "auth_db \<Rightarrow> bool" where
  "auth_wf db \<longleftrightarrow> users_wf (users db) \<and> sessions_wf (u_ID ` set (users db)) (sessions db) \<and>
     keys_wf (u_ID ` set (users db)) (api_keys db)"

named_theorems wf_ops \<open>the operations of the repositories keep the constraints\<close>

lemma distinct_map_filter_key: "distinct (map f xs) \<Longrightarrow> distinct (map f (filter P xs))"
  by (simp add: distinct_map_filter)

lemma map_key_update: "(\<And>x. key (f x) = key x) \<Longrightarrow> map key (map (\<lambda>x. if c x then f x else x) xs) = map key xs"
  by simp

lemma image_key_update:
  assumes "\<And>x. key (f x) = key x"
  shows "key ` set (map (\<lambda>x. if c x then f x else x) xs) = key ` set xs"
proof -
  have "map key (map (\<lambda>x. if c x then f x else x) xs) = map key xs" by (rule map_key_update) (rule assms)
  from arg_cong [OF this, of set] show ?thesis by (simp only: set_map)
qed

lemma auth_wf_update:
  "users_wf us \<Longrightarrow> sessions_wf (u_ID ` set us) ss \<Longrightarrow> keys_wf (u_ID ` set us) ks \<Longrightarrow>
   auth_wf (db\<lparr>users := us, sessions := ss, api_keys := ks\<rparr>)"
  by (simp add: auth_wf_def)

text \<open>Rows removed.\<close>

lemma sessions_wf_filter: "sessions_wf ids ss \<Longrightarrow> sessions_wf ids (filter P ss)"
  by (auto simp: sessions_wf_def distinct_map_filter_key)

lemma keys_wf_filter: "keys_wf ids ks \<Longrightarrow> keys_wf ids (filter P ks)"
  by (auto simp: keys_wf_def distinct_map_filter_key)

lemma users_wf_filter: "users_wf us \<Longrightarrow> users_wf (filter P us)"
  by (auto simp: users_wf_def emails_distinct_def distinct_map_filter_key)

text \<open>Rows changed.\<close>

lemma wf_users_change:
  "auth_wf db \<Longrightarrow> users_wf us \<Longrightarrow> u_ID ` set us = u_ID ` set (users db) \<Longrightarrow> auth_wf (db\<lparr>users := us\<rparr>)"
  by (simp add: auth_wf_def)

lemma users_wf_same:
  "users_wf us \<Longrightarrow> map u_ID vs = map u_ID us \<Longrightarrow> map u_Username vs = map u_Username us \<Longrightarrow>
   emails_distinct (map id_email vs) \<Longrightarrow> users_wf vs"
  by (simp only: users_wf_def)

lemma wf_update_user:
  assumes "auth_wf db" "\<And>u. u_ID (f u) = u_ID u" "\<And>u. u_Username (f u) = u_Username u" "\<And>u. u_Email (f u) = u_Email u"
  shows "auth_wf (update_user i f db)"
proof -
  let ?us = "map (\<lambda>u. if u_ID u = i then f u else u) (users db)"
  have wf: "users_wf (users db)" using assms(1) by (simp add: auth_wf_def)
  have "map id_email ?us = map id_email (users db)" by (rule map_key_update) (simp add: assms)
  with wf have "emails_distinct (map id_email ?us)" unfolding users_wf_def by metis
  then have "users_wf ?us"
    by (rule users_wf_same [OF wf map_key_update map_key_update, rotated -1]) (simp_all add: assms)
  then show ?thesis
    unfolding update_user_def by (rule wf_users_change [OF assms(1) _ image_key_update]) (rule assms)
qed

lemma wf_user_fields [wf_ops]:
  assumes "auth_wf db"
  shows "auth_wf (snd (UpdateLastLogin st now i db))" "auth_wf (snd (IncrementFailedAttempts st now i m d db))"
    "auth_wf (snd (ResetFailedAttempts st now i db))" "auth_wf (snd (UpdatePassword st now i h db))"
  using assms
  by (simp_all add: UpdateLastLogin_def IncrementFailedAttempts_def ResetFailedAttempts_def UpdatePassword_def
      wf_update_user)

lemma emails_distinct_snoc:
  "emails_distinct es \<Longrightarrow> e = None \<or> e \<notin> snd ` set es \<Longrightarrow> emails_distinct (es @ [(i, e)])"
proof (rule emails_distinctI)
  fix j d k
  assume es: "emails_distinct es" "e = None \<or> e \<notin> snd ` set es"
    and "(j, d) \<in> set (es @ [(i, e)])" "(k, d) \<in> set (es @ [(i, e)])" "d \<noteq> None"
  then consider "(j, d) \<in> set es" "(k, d) \<in> set es" | "d = e" "(j, d) \<in> set es \<or> (k, d) \<in> set es" | "j = i" "k = i"
    by auto
  then show "j = k"
  proof cases
    case 1
    with es(1) \<open>d \<noteq> None\<close> show ?thesis by (blast dest: emails_distinctD)
  next
    case 2
    then have "e \<in> snd ` set es" by (metis image_eqI snd_conv)
    with es(2) 2(1) \<open>d \<noteq> None\<close> show ?thesis by simp
  qed simp
qed

lemma wf_user_Create [wf_ops]:
  assumes "auth_wf db"
  shows "auth_wf (snd (user_Create st now u db))"
proof -
  have "users_wf (us @ [v])" if "users_wf us" "u_ID v \<notin> u_ID ` set us" "u_Username v \<notin> u_Username ` set us"
    "u_Email v = None \<or> u_Email v \<notin> u_Email ` set us" for us v
  proof -
    have "u_Email v = None \<or> u_Email v \<notin> snd ` set (map id_email us)"
      using that(4) by (simp only: set_map image_image snd_conv)
    with that show ?thesis by (simp add: users_wf_def emails_distinct_snoc)
  qed
  moreover have "sessions_wf (insert i ids) ss" if "sessions_wf ids ss" for i ids ss
    using that by (auto simp: sessions_wf_def)
  moreover have "keys_wf (insert i ids) ks" if "keys_wf ids ks" for i ids ks
    using that by (auto simp: keys_wf_def)
  ultimately show ?thesis
    using assms by (simp add: user_Create_def auth_wf_def Let_def)
qed

lemma emails_distinct_update:
  assumes "emails_distinct (map id_email us)" "e = None \<or> (\<forall>v \<in> set us. u_ID v \<noteq> i \<longrightarrow> u_Email v \<noteq> e)"
    and "\<And>v. u_ID (f v) = u_ID v" "\<And>v. u_Email (f v) = e"
  shows "emails_distinct (map id_email (map (\<lambda>v. if u_ID v = i then f v else v) us))"
proof (rule emails_distinctI)
  let ?g = "\<lambda>v. if u_ID v = i then f v else v"
  fix j d k
  assume d: "d \<noteq> None"
    and "(j, d) \<in> set (map id_email (map ?g us))" "(k, d) \<in> set (map id_email (map ?g us))"
  then have "(j, d) \<in> (\<lambda>v. id_email (?g v)) ` set us" "(k, d) \<in> (\<lambda>v. id_email (?g v)) ` set us"
    by (simp_all only: set_map image_image)
  then obtain u v where uv: "u \<in> set us" "v \<in> set us" "id_email (?g u) = (j, d)" "id_email (?g v) = (k, d)"
    by (elim imageE) (metis (lifting))
  then have ids: "u_ID u = j" "u_ID v = k" using assms(3) by (auto split: if_splits)
  have old: "u_Email u = d \<Longrightarrow> u_Email v = d \<Longrightarrow> j = k"
    using emails_distinctD [OF assms(1), of j d k] uv(1,2) ids \<open>d \<noteq> None\<close> by force
  consider "j = i" "k = i" | "j = i" "k \<noteq> i" | "j \<noteq> i" "k = i" | "j \<noteq> i" "k \<noteq> i" by blast
  then show "j = k"
  proof cases
    case 2
    with uv ids have "d = e" "u_Email v = d" using assms(4) by auto
    with assms(2) uv(2) ids 2 \<open>d \<noteq> None\<close> show ?thesis by blast
  next
    case 3
    with uv ids have "d = e" "u_Email u = d" using assms(4) by auto
    with assms(2) uv(1) ids 3 \<open>d \<noteq> None\<close> show ?thesis by blast
  next
    case 4
    with uv ids old show ?thesis by simp
  qed simp
qed

lemma wf_user_Update [wf_ops]:
  assumes "auth_wf db"
  shows "auth_wf (snd (user_Update st now u db))"
proof (cases "fst (user_Update st now u db) = None")
  case True
  let ?f = "\<lambda>v. v\<lparr>u_Email := u_Email u, u_PasswordHash := u_PasswordHash u, u_Role := u_Role u,
                  u_IsActive := u_IsActive u, u_UpdatedAt := now\<rparr>"
  let ?us = "map (\<lambda>v. if u_ID v = u_ID u then ?f v else v) (users db)"
  have eq: "snd (user_Update st now u db) = db\<lparr>users := ?us\<rparr>"
    and email: "u_Email u = None \<or> (\<forall>v \<in> set (users db). u_ID v \<noteq> u_ID u \<longrightarrow> u_Email v \<noteq> u_Email u)"
    using True by (auto simp: user_Update_def update_user_def split: if_splits)
  have wf: "users_wf (users db)" using assms by (simp add: auth_wf_def)
  then have "emails_distinct (map id_email ?us)"
    using email by (intro emails_distinct_update) (simp_all add: users_wf_def)
  then have "users_wf ?us"
    by (rule users_wf_same [OF wf map_key_update map_key_update, rotated -1]) simp_all
  then show ?thesis
    unfolding eq by (rule wf_users_change [OF assms _ image_key_update]) simp
next
  case False
  then have "snd (user_Update st now u db) = db" by (auto simp: user_Update_def split: if_splits)
  with assms show ?thesis by simp
qed

lemma wf_user_Delete [wf_ops]:
  assumes "auth_wf db"
  shows "auth_wf (snd (user_Delete st i db))"
proof -
  have ids: "u_ID ` set (filter (\<lambda>u. u_ID u \<noteq> i) us) = u_ID ` set us - {i}" for us by auto
  have "sessions_wf (ids - {i}) (filter (\<lambda>s. s_UserID s \<noteq> i) ss)" if "sessions_wf ids ss" for ids ss
    using that by (auto simp: sessions_wf_def distinct_map_filter_key)
  moreover have "keys_wf (ids - {i}) (filter (\<lambda>k. k_UserID k \<noteq> i) ks)" if "keys_wf ids ks" for ids ks
    using that by (auto simp: keys_wf_def distinct_map_filter_key)
  ultimately have "auth_wf (db\<lparr>users := filter (\<lambda>u. u_ID u \<noteq> i) (users db),
      sessions := filter (\<lambda>s. s_UserID s \<noteq> i) (sessions db), api_keys := filter (\<lambda>k. k_UserID k \<noteq> i) (api_keys db)\<rparr>)"
    using assms by (intro auth_wf_update) (simp_all only: auth_wf_def ids users_wf_filter)
  with assms show ?thesis by (simp add: user_Delete_def)
qed

lemma wf_session_Create [wf_ops]: "auth_wf db \<Longrightarrow> auth_wf (snd (session_Create st now s db))"
  by (simp add: session_Create_def auth_wf_def Let_def sessions_wf_def)

lemma wf_filter_sessions: "auth_wf db \<Longrightarrow> auth_wf (db\<lparr>sessions := filter P (sessions db)\<rparr>)"
  by (simp add: auth_wf_def sessions_wf_filter)

lemma wf_session_deletes [wf_ops]:
  assumes "auth_wf db"
  shows "auth_wf (snd (session_Delete st i db))" "auth_wf (snd (DeleteByUserID st i db))"
    "auth_wf (snd (DeleteAllExcept st i keep db))" "auth_wf (snd (session_DeleteExpired st db))"
    "auth_wf (snd (DeleteOldest st i n db))"
  using assms wf_filter_sessions
  by (simp_all add: session_Delete_def DeleteByUserID_def DeleteAllExcept_def session_DeleteExpired_def DeleteOldest_def
      delete_sessions_def Let_def)

lemma sessions_wf_same:
  "sessions_wf ids ss \<Longrightarrow> map s_ID ts = map s_ID ss \<Longrightarrow> distinct (map s_RefreshTokenHash ts) \<Longrightarrow>
   s_UserID ` set ts = s_UserID ` set ss \<Longrightarrow> sessions_wf ids ts"
  by (simp only: sessions_wf_def)

lemma keys_wf_same:
  "keys_wf ids ks \<Longrightarrow> map k_ID ls = map k_ID ks \<Longrightarrow> map k_KeyHash ls = map k_KeyHash ks \<Longrightarrow>
   k_UserID ` set ls = k_UserID ` set ks \<Longrightarrow> keys_wf ids ls"
  by (simp only: keys_wf_def)

lemma wf_update_session:
  assumes "auth_wf db" "\<And>s. s_ID (f s) = s_ID s" "\<And>s. s_UserID (f s) = s_UserID s"
    and "distinct (map s_RefreshTokenHash (map (\<lambda>s. if s_ID s = i then f s else s) (sessions db)))"
  shows "auth_wf (snd (update_session st i f db))"
proof -
  let ?ss = "map (\<lambda>s. if s_ID s = i then f s else s) (sessions db)"
  have wf: "sessions_wf (u_ID ` set (users db)) (sessions db)" using assms(1) by (simp add: auth_wf_def)
  then have "sessions_wf (u_ID ` set (users db)) ?ss"
    by (rule sessions_wf_same [OF _ map_key_update assms(4) image_key_update]) (simp_all add: assms)
  then have "auth_wf (db\<lparr>sessions := ?ss\<rparr>)"
    using assms(1) by (simp only: auth_wf_def auth_db.simps auth_db.update_convs) simp
  with assms(1) show ?thesis by (simp add: update_session_def)
qed

lemma wf_session_Extend [wf_ops]:
  assumes "auth_wf db"
  shows "auth_wf (snd (session_Extend st i e db))"
proof -
  have "map s_RefreshTokenHash (map (\<lambda>s. if s_ID s = i then s\<lparr>s_ExpiresAt := e\<rparr> else s) (sessions db)) =
      map s_RefreshTokenHash (sessions db)" by simp
  with assms have "distinct (map s_RefreshTokenHash (map (\<lambda>s. if s_ID s = i then s\<lparr>s_ExpiresAt := e\<rparr> else s) (sessions db)))"
    unfolding auth_wf_def sessions_wf_def by metis
  then show ?thesis unfolding session_Extend_def by (intro wf_update_session [OF assms]) simp_all
qed

lemma distinct_new_hash:
  "distinct (map s_ID ss) \<Longrightarrow> distinct (map s_RefreshTokenHash ss) \<Longrightarrow>
   h \<notin> s_RefreshTokenHash ` {s \<in> set ss. s_ID s \<noteq> i} \<Longrightarrow> (\<And>s. s_RefreshTokenHash (f s) = h) \<Longrightarrow>
   distinct (map s_RefreshTokenHash (map (\<lambda>s. if s_ID s = i then f s else s) ss))"
proof (induction ss)
  case (Cons s ss)
  have rest: "h \<notin> s_RefreshTokenHash ` {s \<in> set ss. s_ID s \<noteq> i}" using Cons.prems(3) by auto
  let ?g = "\<lambda>s. if s_ID s = i then f s else s"
  have "s_RefreshTokenHash (?g s) \<noteq> s_RefreshTokenHash (?g t)"
    if "t \<in> set ss" for t
  proof -
    have "s_ID s \<noteq> s_ID t" "s_RefreshTokenHash s \<noteq> s_RefreshTokenHash t"
      using Cons.prems(1,2) that by auto
    moreover have "s_ID t \<noteq> i \<Longrightarrow> s_RefreshTokenHash t \<noteq> h" "s_ID s \<noteq> i \<Longrightarrow> s_RefreshTokenHash s \<noteq> h"
      using Cons.prems(3) that by auto
    ultimately show ?thesis using Cons.prems(4) by (cases "s_ID s = i"; cases "s_ID t = i") auto
  qed
  then have "s_RefreshTokenHash (?g s) \<notin> set (map s_RefreshTokenHash (map ?g ss))"
    by (simp only: set_map image_image) blast
  moreover have "distinct (map s_RefreshTokenHash (map ?g ss))"
    using Cons.IH [OF _ _ rest Cons.prems(4)] Cons.prems(1,2) by simp
  ultimately show ?case by (simp only: list.map distinct.simps simp_thms)
qed simp

lemma wf_UpdateRefreshToken [wf_ops]:
  assumes "auth_wf db"
  shows "auth_wf (snd (UpdateRefreshToken st i h e db))"
proof (cases "i \<in> s_ID ` set (sessions db) \<and> h \<in> s_RefreshTokenHash ` {s \<in> set (sessions db). s_ID s \<noteq> i}")
  case True
  with assms show ?thesis by (simp add: UpdateRefreshToken_def)
next
  case False
  let ?f = "\<lambda>s. s\<lparr>s_RefreshTokenHash := h, s_ExpiresAt := e\<rparr>"
  have eq: "UpdateRefreshToken st i h e db = update_session st i ?f db"
    using False by (simp only: UpdateRefreshToken_def if_False)
  show ?thesis
  proof (cases "i \<in> s_ID ` set (sessions db)")
    case True
    with assms False have "distinct (map s_RefreshTokenHash (map (\<lambda>s. if s_ID s = i then ?f s else s) (sessions db)))"
      by (intro distinct_new_hash) (simp_all add: auth_wf_def sessions_wf_def)
    then show ?thesis unfolding eq by (intro wf_update_session [OF assms]) simp_all
  next
    case False
    with assms show ?thesis unfolding eq by (simp add: update_session_def)
  qed
qed

lemma wf_api_keys [wf_ops]:
  assumes "auth_wf db"
  shows "auth_wf (snd (api_key_Create st now k db))" "auth_wf (snd (api_key_Delete st i db))"
    "auth_wf (snd (api_key_DeleteExpired st db))" "auth_wf (snd (api_key_UpdateLastUsed st now i db))"
proof -
  show "auth_wf (snd (api_key_Create st now k db))"
    using assms by (simp add: api_key_Create_def auth_wf_def Let_def keys_wf_def)
  show "auth_wf (snd (api_key_Delete st i db))" "auth_wf (snd (api_key_DeleteExpired st db))"
    using assms keys_wf_filter
    by (simp_all add: api_key_Delete_def api_key_DeleteExpired_def auth_wf_def Let_def split: option.splits)
  let ?ks = "map (\<lambda>k. if k_ID k = i then k\<lparr>k_LastUsedAt := Some now\<rparr> else k) (api_keys db)"
  have wf: "keys_wf (u_ID ` set (users db)) (api_keys db)" using assms by (simp add: auth_wf_def)
  then have "keys_wf (u_ID ` set (users db)) ?ks"
    by (rule keys_wf_same [OF _ map_key_update map_key_update image_key_update]) simp_all
  then have "auth_wf (db\<lparr>api_keys := ?ks\<rparr>)"
    using assms by (simp only: auth_wf_def auth_db.simps auth_db.update_convs) simp
  with assms show "auth_wf (snd (api_key_UpdateLastUsed st now i db))"
    by (simp add: api_key_UpdateLastUsed_def)
qed

end
