(* ===== verification/Jwt.thy ===== *)
theory Jwt
  imports Auth_Store
begin

text \<open>
  The JWT service: \<^verbatim>\<open>internal/services/auth/jwt.go\<close>.

  The library \<^verbatim>\<open>golang-jwt\<close> and the text of UUIDs are parameters (\<open>jwt_lib\<close>); what is relied
  on is the locale \<open>jwt_laws\<close>: a token signed under a key parses under that key to its payload while
  the payload's times allow it, and under no other key. A payload has the claims of both kinds of
  tokens; a claim that a kind does not have is empty, as it is after decoding.
\<close>

section \<open>Tokens\<close>

record payload =
  p_UserID :: string
  p_Username :: string
  p_Email :: string
  p_Role :: string
  p_SessionID :: string
  p_Type :: string
  p_ID :: string
  p_Issuer :: string
  p_Subject :: string
  p_IssuedAt :: "int option"
  p_ExpiresAt :: "int option"
  p_NotBefore :: "int option"
  p_Teams :: "string list"

text \<open>The library's errors; a payload can be refused for two reasons at once.\<close>

datatype jwt_error = TokenMalformed | TokenUnverifiable | TokenSignatureInvalid | TokenTimes bool bool

record jwt_lib =
  jwt_SignedString :: "string \<Rightarrow> payload \<Rightarrow> string option"
  jwt_ParseWithClaims :: "string \<Rightarrow> gotime \<Rightarrow> string \<Rightarrow> jwt_error + payload"
  jwt_ParseUnverified :: "string \<Rightarrow> payload option"
  uuid_String :: "uuid \<Rightarrow> string"
  uuid_Parse :: "string \<Rightarrow> uuid option"

text \<open>The check of the times: expired from \<^verbatim>\<open>exp\<close> on, not valid before \<^verbatim>\<open>nbf\<close>.\<close>

definition token_expired :: "gotime \<Rightarrow> payload \<Rightarrow> bool" where
  "token_expired now p = (case p_ExpiresAt p of None \<Rightarrow> False | Some e \<Rightarrow> e * second \<le> now)"

definition token_early :: "gotime \<Rightarrow> payload \<Rightarrow> bool" where
  "token_early now p = (case p_NotBefore p of None \<Rightarrow> False | Some b \<Rightarrow> now < b * second)"

definition check_times :: "gotime \<Rightarrow> payload \<Rightarrow> jwt_error + payload" where
  "check_times now p =
     (if token_expired now p \<or> token_early now p then Inl (TokenTimes (token_expired now p) (token_early now p)) else Inr p)"

locale jwt_laws =
  fixes J :: jwt_lib
  assumes parse_signed: "jwt_SignedString J k p = Some t \<Longrightarrow> jwt_ParseWithClaims J k now t = check_times now p"
    and parse_other_key: "jwt_SignedString J k p = Some t \<Longrightarrow> k' \<noteq> k \<Longrightarrow>
      jwt_ParseWithClaims J k' now t = Inl TokenSignatureInvalid"
    and parse_unverified: "jwt_SignedString J k p = Some t \<Longrightarrow> jwt_ParseUnverified J t = Some p"
    and token_not_empty: "jwt_SignedString J k p \<noteq> Some []"
    and uuid_parse_string: "uuid_Parse J (uuid_String J i) = Some i"
    and uuid_string_not_empty: "uuid_String J i \<noteq> []"
begin

lemma uuid_String_inject: "uuid_String J i = uuid_String J j \<Longrightarrow> i = j"
  by (metis uuid_parse_string option.inject)

end

section \<open>The service\<close>

record jwt_config =
  Secret :: string
  RefreshSecret :: string
  Issuer :: string
  AccessTokenTTL :: duration
  RefreshTokenTTL :: duration

definition DefaultJWTConfig :: "string \<Rightarrow> jwt_config" where
  "DefaultJWTConfig secret =
     \<lparr>Secret = secret, RefreshSecret = secret, Issuer = ''usulnet'', AccessTokenTTL = 15 * minute,
      RefreshTokenTTL = 7 * (24 * hour)\<rparr>"

text \<open>An empty secret panics.\<close>

definition NewJWTService :: "jwt_config \<Rightarrow> jwt_config option" where
  "NewJWTService config =
     (if Secret config = [] then None
      else Some (config\<lparr>RefreshSecret := (if RefreshSecret config = [] then Secret config else RefreshSecret config),
                        Issuer := (if Issuer config = [] then ''usulnet'' else Issuer config),
                        AccessTokenTTL := (if AccessTokenTTL config = 0 then 15 * minute else AccessTokenTTL config),
                        RefreshTokenTTL := (if RefreshTokenTTL config = 0 then 7 * (24 * hour) else RefreshTokenTTL config)\<rparr>))"

definition access_payload :: "jwt_lib \<Rightarrow> jwt_config \<Rightarrow> gotime \<Rightarrow> duration \<Rightarrow> string \<Rightarrow> user \<Rightarrow> payload" where
  "access_payload J config now ttl jti u =
     \<lparr>p_UserID = uuid_String J (u_ID u), p_Username = u_Username u,
      p_Email = (case u_Email u of None \<Rightarrow> [] | Some e \<Rightarrow> e), p_Role = u_Role u, p_SessionID = [],
      p_Type = ''access'', p_ID = jti, p_Issuer = Issuer config, p_Subject = uuid_String J (u_ID u),
      p_IssuedAt = Some (unix now), p_ExpiresAt = Some (unix (time_add now ttl)), p_NotBefore = Some (unix now),
      p_Teams = []\<rparr>"

definition refresh_payload :: "jwt_lib \<Rightarrow> jwt_config \<Rightarrow> gotime \<Rightarrow> string \<Rightarrow> uuid \<Rightarrow> uuid \<Rightarrow> payload" where
  "refresh_payload J config now jti userID sessionID =
     \<lparr>p_UserID = uuid_String J userID, p_Username = [], p_Email = [], p_Role = [], p_SessionID = uuid_String J sessionID,
      p_Type = ''refresh'', p_ID = jti, p_Issuer = Issuer config, p_Subject = uuid_String J userID,
      p_IssuedAt = Some (unix now), p_ExpiresAt = Some (unix (time_add now (RefreshTokenTTL config))),
      p_NotBefore = Some (unix now), p_Teams = []\<rparr>"

definition GenerateAccessTokenWithTTL ::
    "jwt_lib \<Rightarrow> jwt_config \<Rightarrow> gotime \<Rightarrow> string \<Rightarrow> user \<Rightarrow> duration \<Rightarrow> auth_error + (string \<times> gotime)" where
  "GenerateAccessTokenWithTTL J config now jti u ttl =
     (case jwt_SignedString J (Secret config) (access_payload J config now ttl jti u) of
        None \<Rightarrow> Inl (Failed ''sign access token'') | Some t \<Rightarrow> Inr (t, time_add now ttl))"

definition GenerateAccessToken ::
    "jwt_lib \<Rightarrow> jwt_config \<Rightarrow> gotime \<Rightarrow> string \<Rightarrow> user \<Rightarrow> auth_error + (string \<times> gotime)" where
  "GenerateAccessToken J config now jti u =
     (case jwt_SignedString J (Secret config) (access_payload J config now (AccessTokenTTL config) jti u) of
        None \<Rightarrow> Inl (Failed ''sign access token'') | Some t \<Rightarrow> Inr (t, time_add now (AccessTokenTTL config)))"

definition GenerateRefreshToken ::
    "jwt_lib \<Rightarrow> jwt_config \<Rightarrow> gotime \<Rightarrow> string \<Rightarrow> uuid \<Rightarrow> uuid \<Rightarrow> auth_error + (string \<times> gotime)" where
  "GenerateRefreshToken J config now jti userID sessionID =
     (case jwt_SignedString J (RefreshSecret config) (refresh_payload J config now jti userID sessionID) of
        None \<Rightarrow> Inl (Failed ''sign refresh token'') | Some t \<Rightarrow> Inr (t, time_add now (RefreshTokenTTL config)))"

record token_pair =
  AccessToken :: string
  RefreshToken :: string
  AccessTokenExpiresAt :: gotime
  RefreshTokenExpiresAt :: gotime
  TokenType :: string

definition GenerateTokenPair ::
    "jwt_lib \<Rightarrow> jwt_config \<Rightarrow> (nat \<Rightarrow> gotime) \<Rightarrow> (nat \<Rightarrow> string) \<Rightarrow> user \<Rightarrow> uuid \<Rightarrow> auth_error + token_pair" where
  "GenerateTokenPair J config clk jti u sessionID =
     (case GenerateAccessToken J config (clk 0) (jti 0) u of
        Inl e \<Rightarrow> Inl e
      | Inr (access, accessExp) \<Rightarrow>
          (case GenerateRefreshToken J config (clk 1) (jti 1) (u_ID u) sessionID of
             Inl e \<Rightarrow> Inl e
           | Inr (refresh, refreshExp) \<Rightarrow>
               Inr \<lparr>AccessToken = access, RefreshToken = refresh, AccessTokenExpiresAt = accessExp,
                    RefreshTokenExpiresAt = refreshExp, TokenType = ''Bearer''\<rparr>))"

fun mapJWTError :: "jwt_error \<Rightarrow> auth_error" where
  "mapJWTError (TokenTimes expired early) =
     (if expired then ErrExpiredToken else if early then ErrTokenNotYetValid else ErrInvalidToken)"
| "mapJWTError TokenSignatureInvalid = ErrInvalidSignature"
| "mapJWTError TokenMalformed = ErrInvalidToken"
| "mapJWTError TokenUnverifiable = ErrInvalidToken"

definition ValidateAccessToken :: "jwt_lib \<Rightarrow> jwt_config \<Rightarrow> gotime \<Rightarrow> string \<Rightarrow> auth_error + payload" where
  "ValidateAccessToken J config now t =
     (case jwt_ParseWithClaims J (Secret config) now t of
        Inl e \<Rightarrow> Inl (mapJWTError e)
      | Inr p \<Rightarrow> if p_Type p \<noteq> ''access'' then Inl ErrInvalidToken else Inr p)"

definition ValidateRefreshJWT :: "jwt_lib \<Rightarrow> jwt_config \<Rightarrow> gotime \<Rightarrow> string \<Rightarrow> auth_error + payload" where
  "ValidateRefreshJWT J config now t =
     (case jwt_ParseWithClaims J (RefreshSecret config) now t of
        Inl e \<Rightarrow> Inl (mapJWTError e)
      | Inr p \<Rightarrow> if p_Type p \<noteq> ''refresh'' then Inl ErrInvalidToken else Inr p)"

definition ParseUnverified :: "jwt_lib \<Rightarrow> string \<Rightarrow> auth_error + payload" where
  "ParseUnverified J t = (case jwt_ParseUnverified J t of None \<Rightarrow> Inl (Failed ''parse token'') | Some p \<Rightarrow> Inr p)"

definition GetTokenID :: "jwt_lib \<Rightarrow> string \<Rightarrow> auth_error + string" where
  "GetTokenID J t = map_sum id p_ID (ParseUnverified J t)"

definition GetExpirationTime :: "jwt_lib \<Rightarrow> string \<Rightarrow> auth_error + gotime" where
  "GetExpirationTime J t =
     (case ParseUnverified J t of
        Inl e \<Rightarrow> Inl e
      | Inr p \<Rightarrow> (case p_ExpiresAt p of None \<Rightarrow> Inl ErrInvalidClaims | Some e \<Rightarrow> Inr (e * second)))"

definition token_IsExpired :: "jwt_lib \<Rightarrow> gotime \<Rightarrow> string \<Rightarrow> bool" where
  "token_IsExpired J now t = (case GetExpirationTime J t of Inl e \<Rightarrow> True | Inr ex \<Rightarrow> ex < now)"

definition GetUserIDFromToken :: "jwt_lib \<Rightarrow> string \<Rightarrow> auth_error + uuid" where
  "GetUserIDFromToken J t =
     (case ParseUnverified J t of
        Inl e \<Rightarrow> Inl e
      | Inr p \<Rightarrow> (case uuid_Parse J (p_UserID p) of None \<Rightarrow> Inl (Failed ''invalid UUID'') | Some i \<Rightarrow> Inr i))"

section \<open>A reference library\<close>

text \<open>
  An instance of the interface: the key and the claims of a payload as a list of texts, each character
  of a text after a mark and each text closed by a comma.
\<close>

definition enc_text :: "string \<Rightarrow> string" where
  "enc_text s = concat (map (\<lambda>c. [CHR ''.'', c]) s) @ '',''"

fun dec_text :: "string \<Rightarrow> string \<Rightarrow> (string \<times> string) option" where
  "dec_text acc [] = None"
| "dec_text acc (m # s) =
     (if m = CHR '','' then Some (rev acc, s)
      else case s of [] \<Rightarrow> None | c # s \<Rightarrow> dec_text (c # acc) s)"

function dec_texts :: "string \<Rightarrow> string list option" where
  "dec_texts s =
     (if s = [] then Some []
      else case dec_text [] s of
             None \<Rightarrow> None | Some (x, s') \<Rightarrow> if length s' < length s then map_option (Cons x) (dec_texts s') else None)"
  by auto
termination by (relation "measure length") auto

declare dec_texts.simps [simp del]

lemma dec_enc_text: "dec_text acc (enc_text x @ s) = Some (rev acc @ x, s)"
  by (induction x arbitrary: acc) (simp_all add: enc_text_def)

lemma dec_enc_texts: "dec_texts (concat (map enc_text xs)) = Some xs"
proof (induction xs)
  case Nil
  then show ?case by (simp add: dec_texts.simps)
next
  case (Cons x xs)
  have "enc_text x @ concat (map enc_text xs) \<noteq> []" "0 < length (enc_text x)" by (simp_all add: enc_text_def)
  with Cons dec_enc_text [of "[]" x "concat (map enc_text xs)"] show ?case
    by (subst dec_texts.simps) simp
qed

definition opt_text :: "int option \<Rightarrow> string" where
  "opt_text x = (case x of None \<Rightarrow> [] | Some i \<Rightarrow> format_int i)"

definition text_opt :: "string \<Rightarrow> int option" where
  "text_opt s = (if s = [] then None else case signed_digits s of (neg, ds) \<Rightarrow>
     Some (if neg then - int (decimal_val ds) else int (decimal_val ds)))"

lemma text_opt_text [simp]: "text_opt (opt_text x) = x"
proof (cases x)
  case (Some i)
  have "format_int i \<noteq> []" by (simp add: format_int_def)
  with Some show ?thesis by (simp add: opt_text_def text_opt_def signed_digits_format)
qed (simp add: opt_text_def text_opt_def)

definition enc_payload :: "payload \<Rightarrow> string list" where
  "enc_payload p =
     [p_UserID p, p_Username p, p_Email p, p_Role p, p_SessionID p, p_Type p, p_ID p, p_Issuer p, p_Subject p,
      opt_text (p_IssuedAt p), opt_text (p_ExpiresAt p), opt_text (p_NotBefore p)] @ p_Teams p"

fun dec_payload :: "string list \<Rightarrow> payload option" where
  "dec_payload (a # b # c # d # e # f # g # h # i # j # k # l # ts) =
     Some \<lparr>p_UserID = a, p_Username = b, p_Email = c, p_Role = d, p_SessionID = e, p_Type = f, p_ID = g, p_Issuer = h,
           p_Subject = i, p_IssuedAt = text_opt j, p_ExpiresAt = text_opt k, p_NotBefore = text_opt l, p_Teams = ts\<rparr>"
| "dec_payload _ = None"

lemma dec_enc_payload: "dec_payload (enc_payload p) = Some p"
  by (simp add: enc_payload_def)

definition ref_jwt :: jwt_lib where
  "ref_jwt =
     \<lparr>jwt_SignedString = (\<lambda>k p. Some (concat (map enc_text (k # enc_payload p)))),
      jwt_ParseWithClaims = (\<lambda>k now t. case dec_texts t of
          Some (k' # ds) \<Rightarrow> (case dec_payload ds of
              None \<Rightarrow> Inl TokenMalformed
            | Some p \<Rightarrow> if k' = k then check_times now p else Inl TokenSignatureInvalid)
        | _ \<Rightarrow> Inl TokenMalformed),
      jwt_ParseUnverified = (\<lambda>t. case dec_texts t of Some (k' # ds) \<Rightarrow> dec_payload ds | _ \<Rightarrow> None),
      uuid_String = (\<lambda>i. decimal (unat i)), uuid_Parse = (\<lambda>s. Some (word_of_nat (decimal_val s)))\<rparr>"

lemma dec_signed: "dec_texts (enc_text k @ concat (map enc_text ds)) = Some (k # ds)"
  using dec_enc_texts [of "k # ds"] by simp

interpretation ref_jwt: jwt_laws ref_jwt
proof
  fix k p
  show "jwt_SignedString ref_jwt k p \<noteq> Some []" by (simp add: ref_jwt_def enc_text_def)
qed (auto simp: ref_jwt_def dec_signed dec_enc_payload)

section \<open>The life of a token\<close>

lemma check_times_access:
  "check_times now (access_payload J config iat ttl jti u) =
     (if unix (time_add iat ttl) * second \<le> now \<or> now < unix iat * second
      then Inl (TokenTimes (unix (time_add iat ttl) * second \<le> now) (now < unix iat * second))
      else Inr (access_payload J config iat ttl jti u))"
  by (simp add: check_times_def token_expired_def token_early_def access_payload_def)

context jwt_laws
begin

lemma validate_generated:
  assumes "GenerateAccessToken J config iat jti u = Inr (t, e)"
  shows "ValidateAccessToken J config now t =
    (if unix e * second \<le> now then Inl ErrExpiredToken
     else if now < unix iat * second then Inl ErrTokenNotYetValid
     else Inr (access_payload J config iat (AccessTokenTTL config) jti u))"
proof -
  have signed: "jwt_SignedString J (Secret config) (access_payload J config iat (AccessTokenTTL config) jti u) = Some t"
    and e: "e = time_add iat (AccessTokenTTL config)"
    using assms by (auto simp: GenerateAccessToken_def split: option.splits)
  show ?thesis
    unfolding ValidateAccessToken_def parse_signed [OF signed] check_times_access e
    by (simp add: access_payload_def)
qed

lemma access_is_no_refresh:
  assumes "GenerateAccessToken J config iat jti u = Inr (t, e)"
  shows "\<exists>err. ValidateRefreshJWT J config now t = Inl err"
proof -
  have signed: "jwt_SignedString J (Secret config) (access_payload J config iat (AccessTokenTTL config) jti u) = Some t"
    using assms by (auto simp: GenerateAccessToken_def split: option.splits)
  show ?thesis
  proof (cases "RefreshSecret config = Secret config")
    case True
    then show ?thesis
      by (simp add: ValidateRefreshJWT_def parse_signed [OF signed] check_times_access)
        (simp add: access_payload_def)
  next
    case False
    then show ?thesis by (simp add: ValidateRefreshJWT_def parse_other_key [OF signed])
  qed
qed

lemma refresh_is_no_access:
  assumes "GenerateRefreshToken J config iat jti i sid = Inr (t, e)"
  shows "\<exists>err. ValidateAccessToken J config now t = Inl err"
proof -
  have signed: "jwt_SignedString J (RefreshSecret config) (refresh_payload J config iat jti i sid) = Some t"
    using assms by (auto simp: GenerateRefreshToken_def split: option.splits)
  show ?thesis
  proof (cases "Secret config = RefreshSecret config")
    case True
    then show ?thesis
      by (simp add: ValidateAccessToken_def parse_signed [OF signed] check_times_def)
        (simp add: refresh_payload_def)
  next
    case False
    then show ?thesis by (simp add: ValidateAccessToken_def parse_other_key [OF signed])
  qed
qed

end

text \<open>
  C37. The life of a token pair: the access token validates exactly from the second in which it was
  issued until the second of its expiry, to the claims of the user it was issued for, and is refused
  as expired after and as not yet valid before; neither token of the pair ever passes for the other.
\<close>

theorem token_pair_lifetime:
  assumes "jwt_laws J" "GenerateTokenPair J config clk jti u sid = Inr pair"
  shows "let claims = access_payload J config (clk 0) (AccessTokenTTL config) (jti 0) u in
    ValidateAccessToken J config now (AccessToken pair) =
      (if unix (AccessTokenExpiresAt pair) * second \<le> now then Inl ErrExpiredToken
       else if now < unix (clk 0) * second then Inl ErrTokenNotYetValid else Inr claims) \<and>
    uuid_Parse J (p_UserID claims) = Some (u_ID u) \<and> p_Role claims = u_Role u \<and>
    (\<exists>e. ValidateRefreshJWT J config now (AccessToken pair) = Inl e) \<and>
    (\<exists>e. ValidateAccessToken J config now (RefreshToken pair) = Inl e)"
proof -
  obtain access ae refresh re where
    access: "GenerateAccessToken J config (clk 0) (jti 0) u = Inr (access, ae)" and
    refresh: "GenerateRefreshToken J config (clk 1) (jti 1) (u_ID u) sid = Inr (refresh, re)" and
    pair: "pair = \<lparr>AccessToken = access, RefreshToken = refresh, AccessTokenExpiresAt = ae, RefreshTokenExpiresAt = re,
      TokenType = ''Bearer''\<rparr>"
    using assms(2) by (auto simp: GenerateTokenPair_def split: sum.splits)
  show ?thesis
    using jwt_laws.validate_generated [OF assms(1) access] jwt_laws.access_is_no_refresh [OF assms(1) access]
      jwt_laws.refresh_is_no_access [OF assms(1) refresh] jwt_laws.uuid_parse_string [OF assms(1)]
    by (simp add: pair access_payload_def Let_def)
qed

theorem token_pair_lifetime_witness:
  "let config = DefaultJWTConfig ''k''; clk = (\<lambda>n. 1000 * second);
       u = \<lparr>u_ID = 7, u_Username = ''ann'', u_Email = None, u_PasswordHash = ''h'', u_Role = ''admin'', u_IsActive = True,
            u_IsLDAP = False, u_LDAPDN = None, u_FailedLoginAttempts = 0, u_LockedUntil = None, u_LastLoginAt = None,
            u_PasswordChangedAt = None, u_TOTPSecret = None, u_TOTPEnabled = False, u_TOTPVerifiedAt = None,
            u_CreatedAt = 0, u_UpdatedAt = 0\<rparr> in
   \<exists>pair. GenerateTokenPair ref_jwt config clk (\<lambda>n. ''j'') u 3 = Inr pair \<and>
     ValidateAccessToken ref_jwt config (1500 * second) (AccessToken pair) =
       Inr (access_payload ref_jwt config (1000 * second) (15 * minute) ''j'' u) \<and>
     ValidateAccessToken ref_jwt config (1900 * second) (AccessToken pair) = Inl ErrExpiredToken"
proof -
  let ?config = "DefaultJWTConfig ''k''" and ?clk = "\<lambda>n :: nat. 1000 * second"
  let ?u = "\<lparr>u_ID = 7, u_Username = ''ann'', u_Email = None, u_PasswordHash = ''h'', u_Role = ''admin'', u_IsActive = True,
            u_IsLDAP = False, u_LDAPDN = None, u_FailedLoginAttempts = 0, u_LockedUntil = None, u_LastLoginAt = None,
            u_PasswordChangedAt = None, u_TOTPSecret = None, u_TOTPEnabled = False, u_TOTPVerifiedAt = None,
            u_CreatedAt = 0, u_UpdatedAt = 0\<rparr>"
  obtain pair where pair: "GenerateTokenPair ref_jwt ?config ?clk (\<lambda>n. ''j'') ?u 3 = Inr pair"
    "AccessTokenExpiresAt pair = 1900 * second"
    by (simp add: GenerateTokenPair_def GenerateAccessToken_def GenerateRefreshToken_def ref_jwt_def time_add_def
        DefaultJWTConfig_def second_def)
  have ttl: "AccessTokenTTL ?config = 15 * minute" by (simp add: DefaultJWTConfig_def)
  show ?thesis
    using pair token_pair_lifetime [OF ref_jwt.jwt_laws_axioms pair(1), of "1500 * second"]
      token_pair_lifetime [OF ref_jwt.jwt_laws_axioms pair(1), of "1900 * second"]
    by (simp add: Let_def ttl unix_def second_def)
qed

end
