(* ===== verification/Auth.thy ===== *)
theory Auth
  imports Jwt Password_Policy
begin

text \<open>
  Authentication: the session service (\<^verbatim>\<open>internal/services/auth/session.go\<close>) and the service
  that logs users in and out, refreshes, revokes and checks their tokens and changes their passwords
  (\<^verbatim>\<open>internal/services/auth/auth_service.go\<close>), over the tables and the blacklist of
  \<^verbatim>\<open>Auth_Store\<close>.

  SHA-256 and bcrypt, Redis, the JWT library and the Unicode tables are parameters (\<open>auth_deps\<close>).
  Everything else an operation meets is its input \<open>auth_io\<close>: the answers of the statements and of
  Redis in the order they are made, the readings of the clock, the fresh identifiers and random token.
\<close>

section \<open>Parameters, inputs and state\<close>

record 'r auth_deps =
  dep_jwt :: jwt_lib
  dep_redis :: "'r redis_kv"
  dep_unicode :: unicode
  dep_lower :: "string \<Rightarrow> string"
  dep_sha256 :: "string \<Rightarrow> string"
  dep_bcrypt :: "string \<Rightarrow> string option"
  dep_bcrypt_check :: "string \<Rightarrow> string \<Rightarrow> bool"

definition HashToken :: "'r auth_deps \<Rightarrow> string \<Rightarrow> string" where
  "HashToken D token = dep_sha256 D token"

definition HashAPIKey :: "'r auth_deps \<Rightarrow> string \<Rightarrow> string" where
  "HashAPIKey D key = dep_sha256 D key"

definition CheckPassword :: "'r auth_deps \<Rightarrow> string \<Rightarrow> string \<Rightarrow> bool" where
  "CheckPassword D password hash = dep_bcrypt_check D hash password"

record auth_config =
  MaxLoginAttempts :: int
  LockoutDuration :: duration
  RequirePasswordChange :: bool
  PasswordMinLength :: int
  PasswordPolicy :: password_policy
  AllowAPIKeyAuth :: bool

definition DefaultAuthConfig :: auth_config where
  "DefaultAuthConfig =
     \<lparr>MaxLoginAttempts = 5, LockoutDuration = 15 * minute, RequirePasswordChange = False, PasswordMinLength = 8,
      PasswordPolicy = DefaultPasswordPolicy, AllowAPIKeyAuth = True\<rparr>"

record session_config =
  MaxSessionsPerUser :: int
  SessionTTL :: duration
  CleanupInterval :: duration
  ExtendOnActivity :: bool
  ExtendThreshold :: duration

definition DefaultSessionConfig :: session_config where
  "DefaultSessionConfig =
     \<lparr>MaxSessionsPerUser = 10, SessionTTL = 7 * (24 * hour), CleanupInterval = hour, ExtendOnActivity = True,
      ExtendThreshold = 24 * hour\<rparr>"

text \<open>A directory: whether it is enabled and its answer, an error, no user, or a user with a role.\<close>

record ldap_provider =
  ldap_IsEnabled :: bool
  ldap_Authenticate :: "string \<Rightarrow> string \<Rightarrow> string option option"

record oauth_user =
  oa_Username :: string
  oa_Email :: string
  oa_Role :: string

record oauth_provider =
  oa_IsEnabled :: bool
  oa_AuthURL :: "string \<Rightarrow> string"
  oa_Exchange :: "string \<Rightarrow> oauth_user option"
  oa_AutoProvision :: bool

record 'r auth_service =
  sv_deps :: "'r auth_deps"
  sv_config :: auth_config
  sv_sessions :: session_config
  sv_jwt :: jwt_config
  sv_blacklist :: bool
  sv_audit :: bool
  sv_ldap :: "ldap_provider list"
  sv_oauth :: "string \<rightharpoonup> oauth_provider"

datatype audit_event = LoginEvent uuid string string bool "string option" | PasswordChangeEvent uuid string bool

record 'r auth_world =
  w_db :: auth_db
  w_redis :: 'r
  w_log :: "audit_event list"

record auth_io =
  io_st :: "nat \<Rightarrow> gotime option"
  io_clk :: "nat \<Rightarrow> gotime"
  io_rds :: "nat \<Rightarrow> bool"
  io_raw :: "string option"
  io_id :: uuid
  io_jti :: "nat \<Rightarrow> string"

text \<open>The inputs left after the first \<open>n\<close> statements and clock readings.\<close>

definition io_after :: "nat \<Rightarrow> auth_io \<Rightarrow> auth_io" where
  "io_after n io = io\<lparr>io_st := (\<lambda>k. io_st io (n + k)), io_clk := (\<lambda>k. io_clk io (n + k))\<rparr>"

section \<open>The session service\<close>

record session_tokens =
  st_Session :: session
  st_AccessToken :: string
  st_RefreshToken :: string
  st_ExpiresAt :: gotime

definition make_room :: "session_config \<Rightarrow> auth_io \<Rightarrow> uuid \<Rightarrow> auth_db \<Rightarrow> auth_error + auth_db" where
  "make_room sc io i db =
     (if 0 < MaxSessionsPerUser sc then
        (case CountActiveByUserID (io_st io 0) i db of
           Inl e \<Rightarrow> Inl e
         | Inr count \<Rightarrow>
             Inr (if MaxSessionsPerUser sc \<le> count then snd (DeleteOldest (io_st io 1) i (MaxSessionsPerUser sc - 1) db)
                  else db))
      else Inr db)"

definition new_session ::
    "'r auth_deps \<Rightarrow> session_config \<Rightarrow> auth_io \<Rightarrow> user \<Rightarrow> string \<Rightarrow> string \<Rightarrow> string \<Rightarrow> session" where
  "new_session D sc io u userAgent ip raw =
     \<lparr>s_ID = io_id io, s_UserID = u_ID u, s_RefreshTokenHash = HashToken D raw,
      s_UserAgent = (if userAgent = [] then None else Some userAgent),
      s_IPAddress = (if ip = [] then None else Some ip), s_ExpiresAt = time_add (io_clk io 0) (SessionTTL sc), s_CreatedAt = 0\<rparr>"

definition session_service_Create ::
    "'r auth_deps \<Rightarrow> session_config \<Rightarrow> jwt_config \<Rightarrow> auth_io \<Rightarrow> user \<Rightarrow> string \<Rightarrow> string \<Rightarrow> auth_db \<Rightarrow>
     (auth_error + session_tokens) \<times> auth_db" where
  "session_service_Create D sc jc io u userAgent ip db =
     (case make_room sc io (u_ID u) db of
        Inl e \<Rightarrow> (Inl e, db)
      | Inr db \<Rightarrow>
          (case io_raw io of
             None \<Rightarrow> (Inl (Failed ''generate refresh token''), db)
           | Some raw \<Rightarrow>
               (case session_Create (io_st io 2) (io_clk io 1) (new_session D sc io u userAgent ip raw) db of
                  (Inl e, db) \<Rightarrow> (Inl e, db)
                | (Inr s, db) \<Rightarrow>
                    (case GenerateTokenPair (dep_jwt D) jc (\<lambda>n. io_clk io (2 + n)) (io_jti io) u (io_id io) of
                       Inl e \<Rightarrow> (Inl e, snd (session_Delete (io_st io 3) (io_id io) db))
                     | Inr pair \<Rightarrow>
                         (Inr \<lparr>st_Session = s, st_AccessToken = AccessToken pair, st_RefreshToken = raw,
                               st_ExpiresAt = time_add (io_clk io 0) (SessionTTL sc)\<rparr>, db)))))"

definition session_service_Refresh ::
    "'r auth_deps \<Rightarrow> session_config \<Rightarrow> jwt_config \<Rightarrow> auth_io \<Rightarrow> string \<Rightarrow> user \<Rightarrow> auth_db \<Rightarrow>
     (auth_error + session_tokens) \<times> auth_db" where
  "session_service_Refresh D sc jc io refreshToken u db =
     (case GetByRefreshTokenHash (io_st io 0) (HashToken D refreshToken) db of
        Inl e \<Rightarrow> (Inl e, db)
      | Inr s \<Rightarrow>
          if session_IsExpired (io_clk io 0) s then (Inl ErrExpiredToken, snd (session_Delete (io_st io 1) (s_ID s) db))
          else if s_UserID s \<noteq> u_ID u then (Inl ErrInvalidToken, db)
          else case io_raw io of
                 None \<Rightarrow> (Inl (Failed ''generate refresh token''), db)
               | Some raw \<Rightarrow>
                   let newExpiresAt = time_add (io_clk io 1) (SessionTTL sc); newHash = HashToken D raw
                   in case UpdateRefreshToken (io_st io 1) (s_ID s) newHash newExpiresAt db of
                        (Some e, db) \<Rightarrow> (Inl e, db)
                      | (None, db) \<Rightarrow>
                          (case GenerateAccessToken (dep_jwt D) jc (io_clk io 2) (io_jti io 0) u of
                             Inl e \<Rightarrow> (Inl e, db)
                           | Inr (access, accessExp) \<Rightarrow>
                               (Inr \<lparr>st_Session = s\<lparr>s_RefreshTokenHash := newHash, s_ExpiresAt := newExpiresAt\<rparr>,
                                     st_AccessToken = access, st_RefreshToken = raw, st_ExpiresAt = accessExp\<rparr>, db)))"

definition session_Validate :: "auth_io \<Rightarrow> uuid \<Rightarrow> auth_db \<Rightarrow> auth_error + session" where
  "session_Validate io i db =
     (case session_GetByID (io_st io 0) i db of
        Inl e \<Rightarrow> Inl e | Inr s \<Rightarrow> if session_IsExpired (io_clk io 0) s then Inl ErrExpiredToken else Inr s)"

definition ValidateRefreshToken :: "'r auth_deps \<Rightarrow> auth_io \<Rightarrow> string \<Rightarrow> auth_db \<Rightarrow> auth_error + session" where
  "ValidateRefreshToken D io refreshToken db =
     (case GetByRefreshTokenHash (io_st io 0) (HashToken D refreshToken) db of
        Inl e \<Rightarrow> Inl ErrInvalidToken
      | Inr s \<Rightarrow> if session_IsExpired (io_clk io 0) s then Inl ErrExpiredToken else Inr s)"

definition session_service_IsValid :: "auth_io \<Rightarrow> uuid \<Rightarrow> auth_db \<Rightarrow> bool" where
  "session_service_IsValid io i db = (case session_IsValid (io_st io 0) i db of Inl e \<Rightarrow> False | Inr valid \<Rightarrow> valid)"

definition ExtendIfNeeded :: "session_config \<Rightarrow> auth_io \<Rightarrow> uuid \<Rightarrow> auth_db \<Rightarrow> auth_error option \<times> auth_db" where
  "ExtendIfNeeded sc io i db =
     (if \<not> ExtendOnActivity sc then (None, db)
      else case session_GetByID (io_st io 0) i db of
             Inl e \<Rightarrow> (Some e, db)
           | Inr s \<Rightarrow>
               if ExtendThreshold sc < time_sub (s_ExpiresAt s) (io_clk io 0) then (None, db)
               else session_Extend (io_st io 1) i (time_add (io_clk io 1) (SessionTTL sc)) db)"

definition Revoke :: "auth_io \<Rightarrow> uuid \<Rightarrow> auth_db \<Rightarrow> auth_error option \<times> auth_db" where
  "Revoke io i db = session_Delete (io_st io 0) i db"

definition RevokeByRefreshToken :: "'r auth_deps \<Rightarrow> auth_io \<Rightarrow> string \<Rightarrow> auth_db \<Rightarrow> auth_error option \<times> auth_db" where
  "RevokeByRefreshToken D io refreshToken db =
     (case GetByRefreshTokenHash (io_st io 0) (HashToken D refreshToken) db of
        Inl e \<Rightarrow> (Some e, db)
      | Inr s \<Rightarrow> Revoke (io_after 1 io) (s_ID s) db)"

definition RevokeAllForUser :: "auth_io \<Rightarrow> uuid \<Rightarrow> auth_db \<Rightarrow> (auth_error + int) \<times> auth_db" where
  "RevokeAllForUser io i db = DeleteByUserID (io_st io 0) i db"

definition RevokeAllExcept :: "auth_io \<Rightarrow> uuid \<Rightarrow> uuid \<Rightarrow> auth_db \<Rightarrow> (auth_error + int) \<times> auth_db" where
  "RevokeAllExcept io i keep db = DeleteAllExcept (io_st io 0) i keep db"

definition session_Cleanup :: "auth_io \<Rightarrow> auth_db \<Rightarrow> (auth_error + int) \<times> auth_db" where
  "session_Cleanup io db = session_DeleteExpired (io_st io 0) db"

record session_info =
  si_ID :: uuid
  si_UserAgent :: string
  si_IPAddress :: string
  si_CreatedAt :: gotime
  si_ExpiresAt :: gotime
  si_IsCurrent :: bool

definition ToSessionInfo :: "uuid \<Rightarrow> session \<Rightarrow> session_info" where
  "ToSessionInfo current s =
     \<lparr>si_ID = s_ID s, si_UserAgent = (case s_UserAgent s of None \<Rightarrow> [] | Some a \<Rightarrow> a),
      si_IPAddress = (case s_IPAddress s of None \<Rightarrow> [] | Some a \<Rightarrow> a), si_CreatedAt = s_CreatedAt s,
      si_ExpiresAt = s_ExpiresAt s, si_IsCurrent = (s_ID s = current)\<rparr>"

definition ToSessionInfoList :: "session list \<Rightarrow> uuid \<Rightarrow> session_info list" where
  "ToSessionInfoList ss current = map (ToSessionInfo current) ss"


section \<open>Blacklisting\<close>

definition service_BlacklistToken ::
    "'r auth_service \<Rightarrow> auth_io \<Rightarrow> string \<Rightarrow> string \<Rightarrow> 'r auth_world \<Rightarrow> auth_error option \<times> 'r auth_world" where
  "service_BlacklistToken sv io token reason w =
     (if \<not> sv_blacklist sv then (None, w)
      else case ParseUnverified (dep_jwt (sv_deps sv)) token of
             Inl e \<Rightarrow> (Some e, w)
           | Inr claims \<Rightarrow>
               if p_ID claims = [] then (None, w)
               else let expiresAt = (case p_ExpiresAt claims of
                          None \<Rightarrow> time_add (io_clk io 0) (AccessTokenTTL (sv_jwt sv)) | Some e \<Rightarrow> e * second)
                    in case bl_BlacklistToken (dep_redis (sv_deps sv)) (io_rds io 0) (io_clk io 1) (p_ID claims) expiresAt reason (w_redis w) of
                         (e, r) \<Rightarrow> (e, w\<lparr>w_redis := r\<rparr>))"

definition service_BlacklistUserTokens ::
    "'r auth_service \<Rightarrow> auth_io \<Rightarrow> uuid \<Rightarrow> 'r auth_world \<Rightarrow> auth_error option \<times> 'r auth_world" where
  "service_BlacklistUserTokens sv io i w =
     (if \<not> sv_blacklist sv then (None, w)
      else case bl_BlacklistUserTokens (dep_redis (sv_deps sv)) (io_rds io 0) (io_clk io 1)
                  (uuid_String (dep_jwt (sv_deps sv)) i) (io_clk io 0) (RefreshTokenTTL (sv_jwt sv)) (w_redis w) of
             (e, r) \<Rightarrow> (e, w\<lparr>w_redis := r\<rparr>))"

definition IsTokenBlacklisted :: "'r auth_service \<Rightarrow> auth_io \<Rightarrow> string \<Rightarrow> 'r auth_world \<Rightarrow> auth_error + bool" where
  "IsTokenBlacklisted sv io token w =
     (if \<not> sv_blacklist sv then Inr False
      else case ParseUnverified (dep_jwt (sv_deps sv)) token of
             Inl e \<Rightarrow> Inl e
           | Inr claims \<Rightarrow>
               (case (if p_ID claims \<noteq> []
                      then bl_IsBlacklisted (dep_redis (sv_deps sv)) (io_rds io 0) (io_clk io 0) (p_ID claims) (w_redis w)
                      else Inr False) of
                  Inl e \<Rightarrow> Inl e
                | Inr True \<Rightarrow> Inr True
                | Inr False \<Rightarrow>
                    (case p_IssuedAt claims of
                       None \<Rightarrow> Inr False
                     | Some iat \<Rightarrow>
                         if p_UserID claims = [] then Inr False
                         else bl_IsUserTokenBlacklisted (dep_redis (sv_deps sv)) (io_rds io 1) (io_clk io 1)
                                (p_UserID claims) (iat * second) (w_redis w))))"

text \<open>The validator for the middleware; when Redis does not answer the token passes.\<close>

definition CreateTokenValidator ::
    "'r auth_service \<Rightarrow> auth_io \<Rightarrow> string \<Rightarrow> string \<Rightarrow> gotime \<Rightarrow> 'r auth_world \<Rightarrow> auth_error option" where
  "CreateTokenValidator sv io userID jti issuedAt w =
     (if \<not> sv_blacklist sv then None
      else case (if jti \<noteq> []
                 then bl_IsBlacklisted (dep_redis (sv_deps sv)) (io_rds io 0) (io_clk io 0) jti (w_redis w)
                 else Inr False) of
             Inl e \<Rightarrow> None
           | Inr True \<Rightarrow> Some ErrTokenRevoked
           | Inr False \<Rightarrow>
               if userID \<noteq> [] \<and> \<not> is_zero issuedAt
               then case bl_IsUserTokenBlacklisted (dep_redis (sv_deps sv)) (io_rds io 1) (io_clk io 1) userID issuedAt (w_redis w) of
                      Inl e \<Rightarrow> None | Inr True \<Rightarrow> Some ErrTokenRevoked | Inr False \<Rightarrow> None
               else None)"

section \<open>Login\<close>

record login_input =
  in_Username :: string
  in_Password :: string
  in_UserAgent :: string
  in_IPAddress :: string

record login_result =
  lr_User :: user
  lr_AccessToken :: string
  lr_RefreshToken :: string
  lr_ExpiresAt :: gotime
  lr_SessionID :: uuid

definition logLoginAttempt ::
    "'r auth_service \<Rightarrow> user \<Rightarrow> string \<Rightarrow> bool \<Rightarrow> string \<Rightarrow> 'r auth_world \<Rightarrow> 'r auth_world" where
  "logLoginAttempt sv u ip success reason w =
     (if sv_audit sv
      then w\<lparr>w_log := w_log w @ [LoginEvent (u_ID u) (u_Username u) ip success (if reason = [] then None else Some reason)]\<rparr>
      else w)"

definition createLoginSession ::
    "'r auth_service \<Rightarrow> auth_io \<Rightarrow> user \<Rightarrow> login_input \<Rightarrow> 'r auth_world \<Rightarrow> (auth_error + login_result) \<times> 'r auth_world" where
  "createLoginSession sv io u input w =
     (let db = snd (UpdateLastLogin (io_st io 0) (io_clk io 0) (u_ID u) (w_db w))
      in case session_service_Create (sv_deps sv) (sv_sessions sv) (sv_jwt sv) (io_after 1 io) u
                (in_UserAgent input) (in_IPAddress input) db of
           (Inl e, db) \<Rightarrow> (Inl e, w\<lparr>w_db := db\<rparr>)
         | (Inr r, db) \<Rightarrow>
             (Inr \<lparr>lr_User = u, lr_AccessToken = st_AccessToken r, lr_RefreshToken = st_RefreshToken r,
                   lr_ExpiresAt = st_ExpiresAt r, lr_SessionID = s_ID (st_Session r)\<rparr>,
              logLoginAttempt sv u (in_IPAddress input) True [] (w\<lparr>w_db := db\<rparr>)))"

text \<open>
  Try the directories in turn; the first that knows the user decides, and its role becomes the user's.
  \<open>None\<close> when no directory knows the user.
\<close>

fun try_ldap ::
    "ldap_provider list \<Rightarrow> auth_io \<Rightarrow> user \<Rightarrow> login_input \<Rightarrow> 'r auth_world \<Rightarrow> user option \<times> 'r auth_world" where
  "try_ldap [] io u input w = (None, w)"
| "try_ldap (p # ps) io u input w =
     (if \<not> ldap_IsEnabled p then try_ldap ps io u input w
      else case ldap_Authenticate p (in_Username input) (in_Password input) of
             None \<Rightarrow> try_ldap ps io u input w
           | Some None \<Rightarrow> try_ldap ps io u input w
           | Some (Some role) \<Rightarrow>
               if role \<noteq> u_Role u
               then let u = u\<lparr>u_Role := role, u_UpdatedAt := io_clk io 0\<rparr>
                    in (Some u, w\<lparr>w_db := snd (user_Update (io_st io 0) (io_clk io 0) u (w_db w))\<rparr>)
               else (Some u, w))"

definition verifyLDAPCredentials ::
    "'r auth_service \<Rightarrow> auth_io \<Rightarrow> user \<Rightarrow> login_input \<Rightarrow> 'r auth_world \<Rightarrow> (auth_error + user) \<times> 'r auth_world" where
  "verifyLDAPCredentials sv io u input w =
     (if sv_ldap sv = [] then (Inl (Failed ''LDAP authentication not configured''), w)
      else case try_ldap (sv_ldap sv) io u input w of
             (Some u, w) \<Rightarrow> (Inr u, w)
           | (None, w) \<Rightarrow> (Inl ErrInvalidCredentials, logLoginAttempt sv u (in_IPAddress input) False ''LDAP auth failed'' w))"

definition loginLDAP ::
    "'r auth_service \<Rightarrow> auth_io \<Rightarrow> user \<Rightarrow> login_input \<Rightarrow> 'r auth_world \<Rightarrow> (auth_error + login_result) \<times> 'r auth_world" where
  "loginLDAP sv io u input w =
     (if sv_ldap sv = [] then (Inl (Failed ''LDAP authentication not configured''), w)
      else if \<not> u_IsActive u
      then (Inl ErrUserDisabled, logLoginAttempt sv u (in_IPAddress input) False ''account disabled'' w)
      else case try_ldap (sv_ldap sv) io u input w of
             (Some u, w) \<Rightarrow> createLoginSession sv (io_after 1 io) u input w
           | (None, w) \<Rightarrow> (Inl ErrInvalidCredentials, logLoginAttempt sv u (in_IPAddress input) False ''LDAP auth failed'' w))"

text \<open>A wrong password is counted when a maximum is configured.\<close>

definition wrong_password ::
    "'r auth_service \<Rightarrow> auth_io \<Rightarrow> user \<Rightarrow> login_input \<Rightarrow> 'r auth_world \<Rightarrow> 'r auth_world" where
  "wrong_password sv io u input w =
     (let w = (if 0 < MaxLoginAttempts (sv_config sv)
               then w\<lparr>w_db := snd (IncrementFailedAttempts (io_st io 0) (io_clk io 0) (u_ID u)
                        (MaxLoginAttempts (sv_config sv)) (LockoutDuration (sv_config sv)) (w_db w))\<rparr>
               else w)
      in logLoginAttempt sv u (in_IPAddress input) False ''invalid password'' w)"

definition VerifyCredentials ::
    "'r auth_service \<Rightarrow> auth_io \<Rightarrow> login_input \<Rightarrow> 'r auth_world \<Rightarrow> (auth_error + user) \<times> 'r auth_world" where
  "VerifyCredentials sv io input w =
     (case user_GetByUsername (dep_lower (sv_deps sv)) (io_st io 0) (in_Username input) (w_db w) of
        Inl e \<Rightarrow> (Inl ErrInvalidCredentials, w)
      | Inr u \<Rightarrow>
          if \<not> u_IsActive u
          then (Inl ErrUserDisabled, logLoginAttempt sv u (in_IPAddress input) False ''account disabled'' w)
          else if u_IsLDAP u then verifyLDAPCredentials sv (io_after 1 io) u input w
          else if user_IsLocked (io_clk io 0) u
          then (Inl ErrUserLocked, logLoginAttempt sv u (in_IPAddress input) False ''account locked'' w)
          else if \<not> CheckPassword (sv_deps sv) (in_Password input) (u_PasswordHash u)
          then (Inl ErrInvalidCredentials, wrong_password sv (io_after 1 io) u input w)
          else (Inr u, w))"

definition Login ::
    "'r auth_service \<Rightarrow> auth_io \<Rightarrow> login_input \<Rightarrow> 'r auth_world \<Rightarrow> (auth_error + login_result) \<times> 'r auth_world" where
  "Login sv io input w =
     (case user_GetByUsername (dep_lower (sv_deps sv)) (io_st io 0) (in_Username input) (w_db w) of
        Inl e \<Rightarrow> (Inl ErrInvalidCredentials, w)
      | Inr u \<Rightarrow>
          if u_IsLDAP u then loginLDAP sv (io_after 1 io) u input w
          else if \<not> u_IsActive u
          then (Inl ErrUserDisabled, logLoginAttempt sv u (in_IPAddress input) False ''account disabled'' w)
          else if user_IsLocked (io_clk io 0) u
          then (Inl ErrUserLocked, logLoginAttempt sv u (in_IPAddress input) False ''account locked'' w)
          else if \<not> CheckPassword (sv_deps sv) (in_Password input) (u_PasswordHash u)
          then (Inl ErrInvalidCredentials, wrong_password sv (io_after 1 io) u input w)
          else createLoginSession sv (io_after 1 io) u input w)"

section \<open>Refresh and logout\<close>

definition Refresh ::
    "'r auth_service \<Rightarrow> auth_io \<Rightarrow> string \<Rightarrow> 'r auth_world \<Rightarrow> (auth_error + login_result) \<times> 'r auth_world" where
  "Refresh sv io refreshToken w =
     (case ValidateRefreshToken (sv_deps sv) io refreshToken (w_db w) of
        Inl e \<Rightarrow> (Inl e, w)
      | Inr s \<Rightarrow>
          (case user_GetByID (io_st io 1) (s_UserID s) (w_db w) of
             Inl e \<Rightarrow> (Inl e, w)
           | Inr u \<Rightarrow>
               if \<not> u_IsActive u then (Inl ErrUserDisabled, w\<lparr>w_db := snd (Revoke (io_after 2 io) (s_ID s) (w_db w))\<rparr>)
               else if user_IsLocked (io_clk io 1) u
               then (Inl ErrUserLocked, w\<lparr>w_db := snd (Revoke (io_after 2 io) (s_ID s) (w_db w))\<rparr>)
               else case session_service_Refresh (sv_deps sv) (sv_sessions sv) (sv_jwt sv) (io_after 2 io) refreshToken u (w_db w) of
                      (Inl e, db) \<Rightarrow> (Inl e, w\<lparr>w_db := db\<rparr>)
                    | (Inr r, db) \<Rightarrow>
                        (Inr \<lparr>lr_User = u, lr_AccessToken = st_AccessToken r, lr_RefreshToken = st_RefreshToken r,
                              lr_ExpiresAt = st_ExpiresAt r, lr_SessionID = s_ID (st_Session r)\<rparr>,
                         w\<lparr>w_db := db\<rparr>)))"

definition Logout :: "auth_io \<Rightarrow> uuid \<Rightarrow> 'r auth_world \<Rightarrow> auth_error option \<times> 'r auth_world" where
  "Logout io i w = (case Revoke io i (w_db w) of (e, db) \<Rightarrow> (e, w\<lparr>w_db := db\<rparr>))"

definition LogoutWithToken ::
    "'r auth_service \<Rightarrow> auth_io \<Rightarrow> uuid \<Rightarrow> string \<Rightarrow> 'r auth_world \<Rightarrow> auth_error option \<times> 'r auth_world" where
  "LogoutWithToken sv io i token w =
     (let w = (if token \<noteq> [] then snd (service_BlacklistToken sv io token ''logout'' w) else w)
      in Logout (io_after 2 io) i w)"

definition LogoutByRefreshToken ::
    "'r auth_service \<Rightarrow> auth_io \<Rightarrow> string \<Rightarrow> 'r auth_world \<Rightarrow> auth_error option \<times> 'r auth_world" where
  "LogoutByRefreshToken sv io refreshToken w =
     (case RevokeByRefreshToken (sv_deps sv) io refreshToken (w_db w) of (e, db) \<Rightarrow> (e, w\<lparr>w_db := db\<rparr>))"

definition LogoutAll :: "'r auth_service \<Rightarrow> auth_io \<Rightarrow> uuid \<Rightarrow> 'r auth_world \<Rightarrow> (auth_error + int) \<times> 'r auth_world" where
  "LogoutAll sv io i w =
     (let w = snd (service_BlacklistUserTokens sv io i w)
      in case RevokeAllForUser io i (w_db w) of (n, db) \<Rightarrow> (n, w\<lparr>w_db := db\<rparr>))"

definition LogoutOthers ::
    "'r auth_service \<Rightarrow> auth_io \<Rightarrow> uuid \<Rightarrow> uuid \<Rightarrow> 'r auth_world \<Rightarrow> (auth_error + int) \<times> 'r auth_world" where
  "LogoutOthers sv io i keep w =
     (let w = snd (service_BlacklistUserTokens sv io i w)
      in case RevokeAllExcept io i keep (w_db w) of (n, db) \<Rightarrow> (n, w\<lparr>w_db := db\<rparr>))"

section \<open>API keys, passwords, OAuth, sessions\<close>

definition AuthenticateAPIKey ::
    "'r auth_service \<Rightarrow> auth_io \<Rightarrow> string \<Rightarrow> 'r auth_world \<Rightarrow> (auth_error + (user \<times> api_key)) \<times> 'r auth_world" where
  "AuthenticateAPIKey sv io apiKey w =
     (if \<not> AllowAPIKeyAuth (sv_config sv) then (Inl (Forbidden ''API key authentication is disabled''), w)
      else case api_key_GetByKeyHash (io_st io 0) (HashAPIKey (sv_deps sv) apiKey) (w_db w) of
             Inl e \<Rightarrow> (Inl (Unauthorized ''invalid API key''), w)
           | Inr k \<Rightarrow>
               if api_key_IsExpired (io_clk io 0) k then (Inl (Unauthorized ''API key has expired''), w)
               else case user_GetByID (io_st io 1) (k_UserID k) (w_db w) of
                      Inl e \<Rightarrow> (Inl e, w)
                    | Inr u \<Rightarrow>
                        if \<not> u_IsActive u then (Inl ErrUserDisabled, w)
                        else (Inr (u, k),
                              w\<lparr>w_db := snd (api_key_UpdateLastUsed (io_st io 2) (io_clk io 1) (k_ID k) (w_db w))\<rparr>))"

definition validatePasswordForUser :: "'r auth_service \<Rightarrow> string \<Rightarrow> string \<Rightarrow> auth_error option" where
  "validatePasswordForUser sv password username =
     (let r = ValidatePassword (dep_unicode (sv_deps sv)) (PasswordPolicy (sv_config sv)) password username
      in if Valid r then None
         else Some (ErrWeakPassword (case Errors r of [] \<Rightarrow> [] | e # _ \<Rightarrow> e)))"

definition log_password_change :: "'r auth_service \<Rightarrow> user \<Rightarrow> 'r auth_world \<Rightarrow> 'r auth_world" where
  "log_password_change sv u w =
     (if sv_audit sv then w\<lparr>w_log := w_log w @ [PasswordChangeEvent (u_ID u) (u_Username u) True]\<rparr> else w)"

definition ChangePassword ::
    "'r auth_service \<Rightarrow> auth_io \<Rightarrow> uuid \<Rightarrow> string \<Rightarrow> string \<Rightarrow> 'r auth_world \<Rightarrow> auth_error option \<times> 'r auth_world" where
  "ChangePassword sv io i current new w =
     (case user_GetByID (io_st io 0) i (w_db w) of
        Inl e \<Rightarrow> (Some e, w)
      | Inr u \<Rightarrow>
          if u_IsLDAP u then (Some (Forbidden ''LDAP users must change password via LDAP''), w)
          else if \<not> CheckPassword (sv_deps sv) current (u_PasswordHash u) then (Some ErrInvalidCredentials, w)
          else case validatePasswordForUser sv new (u_Username u) of
                 Some e \<Rightarrow> (Some e, w)
               | None \<Rightarrow>
                   (case dep_bcrypt (sv_deps sv) new of
                      None \<Rightarrow> (Some (Failed ''hash password''), w)
                    | Some h \<Rightarrow>
                        (case UpdatePassword (io_st io 1) (io_clk io 0) (u_ID u) h (w_db w) of
                           (Some e, db) \<Rightarrow> (Some e, w\<lparr>w_db := db\<rparr>)
                         | (None, db) \<Rightarrow> (None, log_password_change sv u (w\<lparr>w_db := db\<rparr>)))))"

definition ResetPassword ::
    "'r auth_service \<Rightarrow> auth_io \<Rightarrow> uuid \<Rightarrow> string \<Rightarrow> 'r auth_world \<Rightarrow> auth_error option \<times> 'r auth_world" where
  "ResetPassword sv io i new w =
     (case user_GetByID (io_st io 0) i (w_db w) of
        Inl e \<Rightarrow> (Some e, w)
      | Inr u \<Rightarrow>
          if u_IsLDAP u then (Some (Forbidden ''LDAP users cannot have local password''), w)
          else case validatePasswordForUser sv new [] of
                 Some e \<Rightarrow> (Some e, w)
               | None \<Rightarrow>
                   (case dep_bcrypt (sv_deps sv) new of
                      None \<Rightarrow> (Some (Failed ''hash password''), w)
                    | Some h \<Rightarrow>
                        (case UpdatePassword (io_st io 1) (io_clk io 0) (u_ID u) h (w_db w) of
                           (Some e, db) \<Rightarrow> (Some e, w\<lparr>w_db := db\<rparr>)
                         | (None, db) \<Rightarrow>
                             (None, log_password_change sv u
                                (w\<lparr>w_db := snd (RevokeAllForUser (io_after 2 io) i db)\<rparr>)))))"

definition GetOAuthAuthURL :: "'r auth_service \<Rightarrow> string \<Rightarrow> string \<Rightarrow> auth_error + string" where
  "GetOAuthAuthURL sv name state =
     (case sv_oauth sv name of
        None \<Rightarrow> Inl (Failed ''unknown OAuth provider'')
      | Some p \<Rightarrow> if \<not> oa_IsEnabled p then Inl (Failed ''OAuth provider is disabled'') else Inr (oa_AuthURL p state))"

text \<open>The row of an unknown user that a provider brings; only an error of the application counts as unknown.\<close>

definition new_oauth_user :: "auth_io \<Rightarrow> oauth_user \<Rightarrow> user" where
  "new_oauth_user io ou =
     \<lparr>u_ID = io_id io, u_Username = oa_Username ou, u_Email = (if oa_Email ou = [] then None else Some (oa_Email ou)),
      u_PasswordHash = [], u_Role = oa_Role ou, u_IsActive = True, u_IsLDAP = False, u_LDAPDN = None,
      u_FailedLoginAttempts = 0, u_LockedUntil = None, u_LastLoginAt = None, u_PasswordChangedAt = None,
      u_TOTPSecret = None, u_TOTPEnabled = False, u_TOTPVerifiedAt = None, u_CreatedAt = 0, u_UpdatedAt = 0\<rparr>"

text \<open>\<open>sid\<close> is the fresh id of the session, \<open>io_id\<close> that of a new user.\<close>

definition OAuthCallback ::
    "'r auth_service \<Rightarrow> auth_io \<Rightarrow> uuid \<Rightarrow> string \<Rightarrow> string \<Rightarrow> login_input \<Rightarrow> 'r auth_world \<Rightarrow>
     (auth_error + login_result) \<times> 'r auth_world" where
  "OAuthCallback sv io sid name code input w =
     (case sv_oauth sv name of
        None \<Rightarrow> (Inl (Failed ''unknown OAuth provider''), w)
      | Some p \<Rightarrow>
          if \<not> oa_IsEnabled p then (Inl (Failed ''OAuth provider is disabled''), w)
          else case oa_Exchange p code of
                 None \<Rightarrow> (Inl (Failed ''OAuth exchange failed''), w)
               | Some ou \<Rightarrow>
                   (let login = (\<lambda>u w. if \<not> u_IsActive u then (Inl ErrUserDisabled, w)
                                       else createLoginSession sv (io_after 2 io\<lparr>io_id := sid\<rparr>) u input w)
                    in case user_GetByUsername (dep_lower (sv_deps sv)) (io_st io 0) (oa_Username ou) (w_db w) of
                         Inr u \<Rightarrow> login u w
                       | Inl (NotFound x) \<Rightarrow>
                           if \<not> oa_AutoProvision p then (Inl (Failed ''auto-provisioning is disabled''), w)
                           else (case user_Create (io_st io 1) (io_clk io 0) (new_oauth_user io ou) (w_db w) of
                                   (Inl e, db) \<Rightarrow> (Inl e, w\<lparr>w_db := db\<rparr>)
                                 | (Inr u, db) \<Rightarrow> login u (w\<lparr>w_db := db\<rparr>))
                       | Inl e \<Rightarrow> (Inl e, w)))"

definition GetUserSessions :: "auth_io \<Rightarrow> uuid \<Rightarrow> uuid \<Rightarrow> 'r auth_world \<Rightarrow> auth_error + session_info list" where
  "GetUserSessions io i current w =
     map_sum id (\<lambda>ss. ToSessionInfoList ss current) (ListActiveByUserID (io_st io 0) i (w_db w))"

definition RevokeSession :: "auth_io \<Rightarrow> uuid \<Rightarrow> uuid \<Rightarrow> 'r auth_world \<Rightarrow> auth_error option \<times> 'r auth_world" where
  "RevokeSession io i sid w =
     (case session_GetByID (io_st io 0) sid (w_db w) of
        Inl e \<Rightarrow> (Some e, w)
      | Inr s \<Rightarrow>
          if s_UserID s \<noteq> i then (Some (Forbidden ''session does not belong to user''), w)
          else Logout (io_after 1 io) sid w)"


section \<open>Sequences of operations\<close>

datatype auth_op =
    OpLogin auth_io login_input
  | OpVerify auth_io login_input
  | OpOAuth auth_io uuid string string login_input
  | OpRefresh auth_io string
  | OpLogout auth_io uuid
  | OpLogoutWithToken auth_io uuid string
  | OpLogoutByRefreshToken auth_io string
  | OpLogoutAll auth_io uuid
  | OpLogoutOthers auth_io uuid uuid
  | OpRevokeSession auth_io uuid uuid
  | OpAPIKey auth_io string
  | OpChangePassword auth_io uuid string string
  | OpResetPassword auth_io uuid string
  | OpExtend auth_io uuid
  | OpCleanup auth_io
  | OpDeleteUser auth_io uuid

fun op_io :: "auth_op \<Rightarrow> auth_io" where
  "op_io (OpLogin io input) = io" | "op_io (OpVerify io input) = io" | "op_io (OpOAuth io sid name code input) = io"
| "op_io (OpRefresh io t) = io" | "op_io (OpLogout io i) = io" | "op_io (OpLogoutWithToken io i t) = io"
| "op_io (OpLogoutByRefreshToken io t) = io" | "op_io (OpLogoutAll io i) = io" | "op_io (OpLogoutOthers io i k) = io"
| "op_io (OpRevokeSession io i k) = io" | "op_io (OpAPIKey io k) = io" | "op_io (OpChangePassword io i a b) = io"
| "op_io (OpResetPassword io i a) = io" | "op_io (OpExtend io i) = io" | "op_io (OpCleanup io) = io"
| "op_io (OpDeleteUser io i) = io"

fun auth_step :: "'r auth_service \<Rightarrow> auth_op \<Rightarrow> 'r auth_world \<Rightarrow> 'r auth_world" where
  "auth_step sv (OpLogin io input) w = snd (Login sv io input w)"
| "auth_step sv (OpVerify io input) w = snd (VerifyCredentials sv io input w)"
| "auth_step sv (OpOAuth io sid name code input) w = snd (OAuthCallback sv io sid name code input w)"
| "auth_step sv (OpRefresh io t) w = snd (Refresh sv io t w)"
| "auth_step sv (OpLogout io i) w = snd (Logout io i w)"
| "auth_step sv (OpLogoutWithToken io i t) w = snd (LogoutWithToken sv io i t w)"
| "auth_step sv (OpLogoutByRefreshToken io t) w = snd (LogoutByRefreshToken sv io t w)"
| "auth_step sv (OpLogoutAll io i) w = snd (LogoutAll sv io i w)"
| "auth_step sv (OpLogoutOthers io i keep) w = snd (LogoutOthers sv io i keep w)"
| "auth_step sv (OpRevokeSession io i sid) w = snd (RevokeSession io i sid w)"
| "auth_step sv (OpAPIKey io key) w = snd (AuthenticateAPIKey sv io key w)"
| "auth_step sv (OpChangePassword io i current new) w = snd (ChangePassword sv io i current new w)"
| "auth_step sv (OpResetPassword io i new) w = snd (ResetPassword sv io i new w)"
| "auth_step sv (OpExtend io i) w = w\<lparr>w_db := snd (ExtendIfNeeded (sv_sessions sv) io i (w_db w))\<rparr>"
| "auth_step sv (OpCleanup io) w =
     w\<lparr>w_db := snd (api_key_DeleteExpired (io_st io 1) (snd (session_Cleanup io (w_db w))))\<rparr>"
| "auth_step sv (OpDeleteUser io i) w = w\<lparr>w_db := snd (user_Delete (io_st io 0) i (w_db w))\<rparr>"

section \<open>What every operation keeps\<close>

text \<open>
  A property of the tables that the statements of the repositories keep is kept by every operation of
  the service; \<open>P\<close> may tell the new sessions that a raw token makes possible.
\<close>

locale db_invariant =
  fixes D :: "'r auth_deps" and fresh :: "string \<Rightarrow> bool" and P :: "auth_db \<Rightarrow> bool"
  assumes P_UpdateLastLogin: "P db \<Longrightarrow> P (snd (UpdateLastLogin st now i db))"
    and P_IncrementFailedAttempts: "P db \<Longrightarrow> P (snd (IncrementFailedAttempts st now i m d db))"
    and P_user_Update: "P db \<Longrightarrow> P (snd (user_Update st now u db))"
    and P_user_Create: "P db \<Longrightarrow> P (snd (user_Create st now u db))"
    and P_user_Delete: "P db \<Longrightarrow> P (snd (user_Delete st i db))"
    and P_UpdatePassword: "P db \<Longrightarrow> P (snd (UpdatePassword st now i h db))"
    and P_session_Create: "P db \<Longrightarrow> fresh raw \<Longrightarrow> s_RefreshTokenHash s = HashToken D raw \<Longrightarrow>
      P (snd (session_Create st now s db))"
    and P_UpdateRefreshToken: "P db \<Longrightarrow> fresh raw \<Longrightarrow> P (snd (UpdateRefreshToken st i (HashToken D raw) e db))"
    and P_session_Extend: "P db \<Longrightarrow> P (snd (session_Extend st i e db))"
    and P_session_Delete: "P db \<Longrightarrow> P (snd (session_Delete st i db))"
    and P_delete_sessions: "P db \<Longrightarrow> P (snd (delete_sessions st Q db))"
    and P_api_key_UpdateLastUsed: "P db \<Longrightarrow> P (snd (api_key_UpdateLastUsed st now i db))"
    and P_api_key_DeleteExpired: "P db \<Longrightarrow> P (snd (api_key_DeleteExpired st db))"
begin

lemmas P_ops = P_UpdateLastLogin P_IncrementFailedAttempts P_user_Update P_user_Create P_user_Delete P_UpdatePassword
  P_session_Extend P_session_Delete P_delete_sessions P_api_key_UpdateLastUsed P_api_key_DeleteExpired

lemma P_DeleteOldest: "P db \<Longrightarrow> P (snd (DeleteOldest st i n db))"
  by (simp add: DeleteOldest_def Let_def P_delete_sessions)

lemma P_make_room: "P db \<Longrightarrow> make_room sc io i db = Inr db' \<Longrightarrow> P db'"
  by (auto simp: make_room_def P_DeleteOldest split: sum.splits if_splits)

lemma P_service_Create:
  assumes "P db" "\<And>raw. io_raw io = Some raw \<Longrightarrow> fresh raw"
  shows "P (snd (session_service_Create D sc jc io u a b db))"
proof (cases "make_room sc io (u_ID u) db")
  case (Inr db')
  have db': "P db'" by (rule P_make_room [OF assms(1) Inr])
  show ?thesis
  proof (cases "io_raw io")
    case None
    with Inr db' show ?thesis by (simp add: session_service_Create_def)
  next
    case (Some raw)
    obtain r db2 where r: "session_Create (io_st io 2) (io_clk io 1) (new_session D sc io u a b raw) db' = (r, db2)"
      by fastforce
    have "P db2"
      using P_session_Create [OF db' assms(2) [OF Some], of "new_session D sc io u a b raw" "io_st io 2" "io_clk io 1"] r
      by (simp add: new_session_def)
    with Inr Some r show ?thesis
      by (simp add: session_service_Create_def P_session_Delete split: sum.split)
  qed
qed (simp add: session_service_Create_def assms(1))

lemma P_service_Refresh:
  assumes "P db" "\<And>raw. io_raw io = Some raw \<Longrightarrow> fresh raw"
  shows "P (snd (session_service_Refresh D sc jc io t u db))"
proof (cases "io_raw io")
  case None
  with assms(1) show ?thesis
    by (simp add: session_service_Refresh_def P_session_Delete split: sum.split)
next
  case (Some raw)
  have new: "P db2" if "UpdateRefreshToken st i (HashToken D raw) e db = (r, db2)" for st i e r db2
    using P_UpdateRefreshToken [OF assms(1) assms(2) [OF Some], of st i e] that by simp
  show ?thesis
    using Some assms(1)
    by (auto simp: session_service_Refresh_def Let_def P_session_Delete split: sum.split prod.split option.split dest: new)
qed

lemma P_try_ldap: "P (w_db w) \<Longrightarrow> P (w_db (snd (try_ldap ps io u input w)))"
  by (induction ps io u input w rule: try_ldap.induct) (auto simp: Let_def P_user_Update split: option.split)

lemma w_db_log [simp]:
  "w_db (logLoginAttempt sv u ip ok reason w) = w_db w" "w_db (log_password_change sv u w) = w_db w"
  by (simp_all add: logLoginAttempt_def log_password_change_def)

lemma io_after_raw [simp]: "io_raw (io_after n io) = io_raw io" "io_id (io_after n io) = io_id io"
  "io_rds (io_after n io) = io_rds io" "io_jti (io_after n io) = io_jti io"
  "io_st (io_after n io) k = io_st io (n + k)" "io_clk (io_after n io) k = io_clk io (n + k)"
  by (simp_all add: io_after_def)

lemma P_createLoginSession:
  assumes "P (w_db w)" "\<And>raw. io_raw io = Some raw \<Longrightarrow> fresh raw" "sv_deps sv = D"
  shows "P (w_db (snd (createLoginSession sv io u input w)))"
proof -
  let ?db = "snd (UpdateLastLogin (io_st io 0) (io_clk io 0) (u_ID u) (w_db w))"
  obtain r db where r: "session_service_Create D (sv_sessions sv) (sv_jwt sv) (io_after 1 io) u
      (in_UserAgent input) (in_IPAddress input) ?db = (r, db)" by fastforce
  have "P db"
    using P_service_Create [OF P_UpdateLastLogin [OF assms(1)], of "io_after 1 io"] assms(2) r by (metis io_after_raw(1) snd_conv)
  with r assms(3) show ?thesis by (simp add: createLoginSession_def split: sum.split)
qed

lemma P_wrong_password: "P (w_db w) \<Longrightarrow> P (w_db (wrong_password sv io u input w))"
  by (simp add: wrong_password_def Let_def P_IncrementFailedAttempts)

lemma P_Login:
  assumes "P (w_db w)" "\<And>raw. io_raw io = Some raw \<Longrightarrow> fresh raw" "sv_deps sv = D"
  shows "P (w_db (snd (Login sv io input w)))"
proof -
  have create: "P (w_db w') \<Longrightarrow> P (w_db (snd (createLoginSession sv (io_after n io) u input w')))" for n u w'
    using P_createLoginSession [of w' "io_after n io" sv u input] assms(2,3) by simp
  have "P (w_db (snd (loginLDAP sv (io_after 1 io) u input w)))" for u
  proof -
    obtain r w' where r: "try_ldap (sv_ldap sv) (io_after 1 io) u input w = (r, w')" by fastforce
    then have "P (w_db w')" using P_try_ldap [OF assms(1), of "sv_ldap sv" "io_after 1 io" u input] by simp
    then have "P (w_db (snd (createLoginSession sv (io_after 1 (io_after 1 io)) v input w')))" for v
      using P_createLoginSession [of w' "io_after 1 (io_after 1 io)" sv v input] assms(2,3) by simp
    with r \<open>P (w_db w')\<close> assms(1) show ?thesis by (simp add: loginLDAP_def split: option.split)
  qed
  with create [OF assms(1)] P_wrong_password [OF assms(1)] assms(1) show ?thesis
    by (simp add: Login_def split: sum.split)
qed

lemma P_VerifyCredentials: "P (w_db w) \<Longrightarrow> P (w_db (snd (VerifyCredentials sv io input w)))"
proof -
  assume w: "P (w_db w)"
  have "P (w_db (snd (verifyLDAPCredentials sv (io_after 1 io) u input w)))" for u
    using P_try_ldap [OF w, of "sv_ldap sv" "io_after 1 io" u input] w
    by (auto simp: verifyLDAPCredentials_def split: option.split prod.split)
  with P_wrong_password [OF w] w show ?thesis by (simp add: VerifyCredentials_def split: sum.split)
qed

lemma P_Refresh:
  assumes "P (w_db w)" "\<And>raw. io_raw io = Some raw \<Longrightarrow> fresh raw" "sv_deps sv = D"
  shows "P (w_db (snd (Refresh sv io t w)))"
proof -
  have "P db" if "session_service_Refresh D sc jc (io_after 2 io) t u (w_db w) = (r, db)" for sc jc u r db
    using P_service_Refresh [OF assms(1), of "io_after 2 io" sc jc t u] assms(2) that by simp
  with assms(1,3) show ?thesis
    by (auto simp: Refresh_def Revoke_def P_session_Delete split: sum.split prod.split)
qed

lemma P_OAuthCallback:
  assumes "P (w_db w)" "\<And>raw. io_raw io = Some raw \<Longrightarrow> fresh raw" "sv_deps sv = D"
  shows "P (w_db (snd (OAuthCallback sv io sid name code input w)))"
proof -
  have login: "P (w_db (snd (createLoginSession sv (io_after 2 io\<lparr>io_id := sid\<rparr>) u input w')))" if "P (w_db w')" for u w'
    using P_createLoginSession [OF that, of "io_after 2 io\<lparr>io_id := sid\<rparr>" sv u input] assms(2,3) by (simp add: io_after_def)
  have new: "P db" if "user_Create st now u (w_db w) = (r, db)" for st now u r db
    using P_user_Create [OF assms(1), of st now u] that by simp
  show ?thesis
    using assms(1) login [OF assms(1)]
    by (auto simp: OAuthCallback_def Let_def login new split: option.split sum.split auth_error.split prod.split)
qed

lemma P_ChangePassword:
  assumes "P (w_db w)"
  shows "P (w_db (snd (ChangePassword sv io i a b w)))" "P (w_db (snd (ResetPassword sv io i b w)))"
proof -
  have upd: "P db" if "UpdatePassword st now j h (w_db w) = (r, db)" for st now j h r db
    using P_UpdatePassword [OF assms, of st now j h] that by simp
  show "P (w_db (snd (ChangePassword sv io i a b w)))" "P (w_db (snd (ResetPassword sv io i b w)))"
    using assms
    by (auto simp: ChangePassword_def ResetPassword_def RevokeAllForUser_def DeleteByUserID_def P_delete_sessions
        split: sum.split option.split prod.split dest: upd)
qed

lemma w_db_blacklist [simp]:
  "w_db (snd (service_BlacklistToken sv io t reason w)) = w_db w"
  "w_db (snd (service_BlacklistUserTokens sv io i w)) = w_db w"
  by (simp_all add: service_BlacklistToken_def service_BlacklistUserTokens_def Let_def split: sum.split prod.split)

lemma P_Logout: "P (w_db w) \<Longrightarrow> P (w_db (snd (Logout io i w)))"
proof -
  assume w: "P (w_db w)"
  have "P db" if "session_Delete st i (w_db w) = (r, db)" for st r db
    using P_session_Delete [OF w, of st i] that by simp
  then show ?thesis by (auto simp: Logout_def Revoke_def split: prod.split)
qed

lemma P_logouts:
  assumes "P (w_db w)"
  shows "P (w_db (snd (LogoutWithToken sv io i t w)))" "P (w_db (snd (LogoutByRefreshToken sv io t w)))"
    "P (w_db (snd (LogoutAll sv io i w)))" "P (w_db (snd (LogoutOthers sv io i keep w)))"
    "P (w_db (snd (RevokeSession io i sid w)))"
proof -
  show "P (w_db (snd (LogoutWithToken sv io i t w)))" "P (w_db (snd (RevokeSession io i sid w)))"
    using assms by (simp_all add: LogoutWithToken_def RevokeSession_def Let_def P_Logout split: sum.split)
  have "P (snd (RevokeByRefreshToken (sv_deps sv) io t (w_db w)))"
    using assms by (simp add: RevokeByRefreshToken_def Revoke_def P_session_Delete split: sum.split)
  then show "P (w_db (snd (LogoutByRefreshToken sv io t w)))"
    by (simp add: LogoutByRefreshToken_def split_beta)
  show "P (w_db (snd (LogoutAll sv io i w)))" "P (w_db (snd (LogoutOthers sv io i keep w)))"
    using assms P_delete_sessions
    by (simp_all add: LogoutAll_def LogoutOthers_def Let_def split_beta RevokeAllForUser_def RevokeAllExcept_def
        DeleteByUserID_def DeleteAllExcept_def)
qed

lemma P_step:
  assumes "P (w_db w)" "\<And>raw. io_raw (op_io op) = Some raw \<Longrightarrow> fresh raw" "sv_deps sv = D"
  shows "P (w_db (auth_step sv op w))"
proof (cases op)
  case (OpLogin io input)
  with assms show ?thesis by (simp add: P_Login)
next
  case (OpOAuth io sid name code input)
  with assms show ?thesis by (simp add: P_OAuthCallback)
next
  case (OpRefresh io t)
  with assms show ?thesis by (simp add: P_Refresh)
next
  case (OpAPIKey io key)
  with assms show ?thesis by (simp add: AuthenticateAPIKey_def P_api_key_UpdateLastUsed split: sum.split)
next
  case (OpExtend io i)
  with assms show ?thesis by (simp add: ExtendIfNeeded_def P_session_Extend split: sum.split)
next
  case (OpCleanup io)
  with assms show ?thesis
    by (simp add: session_Cleanup_def session_DeleteExpired_def P_delete_sessions P_api_key_DeleteExpired)
next
  case (OpDeleteUser io i)
  with assms show ?thesis by (simp add: P_user_Delete)
qed (use assms in \<open>simp_all add: P_VerifyCredentials P_Logout P_logouts P_ChangePassword\<close>)

lemma P_run:
  assumes "P (w_db w)" "\<forall>op \<in> set ops. \<forall>raw \<in> set_option (io_raw (op_io op)). fresh raw" "sv_deps sv = D"
  shows "P (w_db (fold (auth_step sv) ops w))"
  using assms(1,2)
proof (induction ops arbitrary: w)
  case (Cons op ops)
  then have "P (w_db (auth_step sv op w))" using assms(3) by (intro P_step) auto
  with Cons show ?case by simp
qed simp

end

section \<open>The constraints of the tables\<close>

interpretation wf: db_invariant D "\<lambda>raw. True" auth_wf for D :: "'r auth_deps"
proof
  fix db st Q
  assume "auth_wf db"
  then show "auth_wf (snd (delete_sessions st Q db))"
    using wf_filter_sessions [of db "\<lambda>s. \<not> Q s"] by (simp add: delete_sessions_def)
qed (simp_all add: wf_ops)

section \<open>A hash that is not stored\<close>

definition stored_hash :: "string \<Rightarrow> auth_db \<Rightarrow> bool" where
  "stored_hash h db \<longleftrightarrow> h \<in> s_RefreshTokenHash ` set (sessions db)"

interpretation gone: db_invariant D "\<lambda>raw. HashToken D raw \<noteq> h" "\<lambda>db. \<not> stored_hash h db"
  for D :: "'r auth_deps" and h
proof
  fix db st i e raw
  assume "\<not> stored_hash h db" "HashToken D raw \<noteq> h"
  then show "\<not> stored_hash h (snd (UpdateRefreshToken st i (HashToken D raw) e db))"
    by (auto simp: UpdateRefreshToken_def update_session_def stored_hash_def)
next
  fix db st i e
  assume "\<not> stored_hash h db"
  then show "\<not> stored_hash h (snd (session_Extend st i e db))"
    by (auto simp: session_Extend_def update_session_def stored_hash_def)
next
  fix db st now raw and s :: session
  assume "\<not> stored_hash h db" "HashToken D raw \<noteq> h" "s_RefreshTokenHash s = HashToken D raw"
  then show "\<not> stored_hash h (snd (session_Create st now s db))"
    by (auto simp: session_Create_def Let_def stored_hash_def)
qed (auto simp: stored_hash_def UpdateLastLogin_def IncrementFailedAttempts_def user_Update_def user_Create_def user_Delete_def
    UpdatePassword_def session_Delete_def delete_sessions_def api_key_UpdateLastUsed_def api_key_DeleteExpired_def Let_def
    split: option.splits)

end
