(* ===== verification/Auth_Props.thy ===== *)
theory Auth_Props
  imports Auth
begin

text \<open>
  What authentication guarantees: which logins succeed, how often a password can be guessed, how
  often a refresh token works, what logging out revokes, how many sessions a user has, and what the
  tables keep under any sequence of operations.
\<close>

section \<open>Rows of users\<close>

definition user_row :: "uuid \<Rightarrow> auth_db \<Rightarrow> user option" where
  "user_row i db = find (\<lambda>u. u_ID u = i) (users db)"

lemma user_row_update [simp]:
  "(\<And>u. u_ID (f u) = u_ID u) \<Longrightarrow>
   user_row i (update_user j f db) = (if i = j then map_option f (user_row i db) else user_row i db)"
proof -
  assume f: "\<And>u. u_ID (f u) = u_ID u"
  have "find (\<lambda>u. u_ID u = i) (map (\<lambda>u. if u_ID u = j then f u else u) us) =
      (if i = j then map_option f (find (\<lambda>u. u_ID u = i) us) else find (\<lambda>u. u_ID u = i) us)" for us
    by (induction us) (auto simp: f)
  then show ?thesis by (simp add: user_row_def)
qed

lemma users_session_ops [simp]:
  "users (snd (session_Create st now s db)) = users db" "users (snd (session_Delete st i db)) = users db"
  "users (snd (delete_sessions st Q db)) = users db" "users (snd (DeleteOldest st i n db)) = users db"
  "users (snd (UpdateRefreshToken st i h e db)) = users db" "users (snd (session_Extend st i e db)) = users db"
  by (simp_all add: session_Create_def session_Delete_def delete_sessions_def DeleteOldest_def UpdateRefreshToken_def
      session_Extend_def update_session_def Let_def)

lemma users_make_room: "make_room sc io i db = Inr db' \<Longrightarrow> users db' = users db"
  by (auto simp: make_room_def split: if_splits sum.splits)

lemma users_service_Create [simp]: "users (snd (session_service_Create D sc jc io u a b db)) = users db"
proof (cases "make_room sc io (u_ID u) db")
  case (Inr db')
  note room = users_make_room [OF Inr]
  show ?thesis
  proof (cases "io_raw io")
    case None
    with Inr room show ?thesis by (simp add: session_service_Create_def)
  next
    case (Some raw)
    obtain r db2 where r: "session_Create (io_st io 2) (io_clk io 1) (new_session D sc io u a b raw) db' = (r, db2)"
      by fastforce
    then have "users db2 = users db"
      using users_session_ops(1) [of "io_st io 2" "io_clk io 1" "new_session D sc io u a b raw" db'] room by simp
    with Inr Some r show ?thesis by (simp add: session_service_Create_def split: sum.split)
  qed
qed (simp add: session_service_Create_def)

lemma user_row_same_users: "users db' = users db \<Longrightarrow> user_row i db' = user_row i db"
  by (simp add: user_row_def)

lemma db_createLoginSession:
  "users (w_db (snd (createLoginSession sv io u input w))) =
   users (snd (UpdateLastLogin (io_st io 0) (io_clk io 0) (u_ID u) (w_db w)))"
proof -
  let ?db = "snd (UpdateLastLogin (io_st io 0) (io_clk io 0) (u_ID u) (w_db w))"
  obtain r db where r: "session_service_Create (sv_deps sv) (sv_sessions sv) (sv_jwt sv) (io_after 1 io) u
      (in_UserAgent input) (in_IPAddress input) ?db = (r, db)" by fastforce
  then have "users db = users ?db" by (metis users_service_Create snd_conv)
  with r show ?thesis by (simp add: createLoginSession_def split: sum.split)
qed

text \<open>An attempt changes no other user's row.\<close>

lemma row_createLoginSession:
  "u_ID u \<noteq> i \<Longrightarrow> user_row i (w_db (snd (createLoginSession sv io u input w))) = user_row i (w_db w)"
  by (subst user_row_same_users [OF db_createLoginSession]) (simp add: UpdateLastLogin_def)

lemma row_try_ldap:
  "u_ID u \<noteq> i \<Longrightarrow> user_row i (w_db (snd (try_ldap ps io u input w))) = user_row i (w_db w)"
  by (induction ps io u input w rule: try_ldap.induct) (auto simp: Let_def user_Update_def split: option.split)

lemma id_try_ldap: "try_ldap ps io u input w = (Some v, w') \<Longrightarrow> u_ID v = u_ID u"
  by (induction ps io u input w rule: try_ldap.induct) (auto simp: Let_def split: option.splits if_splits)

lemma row_wrong_password:
  "user_row i (w_db (wrong_password sv io u input w)) =
     (if 0 < MaxLoginAttempts (sv_config sv) \<and> u_ID u = i \<and> io_st io 0 \<noteq> None
      then map_option (\<lambda>v. v\<lparr>u_FailedLoginAttempts := u_FailedLoginAttempts v + 1,
             u_LockedUntil := (if MaxLoginAttempts (sv_config sv) \<le> u_FailedLoginAttempts v + 1
                               then Some (time_add (io_clk io 0) (LockoutDuration (sv_config sv))) else u_LockedUntil v),
             u_UpdatedAt := io_clk io 0\<rparr>) (user_row i (w_db w))
      else user_row i (w_db w))"
  by (auto simp: wrong_password_def Let_def IncrementFailedAttempts_def)

section \<open>Attempts\<close>

fun is_attempt :: "auth_op \<Rightarrow> bool" where
  "is_attempt (OpLogin io input) = True" | "is_attempt (OpVerify io input) = True" | "is_attempt _ = False"

fun op_input :: "auth_op \<Rightarrow> login_input" where
  "op_input (OpLogin io input) = input" | "op_input (OpVerify io input) = input"
| "op_input _ = \<lparr>in_Username = [], in_Password = [], in_UserAgent = [], in_IPAddress = []\<rparr>"

text \<open>Does the attempt compare a password with the hash of the user \<open>i\<close>?\<close>

definition checks_password :: "'r auth_service \<Rightarrow> uuid \<Rightarrow> auth_op \<Rightarrow> 'r auth_world \<Rightarrow> bool" where
  "checks_password sv i op w \<longleftrightarrow>
     (case user_GetByUsername (dep_lower (sv_deps sv)) (io_st (op_io op) 0) (in_Username (op_input op)) (w_db w) of
        Inl e \<Rightarrow> False
      | Inr u \<Rightarrow> u_ID u = i \<and> u_IsActive u \<and> \<not> u_IsLDAP u \<and> \<not> user_IsLocked (io_clk (op_io op) 0) u)"

fun guess_times :: "'r auth_service \<Rightarrow> uuid \<Rightarrow> auth_op list \<Rightarrow> 'r auth_world \<Rightarrow> gotime list" where
  "guess_times sv i [] w = []"
| "guess_times sv i (op # ops) w =
     (if checks_password sv i op w then [io_clk (op_io op) 0] else []) @ guess_times sv i ops (auth_step sv op w)"

lemma GetByUsername_row:
  assumes "auth_wf db" "user_GetByUsername lower st name db = Inr u"
  shows "user_row (u_ID u) db = Some u \<and> lower (u_Username u) = lower name"
proof -
  have u: "find (\<lambda>u. lower (u_Username u) = lower name) (users db) = Some u"
    using assms(2) by (auto simp: user_GetByUsername_def split: if_splits option.splits)
  then have mem: "u \<in> set (users db)" "lower (u_Username u) = lower name" by (auto simp: find_Some_iff)
  obtain v where v: "user_row (u_ID u) db = Some v"
    using mem(1) by (cases "user_row (u_ID u) db") (auto simp: user_row_def find_None_iff)
  then have "v \<in> set (users db)" "u_ID v = u_ID u" by (auto simp: user_row_def find_Some_iff)
  with mem(1) assms(1) have "v = u"
    by (auto simp: auth_wf_def users_wf_def distinct_map dest: inj_onD)
  with v mem(2) show ?thesis by simp
qed

text \<open>What an attempt with a wrong password does to the row of a local user.\<close>

definition after_guess :: "'r auth_service \<Rightarrow> gotime \<Rightarrow> user \<Rightarrow> user" where
  "after_guess sv now v =
     v\<lparr>u_FailedLoginAttempts := u_FailedLoginAttempts v + 1,
       u_LockedUntil := (if MaxLoginAttempts (sv_config sv) \<le> u_FailedLoginAttempts v + 1
                         then Some (time_add now (LockoutDuration (sv_config sv))) else u_LockedUntil v),
       u_UpdatedAt := now\<rparr>"

lemma attempt_row:
  assumes wf: "auth_wf (w_db w)" and row: "user_row i (w_db w) = Some v" "\<not> u_IsLDAP v"
    and op: "is_attempt op" "io_st (op_io op) 1 \<noteq> None" "0 < MaxLoginAttempts (sv_config sv)"
    and wrong: "dep_lower (sv_deps sv) (in_Username (op_input op)) = dep_lower (sv_deps sv) (u_Username v) \<Longrightarrow>
      \<not> CheckPassword (sv_deps sv) (in_Password (op_input op)) (u_PasswordHash v)"
  shows "user_row i (w_db (auth_step sv op w)) =
    Some (if checks_password sv i op w then after_guess sv (io_clk (op_io op) 1) v else v)"
proof (cases "user_GetByUsername (dep_lower (sv_deps sv)) (io_st (op_io op) 0) (in_Username (op_input op)) (w_db w)")
  case (Inl e)
  with op(1) row(1) show ?thesis
    by (cases op) (simp_all add: Login_def VerifyCredentials_def checks_password_def)
next
  case (Inr u)
  note u = GetByUsername_row [OF wf Inr]
  show ?thesis
  proof (cases "u_ID u = i")
    case True
    with u row(1) have [simp]: "u = v" by simp
    have wrong: "\<not> CheckPassword (sv_deps sv) (in_Password (op_input op)) (u_PasswordHash v)"
      using wrong u by simp
    show ?thesis
      using op(1) Inr row wrong True op(2,3)
      by (cases op)
        (simp_all add: Login_def VerifyCredentials_def checks_password_def after_guess_def row_wrong_password)
  next
    case False
    have ldap: "user_row i (w_db w') = user_row i (w_db w)" "\<And>x. r = Some x \<Longrightarrow> u_ID x \<noteq> i"
      if "try_ldap ps io u input w = (r, w')" for ps io input r w'
    proof -
      show "user_row i (w_db w') = user_row i (w_db w)"
        using row_try_ldap [OF False, of ps io input w] by (simp only: that snd_conv)
      fix x
      assume "r = Some x"
      with id_try_ldap [of ps io u input w x w'] that False show "u_ID x \<noteq> i" by simp
    qed
    have "user_row i (w_db (snd (loginLDAP sv io u input w))) = user_row i (w_db w)" for io input
    proof -
      obtain r w' where r: "try_ldap (sv_ldap sv) io u input w = (r, w')" by fastforce
      from ldap [OF r] r show ?thesis
        by (simp add: loginLDAP_def row_createLoginSession split: option.split)
    qed
    moreover have "user_row i (w_db (snd (verifyLDAPCredentials sv io u input w))) = user_row i (w_db w)" for io input
    proof -
      obtain r w' where r: "try_ldap (sv_ldap sv) io u input w = (r, w')" by fastforce
      from ldap(1) [OF r] r show ?thesis by (simp add: verifyLDAPCredentials_def split: option.split)
    qed
    ultimately show ?thesis
      using op(1) Inr row(1) False
      by (cases op)
        (simp_all add: Login_def VerifyCredentials_def checks_password_def row_wrong_password row_createLoginSession)
  qed
qed

text \<open>The guesses still possible before the end of a window.\<close>

definition guesses_left :: "int \<Rightarrow> gotime \<Rightarrow> user \<Rightarrow> nat" where
  "guesses_left maximum stop v =
     (if (\<exists>l \<in> set_option (u_LockedUntil v). stop \<le> l) then 0 else nat (max 1 (maximum - u_FailedLoginAttempts v)))"

lemma guesses_bound:
  assumes "auth_wf (w_db w)" "user_row i (w_db w) = Some v" "\<not> u_IsLDAP v"
    and "0 < MaxLoginAttempts (sv_config sv)" "0 \<le> LockoutDuration (sv_config sv)"
    and "\<forall>op \<in> set ops. is_attempt op \<and> io_st (op_io op) 1 \<noteq> None \<and> io_clk (op_io op) 0 \<le> io_clk (op_io op) 1 \<and>
      (dep_lower (sv_deps sv) (in_Username (op_input op)) = dep_lower (sv_deps sv) (u_Username v) \<longrightarrow>
       \<not> CheckPassword (sv_deps sv) (in_Password (op_input op)) (u_PasswordHash v))"
  shows "length (filter (\<lambda>t. s \<le> t \<and> t < s + LockoutDuration (sv_config sv)) (guess_times sv i ops w))
    \<le> guesses_left (MaxLoginAttempts (sv_config sv)) (s + LockoutDuration (sv_config sv)) v"
  using assms
proof (induction ops arbitrary: w v)
  case (Cons op ops)
  let ?max = "MaxLoginAttempts (sv_config sv)" and ?d = "LockoutDuration (sv_config sv)"
  let ?t = "io_clk (op_io op) 0"
  let ?count = "\<lambda>ts. length (filter (\<lambda>t. s \<le> t \<and> t < s + ?d) ts)"
  let ?v = "if checks_password sv i op w then after_guess sv (io_clk (op_io op) 1) v else v"
  let ?w = "auth_step sv op w"
  have row: "user_row i (w_db ?w) = Some ?v"
    using Cons.prems by (intro attempt_row) auto
  have "auth_wf (w_db ?w)" using Cons.prems(1) wf.P_step [of w op sv] by simp
  with row Cons.prems have IH: "?count (guess_times sv i ops ?w) \<le> guesses_left ?max (s + ?d) ?v"
    by (intro Cons.IH) (auto simp: after_guess_def)
  show ?case
  proof (cases "checks_password sv i op w")
    case False
    with IH show ?thesis by simp
  next
    case True
    then obtain u where u: "user_GetByUsername (dep_lower (sv_deps sv)) (io_st (op_io op) 0) (in_Username (op_input op)) (w_db w) = Inr u"
      "u_ID u = i" "\<not> user_IsLocked ?t u" by (auto simp: checks_password_def split: sum.splits)
    with GetByUsername_row [OF Cons.prems(1) u(1)] Cons.prems(2) have free: "\<forall>l \<in> set_option (u_LockedUntil v). l \<le> ?t"
      by (auto simp: user_IsLocked_def)
    have clk: "?t \<le> io_clk (op_io op) 1" using Cons.prems(6) by simp
    have left: "guesses_left ?max (s + ?d) ?v =
      (if ?max \<le> u_FailedLoginAttempts v + 1 \<and> s \<le> io_clk (op_io op) 1 then 0
       else if \<not> ?max \<le> u_FailedLoginAttempts v + 1 \<and> (\<exists>l \<in> set_option (u_LockedUntil v). s + ?d \<le> l) then 0
       else nat (max 1 (?max - u_FailedLoginAttempts v - 1)))"
      using True by (simp add: guesses_left_def after_guess_def time_add_def diff_diff_eq)
    have now: "?count (guess_times sv i (op # ops) w) =
      (if s \<le> ?t \<and> ?t < s + ?d then 1 else 0) + ?count (guess_times sv i ops ?w)"
      using True by simp
    show ?thesis
    proof (cases "s \<le> ?t \<and> ?t < s + ?d")
      case True
      then have "\<not> (\<exists>l \<in> set_option (u_LockedUntil v). s + ?d \<le> l)" using free by fastforce
      with True IH left now clk show ?thesis by (simp add: guesses_left_def split: if_splits)
    next
      case False
      have "guesses_left ?max (s + ?d) ?v \<le> guesses_left ?max (s + ?d) v"
      proof (cases "\<exists>l \<in> set_option (u_LockedUntil v). s + ?d \<le> l")
        case True
        with free have "s + ?d \<le> ?t" by fastforce
        with True left clk Cons.prems(5) show ?thesis by (simp add: guesses_left_def)
      next
        case False
        have "nat (max 1 (?max - u_FailedLoginAttempts v - 1)) \<le> nat (max 1 (?max - u_FailedLoginAttempts v))"
          by (intro nat_mono) linarith
        with False show ?thesis unfolding left by (simp add: guesses_left_def)
      qed
      with False IH now show ?thesis by simp
    qed
  qed
qed simp


section \<open>A sample service\<close>

text \<open>An instance of the parameters, for the examples: no hashing, the reference libraries, two attempts.\<close>

definition demo_service :: "mem_kv auth_service" where
  "demo_service =
     \<lparr>sv_deps = \<lparr>dep_jwt = ref_jwt, dep_redis = mem_kv, dep_unicode = ascii, dep_lower = id, dep_sha256 = id,
                 dep_bcrypt = Some, dep_bcrypt_check = (=)\<rparr>,
      sv_config = DefaultAuthConfig\<lparr>MaxLoginAttempts := 2, PasswordPolicy := MinimalPasswordPolicy\<rparr>,
      sv_sessions = DefaultSessionConfig\<lparr>MaxSessionsPerUser := 1\<rparr>, sv_jwt = DefaultJWTConfig ''k'',
      sv_blacklist = True, sv_audit = True, sv_ldap = [], sv_oauth = Map.empty\<rparr>"

definition demo_io :: "gotime \<Rightarrow> string \<Rightarrow> uuid \<Rightarrow> auth_io" where
  "demo_io t raw i =
     \<lparr>io_st = (\<lambda>n. Some t), io_clk = (\<lambda>n. t), io_rds = (\<lambda>n. True), io_raw = Some raw, io_id = i, io_jti = (\<lambda>n. ''j'')\<rparr>"

definition demo_input :: "string \<Rightarrow> login_input" where
  "demo_input pw = \<lparr>in_Username = ''ann'', in_Password = pw, in_UserAgent = [], in_IPAddress = ''10.0.0.1''\<rparr>"

definition demo_user :: user where
  "demo_user =
     \<lparr>u_ID = 1, u_Username = ''ann'', u_Email = None, u_PasswordHash = ''Pw'', u_Role = ''admin'', u_IsActive = True,
      u_IsLDAP = False, u_LDAPDN = None, u_FailedLoginAttempts = 0, u_LockedUntil = None, u_LastLoginAt = None,
      u_PasswordChangedAt = None, u_TOTPSecret = Some ''secret'', u_TOTPEnabled = True, u_TOTPVerifiedAt = None,
      u_CreatedAt = 0, u_UpdatedAt = 0\<rparr>"

definition demo_world :: "mem_kv auth_world" where
  "demo_world = \<lparr>w_db = \<lparr>users = [demo_user], sessions = [], api_keys = []\<rparr>, w_redis = [], w_log = []\<rparr>"

lemma returned: "\<not> isl (fst x) \<Longrightarrow> (\<And>r w. x = (Inr r, w) \<Longrightarrow> P) \<Longrightarrow> P"
  by (metis prod.collapse sum.collapse(2))

lemma demo_wf [simp]: "auth_wf (w_db demo_world)"
  by (simp add: demo_world_def auth_wf_def users_wf_def sessions_wf_def keys_wf_def emails_distinct_def)

section \<open>Properties\<close>



text \<open>What a directory answers for the credentials.\<close>

definition ldap_accepts :: "ldap_provider list \<Rightarrow> login_input \<Rightarrow> bool" where
  "ldap_accepts ps input \<longleftrightarrow>
     (\<exists>p \<in> set ps. ldap_IsEnabled p \<and> (\<exists>role. ldap_Authenticate p (in_Username input) (in_Password input) = Some (Some role)))"

lemma try_ldap_accepts: "try_ldap ps io u input w = (Some v, w') \<Longrightarrow> ldap_accepts ps input"
  by (induction ps io u input w rule: try_ldap.induct)
    (auto simp: ldap_accepts_def split: option.splits if_splits)

text \<open>May the user be logged in with these credentials at this instant?\<close>

definition may_login :: "'r auth_service \<Rightarrow> gotime \<Rightarrow> login_input \<Rightarrow> user \<Rightarrow> bool" where
  "may_login sv now input u \<longleftrightarrow>
     u_IsActive u \<and>
     (if u_IsLDAP u then ldap_accepts (sv_ldap sv) input
      else \<not> user_IsLocked now u \<and> CheckPassword (sv_deps sv) (in_Password input) (u_PasswordHash u))"

lemma session_Create_new:
  "session_Create st now s db = (Inr s', db') \<Longrightarrow>
   s' = s\<lparr>s_CreatedAt := now\<rparr> \<and> db' = db\<lparr>sessions := sessions db @ [s']\<rparr> \<and> s_ID s \<notin> s_ID ` set (sessions db)"
  by (auto simp: session_Create_def Let_def split: if_splits)

lemma createLoginSession_session:
  assumes "createLoginSession sv io u input w = (Inr r, w')"
  shows "\<exists>s \<in> set (sessions (w_db w')). s_ID s = lr_SessionID r \<and> s_UserID s = u_ID u \<and>
    s_RefreshTokenHash s = HashToken (sv_deps sv) (lr_RefreshToken r) \<and> lr_User r = u"
proof -
  let ?D = "sv_deps sv" and ?io = "io_after 1 io"
  let ?db = "snd (UpdateLastLogin (io_st io 0) (io_clk io 0) (u_ID u) (w_db w))"
  obtain t db where t: "session_service_Create ?D (sv_sessions sv) (sv_jwt sv) ?io u (in_UserAgent input) (in_IPAddress input) ?db =
      (Inr t, db)" "r = \<lparr>lr_User = u, lr_AccessToken = st_AccessToken t, lr_RefreshToken = st_RefreshToken t,
                   lr_ExpiresAt = st_ExpiresAt t, lr_SessionID = s_ID (st_Session t)\<rparr>" "w_db w' = db"
    using assms by (auto simp: createLoginSession_def split: prod.splits sum.splits)
  then obtain db1 raw s where
    new: "session_Create (io_st ?io 2) (io_clk ?io 1) (new_session ?D (sv_sessions sv) ?io u (in_UserAgent input) (in_IPAddress input) raw) db1 =
      (Inr s, db)" and s: "st_Session t = s" "st_RefreshToken t = raw"
    by (auto simp: session_service_Create_def split: prod.splits sum.splits option.splits)
  from session_Create_new [OF new]
  have "s \<in> set (sessions db)" "s_UserID s = u_ID u" "s_RefreshTokenHash s = HashToken ?D raw"
    by (simp_all add: new_session_def)
  with t s show ?thesis by auto
qed

text \<open>
  C21. Tokens only for who may log in: when \<^verbatim>\<open>Login\<close> issues tokens, the name is that of an
  active user who is not locked and whose password is right, or whom a directory accepts, and the
  session stored under the refresh token's hash is that user's.
\<close>

theorem login_sound:
  assumes "Login sv io input w = (Inr r, w')"
  shows "\<exists>u. user_GetByUsername (dep_lower (sv_deps sv)) (io_st io 0) (in_Username input) (w_db w) = Inr u \<and>
    may_login sv (io_clk io 0) input u \<and>
    (\<exists>s \<in> set (sessions (w_db w')). s_ID s = lr_SessionID r \<and> s_UserID s = u_ID u \<and>
       s_RefreshTokenHash s = HashToken (sv_deps sv) (lr_RefreshToken r))"
proof -
  obtain u where u: "user_GetByUsername (dep_lower (sv_deps sv)) (io_st io 0) (in_Username input) (w_db w) = Inr u"
    using assms by (auto simp: Login_def split: sum.splits)
  show ?thesis
  proof (cases "u_IsLDAP u")
    case False
    with assms u have "may_login sv (io_clk io 0) input u" "createLoginSession sv (io_after 1 io) u input w = (Inr r, w')"
      by (auto simp: Login_def may_login_def split: if_splits)
    with u createLoginSession_session show ?thesis by blast
  next
    case True
    with assms u have ldap: "loginLDAP sv (io_after 1 io) u input w = (Inr r, w')" by (simp add: Login_def)
    then obtain v w1 where v: "u_IsActive u" "try_ldap (sv_ldap sv) (io_after 1 io) u input w = (Some v, w1)"
      "createLoginSession sv (io_after 1 (io_after 1 io)) v input w1 = (Inr r, w')"
      by (auto simp: loginLDAP_def split: if_splits prod.splits option.splits)
    then have "may_login sv (io_clk io 0) input u" "u_ID v = u_ID u"
      using True try_ldap_accepts id_try_ldap by (auto simp: may_login_def)
    with u createLoginSession_session [OF v(3)] show ?thesis by auto
  qed
qed

theorem login_sound_witness:
  "let io = demo_io second ''R1'' 5 in
   \<exists>r w' u. Login demo_service io (demo_input ''Pw'') demo_world = (Inr r, w') \<and> user_HasTOTP (lr_User r) \<and>
     may_login demo_service second (demo_input ''Pw'') u \<and> lr_SessionID r = 5"
proof -
  let ?io = "demo_io second ''R1'' 5"
  have ok: "\<not> isl (fst (Login demo_service ?io (demo_input ''Pw'') demo_world))" and
    who: "case_sum (\<lambda>e. False) (\<lambda>r. user_HasTOTP (lr_User r) \<and> lr_SessionID r = 5)
       (fst (Login demo_service ?io (demo_input ''Pw'') demo_world))" by code_simp+
  from ok obtain r w' where r: "Login demo_service ?io (demo_input ''Pw'') demo_world = (Inr r, w')" by (rule returned)
  with who have "user_HasTOTP (lr_User r)" "lr_SessionID r = 5" by simp_all
  with login_sound [OF r] r show ?thesis by (auto simp: demo_io_def)
qed


text \<open>A successful refresh takes the old token's hash off the table.\<close>

lemma Refresh_success:
  assumes wf: "auth_wf (w_db w)" and ok: "Refresh sv io t w = (Inr r, w')"
    and new: "\<And>raw. io_raw io = Some raw \<Longrightarrow> HashToken (sv_deps sv) raw \<noteq> HashToken (sv_deps sv) t"
  shows "\<not> stored_hash (HashToken (sv_deps sv) t) (w_db w')"
proof -
  let ?D = "sv_deps sv" and ?db = "w_db w"
  obtain u x db where ref: "session_service_Refresh ?D (sv_sessions sv) (sv_jwt sv) (io_after 2 io) t u ?db = (Inr x, db)"
    "w_db w' = db"
    using ok by (auto simp: Refresh_def split: sum.splits if_splits prod.splits)
  obtain s raw e where s: "GetByRefreshTokenHash (io_st io 2) (HashToken ?D t) ?db = Inr s" "io_raw io = Some raw"
    "UpdateRefreshToken (io_st io 3) (s_ID s) (HashToken ?D raw) e ?db = (None, db)"
    using ref(1) by (auto simp: session_service_Refresh_def Let_def eval_nat_numeral split: sum.splits if_splits option.splits prod.splits)
  then have mem: "s \<in> set (sessions ?db)" "s_RefreshTokenHash s = HashToken ?D t"
    by (auto simp: GetByRefreshTokenHash_def find_Some_iff split: if_splits option.splits)
  have db: "sessions db = map (\<lambda>v. if s_ID v = s_ID s then v\<lparr>s_RefreshTokenHash := HashToken ?D raw, s_ExpiresAt := e\<rparr> else v) (sessions ?db)"
    using s(3) by (auto simp: UpdateRefreshToken_def update_session_def split: if_splits)
  have "v = s" if "v \<in> set (sessions ?db)" "s_RefreshTokenHash v = HashToken ?D t" for v
    using wf that mem unfolding auth_wf_def sessions_wf_def distinct_map inj_on_def by metis
  then show ?thesis
    using new [OF s(2)] unfolding ref(2) stored_hash_def db by auto
qed

lemma unknown_token:
  assumes "\<not> stored_hash (HashToken (sv_deps sv) t) (w_db w)"
  shows "Refresh sv io t w = (Inl ErrInvalidToken, w)"
proof -
  have "find (\<lambda>s. s_RefreshTokenHash s = HashToken (sv_deps sv) t) (sessions (w_db w)) = None"
    using assms unfolding find_None_iff stored_hash_def by (metis imageI)
  then have "\<exists>e. GetByRefreshTokenHash (io_st io 0) (HashToken (sv_deps sv) t) (w_db w) = Inl e"
    by (simp add: GetByRefreshTokenHash_def)
  then show ?thesis by (auto simp: Refresh_def ValidateRefreshToken_def)
qed

text \<open>
  C14. A refresh token works once: after a refresh with it has succeeded, every later refresh with it
  fails as invalid, whatever operations come between, unless the random generator gives the same
  token again; no two different tokens have the same hash.
\<close>

theorem refresh_token_single_use:
  assumes "auth_wf (w_db w)" "inj (dep_sha256 (sv_deps sv))"
    and "Refresh sv io t w = (Inr r, w')" "io_raw io \<noteq> Some t" "\<forall>op \<in> set ops. io_raw (op_io op) \<noteq> Some t"
  shows "fst (Refresh sv io' t (fold (auth_step sv) ops w')) = Inl ErrInvalidToken"
proof -
  have hash: "HashToken (sv_deps sv) raw \<noteq> HashToken (sv_deps sv) t" if "raw \<noteq> t" for raw
    using assms(2) that by (auto simp: HashToken_def dest: injD)
  have "\<not> stored_hash (HashToken (sv_deps sv) t) (w_db w')"
    using assms(4) hash by (intro Refresh_success [OF assms(1,3)]) auto
  then have "\<not> stored_hash (HashToken (sv_deps sv) t) (w_db (fold (auth_step sv) ops w'))"
    using assms(5) hash by (intro gone.P_run [where D = "sv_deps sv"]) auto
  from unknown_token [OF this] show ?thesis by simp
qed

theorem refresh_token_single_use_witness:
  "let w = snd (Login demo_service (demo_io second ''R1'' 5) (demo_input ''Pw'') demo_world);
       w' = snd (Refresh demo_service (demo_io (2 * second) ''R2'' 0) ''R1'' w);
       ops = [OpLogin (demo_io (3 * second) ''R3'' 6) (demo_input ''Pw''), OpLogoutAll (demo_io (4 * second) [] 0) 1] in
   fst (Refresh demo_service (demo_io (5 * second) ''R4'' 0) ''R1'' (fold (auth_step demo_service) ops w')) = Inl ErrInvalidToken"
proof -
  let ?w = "snd (Login demo_service (demo_io second ''R1'' 5) (demo_input ''Pw'') demo_world)"
  let ?io = "demo_io (2 * second) ''R2'' 0"
  let ?ops = "[OpLogin (demo_io (3 * second) ''R3'' 6) (demo_input ''Pw''), OpLogoutAll (demo_io (4 * second) [] 0) 1]"
  have "\<not> isl (fst (Refresh demo_service ?io ''R1'' ?w))" by code_simp
  then obtain r w' where r: "Refresh demo_service ?io ''R1'' ?w = (Inr r, w')" by (rule returned)
  have "auth_wf (w_db ?w)"
    using wf.P_step [of demo_world "OpLogin (demo_io second ''R1'' 5) (demo_input ''Pw'')" demo_service] by simp
  then have "fst (Refresh demo_service (demo_io (5 * second) ''R4'' 0) ''R1'' (fold (auth_step demo_service) ?ops w')) =
      Inl ErrInvalidToken"
    by (rule refresh_token_single_use [OF _ _ r]) (simp_all add: demo_service_def demo_io_def)
  with r show ?thesis by (simp add: Let_def)
qed



text \<open>
  Logging out everywhere: \<^verbatim>\<open>LogoutAll\<close> removes all sessions of the user, and until the
  entry expires the validator refuses every token of the user issued in an earlier second; those issued
  in the second of the logout itself stay valid, unless one is blacklisted by its id.
\<close>

theorem logout_all_revokes:
  assumes "kv_laws (dep_redis (sv_deps sv))" "sv_blacklist sv" "uuid_String (dep_jwt (sv_deps sv)) i \<noteq> []"
    and "io_st io 0 \<noteq> None" "io_rds io 0" "fits64 (unix (io_clk io 0))"
    and "io_rds io' 0" "io_rds io' 1" "1000000 \<le> RefreshTokenTTL (sv_jwt sv)"
    and "io_clk io' 1 + 1000000 \<le> io_clk io 1 + RefreshTokenTTL (sv_jwt sv)" "\<not> is_zero issuedAt"
  shows "let w' = snd (LogoutAll sv io i w); userID = uuid_String (dep_jwt (sv_deps sv)) i;
             verdict = CreateTokenValidator sv io' userID jti issuedAt w' in
    (\<forall>s \<in> set (sessions (w_db w')). s_UserID s \<noteq> i) \<and>
    (unix issuedAt < unix (io_clk io 0) \<longrightarrow> verdict = Some ErrTokenRevoked) \<and>
    (unix (io_clk io 0) \<le> unix issuedAt \<and> kv_Get (dep_redis (sv_deps sv)) (blacklistKey jti) (io_clk io' 0) (w_redis w') = None \<longrightarrow>
       verdict = None)"
proof -
  let ?K = "dep_redis (sv_deps sv)" and ?id = "uuid_String (dep_jwt (sv_deps sv)) i"
  obtain n w' where w': "LogoutAll sv io i w = (n, w')" by fastforce
  have "w_redis w' = snd (bl_BlacklistUserTokens ?K True (io_clk io 1) ?id (io_clk io 0) (RefreshTokenTTL (sv_jwt sv)) (w_redis w))"
    using w' assms(2,5) by (auto simp: LogoutAll_def service_BlacklistUserTokens_def Let_def split: prod.splits)
  then have user: "bl_IsUserTokenBlacklisted ?K True (io_clk io' 1) ?id issuedAt (w_redis w') =
      Inr (unix issuedAt < unix (io_clk io 0))"
    using kv_laws.user_blacklisted [OF assms(1,9,10,6)] by simp
  have "\<forall>s \<in> set (sessions (w_db w')). s_UserID s \<noteq> i"
    using w' assms(4) by (auto simp: LogoutAll_def Let_def RevokeAllForUser_def DeleteByUserID_def delete_sessions_def split: prod.splits)
  moreover have "CreateTokenValidator sv io' ?id jti issuedAt w' = Some ErrTokenRevoked"
    if "unix issuedAt < unix (io_clk io 0)"
    using that assms(2,3,7,8,11) user
    by (simp add: CreateTokenValidator_def bl_IsBlacklisted_def split: sum.split bool.split)
  moreover have "CreateTokenValidator sv io' ?id jti issuedAt w' = None"
    if "unix (io_clk io 0) \<le> unix issuedAt" "kv_Get ?K (blacklistKey jti) (io_clk io' 0) (w_redis w') = None"
    using that assms(2,3,7,8,11) user
    by (simp add: CreateTokenValidator_def bl_IsBlacklisted_def split: sum.split bool.split)
  ultimately show ?thesis using w' by (simp add: Let_def)
qed

theorem logout_all_revokes_witness:
  "let w' = snd (LogoutAll demo_service (demo_io (10 * second) [] 0) 1 demo_world);
       verdict = (\<lambda>t. CreateTokenValidator demo_service (demo_io (20 * second) [] 0) ''1'' ''j'' t w') in
   verdict (9 * second) = Some ErrTokenRevoked \<and> verdict (10 * second) = None"
proof -
  have i: "uuid_String (dep_jwt (sv_deps demo_service)) 1 = ''1''" by code_simp
  have none: "kv_Get (dep_redis (sv_deps demo_service)) (blacklistKey ''j'') (io_clk (demo_io (20 * second) [] 0) 0)
      (w_redis (snd (LogoutAll demo_service (demo_io (10 * second) [] 0) 1 demo_world))) = None" by code_simp
  have K: "kv_laws (dep_redis (sv_deps demo_service))"
    using mem_kv.kv_laws_axioms by (simp add: demo_service_def)
  have hyps: "sv_blacklist demo_service" "RefreshTokenTTL (sv_jwt demo_service) = 7 * (24 * hour)"
    by (simp_all add: demo_service_def DefaultJWTConfig_def)
  have clk: "io_clk (demo_io t raw j) n = t" "io_st (demo_io t raw j) n = Some t" "io_rds (demo_io t raw j) n" for t raw j n
    by (simp_all add: demo_io_def)
  have unix_times: "unix 9000000000 = 9" "unix 10000000000 = 10" "second = 1000000000"
    "is_zero 9000000000 = False" "is_zero 10000000000 = False" "fits64 10"
    by (simp_all add: unix_def second_def is_zero_def time_zero_def fits64_def)
  note hold = logout_all_revokes [OF K hyps(1), of 1 "demo_io (10 * second) [] 0" "demo_io (20 * second) [] 0"]
  show ?thesis
    using hold [of "9 * second" demo_world "''j''"] hold [of "10 * second" demo_world "''j''"] none
    unfolding i by (simp add: Let_def hyps clk unix_times)
qed

section \<open>The number of sessions\<close>

abbreviation active_sessions :: "gotime \<Rightarrow> uuid \<Rightarrow> auth_db \<Rightarrow> session list" where
  "active_sessions t i db \<equiv> filter (user_active t i) (sessions db)"

lemma active_later: "t \<le> t' \<Longrightarrow> user_active t' i s \<Longrightarrow> user_active t i s"
  by (simp add: user_active_def)

lemma DeleteOldest_keeps:
  assumes "auth_wf db" "st \<noteq> None" "0 \<le> n"
  shows "int (length (filter (\<lambda>s. s_UserID s = i) (sessions (snd (DeleteOldest st i n db))))) \<le> n"
proof -
  let ?mine = "filter (\<lambda>s. s_UserID s = i) (sessions db)"
  let ?new = "take (nat n) (newest_sessions ?mine)"
  let ?left = "filter (\<lambda>s. s_UserID s = i \<and> s_ID s \<in> s_ID ` set ?new) (sessions db)"
  have "distinct (map s_ID (sessions db))" using assms(1) by (simp add: auth_wf_def sessions_wf_def)
  then have "distinct (map s_ID ?left)" by (rule distinct_map_filter)
  then have "length ?left = card (s_ID ` set ?left)" using distinct_card by fastforce
  also have "\<dots> \<le> card (s_ID ` set ?new)" by (intro card_mono) auto
  also have "\<dots> \<le> length ?new" by (metis card_length length_map list.set_map)
  also have "\<dots> \<le> nat n" by simp
  finally have "length ?left \<le> nat n" .
  moreover have "filter (\<lambda>s. s_UserID s = i) (sessions (snd (DeleteOldest st i n db))) = ?left"
    using assms(2,3) by (auto simp: DeleteOldest_def delete_sessions_def Let_def intro: filter_cong)
  ultimately show ?thesis using assms(3) by simp
qed

lemma make_room_bound:
  assumes "auth_wf db" "0 < MaxSessionsPerUser sc" "make_room sc io i db = Inr db'"
    and "io_st io 0 = Some t" "io_st io 1 \<noteq> None"
  shows "int (length (active_sessions t i db')) < MaxSessionsPerUser sc"
proof (cases "MaxSessionsPerUser sc \<le> int (length (active_sessions t i db))")
  case True
  have db': "db' = snd (DeleteOldest (io_st io 1) i (MaxSessionsPerUser sc - 1) db)"
    using True assms(2,3,4) by (auto simp: make_room_def CountActiveByUserID_def)
  have "length (active_sessions t i db') \<le> length (filter (\<lambda>s. s_UserID s = i) (sessions db'))"
    by (intro length_filter_mono) (simp add: user_active_def)
  with DeleteOldest_keeps [OF assms(1,5), of "MaxSessionsPerUser sc - 1" i] assms(2) db' show ?thesis by simp
next
  case False
  with assms(2,3,4) show ?thesis by (auto simp: make_room_def CountActiveByUserID_def)
qed

text \<open>
  A login keeps the number of sessions: after a session has been created, the user has at most
  \<^verbatim>\<open>MaxSessionsPerUser\<close> sessions that are active at any time from the counting on, if the
  statement that removes the oldest ones was run.
\<close>

theorem session_number_bound:
  assumes "auth_wf db" "0 < MaxSessionsPerUser sc" "session_service_Create D sc jc io u ua ip db = (Inr r, db')"
    and "io_st io 0 = Some t" "io_st io 1 \<noteq> None" "t \<le> t'"
  shows "int (length (active_sessions t' (u_ID u) db')) \<le> MaxSessionsPerUser sc"
proof -
  obtain db1 raw s where room: "make_room sc io (u_ID u) db = Inr db1" and
    new: "session_Create (io_st io 2) (io_clk io 1) (new_session D sc io u ua ip raw) db1 = (Inr s, db')"
    using assms(3) by (auto simp: session_service_Create_def split: sum.splits option.splits prod.splits)
  have "int (length (active_sessions t (u_ID u) db1)) < MaxSessionsPerUser sc"
    by (rule make_room_bound [OF assms(1,2) room assms(4,5)])
  moreover have "length (active_sessions t' (u_ID u) db') \<le> length (active_sessions t (u_ID u) db')"
    by (intro length_filter_mono active_later [OF assms(6)])
  moreover have "length (active_sessions t (u_ID u) db') \<le> Suc (length (active_sessions t (u_ID u) db1))"
    using session_Create_new [OF new] by simp
  ultimately show ?thesis by linarith
qed

theorem session_number_bound_witness:
  "let w = snd (Login demo_service (demo_io second ''R1'' 5) (demo_input ''Pw'') demo_world); sv = demo_service in
   \<exists>r db. session_service_Create (sv_deps sv) (sv_sessions sv) (sv_jwt sv) (demo_io (2 * second) ''R2'' 6) demo_user [] [] (w_db w) =
      (Inr r, db) \<and> int (length (active_sessions (3 * second) 1 db)) \<le> 1"
proof -
  let ?w = "snd (Login demo_service (demo_io second ''R1'' 5) (demo_input ''Pw'') demo_world)" and ?sv = demo_service
  let ?create = "session_service_Create (sv_deps ?sv) (sv_sessions ?sv) (sv_jwt ?sv) (demo_io (2 * second) ''R2'' 6)
      demo_user [] [] (w_db ?w)"
  have "\<not> isl (fst ?create)" by code_simp
  then obtain r db where r: "?create = (Inr r, db)" by (rule returned)
  have maximum: "MaxSessionsPerUser (sv_sessions ?sv) = 1" by (simp add: demo_service_def)
  have "auth_wf (w_db ?w)"
    using wf.P_step [of demo_world "OpLogin (demo_io second ''R1'' 5) (demo_input ''Pw'')" demo_service] by simp
  from session_number_bound [OF this _ r, of "2 * second" "3 * second"] r show ?thesis
    by (auto simp: maximum demo_io_def demo_user_def second_def Let_def)
qed

section \<open>Changing the password\<close>

text \<open>
  A changed password: when \<^verbatim>\<open>ChangePassword\<close> succeeds the current password was right
  and the new one satisfies the policy, the account's hash is the new one and nothing else of it but
  times changes, and neither a session nor the blacklist changes, so that every refresh token and every
  access token issued before goes on working.
\<close>

theorem change_password_effect:
  assumes "ChangePassword sv io i current new w = (None, w')"
  shows "\<exists>u h. user_row i (w_db w) = Some u \<and> CheckPassword (sv_deps sv) current (u_PasswordHash u) \<and>
    Valid (ValidatePassword (dep_unicode (sv_deps sv)) (PasswordPolicy (sv_config sv)) new (u_Username u)) \<and>
    dep_bcrypt (sv_deps sv) new = Some h \<and>
    user_row i (w_db w') = Some (u\<lparr>u_PasswordHash := h, u_PasswordChangedAt := Some (io_clk io 0), u_UpdatedAt := io_clk io 0\<rparr>) \<and>
    sessions (w_db w') = sessions (w_db w) \<and> w_redis w' = w_redis w"
proof -
  obtain u where u: "user_GetByID (io_st io 0) i (w_db w) = Inr u"
    using assms by (auto simp: ChangePassword_def split: sum.splits)
  then have row: "user_row i (w_db w) = Some u"
    by (auto simp: user_GetByID_def user_row_def split: if_splits option.splits)
  then have "u_ID u = i" by (auto simp: user_row_def find_Some_iff)
  have pw: "CheckPassword (sv_deps sv) current (u_PasswordHash u)" "validatePasswordForUser sv new (u_Username u) = None"
    using assms u by (auto simp: ChangePassword_def split: if_splits option.splits)
  then obtain h where h: "dep_bcrypt (sv_deps sv) new = Some h"
    using assms u by (auto simp: ChangePassword_def split: if_splits option.splits)
  obtain db where db: "UpdatePassword (io_st io 1) (io_clk io 0) i h (w_db w) = (None, db)"
    "w' = log_password_change sv u (w\<lparr>w_db := db\<rparr>)"
    using assms u pw h \<open>u_ID u = i\<close> by (auto simp: ChangePassword_def split: if_splits option.splits prod.splits)
  have db': "db = update_user i (\<lambda>u. u\<lparr>u_PasswordHash := h, u_PasswordChangedAt := Some (io_clk io 0), u_UpdatedAt := io_clk io 0\<rparr>) (w_db w)"
    using db(1) by (auto simp: UpdatePassword_def split: if_splits)
  have "Valid (ValidatePassword (dep_unicode (sv_deps sv)) (PasswordPolicy (sv_config sv)) new (u_Username u))"
    using pw(2) by (simp add: validatePasswordForUser_def Let_def split: if_splits)
  with row pw(1) h db' show ?thesis
    by (simp add: db(2) log_password_change_def)
qed

theorem change_password_effect_witness:
  "\<exists>w'. ChangePassword demo_service (demo_io second [] 0) 1 ''Pw'' ''longer pass'' demo_world = (None, w') \<and>
     map_option u_PasswordHash (user_row 1 (w_db w')) = Some ''longer pass''"
proof -
  have "fst (ChangePassword demo_service (demo_io second [] 0) 1 ''Pw'' ''longer pass'' demo_world) = None" by code_simp
  then obtain w' where w': "ChangePassword demo_service (demo_io second [] 0) 1 ''Pw'' ''longer pass'' demo_world = (None, w')"
    by (metis prod.collapse)
  with change_password_effect [OF this] show ?thesis by (auto simp: demo_service_def)
qed

end
