(* ===== verification/Api_Auth.thy ===== *)
theory Api_Auth
  imports Rbac Auth
begin

text \<open>
  Authentication of API requests: \<^verbatim>\<open>internal/api/middleware/auth.go\<close>, with the token validator and
  the API key authenticator of \<^verbatim>\<open>internal/app/init_auth.go\<close>, in front of the permission gates of
  \<^verbatim>\<open>Rbac\<close>.

  A request is what the middleware reads of it: headers, query parameters and cookies. The error
  responses carry the kind of error; \<open>Inr\<close> is the answer of the next handler.
\<close>

section \<open>Requests and configuration\<close>

record http_request =
  hr_Header :: "string \<Rightarrow> string"
  hr_Query :: "string \<Rightarrow> string"
  hr_Cookie :: "string \<Rightarrow> string option"
  hr_Path :: string

datatype api_auth_error = ApiUnauthorized string | ApiExpiredToken | ApiInvalidToken | ApiRevokedToken

record middleware_config =
  mw_Secret :: string
  mw_AdditionalSecrets :: "string list"
  mw_TokenLookup :: string
  mw_AuthScheme :: string
  mw_TokenValidator :: "(string \<Rightarrow> payload \<Rightarrow> auth_error option) option"
  mw_APIKeyAuth :: "(string \<Rightarrow> auth_error + user_claims) option"

definition mw_DefaultAuthConfig :: "string \<Rightarrow> middleware_config" where
  "mw_DefaultAuthConfig secret =
     \<lparr>mw_Secret = secret, mw_AdditionalSecrets = [], mw_TokenLookup = ''header:Authorization,query:token'',
      mw_AuthScheme = ''Bearer'', mw_TokenValidator = None, mw_APIKeyAuth = None\<rparr>"

section \<open>Where the token is\<close>

datatype extractor = FromHeader string string | FromQuery string | FromCookie string

definition lookup_part :: "(string \<Rightarrow> string) \<Rightarrow> string \<Rightarrow> string \<Rightarrow> extractor list" where
  "lookup_part lower authScheme part =
     (case Cut (CHR '':'') (TrimSpace part) of
        None \<Rightarrow> []
      | Some (k, name) \<Rightarrow>
          let source = lower k in
          if source = ''header'' then [FromHeader name authScheme]
          else if source = ''query'' then [FromQuery name]
          else if source = ''cookie'' then [FromCookie name]
          else [])"

definition parseTokenLookup :: "(string \<Rightarrow> string) \<Rightarrow> string \<Rightarrow> string \<Rightarrow> extractor list" where
  "parseTokenLookup lower lookup authScheme = concat (map (lookup_part lower authScheme) (split_at (CHR '','') lookup))"

fun extract_token :: "extractor \<Rightarrow> http_request \<Rightarrow> string" where
  "extract_token (FromHeader name authScheme) r =
     (let header = hr_Header r name in
      if header = [] then []
      else if authScheme \<noteq> [] \<and> HasPrefix header (authScheme @ '' '') then drop (length authScheme + 1) header
      else header)"
| "extract_token (FromQuery name) r = hr_Query r name"
| "extract_token (FromCookie name) r = (case hr_Cookie r name of None \<Rightarrow> [] | Some v \<Rightarrow> v)"

text \<open>The first source that has a token.\<close>

fun first_token :: "extractor list \<Rightarrow> http_request \<Rightarrow> string" where
  "first_token [] r = []"
| "first_token (e # es) r = (let token = extract_token e r in if token \<noteq> [] then token else first_token es r)"

section \<open>The token\<close>

text \<open>The claims as the middleware decodes them; it does not read the type of a token.\<close>

definition token_claims :: "payload \<Rightarrow> user_claims" where
  "token_claims p =
     \<lparr>UserID = p_UserID p, Username = p_Username p, Email = p_Email p, Role = p_Role p, Teams = p_Teams p,
      SessionID = p_SessionID p\<rparr>"

text \<open>The secrets are tried in turn; when none fits, the error of the last one counts.\<close>

fun try_secrets :: "jwt_lib \<Rightarrow> gotime \<Rightarrow> string \<Rightarrow> string list \<Rightarrow> (jwt_error + payload) option \<Rightarrow> (jwt_error + payload) option" where
  "try_secrets J now t [] last_result = last_result"
| "try_secrets J now t (s # ss) last_result =
     (if s = [] then try_secrets J now t ss last_result
      else case jwt_ParseWithClaims J s now t of
             Inr p \<Rightarrow> Some (Inr p)
           | Inl e \<Rightarrow> try_secrets J now t ss (Some (Inl e)))"

definition is_expiry :: "jwt_error \<Rightarrow> bool" where
  "is_expiry e = (case e of TokenTimes expired early \<Rightarrow> expired | _ \<Rightarrow> False)"

definition check_token :: "middleware_config \<Rightarrow> jwt_lib \<Rightarrow> gotime \<Rightarrow> string \<Rightarrow> api_auth_error + payload" where
  "check_token config J now t =
     (case try_secrets J now t (mw_Secret config # mw_AdditionalSecrets config) None of
        None \<Rightarrow> Inl ApiInvalidToken
      | Some (Inl e) \<Rightarrow> Inl (if is_expiry e then ApiExpiredToken else ApiInvalidToken)
      | Some (Inr p) \<Rightarrow>
          (case mw_TokenValidator config of
             None \<Rightarrow> Inr p
           | Some f \<Rightarrow> if f t p \<noteq> None then Inl ApiRevokedToken else Inr p))"

section \<open>The middleware\<close>

text \<open>An empty secret panics when the middleware is built; empty lookups and schemes get the defaults.\<close>

definition with_defaults :: "middleware_config \<Rightarrow> middleware_config option" where
  "with_defaults config =
     (if mw_Secret config = [] then None
      else Some (config
        \<lparr>mw_TokenLookup := (if mw_TokenLookup config = [] then ''header:Authorization,query:token'' else mw_TokenLookup config),
         mw_AuthScheme := (if mw_AuthScheme config = [] then ''Bearer'' else mw_AuthScheme config)\<rparr>))"

definition token_of :: "(string \<Rightarrow> string) \<Rightarrow> middleware_config \<Rightarrow> http_request \<Rightarrow> string" where
  "token_of lower config r = first_token (parseTokenLookup lower (mw_TokenLookup config) (mw_AuthScheme config)) r"

definition authenticate ::
    "(string \<Rightarrow> string) \<Rightarrow> middleware_config \<Rightarrow> jwt_lib \<Rightarrow> gotime \<Rightarrow> http_request \<Rightarrow> api_auth_error + user_claims" where
  "authenticate lower config J now r =
     (case mw_APIKeyAuth config of
        Some keyAuth \<Rightarrow>
          if hr_Header r ''X-API-KEY'' \<noteq> []
          then (case keyAuth (hr_Header r ''X-API-KEY'') of
                  Inl e \<Rightarrow> Inl (ApiUnauthorized ''invalid API key'') | Inr claims \<Rightarrow> Inr claims)
          else if token_of lower config r = [] then Inl (ApiUnauthorized [])
          else map_sum id token_claims (check_token config J now (token_of lower config r))
      | None \<Rightarrow>
          if token_of lower config r = [] then Inl (ApiUnauthorized [])
          else map_sum id token_claims (check_token config J now (token_of lower config r)))"

text \<open>\<^verbatim>\<open>Auth\<close>: the claims go to the next handler in the context of the request.\<close>

definition Auth_middleware ::
    "(string \<Rightarrow> string) \<Rightarrow> middleware_config \<Rightarrow> jwt_lib \<Rightarrow> gotime \<Rightarrow> (request \<Rightarrow> 'a response) \<Rightarrow> http_request \<Rightarrow>
     api_auth_error + 'a response" where
  "Auth_middleware lower config J now next r =
     (case authenticate lower config J now r of
        Inl e \<Rightarrow> Inl e
      | Inr claims \<Rightarrow> Inr (next \<lparr>rq_user = Some claims, rq_path = hr_Path r\<rparr>))"

text \<open>\<^verbatim>\<open>OptionalAuth\<close> tries the primary secret only and no validator, and never refuses.\<close>

definition OptionalAuth ::
    "(string \<Rightarrow> string) \<Rightarrow> middleware_config \<Rightarrow> jwt_lib \<Rightarrow> gotime \<Rightarrow> (request \<Rightarrow> 'a response) \<Rightarrow> http_request \<Rightarrow> 'a response" where
  "OptionalAuth lower config J now next r =
     (let t = token_of lower config r in
      next \<lparr>rq_user = (if t = [] then None
                      else case jwt_ParseWithClaims J (mw_Secret config) now t of
                             Inl e \<Rightarrow> None | Inr p \<Rightarrow> Some (token_claims p)),
            rq_path = hr_Path r\<rparr>)"

definition RequireAuth :: "(request \<Rightarrow> 'a response) \<Rightarrow> request \<Rightarrow> 'a response" where
  "RequireAuth next r = (if rq_user r = None then Rbac.Unauthorized [] else next r)"

section \<open>The application's validator and API keys\<close>

definition blacklist_validator ::
    "'r redis_kv \<Rightarrow> (nat \<Rightarrow> bool) \<Rightarrow> gotime \<Rightarrow> 'r \<Rightarrow> string \<Rightarrow> payload \<Rightarrow> auth_error option" where
  "blacklist_validator K rds now s t p =
     bl_ValidateToken K rds now (p_ID p) (p_UserID p)
       (case p_IssuedAt p of None \<Rightarrow> time_zero | Some iat \<Rightarrow> iat * second) s"

definition api_key_claims :: "jwt_lib \<Rightarrow> user \<Rightarrow> user_claims" where
  "api_key_claims J u =
     \<lparr>UserID = uuid_String J (u_ID u), Username = u_Username u, Email = (case u_Email u of None \<Rightarrow> [] | Some e \<Rightarrow> e),
      Role = u_Role u, Teams = [], SessionID = []\<rparr>"

definition api_key_auth :: "'r auth_service \<Rightarrow> auth_io \<Rightarrow> 'r auth_world \<Rightarrow> string \<Rightarrow> auth_error + user_claims" where
  "api_key_auth sv io w key =
     map_sum id (\<lambda>(u, k). api_key_claims (dep_jwt (sv_deps sv)) u) (fst (AuthenticateAPIKey sv io key w))"

section \<open>Revoked tokens in memory\<close>

text \<open>\<^verbatim>\<open>TokenRevocationStore\<close>: the expiry of each revoked token's id.\<close>

type_synonym revocations = "string \<rightharpoonup> gotime"

definition store_Revoke :: "string \<Rightarrow> gotime \<Rightarrow> revocations \<Rightarrow> revocations" where
  "store_Revoke jti e s = s(jti \<mapsto> e)"

definition IsRevoked :: "revocations \<Rightarrow> string \<Rightarrow> bool" where
  "IsRevoked s jti \<longleftrightarrow> s jti \<noteq> None"

definition cleanupExpired :: "gotime \<Rightarrow> revocations \<Rightarrow> revocations" where
  "cleanupExpired now s = (\<lambda>jti. case s jti of None \<Rightarrow> None | Some e \<Rightarrow> if e < now then None else Some e)"

definition ValidatorWithRevocation :: "revocations \<Rightarrow> string \<Rightarrow> payload \<Rightarrow> auth_error option" where
  "ValidatorWithRevocation s t p = (if p_ID p \<noteq> [] \<and> IsRevoked s (p_ID p) then Some ErrTokenRevoked else None)"

section \<open>What a token of the service is worth\<close>

lemma try_secrets_found:
  "try_secrets J now t ss r = Some (Inr p) \<Longrightarrow>
     r = Some (Inr p) \<or> (\<exists>s \<in> set ss. s \<noteq> [] \<and> jwt_ParseWithClaims J s now t = Inr p)"
  by (induction J now t ss r rule: try_secrets.induct) (auto split: if_splits sum.splits)

text \<open>
  C19. Only authenticated requests get through: when the middleware passes a request on, it carries an
  API key that the authenticator accepts, or a token from a configured source that parses under one
  of the secrets at this instant and that the validator does not refuse, and the next handler sees
  exactly the claims of that key or token.
\<close>

theorem auth_middleware_sound:
  assumes "Auth_middleware lower config J now next r = Inr a"
  shows "\<exists>claims. a = next \<lparr>rq_user = Some claims, rq_path = hr_Path r\<rparr> \<and>
    ((\<exists>f. mw_APIKeyAuth config = Some f \<and> hr_Header r ''X-API-KEY'' \<noteq> [] \<and> f (hr_Header r ''X-API-KEY'') = Inr claims) \<or>
     (\<exists>p s. let t = token_of lower config r in
        t \<noteq> [] \<and> s \<in> set (mw_Secret config # mw_AdditionalSecrets config) \<and> s \<noteq> [] \<and>
        jwt_ParseWithClaims J s now t = Inr p \<and> claims = token_claims p \<and>
        (\<forall>f. mw_TokenValidator config = Some f \<longrightarrow> f t p = None)))"
proof -
  let ?t = "token_of lower config r" and ?key = "hr_Header r ''X-API-KEY''"
  obtain claims where claims: "authenticate lower config J now r = Inr claims" "a = next \<lparr>rq_user = Some claims, rq_path = hr_Path r\<rparr>"
    using assms by (auto simp: Auth_middleware_def split: sum.splits)
  show ?thesis
  proof (cases "\<exists>f. mw_APIKeyAuth config = Some f \<and> ?key \<noteq> [] \<and> f ?key = Inr claims")
    case False
    with claims(1) have t: "?t \<noteq> []" "map_sum id token_claims (check_token config J now ?t) = Inr claims"
      by (auto simp: authenticate_def split: option.splits if_splits sum.splits)
    then obtain p where p: "check_token config J now ?t = Inr p" "claims = token_claims p"
      by (cases "check_token config J now ?t") auto
    then have found: "try_secrets J now ?t (mw_Secret config # mw_AdditionalSecrets config) None = Some (Inr p)" and
      valid: "\<forall>f. mw_TokenValidator config = Some f \<longrightarrow> f ?t p = None"
      by (auto simp: check_token_def split: option.splits sum.splits if_splits)
    from try_secrets_found [OF found] obtain s where
      "s \<in> set (mw_Secret config # mw_AdditionalSecrets config)" "s \<noteq> []" "jwt_ParseWithClaims J s now ?t = Inr p" by blast
    with t(1) p(2) valid claims(2) show ?thesis unfolding Let_def by blast
  qed (use claims(2) in blast)
qed

text \<open>A request with an API key that the authenticator refuses is refused, whatever token it also has.\<close>

theorem auth_middleware_sound_witness:
  "let config = (mw_DefaultAuthConfig ''k'')\<lparr>mw_AdditionalSecrets := [''old'']\<rparr>;
       u = \<lparr>u_ID = 7, u_Username = ''ann'', u_Email = None, u_PasswordHash = ''h'', u_Role = ''admin'', u_IsActive = True,
            u_IsLDAP = False, u_LDAPDN = None, u_FailedLoginAttempts = 0, u_LockedUntil = None, u_LastLoginAt = None,
            u_PasswordChangedAt = None, u_TOTPSecret = None, u_TOTPEnabled = False, u_TOTPVerifiedAt = None,
            u_CreatedAt = 0, u_UpdatedAt = 0\<rparr>;
       p = access_payload ref_jwt (DefaultJWTConfig ''old'') (1000 * second) (15 * minute) ''j'' u;
       t = the (jwt_SignedString ref_jwt ''old'' p);
       r = \<lparr>hr_Header = (\<lambda>h. if h = ''Authorization'' then ''Bearer '' @ t else []), hr_Query = (\<lambda>q. []), hr_Cookie = Map.empty,
            hr_Path = ''/''\<rparr> in
   \<exists>claims. Auth_middleware id config ref_jwt (1001 * second) (\<lambda>q. Served (rq_user q)) r = Inr (Served (Some claims)) \<and>
     claims = token_claims p"
proof -
  let ?config = "(mw_DefaultAuthConfig ''k'')\<lparr>mw_AdditionalSecrets := [''old'']\<rparr>"
  let ?u = "\<lparr>u_ID = 7, u_Username = ''ann'', u_Email = None, u_PasswordHash = ''h'', u_Role = ''admin'', u_IsActive = True,
            u_IsLDAP = False, u_LDAPDN = None, u_FailedLoginAttempts = 0, u_LockedUntil = None, u_LastLoginAt = None,
            u_PasswordChangedAt = None, u_TOTPSecret = None, u_TOTPEnabled = False, u_TOTPVerifiedAt = None,
            u_CreatedAt = 0, u_UpdatedAt = 0\<rparr>"
  let ?p = "access_payload ref_jwt (DefaultJWTConfig ''old'') (1000 * second) (15 * minute) ''j'' ?u"
  obtain t where t: "jwt_SignedString ref_jwt ''old'' ?p = Some t" by (simp add: ref_jwt_def)
  let ?r = "\<lparr>hr_Header = (\<lambda>h. if h = ''Authorization'' then ''Bearer '' @ t else []), hr_Query = (\<lambda>q. []), hr_Cookie = Map.empty,
            hr_Path = ''/''\<rparr>"
  have "t \<noteq> []" using t ref_jwt.token_not_empty by blast
  have lookup: "parseTokenLookup id ''header:Authorization,query:token'' ''Bearer'' =
      [FromHeader ''Authorization'' ''Bearer'', FromQuery ''token'']" by code_simp
  have tok: "token_of id ?config ?r = t"
    using \<open>t \<noteq> []\<close> by (simp add: token_of_def mw_DefaultAuthConfig_def lookup)
  have other: "jwt_ParseWithClaims ref_jwt ''k'' (1001 * second) t = Inl TokenSignatureInvalid"
    by (rule ref_jwt.parse_other_key [OF t]) simp
  have own: "jwt_ParseWithClaims ref_jwt ''old'' (1001 * second) t = Inr ?p"
    by (subst ref_jwt.parse_signed [OF t]) (simp add: check_times_access time_add_def unix_def second_def)
  have "try_secrets ref_jwt (1001 * second) t [''k'', ''old''] None = Some (Inr ?p)"
    unfolding try_secrets.simps other own by simp
  then have check: "check_token ?config ref_jwt (1001 * second) t = Inr ?p"
    unfolding check_token_def mw_DefaultAuthConfig_def by simp
  have "authenticate id ?config ref_jwt (1001 * second) ?r = Inr (token_claims ?p)"
    using \<open>t \<noteq> []\<close> unfolding authenticate_def tok check by (simp add: mw_DefaultAuthConfig_def)
  then have run: "Auth_middleware id ?config ref_jwt (1001 * second) (\<lambda>q. Served (rq_user q)) ?r = Inr (Served (Some (token_claims ?p)))"
    unfolding Auth_middleware_def by simp
  from auth_middleware_sound [OF run] obtain claims where
    "Served (Some (token_claims ?p)) = Served (Some claims)" "claims = token_claims ?p" by auto
  with run show ?thesis unfolding Let_def t option.sel by blast
qed

text \<open>The default lookups.\<close>

lemma default_lookup:
  assumes "lower ''header'' = ''header''" "lower ''query'' = ''query''"
  shows "parseTokenLookup lower ''header:Authorization,query:token'' ''Bearer'' =
    [FromHeader ''Authorization'' ''Bearer'', FromQuery ''token'']"
proof -
  have parts: "split_at (CHR '','') ''header:Authorization,query:token'' = [''header:Authorization'', ''query:token'']" by code_simp
  have cut: "Cut (CHR '':'') (TrimSpace ''header:Authorization'') = Some (''header'', ''Authorization'')"
    "Cut (CHR '':'') (TrimSpace ''query:token'') = Some (''query'', ''token'')" by code_simp+
  show ?thesis using assms by (simp add: parseTokenLookup_def parts lookup_part_def cut)
qed

text \<open>
  C10. From the token to the permission gate: a request that bears an access token the service issued
  is answered by the route's handler exactly when the token is within its time, the validator does not
  refuse it and the role the user had when it was issued has the route's permission; otherwise it is
  refused as expired, as invalid, as revoked, or as forbidden.
\<close>

theorem bearer_request_decision:
  assumes "jwt_laws J" "GenerateAccessToken J service iat jti u = Inr (t, e)" "Secret service \<noteq> []"
    and "lower ''header'' = ''header''" "lower ''query'' = ''query''"
    and "hr_Header r ''Authorization'' = ''Bearer '' @ t"
  shows "let config = (mw_DefaultAuthConfig (Secret service))\<lparr>mw_TokenValidator := Some validator\<rparr>;
             p = access_payload J service iat (AccessTokenTTL service) jti u in
    Auth_middleware lower config J now (RequirePermission permission handler) r =
      (if unix e * second \<le> now then Inl ApiExpiredToken
       else if now < unix iat * second then Inl ApiInvalidToken
       else if validator t p \<noteq> None then Inl ApiRevokedToken
       else if HasPermission (u_Role u) permission then Inr (handler \<lparr>rq_user = Some (token_claims p), rq_path = hr_Path r\<rparr>)
       else Inr (Rbac.Forbidden (''Missing permission: '' @ permission)))"
proof -
  let ?config = "(mw_DefaultAuthConfig (Secret service))\<lparr>mw_TokenValidator := Some validator\<rparr>"
  let ?p = "access_payload J service iat (AccessTokenTTL service) jti u"
  have signed: "jwt_SignedString J (Secret service) ?p = Some t" and e: "e = time_add iat (AccessTokenTTL service)"
    using assms(2) by (auto simp: GenerateAccessToken_def split: option.splits)
  have "t \<noteq> []" using signed jwt_laws.token_not_empty [OF assms(1)] by metis
  then have tok: "token_of lower ?config r = t"
    using assms(6) by (simp add: token_of_def mw_DefaultAuthConfig_def default_lookup [OF assms(4,5)])
  have role: "Role (token_claims ?p) = u_Role u" by (simp add: token_claims_def access_payload_def)
  have parse: "jwt_ParseWithClaims J (Secret service) now t =
      (if unix e * second \<le> now \<or> now < unix iat * second
       then Inl (TokenTimes (unix e * second \<le> now) (now < unix iat * second)) else Inr ?p)"
    unfolding jwt_laws.parse_signed [OF assms(1) signed] check_times_access e ..
  have check: "check_token ?config J now t =
      (if unix e * second \<le> now then Inl ApiExpiredToken else if now < unix iat * second then Inl ApiInvalidToken
       else if validator t ?p \<noteq> None then Inl ApiRevokedToken else Inr ?p)"
    using assms(3) by (simp add: check_token_def mw_DefaultAuthConfig_def parse is_expiry_def)
  have "authenticate lower ?config J now r = map_sum id token_claims (check_token ?config J now t)"
    using \<open>t \<noteq> []\<close> tok by (simp add: authenticate_def mw_DefaultAuthConfig_def)
  then show ?thesis
    by (simp add: Auth_middleware_def check RequirePermission_def role Let_def)
qed

theorem bearer_request_decision_witness:
  "let service = DefaultJWTConfig ''k'';
       u = \<lparr>u_ID = 7, u_Username = ''ann'', u_Email = None, u_PasswordHash = ''h'', u_Role = ''viewer'', u_IsActive = True,
            u_IsLDAP = False, u_LDAPDN = None, u_FailedLoginAttempts = 0, u_LockedUntil = None, u_LastLoginAt = None,
            u_PasswordChangedAt = None, u_TOTPSecret = None, u_TOTPEnabled = False, u_TOTPVerifiedAt = None,
            u_CreatedAt = 0, u_UpdatedAt = 0\<rparr> in
   \<exists>t. let r = \<lparr>hr_Header = (\<lambda>h. if h = ''Authorization'' then ''Bearer '' @ t else []), hr_Query = (\<lambda>q. []), hr_Cookie = Map.empty,
                hr_Path = ''/''\<rparr>;
          config = (mw_DefaultAuthConfig ''k'')\<lparr>mw_TokenValidator := Some (\<lambda>t p. None)\<rparr>;
          ask = (\<lambda>permission now. Auth_middleware id config ref_jwt now (RequirePermission permission (\<lambda>q. Served ())) r) in
     ask ''container:view'' (1001 * second) = Inr (Served ()) \<and>
     ask ''container:remove'' (1001 * second) = Inr (Rbac.Forbidden ''Missing permission: container:remove'') \<and>
     ask ''container:view'' (2000 * second) = Inl ApiExpiredToken"
proof -
  let ?service = "DefaultJWTConfig ''k''"
  let ?u = "\<lparr>u_ID = 7, u_Username = ''ann'', u_Email = None, u_PasswordHash = ''h'', u_Role = ''viewer'', u_IsActive = True,
            u_IsLDAP = False, u_LDAPDN = None, u_FailedLoginAttempts = 0, u_LockedUntil = None, u_LastLoginAt = None,
            u_PasswordChangedAt = None, u_TOTPSecret = None, u_TOTPEnabled = False, u_TOTPVerifiedAt = None,
            u_CreatedAt = 0, u_UpdatedAt = 0\<rparr>"
  obtain t where t: "GenerateAccessToken ref_jwt ?service (1000 * second) ''j'' ?u = Inr (t, 1900 * second)"
    by (simp add: GenerateAccessToken_def ref_jwt_def DefaultJWTConfig_def time_add_def second_def)
  let ?r = "\<lparr>hr_Header = (\<lambda>h. if h = ''Authorization'' then ''Bearer '' @ t else []), hr_Query = (\<lambda>q. []), hr_Cookie = Map.empty,
                hr_Path = ''/''\<rparr>"
  have key: "Secret ?service = ''k''" by (simp add: DefaultJWTConfig_def)
  have perms: "HasPermission ''viewer'' ''container:view''" "\<not> HasPermission ''viewer'' ''container:remove''" by code_simp+
  note decision = bearer_request_decision [OF ref_jwt.jwt_laws_axioms t, where lower = id and r = ?r and
      validator = "\<lambda>t p. None" and handler = "\<lambda>q. Served ()", unfolded key Let_def, simplified]
  show ?thesis
    using decision [of "1001 * second" "''container:view''"] decision [of "1001 * second" "''container:remove''"]
      decision [of "2000 * second" "''container:view''"] perms
    unfolding Let_def by (intro exI [of _ t]) (simp add: unix_def second_def)
qed

end
