(* ===== verification/Interpolation.thy ===== *)
theory Interpolation
  imports Go_Strings
begin

text \<open>
  References between configuration variables: \<^verbatim>\<open>internal/services/config/interpolation.go\<close>,
  with the variables of \<^verbatim>\<open>internal/models/config.go\<close>.

  The two regular expressions are written out as scanners. A Go map of variables is a map. The
  reference definition \<open>expand\<close> replaces all references of a text at once, with a bound on how
  deeply they are nested; the section after it compares the program's loop of textual replacements
  with it.
\<close>

section \<open>References in a text\<close>

record varMatch =
  vm_Full :: string
  vm_Name :: string
  vm_Default :: string
  vm_Required :: bool
  vm_ErrorMsg :: string

definition upper_letter :: "char \<Rightarrow> bool" where
  "upper_letter c \<longleftrightarrow> 65 \<le> (of_char c :: nat) \<and> (of_char c :: nat) \<le> 90"

definition name_char :: "char \<Rightarrow> bool" where
  "name_char c \<longleftrightarrow> upper_letter c \<or> is_digit c \<or> c = CHR ''_''"

text \<open>
  \<^verbatim>\<open>advancedVarPattern\<close> at the start of a text, with the rest after the match. The first function
  goes on after \<^verbatim>\<open>${\<close>, the second after \<^verbatim>\<open>$\<close>.
\<close>

fun match_operator :: "string \<Rightarrow> string \<Rightarrow> (varMatch \<times> string) option" where
  "match_operator n (k # t) =
     (if k \<noteq> CHR ''-'' \<and> k \<noteq> CHR ''?'' then None
      else let d = takeWhile (\<lambda>c. c \<noteq> CHR ''}'') t in
        case dropWhile (\<lambda>c. c \<noteq> CHR ''}'') t of
          [] \<Rightarrow> None
        | _ # rest \<Rightarrow>
            Some (\<lparr>vm_Full = ''${'' @ n @ CHR '':'' # k # d @ ''}'', vm_Name = n,
                   vm_Default = (if k = CHR ''-'' then d else []), vm_Required = (k = CHR ''?''),
                   vm_ErrorMsg = (if k = CHR ''?'' then d else [])\<rparr>, rest))"
| "match_operator n [] = None"

fun match_braced :: "string \<Rightarrow> (varMatch \<times> string) option" where
  "match_braced (c # s) =
     (if \<not> upper_letter c then None
      else let n = c # takeWhile name_char s in
        case dropWhile name_char s of
          [] \<Rightarrow> None
        | e # r \<Rightarrow>
            if e = CHR ''}''
            then Some (\<lparr>vm_Full = ''${'' @ n @ ''}'', vm_Name = n, vm_Default = [], vm_Required = False, vm_ErrorMsg = []\<rparr>, r)
            else if e = CHR '':'' then match_operator n r else None)"
| "match_braced [] = None"

fun match_ref :: "string \<Rightarrow> (varMatch \<times> string) option" where
  "match_ref (d # c # s) =
     (if d \<noteq> CHR ''$'' then None
      else if c = CHR ''{'' then match_braced s
      else if upper_letter c
      then let n = c # takeWhile name_char s in
        Some (\<lparr>vm_Full = CHR ''$'' # n, vm_Name = n, vm_Default = [], vm_Required = False, vm_ErrorMsg = []\<rparr>,
              dropWhile name_char s)
      else None)"
| "match_ref _ = None"

definition is_ref_text :: "string \<Rightarrow> bool" where
  "is_ref_text s \<longleftrightarrow> s \<noteq> [] \<and> hd s = CHR ''$''"

lemma dropWhile_Cons_text: "dropWhile P s = c # r \<Longrightarrow> takeWhile P s @ c # r = s"
  by (metis takeWhile_dropWhile_id)

lemma match_operator_text:
  assumes "match_operator n s = Some (m, rest)"
  shows "''${'' @ n @ CHR '':'' # s = vm_Full m @ rest \<and> is_ref_text (vm_Full m)"
proof (cases s)
  case (Cons k t)
  from assms show ?thesis
    unfolding Cons by (auto simp: Let_def is_ref_text_def split: if_splits list.splits
        dest!: dropWhile_eq_Cons_conv [THEN iffD1])
qed (use assms in simp)

lemma match_braced_text:
  assumes "match_braced s = Some (m, rest)"
  shows "''${'' @ s = vm_Full m @ rest \<and> is_ref_text (vm_Full m)"
proof (cases s)
  case (Cons c t)
  with assms obtain e r where r: "dropWhile name_char t = e # r" and
    up: "upper_letter c" by (auto simp: Let_def split: if_splits list.splits)
  note eq = dropWhile_Cons_text [OF r]
  show ?thesis
  proof (cases "e = CHR ''}''")
    case True
    with assms r up eq show ?thesis unfolding Cons by (auto simp: is_ref_text_def)
  next
    case False
    with assms r up have e: "e = CHR '':''" "match_operator (c # takeWhile name_char t) r = Some (m, rest)"
      unfolding Cons by (auto split: if_splits)
    from match_operator_text [OF e(2)] eq e(1) show ?thesis unfolding Cons by (metis append_Cons append_assoc)
  qed
qed (use assms in simp)

lemma match_ref_text: "match_ref s = Some (m, rest) \<Longrightarrow> s = vm_Full m @ rest \<and> is_ref_text (vm_Full m)"
  by (cases s rule: match_ref.cases)
    (auto simp: Let_def is_ref_text_def split: if_splits dest: match_braced_text)

text \<open>
  A text as its references, leftmost first, and the characters outside them; the references are what
  \<^verbatim>\<open>FindAllStringSubmatch\<close> finds.
\<close>

function tokens :: "string \<Rightarrow> (char + varMatch) list" where
  "tokens s =
     (case s of
        [] \<Rightarrow> []
      | c # s' \<Rightarrow> (case match_ref s of None \<Rightarrow> Inl c # tokens s' | Some (m, rest) \<Rightarrow> Inr m # tokens rest))"
  by auto
termination
proof (relation "measure length")
  fix s x2 x21 x22 m rest
  assume "match_ref s = Some x2" "(m, rest) = x2"
  then have "s = vm_Full m @ rest" "vm_Full m \<noteq> []" using match_ref_text [of s m rest] by (auto simp: is_ref_text_def)
  then show "(rest, s) \<in> measure length" by simp
qed auto

declare tokens.simps [simp del]

lemma tokens_simps [simp]:
  "tokens [] = []"
  "match_ref (c # s) = None \<Longrightarrow> tokens (c # s) = Inl c # tokens s"
  by (simp_all add: tokens.simps)

lemma tokens_ref [simp]: "match_ref s = Some (m, rest) \<Longrightarrow> tokens s = Inr m # tokens rest"
  by (cases s) (simp_all add: tokens.simps)

lemma tokens_induct [case_names Nil Char Ref]:
  assumes "P []" "\<And>c s. match_ref (c # s) = None \<Longrightarrow> P s \<Longrightarrow> P (c # s)"
    and "\<And>s m rest. match_ref s = Some (m, rest) \<Longrightarrow> P rest \<Longrightarrow> P s"
  shows "P s"
proof (induction s rule: tokens.induct)
  case (1 s)
  show ?case
  proof (cases "match_ref s")
    case None
    then show ?thesis using 1(1) assms(1,2) by (cases s) auto
  next
    case (Some x)
    obtain m rest where x: "x = (m, rest)" by fastforce
    with Some have "s \<noteq> []" by auto
    then obtain c s' where "s = c # s'" by (cases s) auto
    with 1(2) Some x have "P rest" by metis
    with assms(3) Some x show ?thesis by blast
  qed
qed

fun token_text :: "char + varMatch \<Rightarrow> string" where
  "token_text (Inl c) = [c]" | "token_text (Inr m) = vm_Full m"

fun token_matches :: "(char + varMatch) list \<Rightarrow> varMatch list" where
  "token_matches [] = []"
| "token_matches (Inl c # ts) = token_matches ts"
| "token_matches (Inr m # ts) = m # token_matches ts"

definition findAllVariables :: "string \<Rightarrow> varMatch list" where
  "findAllVariables value = token_matches (tokens value)"

lemma token_texts: "concat (map token_text (tokens s)) = s"
  by (induction s rule: tokens_induct) (auto dest: match_ref_text)

lemma tokens_ref_text: "Inr m \<in> set (tokens s) \<Longrightarrow> is_ref_text (vm_Full m)"
  by (induction s rule: tokens_induct) (auto dest: match_ref_text)

lemma tokens_plain: "CHR ''$'' \<notin> set s \<Longrightarrow> tokens s = map Inl s"
proof (induction s)
  case (Cons c s)
  then have "match_ref (c # s) = None" by (cases s) auto
  with Cons show ?case by simp
qed simp

lemma token_matches_Inl [simp]: "token_matches (map Inl s) = []"
  by (induction s) auto

lemma set_token_matches [simp]: "set (token_matches ts) = {m. Inr m \<in> set ts}"
  by (induction ts rule: token_matches.induct) auto

text \<open>\<^verbatim>\<open>varPattern\<close>, which knows references without an operator only.\<close>

definition simple_ref :: "string \<Rightarrow> bool" where
  "simple_ref s = (case match_ref s of None \<Rightarrow> False | Some (m, rest) \<Rightarrow>
     vm_Full m = ''${'' @ vm_Name m @ ''}'' \<or> vm_Full m = CHR ''$'' # vm_Name m)"

fun HasReferences :: "string \<Rightarrow> bool" where
  "HasReferences [] = False"
| "HasReferences (c # s) = (simple_ref (c # s) \<or> HasReferences s)"

section \<open>Replacing\<close>

text \<open>\<^verbatim>\<open>strings.Replace(s, old, new, 1)\<close>\<close>

fun ReplaceFirst :: "string \<Rightarrow> string \<Rightarrow> string \<Rightarrow> string" where
  "ReplaceFirst [] old new = (if old = [] then new else [])"
| "ReplaceFirst (c # s) old new =
     (if HasPrefix (c # s) old then new @ drop (length old) (c # s) else c # ReplaceFirst s old new)"

lemma ReplaceFirst_after:
  "CHR ''$'' \<notin> set a \<Longrightarrow> is_ref_text old \<Longrightarrow> ReplaceFirst (a @ old @ b) old new = a @ new @ b"
proof (induction a)
  case Nil
  then obtain o' where "old = CHR ''$'' # o'" by (cases old) (auto simp: is_ref_text_def)
  moreover have "HasPrefix (old @ b) old" by (auto simp: HasPrefix_iff)
  ultimately show ?case by (cases old) auto
next
  case (Cons c a)
  then have "\<not> HasPrefix (c # a @ old @ b) old" by (cases old) (auto simp: is_ref_text_def)
  with Cons show ?case by simp
qed

text \<open>\<^verbatim>\<open>unique\<close>: the first of each.\<close>

fun unique_loop :: "string list \<Rightarrow> string list \<Rightarrow> string list" where
  "unique_loop seen [] = []"
| "unique_loop seen (s # ss) = (if s \<in> set seen then unique_loop seen ss else s # unique_loop (s # seen) ss)"

definition unique :: "string list \<Rightarrow> string list" where
  "unique strs = unique_loop [] strs"

lemma unique_loop_set: "set (unique_loop seen ss) = set ss - set seen" "distinct (unique_loop seen ss)"
  by (induction ss arbitrary: seen) auto

lemma unique [simp]: "set (unique ss) = set ss" "distinct (unique ss)"
  by (simp_all add: unique_def unique_loop_set)

definition ExtractReferences :: "string \<Rightarrow> string list" where
  "ExtractReferences value = unique (map vm_Name (findAllVariables value))"

section \<open>Interpolation\<close>

type_synonym variables = "string \<rightharpoonup> string"

text \<open>The message of an \<^verbatim>\<open>InvalidInput\<close> error and the text of the error.\<close>

type_synonym interp_error = string

definition error_text :: "interp_error \<Rightarrow> string" where
  "error_text message = ''BAD_REQUEST: '' @ message"

definition depth_error :: interp_error where
  "depth_error = ''maximum interpolation depth exceeded - possible circular reference''"

definition circular_error :: "string list \<Rightarrow> interp_error" where
  "circular_error path = ''circular reference detected: '' @ Join '' -> '' path"

text \<open>The text that stands for a reference: the variable's, else the default, an error or nothing.\<close>

definition var_value :: "variables \<Rightarrow> varMatch \<Rightarrow> interp_error + string" where
  "var_value variables m =
     (case variables (vm_Name m) of
        Some v \<Rightarrow> Inr v
      | None \<Rightarrow>
          if vm_Default m \<noteq> [] then Inr (vm_Default m)
          else if vm_Required m
          then Inl (if vm_ErrorMsg m = [] then ''variable '' @ vm_Name m @ '' is required but not set'' else vm_ErrorMsg m)
          else Inr [])"

text \<open>
  The recursion over nested references and the loop over the references of one text; \<open>depth\<close> grows
  with every nesting. An error comes with the references found so far.
\<close>

function interpolateWithDepth ::
    "nat \<Rightarrow> variables \<Rightarrow> string \<Rightarrow> nat \<Rightarrow> string list \<Rightarrow> (interp_error \<times> string list) + (string \<times> string list)"
  and interpolate_loop ::
    "nat \<Rightarrow> variables \<Rightarrow> varMatch list \<Rightarrow> nat \<Rightarrow> string list \<Rightarrow> string \<Rightarrow> string list \<Rightarrow>
     (interp_error \<times> string list) + (string \<times> string list)" where
  "interpolateWithDepth maxDepth variables value depth visited =
     (if maxDepth < depth then Inl (depth_error, [])
      else let matches = findAllVariables value in
        if matches = [] then Inr (value, [])
        else interpolate_loop maxDepth variables matches depth visited value [])"
| "interpolate_loop maxDepth variables [] depth visited result references =
     Inr (result, unique references)"
| "interpolate_loop maxDepth variables (m # ms) depth visited result references =
     (let references = references @ [vm_Name m] in
      if vm_Name m \<in> set visited then Inl (circular_error (visited @ [vm_Name m]), references)
      else case var_value variables m of
             Inl message \<Rightarrow> Inl (message, references)
           | Inr varValue \<Rightarrow>
               (case interpolateWithDepth maxDepth variables varValue (depth + 1) (visited @ [vm_Name m]) of
                  Inl (e, nestedRefs) \<Rightarrow> Inl (e, references)
                | Inr (interpolated, nestedRefs) \<Rightarrow>
                    interpolate_loop maxDepth variables ms depth visited
                      (ReplaceFirst result (vm_Full m) interpolated) (references @ nestedRefs)))"
  by pat_completeness auto
termination
  by (relation "measures
      [\<lambda>x. case x of
           Inl (n, vs, v, d, vis) \<Rightarrow> if n < d then 0 else 2 * (Suc n - d)
         | Inr (n, vs, ms, d, vis, r, refs) \<Rightarrow> if n < d then 1 else 2 * (Suc n - d) - 1,
       \<lambda>x. case x of Inl _ \<Rightarrow> 0 | Inr (n, vs, ms, d, vis, r, refs) \<Rightarrow> length ms]") auto

declare interpolateWithDepth.simps [simp del]

text \<open>\<^verbatim>\<open>NewInterpolator\<close> allows ten nestings.\<close>

definition NewInterpolator :: nat where
  "NewInterpolator = 10"

definition Interpolate :: "nat \<Rightarrow> string \<Rightarrow> variables \<Rightarrow> (interp_error \<times> string list) + (string \<times> string list)" where
  "Interpolate i value variables = interpolateWithDepth i variables value 0 []"

definition ValidateInterpolation :: "nat \<Rightarrow> string \<Rightarrow> variables \<Rightarrow> interp_error option" where
  "ValidateInterpolation i value variables = (case Interpolate i value variables of Inl (e, _) \<Rightarrow> Some e | Inr _ \<Rightarrow> None)"

section \<open>Simultaneous replacement\<close>

text \<open>
  The reference definition: all references of a text are replaced at once by the expansions of their
  values. \<open>None\<close> when more than \<open>k\<close> texts are nested or a required variable is not set.
\<close>

definition token_value :: "(string \<Rightarrow> string option) \<Rightarrow> variables \<Rightarrow> char + varMatch \<Rightarrow> string option" where
  "token_value f vs t =
     (case t of Inl c \<Rightarrow> Some [c] | Inr m \<Rightarrow> (case var_value vs m of Inl e \<Rightarrow> None | Inr v \<Rightarrow> f v))"

primrec expand :: "nat \<Rightarrow> variables \<Rightarrow> string \<Rightarrow> string option" where
  "expand 0 vs x = None"
| "expand (Suc k) vs x = map_option concat (those (map (token_value (expand k vs) vs) (tokens x)))"

lemma those_Some: "those xs = Some ys \<longleftrightarrow> xs = map Some ys"
  by (induction xs arbitrary: ys) (auto split: option.splits)

lemma those_not_None: "(\<exists>ys. those xs = Some ys) \<longleftrightarrow> (\<forall>x \<in> set xs. \<exists>y. x = Some y)"
  by (induction xs) (auto split: option.splits)

lemma token_value_simps [simp]:
  "token_value f vs (Inl c) = Some [c]" "var_value vs m = Inr v \<Longrightarrow> token_value f vs (Inr m) = f v"
  by (simp_all add: token_value_def)

lemma token_value_Inr: "token_value f vs (Inr m) = Some y \<longleftrightarrow> (\<exists>v. var_value vs m = Inr v \<and> f v = Some y)"
  by (auto simp: token_value_def split: sum.splits)

definition defined :: "nat \<Rightarrow> variables \<Rightarrow> string \<Rightarrow> bool" where
  "defined k vs x \<longleftrightarrow> (\<exists>s. expand k vs x = Some s)"

lemma defined_0 [simp]: "\<not> defined 0 vs x"
  by (simp add: defined_def)

lemma defined_Suc:
  "defined (Suc k) vs x \<longleftrightarrow>
     (\<forall>m \<in> set (findAllVariables x). \<exists>v. var_value vs m = Inr v \<and> defined k vs v)"
proof -
  have "defined (Suc k) vs x \<longleftrightarrow> (\<forall>t \<in> set (tokens x). \<exists>y. token_value (expand k vs) vs t = Some y)"
    using those_not_None [of "map (token_value (expand k vs) vs) (tokens x)"] by (auto simp: defined_def)
  also have "\<dots> \<longleftrightarrow> (\<forall>m. Inr m \<in> set (tokens x) \<longrightarrow> (\<exists>y. token_value (expand k vs) vs (Inr m) = Some y))"
    by (metis sum.exhaust token_value_simps(1))
  finally show ?thesis by (auto simp: findAllVariables_def defined_def token_value_Inr)
qed

lemma defined_mono: "defined k vs x \<Longrightarrow> k \<le> l \<Longrightarrow> defined l vs x"
proof (induction k arbitrary: l x)
  case (Suc k)
  then obtain l' where "l = Suc l'" "k \<le> l'" by (cases l) auto
  with Suc show ?case unfolding \<open>l = Suc l'\<close> defined_Suc by blast
qed simp

text \<open>The depth of a text that has an expansion: the references of a text are less deep.\<close>

definition depth_of :: "variables \<Rightarrow> string \<Rightarrow> nat" where
  "depth_of vs x = (LEAST k. defined k vs x)"

lemma depth_of_defined: "defined k vs x \<Longrightarrow> defined (depth_of vs x) vs x \<and> depth_of vs x \<le> k"
  unfolding depth_of_def by (metis LeastI Least_le)

lemma depth_of_less:
  assumes "defined k vs x" "m \<in> set (findAllVariables x)" "var_value vs m = Inr v"
  shows "depth_of vs v < depth_of vs x"
proof -
  have d: "defined (depth_of vs x) vs x" using depth_of_defined [OF assms(1)] by simp
  then obtain j where j: "depth_of vs x = Suc j" by (cases "depth_of vs x") auto
  with d assms(2,3) have "defined j vs v" by (auto simp: defined_Suc)
  with depth_of_defined j show ?thesis by fastforce
qed

section \<open>The loop computes the expansion\<close>

lemma interp_defined:
  "interpolateWithDepth n vs x d vis = Inr r \<Longrightarrow> defined (Suc n - d) vs x"
  "interpolate_loop n vs ms d vis result refs = Inr r \<Longrightarrow>
     \<forall>m \<in> set ms. \<exists>v. var_value vs m = Inr v \<and> defined (n - d) vs v"
proof (induction n vs x d vis and n vs ms d vis result refs arbitrary: r and r
    rule: interpolateWithDepth_interpolate_loop.induct)
  case (1 n vs x d vis)
  then have d: "d \<le> n" "Suc n - d = Suc (n - d)"
    by (auto simp: interpolateWithDepth.simps split: if_splits)
  show ?case
  proof (cases "findAllVariables x = []")
    case False
    with 1 d have "\<forall>m \<in> set (findAllVariables x). \<exists>v. var_value vs m = Inr v \<and> defined (n - d) vs v"
      by (auto simp: interpolateWithDepth.simps Let_def)
    then show ?thesis by (simp only: d defined_Suc)
  qed (simp add: d defined_Suc)
next
  case (3 n vs m ms d vis result refs)
  from "3.prems" obtain v where v: "vm_Name m \<notin> set vis" "var_value vs m = Inr v"
    by (auto simp: Let_def split: if_splits sum.splits)
  with "3.prems" obtain s nested where s: "interpolateWithDepth n vs v (d + 1) (vis @ [vm_Name m]) = Inr (s, nested)"
    "interpolate_loop n vs ms d vis (ReplaceFirst result (vm_Full m) s) ((refs @ [vm_Name m]) @ nested) = Inr r"
    by (auto simp: Let_def split: sum.splits)
  from 3(1) [OF refl v s(1)] have "defined (n - d) vs v" by simp
  moreover from 3(2) [OF refl v s(1) refl s(2)] have "\<forall>m \<in> set ms. \<exists>v. var_value vs m = Inr v \<and> defined (n - d) vs v" .
  ultimately show ?case using v by simp
qed simp

text \<open>
  A text is tidy when a dollar only starts a reference and no default value has one; then the
  program's replacements hit the references they are meant for.
\<close>

definition tidy_token :: "char + varMatch \<Rightarrow> bool" where
  "tidy_token t = (case t of Inl c \<Rightarrow> c \<noteq> CHR ''$'' | Inr m \<Rightarrow> CHR ''$'' \<notin> set (vm_Default m))"

definition tidy :: "string \<Rightarrow> bool" where
  "tidy s \<longleftrightarrow> list_all tidy_token (tokens s)"

lemma tidy_plain: "CHR ''$'' \<notin> set s \<Longrightarrow> tidy s"
  by (auto simp: tidy_def tokens_plain list_all_iff tidy_token_def)

lemma token_matches_split:
  "token_matches ts = m # ms \<Longrightarrow> \<exists>cs ts'. ts = map Inl cs @ Inr m # ts' \<and> ms = token_matches ts'"
proof (induction ts rule: token_matches.induct)
  case (2 c ts)
  then obtain cs ts' where "ts = map Inl cs @ Inr m # ts'" "ms = token_matches ts'" by auto
  then show ?case by (intro exI [of _ "c # cs"] exI [of _ ts']) simp
next
  case (3 m' ts)
  then show ?case by (intro exI [of _ "[]"] exI [of _ ts]) simp
qed simp

lemma token_matches_none: "token_matches ts = [] \<Longrightarrow> \<exists>cs. ts = map Inl cs"
proof (induction ts rule: token_matches.induct)
  case (2 c ts)
  then obtain cs where "ts = map Inl cs" by auto
  then show ?case by (intro exI [of _ "c # cs"]) simp
qed auto

lemma token_text_Inl [simp]: "concat (map (token_text \<circ> Inl) cs) = cs" "concat (map (\<lambda>x. [x]) cs) = cs"
  by (induction cs) auto

lemma those_plain: "those (map (token_value f vs) (map Inl cs)) = Some (map (\<lambda>c. [c]) cs)"
  by (simp add: those_Some token_value_def)

lemma tidy_Inl: "list_all tidy_token (map Inl cs) \<longleftrightarrow> CHR ''$'' \<notin> set cs"
  by (auto simp: list_all_iff tidy_token_def)

lemma tidy_value:
  assumes "\<forall>v \<in> ran vs. tidy v" "tidy x" "m \<in> set (findAllVariables x)" "var_value vs m = Inr v"
  shows "tidy v"
proof (cases "vs (vm_Name m)")
  case None
  from assms(2,3) have "tidy_token (Inr m)" by (simp add: tidy_def findAllVariables_def list_all_iff)
  then have "CHR ''$'' \<notin> set (vm_Default m)" by (simp add: tidy_token_def)
  with None assms(4) show ?thesis by (intro tidy_plain) (auto simp: var_value_def split: if_splits)
qed (use assms in \<open>auto simp: var_value_def intro: ranI\<close>)

lemma interp_text:
  assumes vars: "\<forall>v \<in> ran vs. tidy v"
  shows "interpolateWithDepth n vs x d vis = Inr (s, rs) \<Longrightarrow> tidy x \<Longrightarrow>
      expand (Suc n - d) vs x = Some s \<and> CHR ''$'' \<notin> set s"
    and "interpolate_loop n vs ms d vis result refs = Inr (s, rs) \<Longrightarrow>
      \<forall>ts pre. ms = token_matches ts \<longrightarrow> list_all tidy_token ts \<longrightarrow> (\<forall>m. Inr m \<in> set ts \<longrightarrow> is_ref_text (vm_Full m)) \<longrightarrow>
        result = pre @ concat (map token_text ts) \<longrightarrow> CHR ''$'' \<notin> set pre \<longrightarrow>
        (\<exists>outs. those (map (token_value (expand (n - d) vs) vs) ts) = Some outs \<and> s = pre @ concat outs \<and> CHR ''$'' \<notin> set s)"
  using vars
proof (induction n vs x d vis and n vs ms d vis result refs arbitrary: s rs and s rs
    rule: interpolateWithDepth_interpolate_loop.induct)
  case (1 n vs x d vis)
  then have d: "\<not> n < d" "Suc n - d = Suc (n - d)"
    by (auto simp: interpolateWithDepth.simps split: if_splits)
  have toks: "concat (map token_text (tokens x)) = x" "\<forall>m. Inr m \<in> set (tokens x) \<longrightarrow> is_ref_text (vm_Full m)"
    using token_texts tokens_ref_text by auto
  show ?case
  proof (cases "findAllVariables x = []")
    case True
    then obtain cs where cs: "tokens x = map Inl cs" using token_matches_none by (auto simp: findAllVariables_def)
    with toks(1) have "cs = x" by simp
    with cs 1(3,2) d True those_plain [of "expand (n - d) vs" vs cs] show ?thesis
      by (simp add: interpolateWithDepth.simps Let_def tidy_def tidy_Inl)
  next
    case False
    with 1(2) d have run: "interpolate_loop n vs (findAllVariables x) d vis x [] = Inr (s, rs)"
      by (simp add: interpolateWithDepth.simps Let_def)
    from 1(1) [OF d(1) refl False run 1(4), THEN spec, THEN spec, of "tokens x" "[]"] toks 1(3)
    obtain outs where "those (map (token_value (expand (n - d) vs) vs) (tokens x)) = Some outs" "s = concat outs" "CHR ''$'' \<notin> set s"
      unfolding findAllVariables_def tidy_def by fastforce
    with d(2) show ?thesis by simp
  qed
next
  case (2 n vs d vis result refs)
  show ?case
  proof (intro allI impI)
    fix ts pre
    assume ts: "[] = token_matches ts" "list_all tidy_token ts" "result = pre @ concat (map token_text ts)" "CHR ''$'' \<notin> set pre"
    then obtain cs where "ts = map Inl cs" using token_matches_none [of ts] by auto
    with ts 2(1) those_plain [of "expand (n - d) vs" vs cs]
    show "\<exists>outs. those (map (token_value (expand (n - d) vs) vs) ts) = Some outs \<and> s = pre @ concat outs \<and> CHR ''$'' \<notin> set s"
      by (auto simp: tidy_Inl)
  qed
next
  case (3 n vs m ms d vis result refs)
  from "3.prems"(1) obtain v where v: "vm_Name m \<notin> set vis" "var_value vs m = Inr v"
    by (auto simp: Let_def split: if_splits sum.splits)
  with "3.prems"(1) obtain o' nested where o': "interpolateWithDepth n vs v (d + 1) (vis @ [vm_Name m]) = Inr (o', nested)"
    "interpolate_loop n vs ms d vis (ReplaceFirst result (vm_Full m) o') ((refs @ [vm_Name m]) @ nested) = Inr (s, rs)"
    by (auto simp: Let_def split: sum.splits)
  show ?case
  proof (intro allI impI)
    fix ts pre
    assume ts: "m # ms = token_matches ts" "list_all tidy_token ts" "\<forall>m. Inr m \<in> set ts \<longrightarrow> is_ref_text (vm_Full m)"
      "result = pre @ concat (map token_text ts)" "CHR ''$'' \<notin> set pre"
    obtain cs ts' where split: "ts = map Inl cs @ Inr m # ts'" "ms = token_matches ts'"
      using token_matches_split [OF ts(1) [symmetric]] by blast
    have cs: "CHR ''$'' \<notin> set cs" "tidy_token (Inr m)" "list_all tidy_token ts'"
      using ts(2) by (simp_all add: split(1) tidy_Inl)
    have "tidy v"
    proof (cases "vs (vm_Name m)")
      case None
      with cs(2) v(2) show ?thesis by (intro tidy_plain) (auto simp: var_value_def tidy_token_def split: if_splits)
    qed (use v(2) "3.prems"(2) in \<open>auto simp: var_value_def intro: ranI\<close>)
    with 3(1) [OF refl v o'(1)] "3.prems"(2) have out: "expand (n - d) vs v = Some o'" "CHR ''$'' \<notin> set o'" by simp_all
    have "ReplaceFirst result (vm_Full m) o' = ((pre @ cs) @ o') @ concat (map token_text ts')"
      using ts(3,4,5) cs(1) ReplaceFirst_after [of "pre @ cs" "vm_Full m" "concat (map token_text ts')" o']
      by (simp add: split(1))
    moreover have "\<forall>m. Inr m \<in> set ts' \<longrightarrow> is_ref_text (vm_Full m)" "CHR ''$'' \<notin> set ((pre @ cs) @ o')"
      using ts(3,5) cs(1) out(2) by (simp_all add: split(1))
    ultimately obtain outs where outs: "those (map (token_value (expand (n - d) vs) vs) ts') = Some outs"
      "s = ((pre @ cs) @ o') @ concat outs" "CHR ''$'' \<notin> set s"
      using 3(2) [OF refl v o'(1) refl o'(2) "3.prems"(2), THEN spec, THEN spec, of ts' "(pre @ cs) @ o'"] split(2) cs(3)
      by blast
    then have "those (map (token_value (expand (n - d) vs) vs) ts) = Some (map (\<lambda>c. [c]) cs @ o' # outs)"
      using those_plain [of "expand (n - d) vs" vs cs] v(2) out(1) by (simp add: split(1) those_Some)
    with outs show "\<exists>outs. those (map (token_value (expand (n - d) vs) vs) ts) = Some outs \<and> s = pre @ concat outs \<and> CHR ''$'' \<notin> set s"
      by (intro exI [of _ "map (\<lambda>c. [c]) cs @ o' # outs"]) simp
  qed
qed

text \<open>On the path to a text, each variable's value is at least as deep.\<close>

definition on_path :: "variables \<Rightarrow> string list \<Rightarrow> string \<Rightarrow> bool" where
  "on_path vs vis x \<longleftrightarrow>
     findAllVariables x = [] \<or> (\<forall>n \<in> set vis. \<exists>y. vs n = Some y \<and> depth_of vs x \<le> depth_of vs y)"

lemma interp_complete:
  assumes vars: "\<forall>v \<in> ran vs. tidy v"
  shows "defined (Suc n - d) vs x \<Longrightarrow> tidy x \<Longrightarrow> on_path vs vis x \<Longrightarrow>
      \<exists>r. interpolateWithDepth n vs x d vis = Inr r"
    and "\<forall>m \<in> set ms. CHR ''$'' \<notin> set (vm_Default m) \<and> (\<exists>v. var_value vs m = Inr v \<and> defined (n - d) vs v \<and>
        (\<forall>n \<in> set vis. \<exists>y. vs n = Some y \<and> depth_of vs v < depth_of vs y)) \<Longrightarrow>
      \<exists>r. interpolate_loop n vs ms d vis result refs = Inr r"
  using vars
proof (induction n vs x d vis and n vs ms d vis result refs rule: interpolateWithDepth_interpolate_loop.induct)
  case (1 n vs x d vis)
  then have d: "\<not> n < d" "Suc n - d = Suc (n - d)" by (auto intro: ccontr)
  show ?case
  proof (cases "findAllVariables x = []")
    case False
    have "CHR ''$'' \<notin> set (vm_Default m) \<and> (\<exists>v. var_value vs m = Inr v \<and> defined (n - d) vs v \<and>
        (\<forall>n \<in> set vis. \<exists>y. vs n = Some y \<and> depth_of vs v < depth_of vs y))" if m: "m \<in> set (findAllVariables x)" for m
    proof -
      from 1(2) m obtain v where v: "var_value vs m = Inr v" "defined (n - d) vs v" by (auto simp: d(2) defined_Suc)
      from depth_of_less [OF 1(2) m v(1)] 1(4) False
      have "\<forall>n \<in> set vis. \<exists>y. vs n = Some y \<and> depth_of vs v < depth_of vs y" by (fastforce simp: on_path_def)
      moreover have "tidy_token (Inr m)" using 1(3) m by (simp add: tidy_def findAllVariables_def list_all_iff)
      ultimately show ?thesis using v by (simp add: tidy_token_def)
    qed
    with 1(1) [OF d(1) refl False] 1(5) d(1) False show ?thesis
      by (simp add: interpolateWithDepth.simps Let_def)
  qed (use d in \<open>simp add: interpolateWithDepth.simps\<close>)
next
  case (3 n vs m ms d vis result refs)
  from 3(3) obtain v where m: "CHR ''$'' \<notin> set (vm_Default m)" "var_value vs m = Inr v" "defined (n - d) vs v"
    "\<forall>n \<in> set vis. \<exists>y. vs n = Some y \<and> depth_of vs v < depth_of vs y" by auto
  have fresh: "vm_Name m \<notin> set vis"
  proof
    assume "vm_Name m \<in> set vis"
    with m(4) obtain y where "vs (vm_Name m) = Some y" "depth_of vs v < depth_of vs y" by blast
    with m(2) show False by (simp add: var_value_def)
  qed
  have v: "tidy v \<and> on_path vs (vis @ [vm_Name m]) v"
  proof (cases "vs (vm_Name m)")
    case None
    with m(1,2) have "CHR ''$'' \<notin> set v" by (auto simp: var_value_def split: if_splits)
    then show ?thesis by (simp add: tidy_plain on_path_def findAllVariables_def tokens_plain)
  next
    case (Some y)
    with m(2) have "y = v" by (simp add: var_value_def)
    with Some 3(4) m(4) show ?thesis by (auto simp: on_path_def intro: ranI less_imp_le)
  qed
  with 3(1) [OF refl fresh m(2)] m(3) 3(4) obtain s nested where
    s: "interpolateWithDepth n vs v (d + 1) (vis @ [vm_Name m]) = Inr (s, nested)" by auto
  from 3(2) [OF refl fresh m(2) s refl] 3(3,4) fresh m(2) s show ?case by simp
qed simp

text \<open>Which variables the value of a variable refers to.\<close>

definition refers :: "variables \<Rightarrow> (string \<times> string) set" where
  "refers vs = {(a, b). \<exists>y. vs a = Some y \<and> b \<in> vm_Name ` set (findAllVariables y)}"

lemma refers_step:
  assumes "(a, b) \<in> refers vs" "vs a = Some y" "defined k vs y" "vs b = Some z"
  shows "defined k vs z \<and> depth_of vs z < depth_of vs y"
proof -
  from assms obtain m where m: "m \<in> set (findAllVariables y)" "vm_Name m = b" by (auto simp: refers_def)
  with assms(4) have v: "var_value vs m = Inr z" by (simp add: var_value_def)
  obtain j where j: "k = Suc j" using assms(3) by (cases k) auto
  with assms(3) m v have "defined j vs z" by (auto simp: defined_Suc)
  with depth_of_less [OF assms(3) m(1) v] j defined_mono [of j vs z k] show ?thesis by simp
qed

lemma refers_defined:
  assumes "(a, b) \<in> (refers vs)\<^sup>+" "vs a = Some y" "defined k vs y" "vs b = Some z"
  shows "defined k vs z \<and> depth_of vs z < depth_of vs y"
  using assms(1,4)
proof (induction arbitrary: z rule: trancl_induct)
  case (base b)
  with refers_step assms(2,3) show ?case by blast
next
  case (step b c)
  from step.hyps(2) obtain w where w: "vs b = Some w" by (auto simp: refers_def)
  from step.IH [OF w] refers_step [OF step.hyps(2) w _ step.prems] show ?case by fastforce
qed

section \<open>All variables\<close>

record config_variable =
  cv_ID :: uuid
  cv_Name :: string
  cv_Value :: string
  cv_Type :: string
  cv_Scope :: string
  cv_ScopeID :: "string option"
  cv_Description :: "string option"
  cv_IsRequired :: bool
  cv_DefaultValue :: "string option"

definition var_map :: "config_variable list \<Rightarrow> variables" where
  "var_map vs = foldl (\<lambda>m v. m(cv_Name v \<mapsto> cv_Value v)) Map.empty vs"

record interpolated_value =
  iv_Name :: string
  iv_OriginalValue :: string
  iv_ResolvedValue :: string
  iv_IsSecret :: bool
  iv_References :: "string list"

record interpolate_result =
  ir_Values :: "interpolated_value list"
  ir_Errors :: "string list"
  ir_CircularRefs :: "string list"

definition interpolate_one :: "nat \<Rightarrow> variables \<Rightarrow> interpolate_result \<Rightarrow> config_variable \<Rightarrow> interpolate_result" where
  "interpolate_one i variables result v =
     (let iv = (\<lambda>resolved refs. \<lparr>iv_Name = cv_Name v, iv_OriginalValue = cv_Value v, iv_ResolvedValue = resolved,
                 iv_IsSecret = (cv_Type v = ''secret''), iv_References = refs\<rparr>)
      in case Interpolate i (cv_Value v) variables of
           Inr (resolved, refs) \<Rightarrow> result\<lparr>ir_Values := ir_Values result @ [iv resolved refs]\<rparr>
         | Inl (e, refs) \<Rightarrow>
             let result = (if Contains (error_text e) ''circular reference''
                           then result\<lparr>ir_CircularRefs := ir_CircularRefs result @ [cv_Name v]\<rparr> else result)
             in result\<lparr>ir_Errors := ir_Errors result @ [cv_Name v @ '': '' @ error_text e],
                       ir_Values := ir_Values result @ [iv (cv_Value v) refs]\<rparr>)"

definition InterpolateAll :: "nat \<Rightarrow> config_variable list \<Rightarrow> interpolate_result" where
  "InterpolateAll i vs =
     foldl (interpolate_one i (var_map vs)) \<lparr>ir_Values = [], ir_Errors = [], ir_CircularRefs = []\<rparr> vs"

section \<open>Environment files\<close>

text \<open>\<^verbatim>\<open>strings.ReplaceAll\<close> of one byte.\<close>

definition ReplaceAll :: "char \<Rightarrow> string \<Rightarrow> string \<Rightarrow> string" where
  "ReplaceAll old new s = concat (map (\<lambda>c. if c = old then new else [c]) s)"

definition newline :: char where "newline = CHR 0x0A"
definition tab :: char where "tab = CHR 0x09"
definition quote :: char where "quote = CHR 0x22"
definition apostrophe :: char where "apostrophe = CHR 0x27"
definition backslash :: char where "backslash = CHR 0x5C"

definition needsQuoting :: "string \<Rightarrow> bool" where
  "needsQuoting s \<longleftrightarrow>
     (\<exists>c \<in> set s. c \<in> {CHR '' '', tab, newline, quote, apostrophe, backslash, CHR ''$'', CHR ''#''}) \<or>
     (s \<noteq> [] \<and> (hd s = CHR '' '' \<or> last s = CHR '' ''))"

definition escapeValue :: "string \<Rightarrow> string" where
  "escapeValue s =
     ReplaceAll tab (backslash # ''t'') (ReplaceAll newline (backslash # ''n'')
       (ReplaceAll quote [backslash, quote] (ReplaceAll backslash [backslash, backslash] s)))"

definition env_line :: "config_variable \<Rightarrow> string" where
  "env_line v =
     (case cv_Description v of None \<Rightarrow> [] | Some d \<Rightarrow> if d = [] then [] else ''# '' @ d @ [newline]) @
     cv_Name v @ ''='' @ (if needsQuoting (cv_Value v) then [quote] @ escapeValue (cv_Value v) @ [quote] else cv_Value v) @
     [newline]"

definition GenerateEnvFile :: "config_variable list \<Rightarrow> string" where
  "GenerateEnvFile vs =
     ''# Generated by usulnet Config Manager'' @ [newline] @
     ''# Do not edit manually - changes will be overwritten'' @ [newline, newline] @ concat (map env_line vs)"

definition GenerateDockerEnv :: "config_variable list \<Rightarrow> string list" where
  "GenerateDockerEnv vs = map (\<lambda>v. cv_Name v @ ''='' @ cv_Value v) vs"

text \<open>How a value in double quotes is read back.\<close>

fun unescape :: "string \<Rightarrow> string" where
  "unescape (c # d # s) =
     (if c = backslash
      then (if d = CHR ''n'' then newline else if d = CHR ''t'' then tab else d) # unescape s
      else c # unescape (d # s))"
| "unescape s = s"

lemma escape_chars:
  "escapeValue (c # s) =
     (if c = backslash then [backslash, backslash] else if c = quote then [backslash, quote]
      else if c = newline then backslash # ''n'' else if c = tab then backslash # ''t'' else [c]) @ escapeValue s"
  by (simp add: escapeValue_def ReplaceAll_def newline_def tab_def quote_def backslash_def)

lemma unescape_escape: "unescape (escapeValue s) = s"
proof (induction s)
  case (Cons c s)
  have other: "unescape (c # t) = c # unescape t" if "c \<noteq> backslash" for t
    using that by (cases t) auto
  have chars: "quote \<noteq> CHR ''n''" "quote \<noteq> CHR ''t''" "backslash \<noteq> CHR ''n''" "backslash \<noteq> CHR ''t''"
    "CHR ''t'' \<noteq> CHR ''n''"
    by (simp_all add: quote_def backslash_def)
  with Cons other show ?case by (simp add: escape_chars)
qed (simp add: escapeValue_def ReplaceAll_def)

text \<open>
  The environment of a Compose file: a list of \<^verbatim>\<open>KEY=VALUE\<close> and \<^verbatim>\<open>KEY\<close> entries, where
  entries that are no strings are passed over, or a map, given in the order in which the program visits it.
\<close>

datatype yaml = YString string | YNil | YOther string

definition env_item :: "nat \<Rightarrow> variables \<Rightarrow> yaml \<Rightarrow> interp_error + string list" where
  "env_item i variables item =
     (case item of
        YString str \<Rightarrow>
          (case Cut (CHR ''='') str of
             Some (key, v) \<Rightarrow>
               (case Interpolate i v variables of Inl (e, _) \<Rightarrow> Inl e | Inr (r, _) \<Rightarrow> Inr [key @ ''='' @ r])
           | None \<Rightarrow> Inr (case variables str of None \<Rightarrow> [] | Some v \<Rightarrow> [str @ ''='' @ v]))
      | _ \<Rightarrow> Inr [])"

definition env_pair :: "nat \<Rightarrow> variables \<Rightarrow> string \<times> yaml \<Rightarrow> interp_error + string list" where
  "env_pair i variables p =
     (case p of (key, v) \<Rightarrow>
        (case v of
           YNil \<Rightarrow> Inr (case variables key of None \<Rightarrow> [] | Some v \<Rightarrow> [key @ ''='' @ v])
         | YString s \<Rightarrow> (case Interpolate i s variables of Inl (e, _) \<Rightarrow> Inl e | Inr (r, _) \<Rightarrow> Inr [key @ ''='' @ r])
         | YOther s \<Rightarrow> (case Interpolate i s variables of Inl (e, _) \<Rightarrow> Inl e | Inr (r, _) \<Rightarrow> Inr [key @ ''='' @ r])))"

fun collect :: "('a \<Rightarrow> interp_error + string list) \<Rightarrow> 'a list \<Rightarrow> interp_error + string list" where
  "collect f [] = Inr []"
| "collect f (x # xs) =
     (case f x of Inl e \<Rightarrow> Inl e | Inr r \<Rightarrow> (case collect f xs of Inl e \<Rightarrow> Inl e | Inr rs \<Rightarrow> Inr (r @ rs)))"

datatype compose_env = EnvList "yaml list" | EnvMap "(string \<times> yaml) list"

fun ProcessComposeEnvironment :: "nat \<Rightarrow> variables \<Rightarrow> compose_env \<Rightarrow> interp_error + string list" where
  "ProcessComposeEnvironment i variables (EnvList items) = collect (env_item i variables) items"
| "ProcessComposeEnvironment i variables (EnvMap ps) = collect (env_pair i variables) ps"

section \<open>Properties\<close>

text \<open>
  C30. Interpolation is simultaneous replacement: for tidy texts, \<^verbatim>\<open>Interpolate\<close> succeeds exactly
  when the references, nested at most as deep as allowed, have an expansion, and its result is that
  expansion; otherwise it returns an error.
\<close>

theorem interpolate_expands:
  assumes "tidy x" "\<forall>v \<in> ran variables. tidy v"
  shows "(\<exists>refs. Interpolate i x variables = Inr (s, refs)) \<longleftrightarrow> expand (Suc i) variables x = Some s"
proof -
  have sound: "expand (Suc i) variables x = Some t" if "Interpolate i x variables = Inr (t, refs)" for t refs
    using interp_text(1) [OF assms(2), of i x 0 "[]" t refs] that assms(1) by (simp add: Interpolate_def)
  moreover have "\<exists>r. Interpolate i x variables = Inr r" if "expand (Suc i) variables x = Some s"
    using interp_complete(1) [OF assms(2), of i 0 x "[]"] that assms(1)
    by (auto simp: Interpolate_def defined_def on_path_def)
  ultimately show ?thesis by (metis option.inject surj_pair)
qed

theorem interpolate_expands_witness:
  "let vs = [''HOST'' \<mapsto> ''db'', ''URL'' \<mapsto> ''tcp://${HOST}:${PORT:-5432}''] in
   \<exists>refs. Interpolate 10 ''$URL/x'' vs = Inr (''tcp://db:5432/x'', refs)"
proof -
  let ?vs = "[''HOST'' \<mapsto> ''db'', ''URL'' \<mapsto> ''tcp://${HOST}:${PORT:-5432}'']"
  have ran: "ran ?vs = {''tcp://${HOST}:${PORT:-5432}'', ''db''}" by (simp add: ran_map_upd)
  have "tidy ''$URL/x''" "tidy ''db''" "tidy ''tcp://${HOST}:${PORT:-5432}''" by code_simp+
  moreover have "expand (Suc 10) ?vs ''$URL/x'' = Some ''tcp://db:5432/x''" by code_simp
  ultimately show ?thesis
    using interpolate_expands [of "''$URL/x''" ?vs 10 "''tcp://db:5432/x''"] unfolding ran Let_def by blast
qed

text \<open>
  C32. Cyclic references end in an error: a text from which a variable can be reached that refers,
  over any number of variables, to itself, makes \<^verbatim>\<open>Interpolate\<close> return an error; it neither runs
  on nor returns a text.
\<close>

theorem interpolate_cycle:
  assumes "a \<in> set (ExtractReferences x)" "(a, n) \<in> (refers variables)\<^sup>*" "(n, n) \<in> (refers variables)\<^sup>+"
  shows "\<exists>e refs. Interpolate i x variables = Inl (e, refs)"
proof (rule ccontr)
  assume "\<not> ?thesis"
  then obtain r where "Interpolate i x variables = Inr r" by (metis sum.exhaust surj_pair)
  then have "defined (Suc i) variables x" using interp_defined(1) by (fastforce simp: Interpolate_def)
  then have names: "\<forall>m \<in> set (findAllVariables x). \<exists>v. var_value variables m = Inr v \<and> defined i variables v"
    by (simp add: defined_Suc)
  from assms(2,3) have cyc: "(a, n) \<in> (refers variables)\<^sup>+" by (metis rtrancl_into_trancl1 rtrancl_trancl_trancl)
  then obtain y where y: "variables a = Some y" by (auto simp: refers_def dest: tranclD)
  with names assms(1) have "defined i variables y"
    by (fastforce simp: ExtractReferences_def var_value_def)
  moreover obtain z where z: "variables n = Some z" using assms(3) by (auto simp: refers_def dest: tranclD)
  ultimately have "defined i variables z" using refers_defined [OF cyc y] by blast
  with refers_defined [OF assms(3) z _ z] show False by blast
qed

theorem interpolate_cycle_witness:
  "\<exists>e refs. Interpolate 10 ''$C'' [''A'' \<mapsto> ''x${B}'', ''B'' \<mapsto> ''$A'', ''C'' \<mapsto> ''$A''] = Inl (e, refs)"
proof (rule interpolate_cycle)
  let ?vs = "[''A'' \<mapsto> ''x${B}'', ''B'' \<mapsto> ''$A'', ''C'' \<mapsto> ''$A'']"
  have "map vm_Name (findAllVariables ''x${B}'') = [''B'']" "map vm_Name (findAllVariables ''$A'') = [''A'']" by code_simp+
  then have names: "vm_Name ` set (findAllVariables ''x${B}'') = {''B''}" "vm_Name ` set (findAllVariables ''$A'') = {''A''}"
    by (metis list.set(1,2) set_map)+
  have "(''A'', ''B'') \<in> refers ?vs" "(''B'', ''A'') \<in> refers ?vs" "(''C'', ''A'') \<in> refers ?vs"
    by (simp_all add: refers_def names)
  then show "(''C'', ''A'') \<in> (refers ?vs)\<^sup>*" "(''A'', ''A'') \<in> (refers ?vs)\<^sup>+" by auto
  show "''C'' \<in> set (ExtractReferences ''$C'')" by code_simp
qed

text \<open>
  A dollar that starts no reference can turn text into one: the replacement of a later reference then
  hits the wrong place.
\<close>

lemma untidy_replacement:
  "map_sum fst fst (Interpolate 10 ''${P}A $A'' [''P'' \<mapsto> ''x$'', ''A'' \<mapsto> ''v'']) = Inr ''xv $A''"
  by code_simp

text \<open>References that all have an operator are none for \<^verbatim>\<open>HasReferences\<close>.\<close>

lemma operator_refs_missed: "findAllVariables ''${KEY:?missing}'' \<noteq> [] \<and> \<not> HasReferences ''${KEY:?missing}''"
  by code_simp

end
