(* ===== verification/Config_Sync.thy ===== *)
theory Config_Sync
  imports Interpolation "HOL-Library.Char_ord" "HOL-Library.List_Lexorder"
begin

text \<open>
  Applying the configuration variables to containers: \<^verbatim>\<open>internal/services/config/sync.go\<close> over
  \<^verbatim>\<open>ResolveForContainer\<close> (\<^verbatim>\<open>internal/repository/postgres/config_variable_repo.go\<close>) and the table of
  syncs (\<^verbatim>\<open>config_audit_repo.go\<close>).

  A table is the list of its rows. \<open>sio_ok n\<close> tells whether the \<open>n\<close>th statement of an operation is
  answered, \<open>sio_now\<close> is the clock. SHA-256 is a parameter. Where the program walks a Go map, whose
  order is not determined, the model takes the order of the rows.
\<close>

section \<open>Rows\<close>

record config_sync =
  cs_ID :: uuid
  cs_HostID :: uuid
  cs_ContainerID :: string
  cs_ContainerName :: string
  cs_TemplateID :: "uuid option"
  cs_TemplateName :: "string option"
  cs_Status :: string
  cs_VariablesHash :: string
  cs_SyncedAt :: "gotime option"
  cs_ErrorMessage :: "string option"
  cs_CreatedAt :: gotime
  cs_UpdatedAt :: gotime

record config_db =
  config_variables :: "config_variable list"
  config_templates :: "(uuid \<times> string) list"
  config_syncs :: "config_sync list"
  config_audit :: "(string \<times> string \<times> string option) list"

datatype config_error = ConfigDatabase | ConfigNotFound string | ConfigInvalid string

record sync_io =
  sio_ok :: "nat \<Rightarrow> bool"
  sio_now :: "nat \<Rightarrow> gotime"
  sio_id :: uuid
  sio_fresh :: "string \<Rightarrow> uuid"

definition sync_after :: "nat \<Rightarrow> sync_io \<Rightarrow> sync_io" where
  "sync_after n io = io\<lparr>sio_ok := (\<lambda>k. sio_ok io (n + k)), sio_now := (\<lambda>k. sio_now io (n + k))\<rparr>"

section \<open>The statements\<close>

definition template_GetByID :: "bool \<Rightarrow> uuid \<Rightarrow> config_db \<Rightarrow> config_error + string" where
  "template_GetByID ok i db =
     (if \<not> ok then Inl ConfigDatabase
      else case find (\<lambda>t. fst t = i) (config_templates db) of None \<Rightarrow> Inl (ConfigNotFound ''template'') | Some t \<Rightarrow> Inr (snd t))"

text \<open>
  The variables of a container: of the rows with one name the container's own comes first, then the
  template's, then the global one.
\<close>

definition has_scope :: "string \<Rightarrow> string option \<Rightarrow> config_variable \<Rightarrow> bool" where
  "has_scope scope i v \<longleftrightarrow> cv_Scope v = scope \<and> (i = None \<or> cv_ScopeID v = i)"

definition resolve_name :: "string \<Rightarrow> string \<Rightarrow> config_variable list \<Rightarrow> string \<Rightarrow> config_variable option" where
  "resolve_name containerID templateName rows n =
     (let named = filter (\<lambda>v. cv_Name v = n) rows in
      case find (has_scope ''container'' (Some containerID)) named of
        Some v \<Rightarrow> Some v
      | None \<Rightarrow>
          (case find (has_scope ''template'' (Some templateName)) named of
             Some v \<Rightarrow> Some v
           | None \<Rightarrow> find (has_scope ''global'' None) named))"

definition ResolveForContainer ::
    "bool \<Rightarrow> string \<Rightarrow> string option \<Rightarrow> config_db \<Rightarrow> config_error + config_variable list" where
  "ResolveForContainer ok containerID templateName db =
     (if \<not> ok then Inl ConfigDatabase
      else let rows = config_variables db; t = (case templateName of None \<Rightarrow> [] | Some t \<Rightarrow> t)
           in Inr (List.map_filter (resolve_name containerID t rows) (sort (remdups (map cv_Name rows)))))"

definition same_container :: "uuid \<Rightarrow> string \<Rightarrow> config_sync \<Rightarrow> bool" where
  "same_container host c s \<longleftrightarrow> cs_HostID s = host \<and> cs_ContainerID s = c"

definition sync_GetByContainer :: "bool \<Rightarrow> uuid \<Rightarrow> string \<Rightarrow> config_db \<Rightarrow> config_error + config_sync option" where
  "sync_GetByContainer ok host c db =
     (if \<not> ok then Inl ConfigDatabase else Inr (find (same_container host c) (config_syncs db)))"

text \<open>\<^verbatim>\<open>INSERT \<dots> ON CONFLICT (host_id, container_id) DO UPDATE\<close>\<close>

definition sync_Create :: "bool \<Rightarrow> gotime \<Rightarrow> config_sync \<Rightarrow> config_db \<Rightarrow> config_error option \<times> config_db" where
  "sync_Create ok now s db =
     (let s = s\<lparr>cs_UpdatedAt := now\<rparr> in
      if \<not> ok then (Some ConfigDatabase, db)
      else if \<exists>r \<in> set (config_syncs db). same_container (cs_HostID s) (cs_ContainerID s) r
      then (None, db\<lparr>config_syncs := map (\<lambda>r. if same_container (cs_HostID s) (cs_ContainerID s) r
              then s\<lparr>cs_ID := cs_ID r, cs_CreatedAt := cs_CreatedAt r\<rparr> else r) (config_syncs db)\<rparr>)
      else if \<exists>r \<in> set (config_syncs db). cs_ID r = cs_ID s then (Some ConfigDatabase, db)
      else (None, db\<lparr>config_syncs := config_syncs db @ [s]\<rparr>))"

definition sync_UpdateStatus ::
    "bool \<Rightarrow> gotime \<Rightarrow> uuid \<Rightarrow> string \<Rightarrow> string option \<Rightarrow> config_db \<Rightarrow> config_error option \<times> config_db" where
  "sync_UpdateStatus ok now i status msg db =
     (if \<not> ok then (Some ConfigDatabase, db)
      else if i \<notin> cs_ID ` set (config_syncs db) then (Some (ConfigNotFound ''config sync''), db)
      else (None, db\<lparr>config_syncs := map (\<lambda>r. if cs_ID r = i
              then (if status = ''synced''
                    then r\<lparr>cs_Status := status, cs_SyncedAt := Some now, cs_ErrorMessage := None, cs_UpdatedAt := now\<rparr>
                    else r\<lparr>cs_Status := status, cs_ErrorMessage := msg, cs_UpdatedAt := now\<rparr>)
              else r) (config_syncs db)\<rparr>))"

definition DeleteByContainer :: "bool \<Rightarrow> uuid \<Rightarrow> string \<Rightarrow> config_db \<Rightarrow> config_error option \<times> config_db" where
  "DeleteByContainer ok host c db =
     (if \<not> ok then (Some ConfigDatabase, db)
      else (None, db\<lparr>config_syncs := filter (\<lambda>s. \<not> same_container host c s) (config_syncs db)\<rparr>))"

section \<open>Options and results\<close>

record sync_options =
  so_HostID :: uuid
  so_ContainerID :: string
  so_ContainerName :: string
  so_TemplateID :: "uuid option"
  so_TemplateName :: "string option"
  so_Overrides :: "(string \<times> string) list"
  so_Force :: bool
  so_DryRun :: bool

record diff_entry =
  de_Name :: string
  de_OldValue :: string
  de_NewValue :: string
  de_IsSecret :: bool

record config_diff =
  cd_ContainerID :: string
  cd_ContainerName :: string
  cd_Added :: "diff_entry list"
  cd_Modified :: "diff_entry list"
  cd_Removed :: "diff_entry list"
  cd_RequiresRestart :: bool

record sync_result =
  sr_Success :: bool
  sr_ContainerID :: string
  sr_ContainerName :: string
  sr_TemplateName :: "string option"
  sr_VariablesHash :: string
  sr_RequiresRestart :: bool
  sr_Diff :: "config_diff option"
  sr_Variables :: "config_variable list"
  sr_ErrorMessage :: "string option"

section \<open>Helpers\<close>

text \<open>A Go map from names to rows keeps the last row of a name.\<close>

fun last_by_name :: "config_variable list \<Rightarrow> config_variable list" where
  "last_by_name [] = []"
| "last_by_name (v # vs) = (if cv_Name v \<in> cv_Name ` set vs then last_by_name vs else v # last_by_name vs)"

definition overridden :: "(string \<times> string) list \<Rightarrow> config_variable \<Rightarrow> config_variable" where
  "overridden overrides v = (case map_of overrides (cv_Name v) of None \<Rightarrow> v | Some x \<Rightarrow> v\<lparr>cv_Value := x\<rparr>)"

definition new_variable :: "(string \<Rightarrow> uuid) \<Rightarrow> string \<times> string \<Rightarrow> config_variable" where
  "new_variable fresh p =
     \<lparr>cv_ID = fresh (fst p), cv_Name = fst p, cv_Value = snd p, cv_Type = ''plain'', cv_Scope = ''container'',
      cv_ScopeID = None, cv_Description = None, cv_IsRequired = False, cv_DefaultValue = None\<rparr>"

definition applyOverrides ::
    "(string \<Rightarrow> uuid) \<Rightarrow> config_variable list \<Rightarrow> (string \<times> string) list \<Rightarrow> config_variable list" where
  "applyOverrides fresh vs overrides =
     sort_key cv_Name (map (overridden overrides) (last_by_name vs) @
       map (new_variable fresh) (filter (\<lambda>p. fst p \<notin> cv_Name ` set vs) overrides))"

definition hash_line :: "config_variable \<Rightarrow> string" where
  "hash_line v = cv_Name v @ ''='' @ cv_Value v @ [newline]"

definition computeVariablesHash :: "(string \<Rightarrow> string) \<Rightarrow> config_variable list \<Rightarrow> string" where
  "computeVariablesHash sha256 vs = sha256 (concat (map hash_line (sort_key cv_Name vs)))"

definition maskValue :: "string \<Rightarrow> string \<Rightarrow> string" where
  "maskValue v varType = (if varType = ''secret'' then ''********'' else v)"

text \<open>The row a Go map built from the rows has for a name.\<close>

definition row_named :: "config_variable list \<Rightarrow> string \<Rightarrow> config_variable option" where
  "row_named vs n = find (\<lambda>v. cv_Name v = n) (rev vs)"

definition diff_added :: "config_variable list \<Rightarrow> config_variable \<Rightarrow> diff_entry list" where
  "diff_added old v =
     (case row_named old (cv_Name v) of
        None \<Rightarrow> [\<lparr>de_Name = cv_Name v, de_OldValue = [], de_NewValue = maskValue (cv_Value v) (cv_Type v),
                  de_IsSecret = (cv_Type v = ''secret'')\<rparr>]
      | Some o' \<Rightarrow> [])"

definition diff_modified :: "config_variable list \<Rightarrow> config_variable \<Rightarrow> diff_entry list" where
  "diff_modified old v =
     (case row_named old (cv_Name v) of
        None \<Rightarrow> []
      | Some o' \<Rightarrow>
          if cv_Value o' \<noteq> cv_Value v
          then [\<lparr>de_Name = cv_Name v, de_OldValue = maskValue (cv_Value o') (cv_Type o'),
                 de_NewValue = maskValue (cv_Value v) (cv_Type v), de_IsSecret = (cv_Type v = ''secret'')\<rparr>]
          else [])"

definition diff_removed :: "config_variable list \<Rightarrow> config_variable \<Rightarrow> diff_entry list" where
  "diff_removed new v =
     (case row_named new (cv_Name v) of
        None \<Rightarrow> [\<lparr>de_Name = cv_Name v, de_OldValue = maskValue (cv_Value v) (cv_Type v), de_NewValue = [],
                  de_IsSecret = (cv_Type v = ''secret'')\<rparr>]
      | Some o' \<Rightarrow> [])"

definition calculateDiff ::
    "bool \<Rightarrow> sync_options \<Rightarrow> config_sync \<Rightarrow> config_variable list \<Rightarrow> config_db \<Rightarrow> config_error + config_diff" where
  "calculateDiff ok opts existing new db =
     (case ResolveForContainer ok (so_ContainerID opts) (cs_TemplateName existing) db of
        Inl e \<Rightarrow> Inl e
      | Inr old \<Rightarrow>
          let added = concat (map (diff_added old) (last_by_name new));
              modified = concat (map (diff_modified old) (last_by_name new));
              removed = concat (map (diff_removed new) (last_by_name old))
          in Inr \<lparr>cd_ContainerID = so_ContainerID opts, cd_ContainerName = so_ContainerName opts, cd_Added = added,
                  cd_Modified = modified, cd_Removed = removed,
                  cd_RequiresRestart = (added \<noteq> [] \<or> modified \<noteq> [] \<or> removed \<noteq> [])\<rparr>)"

section \<open>The service\<close>

text \<open>A variable that cannot be interpolated keeps its text.\<close>

definition interpolate_variable :: "nat \<Rightarrow> variables \<Rightarrow> config_variable \<Rightarrow> config_variable" where
  "interpolate_variable i vs v =
     (case Interpolate i (cv_Value v) vs of Inl e \<Rightarrow> v | Inr (x, refs) \<Rightarrow> v\<lparr>cv_Value := x\<rparr>)"

definition template_of :: "sync_io \<Rightarrow> sync_options \<Rightarrow> config_db \<Rightarrow> config_error + string option" where
  "template_of io opts db =
     (case so_TemplateID opts of
        Some i \<Rightarrow> map_sum id Some (template_GetByID (sio_ok io 0) i db)
      | None \<Rightarrow> Inr (so_TemplateName opts))"

definition wanted_variables ::
    "sync_io \<Rightarrow> sync_options \<Rightarrow> string option \<Rightarrow> config_db \<Rightarrow> config_error + config_variable list" where
  "wanted_variables io opts templateName db =
     (case ResolveForContainer (sio_ok io 1) (so_ContainerID opts) templateName db of
        Inl e \<Rightarrow> Inl e
      | Inr vs \<Rightarrow>
          let vs = (if so_Overrides opts \<noteq> [] then applyOverrides (sio_fresh io) vs (so_Overrides opts) else vs)
          in Inr (map (interpolate_variable NewInterpolator (var_map vs)) vs))"

definition existing_sync :: "sync_io \<Rightarrow> sync_options \<Rightarrow> config_db \<Rightarrow> config_sync option" where
  "existing_sync io opts db =
     (case sync_GetByContainer (sio_ok io 2) (so_HostID opts) (so_ContainerID opts) db of Inl e \<Rightarrow> None | Inr s \<Rightarrow> s)"

text \<open>The change against an earlier sync, when it can be computed, and whether a restart is due.\<close>

definition sync_change ::
    "sync_io \<Rightarrow> sync_options \<Rightarrow> config_sync option \<Rightarrow> config_variable list \<Rightarrow> config_db \<Rightarrow> config_diff option \<times> bool" where
  "sync_change io opts existing vs db =
     (case existing of
        None \<Rightarrow> (None, True)
      | Some s \<Rightarrow>
          (case calculateDiff (sio_ok io 3) opts s vs db of
             Inl e \<Rightarrow> (None, False) | Inr d \<Rightarrow> (Some d, cd_RequiresRestart d)))"

definition new_sync :: "sync_io \<Rightarrow> sync_options \<Rightarrow> string option \<Rightarrow> string \<Rightarrow> config_sync option \<Rightarrow> config_sync" where
  "new_sync io opts templateName h existing =
     \<lparr>cs_ID = (case existing of None \<Rightarrow> sio_id io | Some s \<Rightarrow> cs_ID s), cs_HostID = so_HostID opts,
      cs_ContainerID = so_ContainerID opts, cs_ContainerName = so_ContainerName opts, cs_TemplateID = so_TemplateID opts,
      cs_TemplateName = templateName, cs_Status = ''pending'', cs_VariablesHash = h, cs_SyncedAt = None,
      cs_ErrorMessage = None, cs_CreatedAt = (case existing of None \<Rightarrow> sio_now io 0 | Some s \<Rightarrow> cs_CreatedAt s),
      cs_UpdatedAt = sio_now io 1\<rparr>"

definition logSyncAudit :: "bool \<Rightarrow> sync_options \<Rightarrow> string option \<Rightarrow> config_db \<Rightarrow> config_db" where
  "logSyncAudit ok opts templateName db =
     (if ok then db\<lparr>config_audit := config_audit db @ [(so_ContainerID opts, so_ContainerName opts, templateName)]\<rparr> else db)"

definition Sync ::
    "(string \<Rightarrow> string) \<Rightarrow> sync_io \<Rightarrow> sync_options \<Rightarrow> config_db \<Rightarrow> (config_error + sync_result) \<times> config_db" where
  "Sync sha256 io opts db =
     (case template_of io opts db of
        Inl e \<Rightarrow> (Inl e, db)
      | Inr templateName \<Rightarrow>
          (case wanted_variables io opts templateName db of
             Inl e \<Rightarrow> (Inl e, db)
           | Inr vs \<Rightarrow>
               let h = computeVariablesHash sha256 vs;
                   result = (\<lambda>restart diff. \<lparr>sr_Success = True, sr_ContainerID = so_ContainerID opts,
                      sr_ContainerName = so_ContainerName opts, sr_TemplateName = templateName, sr_VariablesHash = h,
                      sr_RequiresRestart = restart, sr_Diff = diff, sr_Variables = vs, sr_ErrorMessage = None\<rparr>);
                   existing = existing_sync io opts db
               in if map_option cs_VariablesHash existing = Some h \<and> \<not> so_Force opts
                  then (Inr (result False None), db)
                  else case sync_change io opts existing vs db of
                         (diff, restart) \<Rightarrow>
                           if so_DryRun opts then (Inr (result restart diff), db)
                           else (case sync_Create (sio_ok io 4) (sio_now io 2) (new_sync io opts templateName h existing) db of
                                   (Some e, db) \<Rightarrow> (Inl e, db)
                                 | (None, db) \<Rightarrow>
                                     (Inr (result restart diff), logSyncAudit (sio_ok io 5) opts templateName db))))"

definition PreviewSync ::
    "(string \<Rightarrow> string) \<Rightarrow> sync_io \<Rightarrow> sync_options \<Rightarrow> config_db \<Rightarrow> (config_error + sync_result) \<times> config_db" where
  "PreviewSync sha256 io opts db = Sync sha256 io (opts\<lparr>so_DryRun := True\<rparr>) db"

definition MarkSynced :: "bool \<Rightarrow> gotime \<Rightarrow> uuid \<Rightarrow> config_db \<Rightarrow> config_error option \<times> config_db" where
  "MarkSynced ok now i db = sync_UpdateStatus ok now i ''synced'' None db"

definition MarkFailed :: "bool \<Rightarrow> gotime \<Rightarrow> uuid \<Rightarrow> string \<Rightarrow> config_db \<Rightarrow> config_error option \<times> config_db" where
  "MarkFailed ok now i msg db = sync_UpdateStatus ok now i ''failed'' (Some msg) db"

definition RemoveSync :: "bool \<Rightarrow> uuid \<Rightarrow> string \<Rightarrow> config_db \<Rightarrow> config_error option \<times> config_db" where
  "RemoveSync ok host c db = DeleteByContainer ok host c db"

text \<open>The first variable that cannot be applied.\<close>

definition required_missing :: "config_variable \<Rightarrow> bool" where
  "required_missing v \<longleftrightarrow> cv_IsRequired v \<and> cv_Value v = [] \<and> cv_DefaultValue v = None"

fun first_invalid :: "variables \<Rightarrow> config_variable list \<Rightarrow> config_error option" where
  "first_invalid vs [] = None"
| "first_invalid vs (v # rest) =
     (if HasReferences (cv_Value v)
      then (case ValidateInterpolation NewInterpolator (cv_Value v) vs of
              Some e \<Rightarrow> Some (ConfigInvalid (''variable '' @ cv_Name v @ '' has invalid interpolation: '' @ error_text e))
            | None \<Rightarrow> first_invalid vs rest)
      else first_invalid vs rest)"

definition ValidateVariablesForSync :: "config_variable list \<Rightarrow> config_error option" where
  "ValidateVariablesForSync vs =
     (case find required_missing vs of
        Some v \<Rightarrow> Some (ConfigInvalid (''required variable '' @ cv_Name v @ '' has no value''))
      | None \<Rightarrow> first_invalid (var_map vs) vs)"

text \<open>\<^verbatim>\<open>BulkSync\<close>: a container that cannot be synchronised does not stop the others.\<close>

definition failed_result :: "string \<Rightarrow> (config_error \<Rightarrow> string) \<Rightarrow> config_error \<Rightarrow> sync_result" where
  "failed_result c describe e =
     \<lparr>sr_Success = False, sr_ContainerID = c, sr_ContainerName = [], sr_TemplateName = None, sr_VariablesHash = [],
      sr_RequiresRestart = False, sr_Diff = None, sr_Variables = [], sr_ErrorMessage = Some (describe e)\<rparr>"

fun bulk_loop ::
    "(string \<Rightarrow> string) \<Rightarrow> (config_error \<Rightarrow> string) \<Rightarrow> (string \<Rightarrow> sync_io) \<Rightarrow> sync_options \<Rightarrow> string list \<Rightarrow> config_db \<Rightarrow>
     sync_result list \<times> config_db" where
  "bulk_loop sha256 describe io opts [] db = ([], db)"
| "bulk_loop sha256 describe io opts (c # cs) db =
     (case Sync sha256 (io c) (opts\<lparr>so_ContainerID := c\<rparr>) db of
        (x, db) \<Rightarrow>
          (case bulk_loop sha256 describe io opts cs db of
             (rs, db) \<Rightarrow> ((case x of Inl e \<Rightarrow> failed_result c describe e | Inr r \<Rightarrow> r) # rs, db)))"

definition BulkSync ::
    "(string \<Rightarrow> string) \<Rightarrow> (config_error \<Rightarrow> string) \<Rightarrow> bool \<Rightarrow> (string \<Rightarrow> sync_io) \<Rightarrow> uuid \<Rightarrow> uuid option \<Rightarrow>
     (string \<times> string) list \<Rightarrow> bool \<Rightarrow> string list \<Rightarrow> config_db \<Rightarrow> (config_error + sync_result list) \<times> config_db" where
  "BulkSync sha256 describe ok io host templateID overrides force ids db =
     (let run = (\<lambda>t. case bulk_loop sha256 describe io
            \<lparr>so_HostID = host, so_ContainerID = [], so_ContainerName = [], so_TemplateID = templateID, so_TemplateName = t,
             so_Overrides = overrides, so_Force = force, so_DryRun = False\<rparr> ids db of (rs, db) \<Rightarrow> (Inr rs, db))
      in case templateID of
           None \<Rightarrow> run None
         | Some i \<Rightarrow> (case template_GetByID ok i db of Inl e \<Rightarrow> (Inl e, db) | Inr t \<Rightarrow> run (Some t)))"

section \<open>What a hash depends on\<close>

definition name_value :: "config_variable \<Rightarrow> string \<times> string" where
  "name_value v = (cv_Name v, cv_Value v)"

lemma sort_key_map: "map g (sort_key (f \<circ> g) xs) = sort_key f (map g xs)"
proof -
  have "map g (insort_key (f \<circ> g) x xs) = insort_key f (g x) (map g xs)" for x xs
    by (induction xs) auto
  then show ?thesis by (induction xs) simp_all
qed

lemma name_value_sort: "map name_value (sort_key cv_Name vs) = sort_key fst (map name_value vs)"
proof -
  have "cv_Name = fst \<circ> name_value" by (auto simp: name_value_def)
  then show ?thesis using sort_key_map [of name_value fst vs] by simp
qed

lemma hash_name_value:
  assumes "map name_value vs = map name_value ws"
  shows "computeVariablesHash H vs = computeVariablesHash H ws"
proof -
  have line: "hash_line = (\<lambda>p. fst p @ ''='' @ snd p @ [newline]) \<circ> name_value"
    by (auto simp: hash_line_def name_value_def)
  have "map name_value (sort_key cv_Name vs) = map name_value (sort_key cv_Name ws)"
    by (simp add: name_value_sort assms)
  then have "map hash_line (sort_key cv_Name vs) = map hash_line (sort_key cv_Name ws)"
    unfolding line map_map [symmetric] by simp
  then show ?thesis by (simp only: computeVariablesHash_def)
qed

lemma var_map_name_value:
  assumes "map name_value vs = map name_value ws"
  shows "var_map vs = var_map ws"
proof -
  have "foldl (\<lambda>m v. m(cv_Name v \<mapsto> cv_Value v)) m xs = foldl (\<lambda>m p. m(fst p \<mapsto> snd p)) m (map name_value xs)"
    for m :: variables and xs
    by (induction xs arbitrary: m) (simp_all add: name_value_def)
  with assms show ?thesis by (simp add: var_map_def)
qed

lemma interpolated_name_value:
  assumes "map name_value vs = map name_value ws"
  shows "map name_value (map (interpolate_variable i (var_map vs)) vs) =
    map name_value (map (interpolate_variable i (var_map ws)) ws)"
proof -
  let ?f = "\<lambda>m (n, x). (n, case Interpolate i x m of Inl e \<Rightarrow> x | Inr (y, refs) \<Rightarrow> y)"
  have "name_value (interpolate_variable i m v) = ?f m (name_value v)" for m v
    by (simp add: name_value_def interpolate_variable_def split: sum.split prod.split)
  then have "map name_value (map (interpolate_variable i m) xs) = map (?f m) (map name_value xs)" for m xs
    unfolding map_map by (simp only: comp_def)
  then show ?thesis by (simp only: assms var_map_name_value [OF assms])
qed

lemma overrides_name_value:
  "map name_value (applyOverrides fresh vs ov) = map name_value (applyOverrides fresh' vs ov)"
  unfolding applyOverrides_def name_value_sort map_append map_map
  by (simp add: name_value_def new_variable_def comp_def)

text \<open>The variables wanted for a container do not depend on the table of syncs, and their hash not on fresh ids.\<close>

lemma wanted_hash:
  assumes "wanted_variables io opts t db = Inr vs" "config_variables db' = config_variables db" "sio_ok io' 1"
  shows "\<exists>ws. wanted_variables io' opts t db' = Inr ws \<and> computeVariablesHash H ws = computeVariablesHash H vs"
proof -
  obtain rows where rows: "ResolveForContainer True (so_ContainerID opts) t db = Inr rows"
    "vs = map (interpolate_variable NewInterpolator (var_map (if so_Overrides opts \<noteq> [] then applyOverrides (sio_fresh io) rows (so_Overrides opts) else rows)))
      (if so_Overrides opts \<noteq> [] then applyOverrides (sio_fresh io) rows (so_Overrides opts) else rows)"
    using assms(1) by (auto simp: wanted_variables_def ResolveForContainer_def Let_def split: if_splits)
  have "ResolveForContainer (sio_ok io' 1) (so_ContainerID opts) t db' = Inr rows"
    using rows(1) assms(2,3) by (simp add: ResolveForContainer_def)
  with rows(2) overrides_name_value [of "sio_fresh io'" rows "so_Overrides opts" "sio_fresh io"] show ?thesis
    by (auto simp: wanted_variables_def Let_def intro!: hash_name_value interpolated_name_value)
qed

section \<open>The row of a container\<close>

lemma find_map_same:
  "(\<And>r. P r \<Longrightarrow> P (g r)) \<Longrightarrow> find P (map (\<lambda>r. if P r then g r else r) xs) = map_option g (find P xs)"
  by (induction xs) auto

lemma find_snoc: "find P (xs @ [x]) = (case find P xs of None \<Rightarrow> if P x then Some x else None | Some y \<Rightarrow> Some y)"
  by (induction xs) auto

lemma sync_Create_row:
  assumes "sync_Create ok now s db = (None, db')"
  shows "\<exists>r. find (same_container (cs_HostID s) (cs_ContainerID s)) (config_syncs db') = Some r \<and>
    cs_VariablesHash r = cs_VariablesHash s"
proof -
  let ?P = "same_container (cs_HostID s) (cs_ContainerID s)"
  let ?g = "\<lambda>r. s\<lparr>cs_ID := cs_ID r, cs_CreatedAt := cs_CreatedAt r, cs_UpdatedAt := now\<rparr>"
  show ?thesis
  proof (cases "\<exists>r \<in> set (config_syncs db). ?P r")
    case True
    then obtain r where r: "find ?P (config_syncs db) = Some r"
      by (metis find_None_iff not_None_eq)
    have db': "config_syncs db' = map (\<lambda>r. if ?P r then ?g r else r) (config_syncs db)"
      using assms True by (auto simp: sync_Create_def Let_def split: if_splits)
    have "find ?P (config_syncs db') = Some (?g r)"
      unfolding db' using r by (subst find_map_same) (simp_all add: same_container_def)
    then show ?thesis by simp
  next
    case False
    then have "find ?P (config_syncs db) = None" by (metis find_None_iff)
    moreover have "config_syncs db' = config_syncs db @ [s\<lparr>cs_UpdatedAt := now\<rparr>]"
      using assms False by (auto simp: sync_Create_def Let_def split: if_splits)
    ultimately show ?thesis by (simp add: find_snoc same_container_def)
  qed
qed

section \<open>The differences of a configuration from itself\<close>

lemma last_by_name_row: "v \<in> set (last_by_name vs) \<Longrightarrow> row_named vs (cv_Name v) = Some v"
proof (induction vs)
  case (Cons w vs)
  have snoc: "row_named (w # vs) n = (case row_named vs n of None \<Rightarrow> if cv_Name w = n then Some w else None | Some u \<Rightarrow> Some u)" for n
    by (simp add: row_named_def find_snoc)
  show ?case
  proof (cases "v \<in> set (last_by_name vs)")
    case True
    with Cons.IH snoc show ?thesis by simp
  next
    case False
    with Cons.prems have "v = w" "cv_Name w \<notin> cv_Name ` set vs" by (auto split: if_splits)
    then have "row_named vs (cv_Name v) = None" unfolding row_named_def find_None_iff by (metis imageI set_rev)
    with \<open>v = w\<close> show ?thesis by (simp add: snoc)
  qed
qed simp

lemma set_last_by_name: "set (last_by_name vs) \<subseteq> set vs"
  by (induction vs) auto

lemma no_difference:
  "concat (map (diff_added vs) (last_by_name vs)) = []" "concat (map (diff_modified vs) (last_by_name vs)) = []"
  "concat (map (diff_removed vs) (last_by_name vs)) = []"
  by (auto simp: diff_added_def diff_modified_def diff_removed_def last_by_name_row)

lemma interpolate_plain: "findAllVariables (cv_Value v) = [] \<Longrightarrow> interpolate_variable i m v = v"
  by (simp add: interpolate_variable_def Interpolate_def interpolateWithDepth.simps)

section \<open>A sample database\<close>

definition demo_variable :: "string \<Rightarrow> string \<Rightarrow> config_variable" where
  "demo_variable n x =
     \<lparr>cv_ID = 1, cv_Name = n, cv_Value = x, cv_Type = ''plain'', cv_Scope = ''global'', cv_ScopeID = None,
      cv_Description = None, cv_IsRequired = False, cv_DefaultValue = None\<rparr>"

definition demo_options :: sync_options where
  "demo_options =
     \<lparr>so_HostID = 3, so_ContainerID = ''c1'', so_ContainerName = ''web'', so_TemplateID = None, so_TemplateName = None,
      so_Overrides = [], so_Force = False, so_DryRun = False\<rparr>"

definition demo_sync_io :: sync_io where
  "demo_sync_io = \<lparr>sio_ok = (\<lambda>n. True), sio_now = (\<lambda>n. 5), sio_id = 9, sio_fresh = (\<lambda>n. 0)\<rparr>"

definition demo_db :: "string \<Rightarrow> config_db" where
  "demo_db level =
     \<lparr>config_variables = [demo_variable ''LEVEL'' level, demo_variable ''MODE'' ''fast''], config_templates = [], config_syncs = [],
      config_audit = []\<rparr>"

section \<open>Properties\<close>

text \<open>
  A sync is done once: after a sync of a container has succeeded, another one with the same options
  and not forced, on the same variables, changes nothing and reports success without a restart.
\<close>

theorem sync_idempotent:
  assumes "Sync H io opts db = (Inr r, db')" "\<not> so_DryRun opts" "\<not> so_Force opts"
    and "sio_ok io' 0" "sio_ok io' 1" "sio_ok io' 2"
  shows "\<exists>r'. Sync H io' opts db' = (Inr r', db') \<and> sr_Success r' \<and> \<not> sr_RequiresRestart r' \<and>
    sr_VariablesHash r' = sr_VariablesHash r"
proof -
  obtain t where t: "template_of io opts db = Inr t"
    using assms(1) by (auto simp: Sync_def split: sum.splits)
  obtain vs where vs: "wanted_variables io opts t db = Inr vs"
    using assms(1) t by (auto simp: Sync_def split: sum.splits)
  let ?h = "computeVariablesHash H vs" and ?P = "same_container (so_HostID opts) (so_ContainerID opts)"
  have "(\<exists>s. find ?P (config_syncs db') = Some s \<and> cs_VariablesHash s = ?h) \<and>
      config_variables db' = config_variables db \<and> config_templates db' = config_templates db \<and> sr_VariablesHash r = ?h"
  proof (cases "\<exists>s. existing_sync io opts db = Some s \<and> cs_VariablesHash s = ?h")
    case True
    then have "r = r\<lparr>sr_VariablesHash := ?h\<rparr>" "db' = db"
      using assms(1,3) t vs by (auto simp: Sync_def Let_def)
    moreover have "\<exists>s. find ?P (config_syncs db) = Some s \<and> cs_VariablesHash s = ?h"
      using True by (auto simp: existing_sync_def sync_GetByContainer_def split: if_splits)
    ultimately show ?thesis by (metis sync_result.select_convs(5) sync_result.surjective sync_result.update_convs(5))
  next
    case False
    let ?s = "new_sync io opts t ?h (existing_sync io opts db)"
    obtain diff restart where change: "sync_change io opts (existing_sync io opts db) vs db = (diff, restart)" by fastforce
    obtain e db1 where create: "sync_Create (sio_ok io 4) (sio_now io 2) ?s db = (e, db1)" by fastforce
    have "e = None"
      using assms(1,2) t vs False change create by (auto simp: Sync_def Let_def split: option.splits)
    then have run: "db' = logSyncAudit (sio_ok io 5) opts t db1" "sr_VariablesHash r = ?h"
      using assms(1,2) t vs False change create by (auto simp: Sync_def Let_def)
    have "\<exists>s. find ?P (config_syncs db1) = Some s \<and> cs_VariablesHash s = ?h"
      using sync_Create_row [of "sio_ok io 4" "sio_now io 2" ?s db db1] create \<open>e = None\<close> by (simp add: new_sync_def)
    moreover have "config_variables db1 = config_variables db" "config_templates db1 = config_templates db"
      using create by (auto simp: sync_Create_def Let_def split: if_splits)
    ultimately show ?thesis using run by (simp add: logSyncAudit_def)
  qed
  then obtain s where s: "find ?P (config_syncs db') = Some s" "cs_VariablesHash s = ?h"
    "config_variables db' = config_variables db" "config_templates db' = config_templates db" "sr_VariablesHash r = ?h" by blast
  have "template_of io' opts db' = Inr t"
    using t s(4) assms(4) by (auto simp: template_of_def template_GetByID_def split: option.splits if_splits)
  moreover obtain ws where "wanted_variables io' opts t db' = Inr ws" "computeVariablesHash H ws = ?h"
    using wanted_hash [OF vs s(3) assms(5)] by blast
  moreover have "existing_sync io' opts db' = Some s"
    using s(1) assms(6) by (simp add: existing_sync_def sync_GetByContainer_def)
  ultimately show ?thesis using s(2,5) assms(3) by (simp add: Sync_def Let_def)
qed

theorem sync_idempotent_witness:
  "\<exists>r db' r'. Sync id demo_sync_io demo_options (demo_db ''1'') = (Inr r, db') \<and> sr_RequiresRestart r \<and>
     Sync id demo_sync_io demo_options db' = (Inr r', db') \<and> \<not> sr_RequiresRestart r'"
proof -
  have "case_prod (\<lambda>x db. case_sum (\<lambda>e. False) sr_RequiresRestart x) (Sync id demo_sync_io demo_options (demo_db ''1''))" by code_simp
  then obtain r db' where run: "Sync id demo_sync_io demo_options (demo_db ''1'') = (Inr r, db')" "sr_RequiresRestart r"
    by (auto split: sum.splits)
  from sync_idempotent [OF run(1), of demo_sync_io] run show ?thesis
    by (auto simp: demo_options_def demo_sync_io_def)
qed

text \<open>
  A changed variable restarts nothing: when a variable has been given a new plain value since the
  last sync, so that the hash differs, the next sync finds no difference and asks for no restart,
  because it compares the variables with themselves; it then stores the new hash.
\<close>

theorem sync_misses_restart:
  assumes "ResolveForContainer True (so_ContainerID opts) (so_TemplateName opts) db = Inr vs"
    and "\<forall>v \<in> set vs. findAllVariables (cv_Value v) = []" "so_Overrides opts = []" "so_TemplateID opts = None"
    and "find (same_container (so_HostID opts) (so_ContainerID opts)) (config_syncs db) = Some s"
    and "cs_TemplateName s = so_TemplateName opts" "cs_VariablesHash s \<noteq> computeVariablesHash H vs" "\<forall>n. sio_ok io n"
  shows "\<exists>r db' d s'. Sync H io opts db = (Inr r, db') \<and> sr_Success r \<and> \<not> sr_RequiresRestart r \<and>
    sr_Diff r = Some d \<and> cd_Added d = [] \<and> cd_Modified d = [] \<and> cd_Removed d = [] \<and>
    (so_DryRun opts \<or> (find (same_container (so_HostID opts) (so_ContainerID opts)) (config_syncs db') = Some s' \<and>
       cs_VariablesHash s' = computeVariablesHash H vs))"
proof -
  let ?P = "same_container (so_HostID opts) (so_ContainerID opts)" and ?h = "computeVariablesHash H vs"
  have "map (interpolate_variable NewInterpolator (var_map vs)) vs = vs"
    using assms(2) by (simp add: map_idI interpolate_plain)
  then have wanted: "wanted_variables io opts (so_TemplateName opts) db = Inr vs"
    using assms(1,3,8) by (simp add: wanted_variables_def)
  have existing: "existing_sync io opts db = Some s"
    using assms(5,8) by (simp add: existing_sync_def sync_GetByContainer_def)
  let ?d = "\<lparr>cd_ContainerID = so_ContainerID opts, cd_ContainerName = so_ContainerName opts, cd_Added = [], cd_Modified = [],
    cd_Removed = [], cd_RequiresRestart = False\<rparr>"
  have change: "sync_change io opts (Some s) vs db = (Some ?d, False)"
    using assms(1,6,8) by (simp add: sync_change_def calculateDiff_def no_difference Let_def)
  let ?new = "new_sync io opts (so_TemplateName opts) ?h (Some s)"
  obtain e db1 where create: "sync_Create (sio_ok io 4) (sio_now io 2) ?new db = (e, db1)" by fastforce
  have "\<exists>r \<in> set (config_syncs db). ?P r" using assms(5) by (auto simp: find_Some_iff)
  then have "e = None"
    using create assms(8) by (auto simp: sync_Create_def new_sync_def Let_def)
  with create obtain s' where s': "find ?P (config_syncs db1) = Some s'" "cs_VariablesHash s' = ?h"
    using sync_Create_row [of "sio_ok io 4" "sio_now io 2" ?new db db1] by (auto simp: new_sync_def)
  show ?thesis
  proof (cases "so_DryRun opts")
    case True
    then show ?thesis using assms(4,7) wanted existing change
      by (simp add: Sync_def template_of_def Let_def)
  next
    case False
    then show ?thesis using assms(4,7) wanted existing change create s' \<open>e = None\<close>
      by (simp add: Sync_def template_of_def logSyncAudit_def Let_def)
  qed
qed

theorem sync_misses_restart_witness:
  "let db1 = snd (Sync id demo_sync_io demo_options (demo_db ''1''));
       db2 = db1\<lparr>config_variables := config_variables (demo_db ''2'')\<rparr> in
   \<exists>r db'. Sync id demo_sync_io demo_options db2 = (Inr r, db') \<and> \<not> sr_RequiresRestart r"
proof -
  let ?db1 = "snd (Sync id demo_sync_io demo_options (demo_db ''1''))"
  let ?db2 = "?db1\<lparr>config_variables := config_variables (demo_db ''2'')\<rparr>"
  let ?vs = "[demo_variable ''LEVEL'' ''2'', demo_variable ''MODE'' ''fast'']"
  let ?found = "find (same_container (so_HostID demo_options) (so_ContainerID demo_options)) (config_syncs ?db2)"
  have "ResolveForContainer True ''c1'' None ?db2 = Inr ?vs" by code_simp
  then have vs: "ResolveForContainer True (so_ContainerID demo_options) (so_TemplateName demo_options) ?db2 = Inr ?vs"
    by (simp add: demo_options_def)
  have "case_option False (\<lambda>s. cs_TemplateName s = None \<and> cs_VariablesHash s \<noteq> computeVariablesHash id ?vs) ?found" by code_simp
  then obtain s where s: "?found = Some s" "cs_TemplateName s = None" "cs_VariablesHash s \<noteq> computeVariablesHash id ?vs"
    by (auto split: option.splits)
  have plain: "findAllVariables ''2'' = []" "findAllVariables ''fast'' = []" by code_simp+
  have "\<forall>v \<in> set ?vs. findAllVariables (cv_Value v) = []" by (simp add: demo_variable_def plain)
  moreover have "so_Overrides demo_options = []" "so_TemplateID demo_options = None" "so_TemplateName demo_options = None"
    by (simp_all add: demo_options_def)
  ultimately show ?thesis
    using sync_misses_restart [OF vs _ _ _ s(1) _ s(3), of demo_sync_io] s(2) unfolding Let_def
    by (fastforce simp: demo_sync_io_def)
qed

text \<open>
  The hash does not tell a newline in a value from the next variable: two configurations that differ
  have the same hash, so the second is taken for synchronised.
\<close>

lemma hash_ambiguous:
  "computeVariablesHash H [demo_variable ''A'' (''1'' @ [newline] @ ''B=2'')] =
   computeVariablesHash H [demo_variable ''A'' ''1'', demo_variable ''B'' ''2'']"
  by (simp add: computeVariablesHash_def hash_line_def demo_variable_def insort_key.simps)

end
