(* ===== verification/Image_Ref.thy ===== *)
theory Image_Ref
  imports Go_Strings
begin

text \<open>
  References to images: parsing and printing them
  (\<^verbatim>\<open>internal/services/update/checker.go\<close>, \<^verbatim>\<open>internal/models/update.go\<close>), putting another
  tag on them and finding the digest of an image
  (\<^verbatim>\<open>internal/services/update/service.go\<close>).
\<close>

section \<open>Errors\<close>

text \<open>
  An error of the application: its code and its message; \<open>Wrapped\<close> also has the text of the cause.
  \<open>ContextDone\<close> is the error of a context that is cancelled or past its deadline; \<open>Panicked\<close> ends the request with a panic.
\<close>

datatype app_error =
    AppError (err_code: string) (err_msg: string)
  | Wrapped (err_code: string) (err_msg: string) string
  | ContextDone
  | Panicked string

section \<open>Parsing\<close>

record image_ref =
  r_Registry :: string
  r_Namespace :: string
  r_Repository :: string
  r_Tag :: string
  r_Digest :: string

definition is_hex :: "char \<Rightarrow> bool" where
  "is_hex c \<longleftrightarrow> is_digit c \<or> (let b = of_char c :: nat in 65 \<le> b \<and> b \<le> 70 \<or> 97 \<le> b \<and> b \<le> 102)"

text \<open>\<^verbatim>\<open>@(sha256:[a-fA-F0-9]{64})$\<close>: what precedes the match and its group.\<close>

definition cut_digest :: "string \<Rightarrow> (string \<times> string) option" where
  "cut_digest s =
     (let n = length s - 72; d = drop n s in
      if length d = 72 \<and> take 8 d = ''@sha256:'' \<and> list_all is_hex (drop 8 d) then Some (take n s, tl d) else None)"

text \<open>\<^verbatim>\<open>:([^:@/]+)$\<close>: what precedes the match and its group.\<close>

definition cut_tag :: "string \<Rightarrow> (string \<times> string) option" where
  "cut_tag s =
     (let t = takeWhile (\<lambda>c. c \<noteq> CHR '':'') (rev s); n = length s - length t in
      if t \<noteq> [] \<and> n \<noteq> 0 \<and> CHR ''@'' \<notin> set t \<and> CHR ''/'' \<notin> set t then Some (take (n - 1) s, drop n s) else None)"

definition isRegistry :: "string \<Rightarrow> bool" where
  "isRegistry s \<longleftrightarrow> Contains s ''.'' \<or> Contains s '':'' \<or> s \<in> set [''localhost'']"

definition normalizeRegistry :: "string \<Rightarrow> string" where
  "normalizeRegistry registry =
     (if registry \<in> set [''docker.io'', ''index.docker.io'', ''registry-1.docker.io'', ''registry.hub.docker.com'']
      then ''docker.io'' else registry)"

fun parse_parts :: "string list \<Rightarrow> string \<times> string \<times> string" where
  "parse_parts [repo] = (''docker.io'', ''library'', repo)"
| "parse_parts [p, repo] = (if isRegistry p then (normalizeRegistry p, [], repo) else (''docker.io'', p, repo))"
| "parse_parts (p # ps) = (normalizeRegistry p, Join ''/'' (butlast ps), last ps)"
| "parse_parts [] = ([], [], [])"

definition ParseImageRef :: "string \<Rightarrow> app_error + image_ref" where
  "ParseImageRef img =
     (if img = [] then Inl (AppError ''INVALID_INPUT'' ''empty image reference'')
      else
        (let (remaining, digest) = (case cut_digest img of Some (r, d) \<Rightarrow> (r, d) | None \<Rightarrow> (img, []));
             (remaining, tag) = (case cut_tag remaining of Some (r, t) \<Rightarrow> (r, t) | None \<Rightarrow> (remaining, []));
             tag = (if tag = [] \<and> digest = [] then ''latest'' else tag);
             (registry, namespace, repository) = parse_parts (split_at CHR ''/'' remaining)
         in Inr \<lparr>r_Registry = registry, r_Namespace = namespace, r_Repository = repository, r_Tag = tag, r_Digest = digest\<rparr>))"

section \<open>Printing\<close>

definition FullName :: "image_ref \<Rightarrow> string" where
  "FullName r =
     (let name = r_Repository r;
          name = (if r_Namespace r \<noteq> [] \<and> r_Namespace r \<noteq> ''library'' then r_Namespace r @ ''/'' @ name else name)
      in if r_Registry r \<noteq> [] \<and> r_Registry r \<noteq> ''docker.io'' then r_Registry r @ ''/'' @ name else name)"

definition FullNameWithTag :: "image_ref \<Rightarrow> string" where
  "FullNameWithTag r =
     (if r_Tag r \<noteq> [] then FullName r @ '':'' @ r_Tag r
      else if r_Digest r \<noteq> [] then FullName r @ ''@'' @ r_Digest r
      else FullName r @ '':latest'')"

definition IsDockerHub :: "image_ref \<Rightarrow> bool" where
  "IsDockerHub r \<longleftrightarrow> r_Registry r \<in> set [[], ''docker.io'', ''index.docker.io'']"

definition IsGHCR :: "image_ref \<Rightarrow> bool" where
  "IsGHCR r \<longleftrightarrow> r_Registry r = ''ghcr.io''"

definition isLocalImage :: "image_ref \<Rightarrow> bool" where
  "isLocalImage r \<longleftrightarrow>
     r_Registry r = [] \<and> r_Namespace r = [] \<or>
     HasPrefix (r_Registry r) ''localhost'' \<or> HasPrefix (r_Registry r) ''127.0.0.1'' \<or>
     r_Tag r = [] \<and> r_Digest r \<noteq> [] \<and> HasPrefix (r_Digest r) ''sha256:''"

section \<open>Another tag\<close>

definition buildImageRef :: "string \<Rightarrow> string \<Rightarrow> string" where
  "buildImageRef img tag =
     (let img = (case cut_last CHR '':'' img of
            Some (before, after) \<Rightarrow> if CHR ''/'' \<in> set after then img else before
          | None \<Rightarrow> img);
          img = (case Cut CHR ''@'' img of Some (name, _) \<Rightarrow> name | None \<Rightarrow> img)
      in img @ '':'' @ tag)"

section \<open>Digests\<close>

definition digest_after_at :: "string \<Rightarrow> string option" where
  "digest_after_at rd = map_option snd (Cut CHR ''@'' rd)"

fun first_some :: "('a \<Rightarrow> 'b option) \<Rightarrow> 'a list \<Rightarrow> 'b option" where
  "first_some f [] = None"
| "first_some f (x # xs) = (case f x of Some y \<Rightarrow> Some y | None \<Rightarrow> first_some f xs)"

definition ExtractDigestFromRepoDigests :: "string list \<Rightarrow> string \<Rightarrow> string" where
  "ExtractDigestFromRepoDigests repoDigests img =
     (let anyone = (case first_some digest_after_at repoDigests of Some d \<Rightarrow> d | None \<Rightarrow> []) in
      if repoDigests = [] then []
      else case ParseImageRef img of
          Inl _ \<Rightarrow> anyone
        | Inr ref \<Rightarrow>
            (case first_some digest_after_at (filter (\<lambda>rd. Contains rd (r_Repository ref)) repoDigests) of
               Some d \<Rightarrow> d
             | None \<Rightarrow> anyone))"

section \<open>Scanners on printed references\<close>

lemma cut_tag_append:
  "t \<noteq> [] \<Longrightarrow> set t \<inter> set '':@/'' = {} \<Longrightarrow> cut_tag (s @ CHR '':'' # t) = Some (s, t)"
  unfolding cut_tag_def by (subst takeWhile_rev_append) (auto simp: Let_def)

lemma is_hex_colon: "\<not> is_hex CHR '':''"
  by (simp add: is_hex_def is_digit_def)

lemma is_hex_tag: "is_hex c \<Longrightarrow> c \<notin> set '':@/''"
  by (auto simp: is_hex_def is_digit_def)

section \<open>Round trips\<close>

text \<open>
  The references that printing keeps apart: a tag or a digest; on Docker Hub the namespace
  \<^verbatim>\<open>library\<close> or another one that does not look like a registry; elsewhere any namespace but
  \<^verbatim>\<open>library\<close>, or none behind a registry that looks like one.
\<close>

definition plain :: "string \<Rightarrow> bool" where
  "plain s \<longleftrightarrow> set s \<inter> set '':@/'' = {}"

definition tag_or_digest :: "string \<Rightarrow> string \<Rightarrow> bool" where
  "tag_or_digest tag digest \<longleftrightarrow>
     tag \<noteq> [] \<and> plain tag \<and> digest = [] \<or>
     tag = [] \<and> length digest = 71 \<and> take 7 digest = ''sha256:'' \<and> list_all is_hex (drop 7 digest)"

definition canonical_location :: "string \<Rightarrow> string \<Rightarrow> bool" where
  "canonical_location registry namespace \<longleftrightarrow>
     (if registry = ''docker.io''
      then namespace = ''library'' \<or> namespace \<noteq> [] \<and> CHR ''/'' \<notin> set namespace \<and> \<not> isRegistry namespace
      else registry \<noteq> [] \<and> CHR ''/'' \<notin> set registry \<and> normalizeRegistry registry = registry \<and>
        (if namespace = [] then isRegistry registry else namespace \<noteq> ''library''))"

definition canonical :: "image_ref \<Rightarrow> bool" where
  "canonical r \<longleftrightarrow>
     plain (r_Repository r) \<and> CHR ''@'' \<notin> set (r_Registry r) \<and> CHR ''@'' \<notin> set (r_Namespace r) \<and>
     tag_or_digest (r_Tag r) (r_Digest r) \<and> canonical_location (r_Registry r) (r_Namespace r)"

lemma plainD: "plain s \<Longrightarrow> CHR '':'' \<notin> set s" "plain s \<Longrightarrow> CHR ''@'' \<notin> set s" "plain s \<Longrightarrow> CHR ''/'' \<notin> set s"
  by (auto simp: plain_def)

lemma isRegistry_colon: "CHR '':'' \<in> set s \<Longrightarrow> isRegistry s"
  by (auto simp: isRegistry_def Contains_iff in_set_conv_decomp)

lemma cut_tag_none:
  assumes "CHR '':'' \<notin> set b"
  shows "cut_tag b = None" "cut_tag (a @ CHR ''/'' # b) = None"
proof -
  show "cut_tag b = None" using assms by (simp add: cut_tag_def takeWhile_rev_none)
  have "takeWhile (\<lambda>c. c \<noteq> CHR '':'') (rev (a @ CHR ''/'' # b)) =
      rev b @ CHR ''/'' # takeWhile (\<lambda>c. c \<noteq> CHR '':'') (rev a)"
    using assms takeWhile_append2 [of "rev b" "\<lambda>d. d \<noteq> CHR '':''" "CHR ''/'' # rev a"] by auto
  then show "cut_tag (a @ CHR ''/'' # b) = None" by (simp add: cut_tag_def)
qed

lemma cut_digest_append:
  assumes "length d = 71" "take 7 d = ''sha256:''" "list_all is_hex (drop 7 d)"
  shows "cut_digest (s @ CHR ''@'' # d) = Some (s, d)"
proof -
  have "length (s @ CHR ''@'' # d) - 72 = length s" using assms by simp
  with assms show ?thesis by (simp add: cut_digest_def Let_def)
qed

lemma cut_digest_tag:
  assumes "plain t" "CHR ''@'' \<notin> set s"
  shows "cut_digest (s @ CHR '':'' # t) = None"
proof -
  have "CHR ''@'' \<notin> set (s @ CHR '':'' # t)" using assms plainD by auto
  then have "CHR ''@'' \<notin> set (drop n (s @ CHR '':'' # t))" for n
    using set_drop_subset by fast
  then have "take 8 (drop n (s @ CHR '':'' # t)) \<noteq> ''@sha256:''" for n
    using set_take_subset by (metis in_mono list.set_intros(1))
  then show ?thesis by (simp only: cut_digest_def Let_def if_False simp_thms)
qed

lemma FullName_at: "canonical r \<Longrightarrow> CHR ''@'' \<notin> set (FullName r)"
  by (auto simp: canonical_def FullName_def Let_def plainD)

lemma cut_tag_FullName: "canonical r \<Longrightarrow> cut_tag (FullName r) = None"
proof -
  assume r: "canonical r"
  then have repo: "CHR '':'' \<notin> set (r_Repository r)" by (auto simp: canonical_def plainD)
  show ?thesis
    using cut_tag_none(1) [OF repo] cut_tag_none(2) [OF repo, of "r_Registry r"] cut_tag_none(2) [OF repo, of "r_Namespace r"]
      cut_tag_none(2) [OF repo, of "r_Registry r @ CHR ''/'' # r_Namespace r"]
    by (auto simp: FullName_def Let_def)
qed

lemma parse_parts_FullName:
  assumes r: "canonical r"
  shows "parse_parts (split_at CHR ''/'' (FullName r)) = (r_Registry r, r_Namespace r, r_Repository r)"
proof -
  have repo: "split_at CHR ''/'' (r_Repository r) = [r_Repository r]"
    using r by (auto simp: canonical_def intro!: split_at_none dest: plainD)
  have loc: "canonical_location (r_Registry r) (r_Namespace r)" using r by (simp add: canonical_def)
  consider (library) "r_Registry r = ''docker.io''" "r_Namespace r = ''library''"
    | (hub) "r_Registry r = ''docker.io''" "r_Namespace r \<noteq> ''library''" "r_Namespace r \<noteq> []"
        "CHR ''/'' \<notin> set (r_Namespace r)" "\<not> isRegistry (r_Namespace r)"
    | (bare) "r_Registry r \<noteq> ''docker.io''" "r_Namespace r = []" "isRegistry (r_Registry r)"
        "CHR ''/'' \<notin> set (r_Registry r)" "normalizeRegistry (r_Registry r) = r_Registry r" "r_Registry r \<noteq> []"
    | (other) "r_Registry r \<noteq> ''docker.io''" "r_Namespace r \<noteq> []" "r_Namespace r \<noteq> ''library''"
        "CHR ''/'' \<notin> set (r_Registry r)" "normalizeRegistry (r_Registry r) = r_Registry r" "r_Registry r \<noteq> []"
    using loc unfolding canonical_location_def by (auto split: if_splits)
  then show ?thesis
  proof cases
    case library
    then show ?thesis by (simp add: FullName_def Let_def repo)
  next
    case hub
    then show ?thesis by (simp add: FullName_def Let_def repo split_at_append)
  next
    case bare
    then show ?thesis by (simp add: FullName_def Let_def repo split_at_append)
  next
    case other
    obtain x xs where ns: "split_at CHR ''/'' (r_Namespace r) = x # xs" by (metis list.exhaust split_at_not_Nil)
    have split: "split_at CHR ''/'' (r_Namespace r @ CHR ''/'' # r_Repository r) = x # xs @ [r_Repository r]"
      using split_at_concat [of "CHR ''/''" "r_Namespace r" "r_Repository r"] ns repo by simp
    have "Join ''/'' (x # xs) = r_Namespace r" using Join_split_at [of "CHR ''/''" "r_Namespace r"] ns by simp
    moreover have "parse_parts (p # x # xs @ [q]) = (normalizeRegistry p, Join ''/'' (x # xs), q)" for p q
      by (cases xs) (simp_all add: butlast_append)
    ultimately show ?thesis using other by (simp add: FullName_def Let_def split_at_append split)
  qed
qed

text \<open>
  Parsing what is printed gives the reference back, and putting a tag on a printed reference prints
  the reference with that tag and without the digest: a pinned image is updated to the image of the same
  name and the wanted tag.
\<close>

theorem image_ref_roundtrip:
  assumes "canonical r" "tag \<noteq> []"
  shows "ParseImageRef (FullNameWithTag r) = Inr r \<and>
    buildImageRef (FullNameWithTag r) tag = FullNameWithTag (r\<lparr>r_Tag := tag, r_Digest := []\<rparr>)"
proof -
  note no_at = FullName_at [OF assms(1)] and parts = parse_parts_FullName [OF assms(1)]
    and untagged = cut_tag_FullName [OF assms(1)]
  have full: "FullName (r\<lparr>r_Tag := tag, r_Digest := []\<rparr>) = FullName r" by (simp add: FullName_def Let_def)
  have target: "FullNameWithTag (r\<lparr>r_Tag := tag, r_Digest := []\<rparr>) = FullName r @ CHR '':'' # tag"
    using assms(2) by (simp add: FullNameWithTag_def full)
  have cut: "Cut CHR ''@'' (FullName r @ CHR ''@'' # t) = Some (FullName r, t)" "Cut CHR ''@'' (FullName r) = None" for t
    using no_at by (simp_all add: Cut_append Cut_none)
  consider (tagged) "r_Tag r \<noteq> []" "plain (r_Tag r)" "r_Digest r = []"
    | (pinned) "r_Tag r = []" "length (r_Digest r) = 71" "take 7 (r_Digest r) = ''sha256:''" "list_all is_hex (drop 7 (r_Digest r))"
    using assms(1) by (auto simp: canonical_def tag_or_digest_def)
  then show ?thesis
  proof cases
    case tagged
    have printed: "FullNameWithTag r = FullName r @ CHR '':'' # r_Tag r" using tagged by (simp add: FullNameWithTag_def)
    have "ParseImageRef (FullNameWithTag r) = Inr r"
      using tagged cut_tag_append [of "r_Tag r" "FullName r"] parts
      by (simp add: ParseImageRef_def printed cut_digest_tag [OF tagged(2) no_at] plain_def)
    moreover have "CHR ''/'' \<notin> set (r_Tag r)" "CHR '':'' \<notin> set (r_Tag r)" using tagged plainD by blast+
    ultimately show ?thesis
      unfolding target by (simp add: buildImageRef_def printed cut_last_append cut)
  next
    case pinned
    have printed: "FullNameWithTag r = FullName r @ CHR ''@'' # r_Digest r" using pinned by (auto simp: FullNameWithTag_def)
    have "ParseImageRef (FullNameWithTag r) = Inr r"
      using pinned parts by (auto simp: ParseImageRef_def printed cut_digest_append untagged)
    moreover have hex: "r_Digest r = ''sha256'' @ CHR '':'' # drop 7 (r_Digest r)"
      using append_take_drop_id [of 7 "r_Digest r"] pinned(3) by simp
    moreover have "CHR '':'' \<notin> set (drop 7 (r_Digest r))" "CHR ''/'' \<notin> set (drop 7 (r_Digest r))"
      using pinned(4) is_hex_tag by (fastforce simp: list_all_iff)+
    then have "cut_last CHR '':'' (FullName r @ CHR ''@'' # r_Digest r) = Some (FullName r @ CHR ''@'' # ''sha256'', drop 7 (r_Digest r))"
      using cut_last_append [of "CHR '':''" "drop 7 (r_Digest r)" "FullName r @ CHR ''@'' # ''sha256''"] hex by simp
    ultimately show ?thesis
      unfolding target using \<open>CHR ''/'' \<notin> set (drop 7 (r_Digest r))\<close>
      by (simp add: buildImageRef_def printed cut)
  qed
qed

definition sample_ref :: image_ref where
  "sample_ref = \<lparr>r_Registry = ''ghcr.io:443'', r_Namespace = ''acme/tools'', r_Repository = ''web'', r_Tag = ''1.4-alpine'', r_Digest = []\<rparr>"

theorem image_ref_roundtrip_witness:
  "ParseImageRef ''ghcr.io:443/acme/tools/web:1.4-alpine'' = Inr sample_ref \<and>
   buildImageRef ''ghcr.io:443/acme/tools/web:1.4-alpine'' ''1.5-alpine'' = ''ghcr.io:443/acme/tools/web:1.5-alpine''"
proof -
  have "canonical sample_ref" by code_simp
  moreover have "''1.5-alpine'' \<noteq> []" by simp
  moreover have "FullNameWithTag sample_ref = ''ghcr.io:443/acme/tools/web:1.4-alpine''" by code_simp
  moreover have "FullNameWithTag (sample_ref\<lparr>r_Tag := ''1.5-alpine'', r_Digest := []\<rparr>) = ''ghcr.io:443/acme/tools/web:1.5-alpine''"
    by code_simp
  ultimately show ?thesis using image_ref_roundtrip [of sample_ref "''1.5-alpine''"] by simp
qed

section \<open>References outside the round trip\<close>

text \<open>
  An image pinned with a tag and a digest keeps its old tag before the new one: the colon of the digest
  is the last of the text, and the tag in front of it is not removed.
\<close>

lemma tag_and_digest_keeps_tag:
  assumes "CHR ''@'' \<notin> set name" "plain tag" "plain hex"
  shows "buildImageRef (name @ '':'' @ tag @ ''@sha256:'' @ hex) new = name @ '':'' @ tag @ '':'' @ new"
proof -
  have "cut_last CHR '':'' (name @ '':'' @ tag @ ''@sha256:'' @ hex) = Some (name @ '':'' @ tag @ ''@sha256'', hex)"
    using cut_last_append [of "CHR '':''" hex "name @ '':'' @ tag @ ''@sha256''"] plainD [OF assms(3)] by simp
  moreover have "Cut CHR ''@'' (name @ '':'' @ tag @ ''@sha256'') = Some (name @ '':'' @ tag, ''sha256'')"
    using Cut_append [of "CHR ''@''" "name @ '':'' @ tag" "''sha256''"] assms(1) plainD [OF assms(2)] by simp
  ultimately show ?thesis using plainD [OF assms(3)] by (simp add: buildImageRef_def)
qed

text \<open>
  \<^verbatim>\<open>docker.io/nginx\<close> has no namespace, \<^verbatim>\<open>nginx\<close> has \<^verbatim>\<open>library\<close>; both print alike.
\<close>

lemma hub_registry_without_namespace:
  "map_sum id r_Namespace (ParseImageRef ''docker.io/nginx:1.25'') = Inr []"
  "map_sum id r_Namespace (ParseImageRef ''nginx:1.25'') = Inr ''library''"
  "map_sum id FullNameWithTag (ParseImageRef ''docker.io/nginx:1.25'') = Inr ''nginx:1.25''"
  by code_simp+

text \<open>
  A name with neither registry nor namespace, which \<open>isLocalImage\<close> means to recognise, is never
  local: parsing has filled both in.
\<close>

lemma bare_name_not_local:
  assumes "set name \<inter> set '':@/'' = {}" "name \<noteq> []" "ParseImageRef name = Inr r"
  shows "\<not> isLocalImage r"
proof -
  have "CHR '':'' \<notin> set name" "CHR ''/'' \<notin> set name" "CHR ''@'' \<notin> set name" using assms(1) by auto
  moreover have "cut_digest name = None"
  proof -
    have "CHR ''@'' \<notin> set (take 8 (drop n name))" for n
      using \<open>CHR ''@'' \<notin> set name\<close> set_take_subset [of 8 "drop n name"] set_drop_subset [of n name] by blast
    then have "take 8 (drop n name) \<noteq> ''@sha256:''" for n by (metis list.set_intros(1))
    then show ?thesis by (simp only: cut_digest_def Let_def if_False simp_thms)
  qed
  ultimately have "r = \<lparr>r_Registry = ''docker.io'', r_Namespace = ''library'', r_Repository = name, r_Tag = ''latest'', r_Digest = []\<rparr>"
    using assms by (simp add: ParseImageRef_def cut_tag_none split_at_none)
  then show ?thesis by (simp add: isLocalImage_def)
qed

end
