(* ===== verification/Version_Tags.thy ===== *)
theory Version_Tags
  imports Go_Strings "HOL-Library.List_Lexorder"
begin

text \<open>
  Versions in image tags: the variant and the numbers of a tag, the order of versions, the choice of
  the tag an image can be updated to (\<^verbatim>\<open>internal/services/update/version_helpers.go\<close>), the
  semantic versions of \<^verbatim>\<open>checker.go\<close> and \<^verbatim>\<open>GetLatestVersion\<close> of the registry
  clients (\<^verbatim>\<open>registry_dockerhub.go\<close>, \<^verbatim>\<open>registry_ghcr.go\<close>). The regular expressions are
  written out as scanners; what the registry answers is an argument.
\<close>

section \<open>Scanning a tag\<close>

text \<open>The longest text of the form \<^verbatim>\<open>(\.[\d]+)*\<close> and what follows it.\<close>

function dotted_tail :: "string \<Rightarrow> string \<times> string" where
  "dotted_tail s =
     (if s \<noteq> [] \<and> hd s = CHR ''.'' \<and> takeWhile is_digit (tl s) \<noteq> [] then
        (case dotted_tail (dropWhile is_digit (tl s)) of (a, b) \<Rightarrow> (CHR ''.'' # takeWhile is_digit (tl s) @ a, b))
      else ([], s))"
  by auto
termination
proof (relation "measure length")
  fix s :: string
  assume "s \<noteq> [] \<and> hd s = CHR ''.'' \<and> takeWhile is_digit (tl s) \<noteq> []"
  then show "(dropWhile is_digit (tl s), s) \<in> measure length"
    using length_dropWhile_le [of is_digit "tl s"] by (cases s) (auto simp: le_imp_less_Suc)
qed simp

declare dotted_tail.simps [simp del]

text \<open>
  \<^verbatim>\<open>^v?[\d]+(?:\.[\d]+)*\<close>: the numbers and what follows them. The longest match is the only one
  that a hyphen or the end of the tag can follow.
\<close>

definition version_prefix :: "string \<Rightarrow> (string \<times> string) option" where
  "version_prefix tag =
     (let s = TrimPrefix tag ''v'' in
      if takeWhile is_digit s = [] then None
      else case dotted_tail (dropWhile is_digit s) of (a, b) \<Rightarrow> Some (takeWhile is_digit s @ a, b))"

definition is_letter :: "char \<Rightarrow> bool" where
  "is_letter c \<longleftrightarrow> (let b = of_char c :: nat in 65 \<le> b \<and> b \<le> 90 \<or> 97 \<le> b \<and> b \<le> 122)"

text \<open>\<^verbatim>\<open>^([a-zA-Z]+)[\d.]*$\<close>, the first group.\<close>

definition letters_then_version :: "string \<Rightarrow> string option" where
  "letters_then_version s =
     (if takeWhile is_letter s \<noteq> [] \<and> list_all (\<lambda>c. is_digit c \<or> c = CHR ''.'') (dropWhile is_letter s)
      then Some (takeWhile is_letter s) else None)"

definition newline :: char where
  "newline = CHR 0x0A"

text \<open>\<^verbatim>\<open>.\<close> matches every character but the newline.\<close>

definition extractVariant :: "string \<Rightarrow> string" where
  "extractVariant tag =
     (case version_prefix tag of
        Some (_, CHR ''-'' # rest) \<Rightarrow>
          if rest \<noteq> [] \<and> newline \<notin> set rest then rest
          else (case letters_then_version rest of Some w \<Rightarrow> w | None \<Rightarrow> rest)
      | Some _ \<Rightarrow> []
      | None \<Rightarrow> tag)"

definition extractMajorVersion :: "string \<Rightarrow> int" where
  "extractMajorVersion tag =
     (let ds = takeWhile is_digit (TrimPrefix tag ''v'') in
      if ds = [] then - 1 else case Atoi ds of Some v \<Rightarrow> v | None \<Rightarrow> - 1)"

definition extractVersionParts :: "string \<Rightarrow> int list" where
  "extractVersionParts tag =
     (case version_prefix tag of None \<Rightarrow> [] | Some (numbers, _) \<Rightarrow> List.map_filter Atoi (split_at CHR ''.'' numbers))"

section \<open>The order of versions\<close>

fun compareParts :: "int list \<Rightarrow> int list \<Rightarrow> int" where
  "compareParts [] [] = 0"
| "compareParts (x # a) [] = (if x \<noteq> 0 then wrap64 (x - 0) else compareParts a [])"
| "compareParts [] (y # b) = (if 0 \<noteq> y then wrap64 (0 - y) else compareParts [] b)"
| "compareParts (x # a) (y # b) = (if x \<noteq> y then wrap64 (x - y) else compareParts a b)"

text \<open>
  Versions are compared as lists of numbers without the zeros at the end, in the library's
  lexicographic order of lists.
\<close>

fun strip_zeros :: "int list \<Rightarrow> int list" where
  "strip_zeros [] = []"
| "strip_zeros (x # xs) = (if x = 0 \<and> strip_zeros xs = [] then [] else x # strip_zeros xs)"

definition version :: "string \<Rightarrow> int list" where
  "version tag = strip_zeros (extractVersionParts tag)"

definition int63 :: "int \<Rightarrow> bool" where
  "int63 x \<longleftrightarrow> 0 \<le> x \<and> x < 2 ^ 63"

lemma Nil_less_iff [simp]: "[] < xs \<longleftrightarrow> xs \<noteq> ([] :: 'a::linorder list)"
  by (cases xs) auto

lemma compareParts_version:
  assumes "list_all int63 a" "list_all int63 b"
  shows "(0 < compareParts a b \<longleftrightarrow> strip_zeros b < strip_zeros a) \<and> (compareParts a b = 0 \<longleftrightarrow> strip_zeros a = strip_zeros b)"
  using assms
proof (induction a b rule: compareParts.induct)
  case (4 x a y b)
  have "wrap64 (x - y) = x - y" if "int63 x" "int63 y"
    using that by (intro wrap64_id) (auto simp: int63_def fits64_def)
  with 4 show ?case by (auto simp: int63_def)
next
  case (2 x a)
  then have "wrap64 x = x" by (intro wrap64_id) (auto simp: int63_def fits64_def)
  with 2 show ?case by (auto simp: int63_def)
next
  case (3 y b)
  then have "wrap64 (- y) = - y" by (intro wrap64_id) (auto simp: int63_def fits64_def)
  with 3 show ?case by (auto simp: int63_def)
qed simp

lemma Atoi_digits: "list_all is_digit ds \<Longrightarrow> Atoi ds = Some v \<Longrightarrow> int63 v"
  by (cases ds)
    (auto simp: Atoi_def signed_digits_def signed_val_def int63_def fits64_def is_digit_def Let_def split: if_splits)

lemma dotted_tail_chars: "list_all (\<lambda>c. is_digit c \<or> c = CHR ''.'') (fst (dotted_tail s))"
proof (induction s rule: dotted_tail.induct)
  case (1 s)
  have "list_all is_digit (takeWhile is_digit t)" for t
    using set_takeWhileD by (fastforce simp: list_all_iff)
  then have "list_all (\<lambda>c. is_digit c \<or> c = CHR ''.'') (takeWhile is_digit t)" for t
    by (auto simp: list_all_iff)
  with 1 show ?case by (subst dotted_tail.simps) (auto split: prod.splits)
qed

lemma split_at_chars: "list_all (\<lambda>c. P c \<or> c = sep) s \<Longrightarrow> list_all (list_all P) (split_at sep s)"
proof (induction s)
  case (Cons c s)
  then show ?case by (cases "split_at sep s") auto
qed simp

lemma version_prefix_chars: "version_prefix tag = Some (n, r) \<Longrightarrow> list_all (\<lambda>c. is_digit c \<or> c = CHR ''.'') n"
proof -
  assume v: "version_prefix tag = Some (n, r)"
  let ?s = "TrimPrefix tag ''v''"
  have n: "n = takeWhile is_digit ?s @ fst (dotted_tail (dropWhile is_digit ?s))"
    using v by (auto simp: version_prefix_def Let_def split: if_splits prod.splits)
  have "list_all (\<lambda>c. is_digit c \<or> c = CHR ''.'') (takeWhile is_digit ?s)"
    using set_takeWhileD [of _ is_digit ?s] by (auto simp: list_all_iff)
  with dotted_tail_chars [of "dropWhile is_digit ?s"] show ?thesis by (simp add: n)
qed

lemma parts_int63: "list_all int63 (extractVersionParts tag)"
proof (cases "version_prefix tag")
  case None
  then show ?thesis by (simp add: extractVersionParts_def)
next
  case (Some p)
  then have "list_all (list_all is_digit) (split_at CHR ''.'' (fst p))"
    using split_at_chars [where P = is_digit] version_prefix_chars by (metis prod.collapse)
  with Some show ?thesis
    by (auto simp: extractVersionParts_def list_all_iff map_filter_def split: prod.splits intro!: Atoi_digits)
qed

lemma compare_version:
  "0 < compareParts (extractVersionParts a) (extractVersionParts b) \<longleftrightarrow> version b < version a"
  by (simp add: version_def compareParts_version [OF parts_int63 parts_int63])

section \<open>The highest tag\<close>

definition eligible :: "string \<Rightarrow> int \<Rightarrow> string \<Rightarrow> bool" where
  "eligible variant major tag \<longleftrightarrow>
     tag \<noteq> ''latest'' \<and> \<not> HasPrefix tag ''sha256:'' \<and> extractVariant tag = variant \<and>
     \<not> (major \<ge> 0 \<and> extractMajorVersion tag \<noteq> major) \<and> \<not> extractMajorVersion tag < 0 \<and> extractVersionParts tag \<noteq> []"

fun highest_loop :: "string \<Rightarrow> int \<Rightarrow> string \<Rightarrow> int list \<Rightarrow> string list \<Rightarrow> string" where
  "highest_loop variant major best bestParts [] = best"
| "highest_loop variant major best bestParts (tag # tags) =
     (if \<not> eligible variant major tag then highest_loop variant major best bestParts tags
      else if best = [] \<or> 0 < compareParts (extractVersionParts tag) bestParts
      then highest_loop variant major tag (extractVersionParts tag) tags
      else highest_loop variant major best bestParts tags)"

definition findHighestSemverTag :: "string list \<Rightarrow> string \<Rightarrow> int \<Rightarrow> string" where
  "findHighestSemverTag tags variant major = highest_loop variant major [] [] tags"

text \<open>What the loop computes: the first eligible tag of the largest version.\<close>

definition first_highest :: "string list \<Rightarrow> string" where
  "first_highest cs = (case cs of [] \<Rightarrow> [] | _ \<Rightarrow> hd (filter (\<lambda>c. version c = Max (version ` set cs)) cs))"

lemma eligible_not_Nil: "eligible variant major tag \<Longrightarrow> tag \<noteq> []"
  by (auto simp: eligible_def extractMajorVersion_def TrimPrefix_def)

lemma first_highest_hd:
  "cs \<noteq> [] \<Longrightarrow> first_highest cs = hd (filter (\<lambda>c. version c = Max (version ` set cs)) cs)"
  by (simp add: first_highest_def split: list.split)

lemma first_highest_max:
  assumes "cs \<noteq> []"
  shows "first_highest cs \<in> set cs" "version (first_highest cs) = Max (version ` set cs)"
    and "filter (\<lambda>c. version c = Max (version ` set cs)) cs \<noteq> []"
proof -
  let ?H = "filter (\<lambda>c. version c = Max (version ` set cs)) cs"
  have "Max (version ` set cs) \<in> version ` set cs" using assms by (intro Max_in) auto
  then show "?H \<noteq> []" by (auto simp: filter_empty_conv)
  then have "hd ?H \<in> set ?H" by (rule hd_in_set)
  then show "first_highest cs \<in> set cs" "version (first_highest cs) = Max (version ` set cs)"
    by (auto simp: first_highest_hd [OF assms])
qed

lemma first_highest_snoc:
  "first_highest (cs @ [t]) = (if cs = [] \<or> version (first_highest cs) < version t then t else first_highest cs)"
proof (cases "cs = []")
  case False
  let ?m = "Max (version ` set cs)" and ?H = "\<lambda>v. filter (\<lambda>c. version c = v) cs"
  note top = first_highest_max [OF False]
  have max: "Max (version ` set (cs @ [t])) = max ?m (version t)"
    using False by (simp add: max.commute)
  have hd: "first_highest (cs @ [t]) = hd (filter (\<lambda>c. version c = max ?m (version t)) (cs @ [t]))"
    unfolding max [symmetric] by (rule first_highest_hd) simp
  show ?thesis
  proof (cases "?m < version t")
    case True
    have "version c \<le> ?m" if "c \<in> set cs" for c
      using that by (intro Max_ge) auto
    with True have "version c \<noteq> version t" if "c \<in> set cs" for c
      using that by (metis leD)
    then have "?H (version t) = []" by (simp add: filter_empty_conv)
    moreover have "max ?m (version t) = version t" using True by (intro max_absorb2) (rule less_imp_le)
    ultimately have "first_highest (cs @ [t]) = t" by (simp add: hd)
    moreover have "version (first_highest cs) < version t" using True unfolding top(2) .
    ultimately show ?thesis by simp
  next
    case lower: False
    then have m: "max ?m (version t) = ?m" by (intro max_absorb1) (simp add: not_less)
    have "first_highest (cs @ [t]) = first_highest cs"
      unfolding hd m filter_append hd_append2 [OF top(3)] by (rule first_highest_hd [OF False, symmetric])
    moreover have "\<not> version (first_highest cs) < version t" using lower unfolding top(2) .
    ultimately show ?thesis using False by simp
  qed
qed (simp add: first_highest_def)

lemma highest_loop:
  assumes "list_all (eligible variant major) cs"
  shows "highest_loop variant major (first_highest cs) (extractVersionParts (first_highest cs)) tags =
    first_highest (cs @ filter (eligible variant major) tags)"
  using assms
proof (induction tags arbitrary: cs)
  case (Cons tag tags)
  show ?case
  proof (cases "eligible variant major tag")
    case True
    have "first_highest cs = [] \<longleftrightarrow> cs = []"
      using Cons.prems first_highest_max(1) [of cs] eligible_not_Nil
      by (auto simp: list_all_iff first_highest_def)
    moreover have "extractVersionParts (first_highest [tag]) = extractVersionParts tag" "first_highest [tag] = tag"
      by (simp_all add: first_highest_def)
    ultimately show ?thesis
      using True Cons.IH [of "cs @ [tag]"] Cons.prems
      by (auto simp: first_highest_snoc compare_version)
  qed (use Cons in simp)
qed simp

text \<open>
  C31. The tag chosen as the latest is the first of the largest version among the tags of the wanted
  variant and major version: the loop with its padded comparison of number lists is the maximum in the
  lexicographic order of the versions.
\<close>

theorem highest_tag_is_max:
  "findHighestSemverTag tags variant major =
     (let cs = filter (eligible variant major) tags
      in if cs = [] then [] else hd (filter (\<lambda>c. version c = Max (version ` set cs)) cs))"
proof -
  have "highest_loop variant major [] [] tags = first_highest (filter (eligible variant major) tags)"
    using highest_loop [of variant major "[]" tags]
    by (simp add: first_highest_def extractVersionParts_def version_prefix_def TrimPrefix_def)
  then show ?thesis
    by (simp add: findHighestSemverTag_def first_highest_hd first_highest_def [of "[]"] Let_def)
qed

definition isNewerTag :: "string \<Rightarrow> string \<Rightarrow> bool" where
  "isNewerTag candidateTag currentTag =
     (let candidateParts = extractVersionParts candidateTag; currentParts = extractVersionParts currentTag in
      if candidateParts = [] \<or> currentParts = [] then candidateTag \<noteq> currentTag
      else 0 < compareParts candidateParts currentParts)"

lemma isNewerTag_version:
  "extractVersionParts a \<noteq> [] \<Longrightarrow> extractVersionParts b \<noteq> [] \<Longrightarrow> isNewerTag a b \<longleftrightarrow> version b < version a"
  by (simp add: isNewerTag_def compare_version)

lemma highest_tag:
  "findHighestSemverTag tags variant major \<noteq> [] \<Longrightarrow>
     findHighestSemverTag tags variant major \<in> set tags \<and> eligible variant major (findHighestSemverTag tags variant major)"
proof -
  assume "findHighestSemverTag tags variant major \<noteq> []"
  moreover have "findHighestSemverTag tags variant major = first_highest (filter (eligible variant major) tags)"
    using highest_loop [of variant major "[]" tags]
    by (simp add: findHighestSemverTag_def first_highest_def extractVersionParts_def version_prefix_def TrimPrefix_def)
  ultimately show ?thesis
    using first_highest_max(1) [of "filter (eligible variant major) tags"]
    by (cases "filter (eligible variant major) tags = []") (auto simp: first_highest_def [of "[]"])
qed

section \<open>Semantic versions\<close>

definition semver_char :: "char \<Rightarrow> bool" where
  "semver_char c \<longleftrightarrow> is_letter c \<or> is_digit c \<or> c = CHR ''.'' \<or> c = CHR ''-''"

definition scan_number :: "string \<Rightarrow> string option" where
  "scan_number s = (if takeWhile is_digit s = [] then None else Some (dropWhile is_digit s))"

definition scan_char :: "char \<Rightarrow> string \<Rightarrow> string option" where
  "scan_char c s = (case s of [] \<Rightarrow> None | d # t \<Rightarrow> if d = c then Some t else None)"

text \<open>
  \<^verbatim>\<open>^v?(\d+)\.(\d+)\.(\d+)(-[a-zA-Z0-9.-]+)?(\+[a-zA-Z0-9.-]+)?$\<close>: the fourth group of a match.
\<close>

definition semver_suffix :: "string \<Rightarrow> string option" where
  "semver_suffix s =
     (let (pre, r) = (case s of CHR ''-'' # t \<Rightarrow>
            if takeWhile semver_char t \<noteq> [] then (CHR ''-'' # takeWhile semver_char t, dropWhile semver_char t) else ([], s)
          | _ \<Rightarrow> ([], s))
      in case r of [] \<Rightarrow> Some pre
         | c # t \<Rightarrow> if c = CHR ''+'' \<and> t \<noteq> [] \<and> list_all semver_char t then Some pre else None)"

definition semver_match :: "string \<Rightarrow> string option" where
  "semver_match tag =
     Option.bind (scan_number (TrimPrefix tag ''v'')) (\<lambda>s1. Option.bind (scan_char CHR ''.'' s1) (\<lambda>s2.
     Option.bind (scan_number s2) (\<lambda>s3. Option.bind (scan_char CHR ''.'' s3) (\<lambda>s4.
     Option.bind (scan_number s4) semver_suffix))))"

definition IsSemver :: "string \<Rightarrow> bool" where
  "IsSemver tag \<longleftrightarrow> semver_match tag \<noteq> None"

text \<open>
  \<^verbatim>\<open>(?i)\<close>: letters of both cases match, and U+017F, the long s, matches s.
\<close>

fun fold_case :: "string \<Rightarrow> string" where
  "fold_case [] = []"
| "fold_case (c # s) =
     (case s of d # t \<Rightarrow>
        if c = CHR 0xC5 \<and> d = CHR 0xBF then CHR ''s'' # fold_case t
        else (if 65 \<le> (of_char c :: nat) \<and> (of_char c :: nat) \<le> 90 then char_of ((of_char c :: nat) + 32) else c) # fold_case s
      | [] \<Rightarrow> [if 65 \<le> (of_char c :: nat) \<and> (of_char c :: nat) \<le> 90 then char_of ((of_char c :: nat) + 32) else c])"

definition prerelease_words :: "string list" where
  "prerelease_words = [''alpha'', ''beta'', ''rc'', ''dev'', ''preview'', ''snapshot'', ''nightly'', ''canary'']"

definition IsPrerelease :: "string \<Rightarrow> bool" where
  "IsPrerelease tag \<longleftrightarrow>
     list_ex (Contains (fold_case tag)) prerelease_words \<or>
     (case semver_match tag of Some pre \<Rightarrow> pre \<noteq> [] | None \<Rightarrow> False)"

definition segment :: "string list \<Rightarrow> nat \<Rightarrow> int" where
  "segment segments i =
     (if i < length segments then case scan_int (segments ! i) of Some n \<Rightarrow> n | None \<Rightarrow> 0 else 0)"

definition parseSemverParts :: "string \<Rightarrow> int \<times> int \<times> int" where
  "parseSemverParts s =
     (let segments = split_at CHR ''.'' (takeWhile (\<lambda>c. c \<noteq> CHR ''-'' \<and> c \<noteq> CHR ''+'') s)
      in (segment segments 0, segment segments 1, segment segments 2))"

definition semver_triple :: "string \<Rightarrow> int \<times> int \<times> int" where
  "semver_triple tag = parseSemverParts (TrimPrefix tag ''v'')"

definition CompareSemver :: "string \<Rightarrow> string \<Rightarrow> int" where
  "CompareSemver a b =
     (case (semver_triple a, semver_triple b) of ((a0, a1, a2), (b0, b1, b2)) \<Rightarrow>
        if a0 < b0 then - 1 else if a0 > b0 then 1
        else if a1 < b1 then - 1 else if a1 > b1 then 1
        else if a2 < b2 then - 1 else if a2 > b2 then 1 else 0)"

text \<open>The comparison \<^verbatim>\<open>sortTagsBySemver\<close> gives to \<^verbatim>\<open>sort.Slice\<close>: \<open>a\<close> comes before \<open>b\<close>.\<close>

definition tag_before :: "string \<Rightarrow> string \<Rightarrow> bool" where
  "tag_before a b =
     (if IsSemver a \<and> IsSemver b then CompareSemver a b > 0
      else if IsSemver a then True
      else if IsSemver b then False
      else map (of_char :: char \<Rightarrow> nat) a > map of_char b)"

text \<open>The order behind it.\<close>

datatype tag_key = Plain "nat list" | Semver int int int

instantiation tag_key :: linorder
begin

fun less_tag_key :: "tag_key \<Rightarrow> tag_key \<Rightarrow> bool" where
  "less_tag_key (Plain a) (Plain b) = (a < b)"
| "less_tag_key (Plain _) (Semver _ _ _) = True"
| "less_tag_key (Semver _ _ _) (Plain _) = False"
| "less_tag_key (Semver a b c) (Semver d e f) = (a < d \<or> a = d \<and> (b < e \<or> b = e \<and> c < f))"

definition less_eq_tag_key :: "tag_key \<Rightarrow> tag_key \<Rightarrow> bool" where
  "less_eq_tag_key x y \<longleftrightarrow> x < y \<or> x = y"

instance
proof
  fix x y z :: tag_key
  have asym: "\<not> (x < y \<and> y < x)" for x y :: tag_key
    by (cases x; cases y) auto
  have trans: "x < y \<Longrightarrow> y < z \<Longrightarrow> x < z" for x y z :: tag_key
    by (cases x; cases y; cases z) auto
  show "x < y \<longleftrightarrow> x \<le> y \<and> \<not> y \<le> x" using asym [of x y] asym [of y y] by (auto simp: less_eq_tag_key_def)
  show "x \<le> x" by (simp add: less_eq_tag_key_def)
  show "x \<le> z" if "x \<le> y" "y \<le> z" using that trans by (auto simp: less_eq_tag_key_def)
  show "x = y" if "x \<le> y" "y \<le> x" using that asym [of x y] by (auto simp: less_eq_tag_key_def)
  show "x \<le> y \<or> y \<le> x" by (cases x; cases y) (auto simp: less_eq_tag_key_def)
qed

end

definition key_of_tag :: "string \<Rightarrow> tag_key" where
  "key_of_tag tag = (if IsSemver tag then case semver_triple tag of (a, b, c) \<Rightarrow> Semver a b c else Plain (map of_char tag))"

lemma tag_before_key: "tag_before a b \<longleftrightarrow> key_of_tag b < key_of_tag a"
  by (auto simp: tag_before_def key_of_tag_def CompareSemver_def split: prod.splits)

end
