(* ===== verification/Update_Check.thy ===== *)
theory Update_Check
  imports Image_Ref Version_Tags "HOL-Library.AList"
begin

text \<open>
  Checking containers for newer images: the registry clients' \<^verbatim>\<open>GetLatestVersion\<close>, the cache
  of versions and the checker (\<^verbatim>\<open>internal/services/update/registry_dockerhub.go\<close>,
  \<^verbatim>\<open>registry_ghcr.go\<close>, \<^verbatim>\<open>checker.go\<close>), and the two checks of the update service
  (\<^verbatim>\<open>service.go\<close>). What a registry, the Docker engine and the changelog service answer is an
  argument. The interface \<^verbatim>\<open>VersionCache\<close> is the locale \<open>version_store\<close>; the memory cache is
  an instance of it.
\<close>

section \<open>Data\<close>

record image_version =
  v_Tag :: string
  v_Digest :: string
  v_CheckedAt :: gotime

record changelog =
  cl_URL :: string
  cl_Body :: string

record available_update =
  a_ContainerID :: string
  a_ContainerName :: string
  a_Image :: string
  a_CurrentVersion :: string
  a_CurrentDigest :: string
  a_LatestVersion :: string
  a_LatestDigest :: string
  a_IsPrerelease :: bool
  a_HasChangelog :: bool
  a_Changelog :: "changelog option"
  a_CheckedAt :: gotime

definition NeedsUpdate :: "available_update \<Rightarrow> bool" where
  "NeedsUpdate a =
     (if a_CurrentDigest a \<noteq> [] \<and> a_LatestDigest a \<noteq> [] then a_CurrentDigest a \<noteq> a_LatestDigest a
      else if a_CurrentVersion a = ''latest'' \<and> a_LatestVersion a = ''latest'' then False
      else a_CurrentVersion a \<noteq> a_LatestVersion a)"

record container_info =
  ci_ID :: string
  ci_Name :: string
  ci_Image :: string
  ci_Digest :: string

record check_result =
  cr_TotalContainers :: int
  cr_CheckedCount :: int
  cr_UpdatesAvailable :: int
  cr_Errors :: int
  cr_Updates :: "available_update list"
  cr_SkippedImages :: "string list"

section \<open>Registry clients\<close>

text \<open>What a registry answers: the tags of an image and the digest of a tag.\<close>

record registry =
  ListTags :: "image_ref \<Rightarrow> app_error + string list"
  GetDigest :: "image_ref \<Rightarrow> app_error + string"

definition hub_SupportsRegistry :: "string \<Rightarrow> bool" where
  "hub_SupportsRegistry registry \<longleftrightarrow>
     registry \<in> set [''docker.io'', ''index.docker.io'', ''registry-1.docker.io'', ''registry.hub.docker.com'', []]"

definition ghcr_SupportsRegistry :: "string \<Rightarrow> bool" where
  "ghcr_SupportsRegistry registry \<longleftrightarrow> registry = ''ghcr.io''"

definition current_tag :: "image_ref \<Rightarrow> string" where
  "current_tag ref = (if r_Tag ref = [] then ''latest'' else r_Tag ref)"

definition latest_tag :: "string list \<Rightarrow> string \<Rightarrow> string" where
  "latest_tag tags currentTag =
     (let variant = extractVariant currentTag;
          latestTag = findHighestSemverTag tags variant (extractMajorVersion currentTag)
      in if latestTag = [] \<or> latestTag = currentTag then findHighestSemverTag tags variant (- 1) else latestTag)"

definition GetLatestVersion :: "registry \<Rightarrow> gotime \<Rightarrow> image_ref \<Rightarrow> app_error + image_version option" where
  "GetLatestVersion R now ref =
     (case ListTags R ref of
        Inl e \<Rightarrow> Inl e
      | Inr tags \<Rightarrow>
          if tags = [] then Inl (AppError ''NOT_FOUND'' ''no tags found'')
          else if current_tag ref = ''latest'' then
            (case GetDigest R ref of
               Inl _ \<Rightarrow> Inr None
             | Inr digest \<Rightarrow> Inr (Some \<lparr>v_Tag = ''latest'', v_Digest = digest, v_CheckedAt = now\<rparr>))
          else
            (let latestTag = latest_tag tags (current_tag ref) in
             if latestTag = [] \<or> latestTag = current_tag ref then Inr None
             else if \<not> isNewerTag latestTag (current_tag ref) then Inr None
             else Inr (Some \<lparr>v_Tag = latestTag,
                 v_Digest = (case GetDigest R (ref\<lparr>r_Tag := latestTag, r_Digest := []\<rparr>) of Inl _ \<Rightarrow> [] | Inr d \<Rightarrow> d),
                 v_CheckedAt = now\<rparr>)))"

text \<open>GHCR's client has the same text.\<close>

definition ghcr_GetLatestVersion :: "registry \<Rightarrow> gotime \<Rightarrow> image_ref \<Rightarrow> app_error + image_version option" where
  "ghcr_GetLatestVersion = GetLatestVersion"

record client =
  SupportsRegistry :: "string \<Rightarrow> bool"
  LatestVersion :: "gotime \<Rightarrow> image_ref \<Rightarrow> app_error + image_version option"

definition hub_client :: "registry \<Rightarrow> client" where
  "hub_client R = \<lparr>SupportsRegistry = hub_SupportsRegistry, LatestVersion = GetLatestVersion R\<rparr>"

definition ghcr_client :: "registry \<Rightarrow> client" where
  "ghcr_client R = \<lparr>SupportsRegistry = ghcr_SupportsRegistry, LatestVersion = ghcr_GetLatestVersion R\<rparr>"

text \<open>The clients the application registers, in this order.\<close>

definition registered_clients :: "registry \<Rightarrow> registry \<Rightarrow> client list" where
  "registered_clients hub ghcr = [hub_client hub, ghcr_client ghcr]"

section \<open>The memory cache\<close>

record cache_entry =
  ce_version :: image_version
  ce_expiresAt :: gotime

record memory_cache =
  mc_cache :: "(string \<times> cache_entry) list"
  mc_maxSize :: int

definition NewMemoryVersionCache :: memory_cache where
  "NewMemoryVersionCache = \<lparr>mc_cache = [], mc_maxSize = 1000\<rparr>"

definition cacheKey :: "string \<Rightarrow> string \<Rightarrow> string" where
  "cacheKey img tag = img @ '':'' @ tag"

definition cache_Get :: "memory_cache \<Rightarrow> gotime \<Rightarrow> string \<Rightarrow> string \<Rightarrow> image_version option" where
  "cache_Get c now img tag =
     (case map_of (mc_cache c) (cacheKey img tag) of
        None \<Rightarrow> None
      | Some e \<Rightarrow> if ce_expiresAt e < now then None else Some (ce_version e))"

text \<open>
  \<^verbatim>\<open>for k, entry := range c.cache\<close> runs in an order the runtime chooses: the order of the
  numbers \<open>order\<close> gives to the keys.
\<close>

type_synonym map_order = "string \<Rightarrow> nat"

definition in_order :: "map_order \<Rightarrow> (string \<times> cache_entry) list \<Rightarrow> (string \<times> cache_entry) list" where
  "in_order order es = sort_key (order \<circ> fst) es"

fun oldest_loop :: "(string \<times> gotime) option \<Rightarrow> (string \<times> cache_entry) list \<Rightarrow> string" where
  "oldest_loop None [] = []"
| "oldest_loop (Some (k, _)) [] = k"
| "oldest_loop None ((k, e) # es) = oldest_loop (Some (k, ce_expiresAt e)) es"
| "oldest_loop (Some (ok, ot)) ((k, e) # es) =
     (if ce_expiresAt e < ot then oldest_loop (Some (k, ce_expiresAt e)) es else oldest_loop (Some (ok, ot)) es)"

definition evictOldest :: "map_order \<Rightarrow> (string \<times> cache_entry) list \<Rightarrow> (string \<times> cache_entry) list" where
  "evictOldest order es =
     (let oldestKey = oldest_loop None (in_order order es) in if oldestKey \<noteq> [] then AList.delete oldestKey es else es)"

definition cache_Set ::
  "map_order \<Rightarrow> memory_cache \<Rightarrow> gotime \<Rightarrow> string \<Rightarrow> string \<Rightarrow> image_version \<Rightarrow> duration \<Rightarrow> memory_cache" where
  "cache_Set order c now img tag v ttl =
     (let key = cacheKey img tag; es = mc_cache c;
          es = (if map_of es key = None \<and> int (length es) \<ge> mc_maxSize c then evictOldest order es else es)
      in c\<lparr>mc_cache := AList.update key \<lparr>ce_version = v, ce_expiresAt = time_add now ttl\<rparr> es\<rparr>)"

definition cache_Delete :: "memory_cache \<Rightarrow> string \<Rightarrow> string \<Rightarrow> memory_cache" where
  "cache_Delete c img tag = c\<lparr>mc_cache := AList.delete (cacheKey img tag) (mc_cache c)\<rparr>"

definition cache_cleanup :: "gotime \<Rightarrow> memory_cache \<Rightarrow> memory_cache" where
  "cache_cleanup now c = c\<lparr>mc_cache := filter (\<lambda>(_, e). \<not> ce_expiresAt e < now) (mc_cache c)\<rparr>"

section \<open>The checker\<close>

record checker_config =
  cc_CacheTTL :: duration
  cc_SkipLocalImages :: bool

definition DefaultCheckerConfig :: checker_config where
  "DefaultCheckerConfig = \<lparr>cc_CacheTTL = 6 * 3600 * second, cc_SkipLocalImages = True\<rparr>"

fun findClient :: "client list \<Rightarrow> string \<Rightarrow> client option" where
  "findClient [] registry = None"
| "findClient (c # cs) registry = (if SupportsRegistry c registry then Some c else findClient cs registry)"

definition buildAvailableUpdate ::
  "gotime \<Rightarrow> string \<Rightarrow> string \<Rightarrow> image_ref \<Rightarrow> image_version option \<Rightarrow> string \<Rightarrow> available_update option" where
  "buildAvailableUpdate now containerID containerName ref latest currentDigest =
     (case latest of
        None \<Rightarrow> None
      | Some v \<Rightarrow>
          Some \<lparr>a_ContainerID = containerID, a_ContainerName = containerName, a_Image = FullNameWithTag ref,
            a_CurrentVersion = r_Tag ref, a_CurrentDigest = (if currentDigest = [] then r_Digest ref else currentDigest),
            a_LatestVersion = v_Tag v, a_LatestDigest = v_Digest v, a_IsPrerelease = False,
            a_HasChangelog = False, a_Changelog = None, a_CheckedAt = now\<rparr>)"

text \<open>
  The cache is an interface: how to read it and how to write it. \<open>slot\<close> is whether the semaphore has a
  place before the context is done.
\<close>

record 'c store =
  store_Get :: "'c \<Rightarrow> gotime \<Rightarrow> string \<Rightarrow> string \<Rightarrow> image_version option"
  store_Set :: "'c \<Rightarrow> gotime \<Rightarrow> string \<Rightarrow> string \<Rightarrow> image_version \<Rightarrow> duration \<Rightarrow> 'c"

record 'c checker =
  ch_config :: checker_config
  ch_clients :: "client list"
  ch_store :: "'c store option"

definition CheckContainer ::
  "'c checker \<Rightarrow> gotime \<Rightarrow> bool \<Rightarrow> container_info \<Rightarrow> 'c \<Rightarrow> (app_error + available_update option) \<times> 'c" where
  "CheckContainer C now slot ct cache =
     (case ParseImageRef (ci_Image ct) of
        Inl _ \<Rightarrow> (Inl (AppError ''INVALID_INPUT'' ''failed to parse image''), cache)
      | Inr ref \<Rightarrow>
          if cc_SkipLocalImages (ch_config C) \<and> isLocalImage ref then (Inr None, cache)
          else (case Option.bind (ch_store C) (\<lambda>S. store_Get S cache now (FullName ref) (r_Tag ref)) of
              Some v \<Rightarrow> (Inr (buildAvailableUpdate now (ci_ID ct) (ci_Name ct) ref (Some v) (ci_Digest ct)), cache)
            | None \<Rightarrow>
                if \<not> slot then (Inl ContextDone, cache)
                else (case findClient (ch_clients C) (r_Registry ref) of
                    None \<Rightarrow> (Inl (AppError ''NOT_SUPPORTED'' ''unsupported registry''), cache)
                  | Some client \<Rightarrow>
                      (case LatestVersion client now ref of
                         Inl _ \<Rightarrow> (Inl (AppError ''EXTERNAL_ERROR'' ''failed to check registry''), cache)
                       | Inr latest \<Rightarrow>
                           (Inr (buildAvailableUpdate now (ci_ID ct) (ci_Name ct) ref latest (ci_Digest ct)),
                            case (ch_store C, latest) of
                              (Some S, Some v) \<Rightarrow> store_Set S cache now (FullName ref) (r_Tag ref) v (cc_CacheTTL (ch_config C))
                            | _ \<Rightarrow> cache)))))"

definition absorb :: "string \<Rightarrow> app_error + available_update option \<Rightarrow> check_result \<Rightarrow> check_result" where
  "absorb img outcome r =
     (case outcome of
        Inl _ \<Rightarrow> r\<lparr>cr_Errors := cr_Errors r + 1, cr_SkippedImages := cr_SkippedImages r @ [img]\<rparr>
      | Inr u \<Rightarrow>
          (let r = r\<lparr>cr_CheckedCount := cr_CheckedCount r + 1\<rparr> in
           case u of
             Some a \<Rightarrow> if NeedsUpdate a then r\<lparr>cr_UpdatesAvailable := cr_UpdatesAvailable r + 1, cr_Updates := cr_Updates r @ [a]\<rparr> else r
           | None \<Rightarrow> r))"

text \<open>
  One goroutine per container. They are taken one after the other, in the order in which they finish:
  each with its reading of the clock and whether it got a place.
\<close>

fun check_loop ::
  "'c checker \<Rightarrow> (container_info \<times> gotime \<times> bool) list \<Rightarrow> check_result \<times> 'c \<Rightarrow> check_result \<times> 'c" where
  "check_loop C [] (r, cache) = (r, cache)"
| "check_loop C ((ct, now, slot) # runs) (r, cache) =
     (case CheckContainer C now slot ct cache of
        (outcome, cache) \<Rightarrow> check_loop C runs (absorb (ci_Image ct) outcome r, cache))"

definition CheckContainers ::
  "'c checker \<Rightarrow> (container_info \<times> gotime \<times> bool) list \<Rightarrow> 'c \<Rightarrow> check_result \<times> 'c" where
  "CheckContainers C runs cache =
     check_loop C runs
       (\<lparr>cr_TotalContainers = int (length runs), cr_CheckedCount = 0, cr_UpdatesAvailable = 0, cr_Errors = 0,
         cr_Updates = [], cr_SkippedImages = []\<rparr>, cache)"

section \<open>The checks of the service\<close>

text \<open>
  What is written to the table of containers: identifier, current and latest version, whether an update
  is available. Failures of these statements are ignored by the code.
\<close>

type_synonym version_info = "string \<times> string \<times> string \<times> bool"

definition version_info :: "available_update \<Rightarrow> version_info" where
  "version_info a = (a_ContainerID a, a_CurrentVersion a, a_LatestVersion a, NeedsUpdate a)"

definition without_digest :: "container_info \<Rightarrow> container_info" where
  "without_digest c = \<lparr>ci_ID = ci_ID c, ci_Name = ci_Name c, ci_Image = ci_Image c, ci_Digest = []\<rparr>"

text \<open>
  \<open>list\<close> is what the engine lists, each container with the clock and the semaphore of its goroutine, in
  finishing order.
\<close>

definition CheckForUpdates ::
  "'c checker \<Rightarrow> string + (container_info \<times> gotime \<times> bool) list \<Rightarrow> 'c \<Rightarrow> (app_error + check_result \<times> version_info list) \<times> 'c" where
  "CheckForUpdates C containers cache =
     (case containers of
        Inl _ \<Rightarrow> (Inl (AppError ''DOCKER_CONNECTION_ERROR'' ''failed to list containers''), cache)
      | Inr cs \<Rightarrow>
          (case CheckContainers C (map (\<lambda>(c, run). (without_digest c, run)) cs) cache of
             (result, cache) \<Rightarrow> (Inr (result, map version_info (cr_Updates result)), cache)))"

section \<open>The memory cache is bounded\<close>

definition cache_ok :: "memory_cache \<Rightarrow> bool" where
  "cache_ok c \<longleftrightarrow>
     distinct (map fst (mc_cache c)) \<and> [] \<notin> fst ` set (mc_cache c) \<and>
     0 < mc_maxSize c \<and> int (length (mc_cache c)) \<le> mc_maxSize c"

lemma cacheKey_not_Nil [simp]: "cacheKey img tag \<noteq> []" "[] \<noteq> cacheKey img tag"
  by (simp_all add: cacheKey_def)

lemma oldest_loop_Some: "oldest_loop (Some (k, t)) es \<in> insert k (fst ` set es)"
  by (induction "Some (k, t)" es arbitrary: k t rule: oldest_loop.induct) (auto simp: image_iff)

lemma oldest_loop_in: "es \<noteq> [] \<Longrightarrow> oldest_loop None es \<in> fst ` set es"
proof (cases es)
  case (Cons p ps)
  then show ?thesis using oldest_loop_Some [of "fst p" "ce_expiresAt (snd p)" ps] by (cases p) auto
qed simp

lemma evictOldest_key:
  assumes "es \<noteq> []" "[] \<notin> fst ` set es"
  obtains k where "k \<in> fst ` set es" "evictOldest order es = AList.delete k es"
proof
  let ?k = "oldest_loop None (in_order order es)"
  have "in_order order es \<noteq> []" using assms(1) by (metis in_order_def length_0_conv length_sort)
  from oldest_loop_in [OF this] show k: "?k \<in> fst ` set es" by (simp add: in_order_def)
  with assms(2) have "?k \<noteq> []" by metis
  then show "evictOldest order es = AList.delete ?k es" by (simp add: evictOldest_def Let_def)
qed

lemma length_delete_less: "k \<in> fst ` set es \<Longrightarrow> length (AList.delete k es) < length es"
  by (induction es) (auto simp: AList.delete_eq le_imp_less_Suc)

lemma length_AList_update: "length (AList.update k v es) = (if k \<in> fst ` set es then length es else Suc (length es))"
  by (induction es) auto

lemma keys_AList_update: "fst ` set (AList.update k v es) = insert k (fst ` set es)"
  by (induction es) auto

lemma keys_AList_delete: "fst ` set (AList.delete k es) = fst ` set es - {k}"
  by (auto simp: AList.delete_eq)

lemma cache_Set_ok:
  assumes "cache_ok c"
  shows "cache_ok (cache_Set order c now img tag v ttl)"
proof -
  let ?es = "mc_cache c" and ?key = "cacheKey img tag"
  let ?room = "if map_of ?es ?key = None \<and> int (length ?es) \<ge> mc_maxSize c then evictOldest order ?es else ?es"
  have es: "distinct (map fst ?es)" "[] \<notin> fst ` set ?es" "0 < mc_maxSize c" "int (length ?es) \<le> mc_maxSize c"
    using assms by (auto simp: cache_ok_def)
  have "distinct (map fst ?room) \<and> [] \<notin> fst ` set ?room \<and> int (length ?room) \<le> mc_maxSize c \<and>
      (?key \<in> fst ` set ?room \<or> int (length ?room) < mc_maxSize c)"
  proof (cases "map_of ?es ?key = None \<and> int (length ?es) \<ge> mc_maxSize c")
    case True
    then have "?es \<noteq> []" using es(3) by auto
    then obtain k where "k \<in> fst ` set ?es" "evictOldest order ?es = AList.delete k ?es"
      using evictOldest_key es(2) by blast
    with True es show ?thesis
      using length_delete_less [of k ?es] by (auto simp: keys_AList_delete distinct_delete)
  next
    case False
    then show ?thesis using es by (auto simp: map_of_eq_None_iff)
  qed
  then show ?thesis
    using es(3) by (auto simp: cache_ok_def cache_Set_def Let_def length_AList_update keys_AList_update distinct_update
        simp del: map_of_eq_None_iff)
qed

text \<open>What happens to the cache: a version is stored, an entry is deleted, the expired entries are removed.\<close>

datatype cache_event =
    Stored map_order gotime string string image_version duration
  | Deleted string string
  | Cleaned gotime

fun cache_step :: "cache_event \<Rightarrow> memory_cache \<Rightarrow> memory_cache" where
  "cache_step (Stored order now img tag v ttl) c = cache_Set order c now img tag v ttl"
| "cache_step (Deleted img tag) c = cache_Delete c img tag"
| "cache_step (Cleaned now) c = cache_cleanup now c"

lemma length_delete_le: "length (AList.delete k es) \<le> length es"
  by (simp add: AList.delete_eq)

lemma cache_step_ok: "cache_ok c \<Longrightarrow> cache_ok (cache_step e c)"
proof (induction e c rule: cache_step.induct)
  case (2 img tag c)
  then show ?case
    using length_delete_le [of "cacheKey img tag" "mc_cache c"]
    by (auto simp: cache_ok_def cache_Delete_def distinct_delete keys_AList_delete)
next
  case (3 now c)
  then show ?case
    by (auto simp: cache_ok_def cache_cleanup_def distinct_map_filter intro: int_length_filter_le)
qed (simp add: cache_Set_ok)

interpretation cached: op_invariant cache_step cache_ok
  by unfold_locales (rule cache_step_ok)

text \<open>
  The cache of versions is bounded: after any sequence of stores, deletions and cleanups, with the
  keys visited in any order, it has at most 1000 entries and one per key.
\<close>

theorem version_cache_bounded:
  "let c = fold cache_step events NewMemoryVersionCache
   in distinct (map fst (mc_cache c)) \<and> length (mc_cache c) \<le> 1000"
proof -
  have size: "mc_maxSize (cache_step e c) = mc_maxSize c" for e c
    by (cases e) (simp_all add: cache_Set_def cache_Delete_def cache_cleanup_def Let_def)
  have "mc_maxSize (fold cache_step events c) = mc_maxSize c" for c
    by (induction events arbitrary: c) (simp_all add: size)
  moreover have "cache_ok (fold cache_step events NewMemoryVersionCache)"
    by (rule cached.run_inv) (simp add: cache_ok_def NewMemoryVersionCache_def)
  ultimately show ?thesis by (simp add: cache_ok_def NewMemoryVersionCache_def Let_def)
qed

section \<open>What the clients offer\<close>

text \<open>
  A tag that may be offered to the owner of \<open>tag\<close>: \<^verbatim>\<open>latest\<close> for \<^verbatim>\<open>latest\<close>; otherwise another
  tag of the same variant and of a higher version, if \<open>tag\<close> has one.
\<close>

definition offers :: "string \<Rightarrow> string \<Rightarrow> bool" where
  "offers tag newTag \<longleftrightarrow>
     (let current = if tag = [] then ''latest'' else tag in
      if current = ''latest'' then newTag = ''latest''
      else newTag \<noteq> ''latest'' \<and> newTag \<noteq> current \<and> extractVariant newTag = extractVariant current \<and>
        (extractVersionParts current = [] \<or> version current < version newTag))"

lemma latest_tag_eligible:
  "latest_tag tags t \<noteq> [] \<Longrightarrow> \<exists>major. eligible (extractVariant t) major (latest_tag tags t)"
  using highest_tag by (auto simp: latest_tag_def Let_def split: if_splits)

lemma eligible_parts: "eligible variant major tag \<Longrightarrow> extractVariant tag = variant \<and> tag \<noteq> ''latest'' \<and> extractVersionParts tag \<noteq> []"
  by (simp add: eligible_def)

lemma GetLatestVersion_offers:
  assumes "GetLatestVersion R now ref = Inr (Some v)"
  shows "offers (r_Tag ref) (v_Tag v)"
proof (cases "current_tag ref = ''latest''")
  case True
  with assms show ?thesis
    by (auto simp: GetLatestVersion_def offers_def current_tag_def Let_def split: sum.splits if_splits)
next
  case False
  let ?t = "current_tag ref"
  obtain tags where tags: "ListTags R ref = Inr tags" using assms by (auto simp: GetLatestVersion_def split: sum.splits)
  let ?l = "latest_tag tags ?t"
  have l: "?l \<noteq> []" "?l \<noteq> ?t" "isNewerTag ?l ?t" "v_Tag v = ?l"
    using assms tags False by (auto simp: GetLatestVersion_def Let_def split: if_splits)
  then obtain major where "eligible (extractVariant ?t) major ?l" using latest_tag_eligible by blast
  note parts = eligible_parts [OF this]
  then have "extractVersionParts ?t = [] \<or> version ?t < version ?l"
    using l(3) isNewerTag_version by blast
  with parts l False show ?thesis by (simp add: offers_def current_tag_def Let_def split: if_splits)
qed

definition honest :: "client \<Rightarrow> bool" where
  "honest c \<longleftrightarrow> (\<forall>now ref v. LatestVersion c now ref = Inr (Some v) \<longrightarrow> offers (r_Tag ref) (v_Tag v))"

lemma honest_clients: "list_all honest (registered_clients hub ghcr)"
  by (simp add: registered_clients_def honest_def hub_client_def ghcr_client_def ghcr_GetLatestVersion_def GetLatestVersion_offers)

lemma honest_find: "list_all honest cs \<Longrightarrow> findClient cs registry = Some c \<Longrightarrow> honest c"
  by (induction cs) (auto split: if_splits)

lemma cut_tag_colon: "cut_tag s = Some (a, t) \<Longrightarrow> CHR '':'' \<notin> set t"
proof -
  assume c: "cut_tag s = Some (a, t)"
  let ?w = "takeWhile (\<lambda>c. c \<noteq> CHR '':'') (rev s)"
  have "drop (length s - length ?w) s = rev ?w"
    using takeWhile_eq_take [of "\<lambda>c. c \<noteq> CHR '':''" "rev s"] length_takeWhile_le [of "\<lambda>c. c \<noteq> CHR '':''" "rev s"]
    by (metis length_rev rev_take rev_rev_ident)
  with c have "t = rev ?w" by (auto simp: cut_tag_def Let_def split: if_splits)
  moreover have "CHR '':'' \<notin> set ?w" using set_takeWhileD by fastforce
  ultimately show ?thesis by simp
qed

lemma parsed_tag: "ParseImageRef img = Inr ref \<Longrightarrow> CHR '':'' \<notin> set (r_Tag ref)"
  by (auto simp: ParseImageRef_def Let_def split: if_splits option.splits prod.splits dest: cut_tag_colon)

section \<open>The interface of the cache\<close>

text \<open>
  What the checker relies on: reading gives what was stored for the same image and tag, or what was there
  before. Tags have no colon.
\<close>

locale version_store =
  fixes S :: "'c store"
  assumes get_set: "CHR '':'' \<notin> set tag \<Longrightarrow> CHR '':'' \<notin> set tag' \<Longrightarrow>
    store_Get S (store_Set S c now img tag v ttl) now' img' tag' = Some w \<Longrightarrow>
    img' = img \<and> tag' = tag \<and> w = v \<or> store_Get S c now' img' tag' = Some w"

definition trusted :: "'c store \<Rightarrow> 'c \<Rightarrow> bool" where
  "trusted S c \<longleftrightarrow>
     (\<forall>now img tag v. CHR '':'' \<notin> set tag \<longrightarrow> store_Get S c now img tag = Some v \<longrightarrow> offers tag (v_Tag v))"

lemma trustedD: "trusted S c \<Longrightarrow> CHR '':'' \<notin> set tag \<Longrightarrow> store_Get S c now img tag = Some v \<Longrightarrow> offers tag (v_Tag v)"
  by (auto simp: trusted_def)

definition good_update :: "available_update \<Rightarrow> bool" where
  "good_update u \<longleftrightarrow> offers (a_CurrentVersion u) (a_LatestVersion u)"

context version_store
begin

lemma trusted_set:
  assumes "trusted S c" "CHR '':'' \<notin> set tag" "offers tag (v_Tag v)"
  shows "trusted S (store_Set S c now img tag v ttl)"
  unfolding trusted_def using get_set [OF assms(2)] assms trustedD by metis

lemma CheckContainer_good:
  assumes "ch_store C = Some S" "list_all honest (ch_clients C)" "trusted S c"
    and run: "CheckContainer C now slot ct c = (outcome, c')"
  shows "trusted S c' \<and> (\<forall>u. outcome = Inr (Some u) \<longrightarrow> good_update u)"
proof (cases "ParseImageRef (ci_Image ct)")
  case (Inr ref)
  note colon = parsed_tag [OF Inr]
  show ?thesis
  proof (cases "cc_SkipLocalImages (ch_config C) \<and> isLocalImage ref")
    case False
    show ?thesis
    proof (cases "store_Get S c now (FullName ref) (r_Tag ref)")
      case (Some v)
      with run Inr False assms show ?thesis
        using trustedD [OF assms(3) colon Some]
        by (auto simp: CheckContainer_def good_update_def buildAvailableUpdate_def)
    next
      case None
      note miss = Inr False None run assms(1)
      show ?thesis
      proof (cases "findClient (ch_clients C) (r_Registry ref)")
        case (Some client)
        with assms(2) have "honest client" by (rule honest_find)
        then have "LatestVersion client now ref = Inr (Some v) \<Longrightarrow> offers (r_Tag ref) (v_Tag v)" for v
          by (auto simp: honest_def)
        with miss Some assms(3) show ?thesis
          by (auto simp: CheckContainer_def good_update_def buildAvailableUpdate_def
              split: if_splits sum.splits option.splits intro: trusted_set [OF _ colon])
      qed (use miss assms(3) in \<open>auto simp: CheckContainer_def split: if_splits\<close>)
    qed
  qed (use Inr run assms(3) in \<open>auto simp: CheckContainer_def\<close>)
qed (use run assms(3) in \<open>auto simp: CheckContainer_def\<close>)

lemma absorb_good:
  "(\<forall>u. outcome = Inr (Some u) \<longrightarrow> good_update u) \<Longrightarrow> list_all good_update (cr_Updates r) \<Longrightarrow>
     list_all good_update (cr_Updates (absorb img outcome r))"
  by (auto simp: absorb_def Let_def split: sum.splits option.splits)

lemma check_loop_good:
  assumes "ch_store C = Some S" "list_all honest (ch_clients C)" "trusted S c" "list_all good_update (cr_Updates r)"
  shows "trusted S (snd (check_loop C runs (r, c))) \<and> list_all good_update (cr_Updates (fst (check_loop C runs (r, c))))"
  using assms(3,4)
proof (induction runs arbitrary: r c)
  case (Cons run runs)
  obtain ct now slot where run: "run = (ct, now, slot)" by (cases run)
  obtain outcome c' where step: "CheckContainer C now slot ct c = (outcome, c')" by fastforce
  show ?case
    using CheckContainer_good [OF assms(1,2) Cons.prems(1) step] Cons.IH Cons.prems absorb_good by (simp add: run step)
qed simp

lemma CheckContainers_good:
  assumes "ch_store C = Some S" "list_all honest (ch_clients C)" "trusted S c"
  shows "trusted S (snd (CheckContainers C runs c))" "list_all good_update (cr_Updates (fst (CheckContainers C runs c)))"
  using check_loop_good [OF assms] by (simp_all add: CheckContainers_def)

end

section \<open>The memory cache as the checker's cache\<close>

definition memory_store :: "map_order \<Rightarrow> memory_cache store" where
  "memory_store order = \<lparr>store_Get = cache_Get, store_Set = cache_Set order\<rparr>"

lemma cacheKey_inject:
  assumes "cacheKey i t = cacheKey i' t'" "CHR '':'' \<notin> set t" "CHR '':'' \<notin> set t'"
  shows "i = i' \<and> t = t'"
proof -
  have "cut_last CHR '':'' (cacheKey i t) = Some (i, t)" "cut_last CHR '':'' (cacheKey i' t') = Some (i', t')"
    using cut_last_append [OF assms(2), of i] cut_last_append [OF assms(3), of i'] by (simp_all only: cacheKey_def append.simps)
  then have "Some (i, t) = Some (i', t')" using assms(1) by metis
  then show ?thesis by simp
qed

lemma map_of_evict: "map_of (evictOldest order es) k = Some e \<Longrightarrow> map_of es k = Some e"
  by (auto simp: evictOldest_def Let_def delete_conv' split: if_splits)

lemma cache_Get_Set:
  assumes "CHR '':'' \<notin> set tag" "CHR '':'' \<notin> set tag'" "cache_Get (cache_Set order c now img tag v ttl) now' img' tag' = Some w"
  shows "img' = img \<and> tag' = tag \<and> w = v \<or> cache_Get c now' img' tag' = Some w"
proof (cases "cacheKey img' tag' = cacheKey img tag")
  case True
  from cacheKey_inject [OF this assms(2,1)] show ?thesis
    using assms(3) by (auto simp: cache_Get_def cache_Set_def Let_def update_conv' split: if_splits)
next
  case False
  with assms(3) show ?thesis
    by (auto simp: cache_Get_def cache_Set_def Let_def update_conv' split: if_splits option.splits dest: map_of_evict)
qed

interpretation mem_store: version_store "memory_store order" for order
  by unfold_locales (auto simp: memory_store_def dest: cache_Get_Set)

definition application_checker :: "map_order \<Rightarrow> registry \<Rightarrow> registry \<Rightarrow> memory_cache checker" where
  "application_checker order hub ghcr =
     \<lparr>ch_config = DefaultCheckerConfig, ch_clients = registered_clients hub ghcr, ch_store = Some (memory_store order)\<rparr>"

lemma trusted_order: "trusted (memory_store order) c = trusted (memory_store order') c"
  by (simp add: trusted_def memory_store_def)

text \<open>
  A history of the application's checker: checks, each with what the registries answer at that time,
  and the other events of the cache that remove entries.
\<close>

datatype checker_event =
    Checked map_order registry registry "(container_info \<times> gotime \<times> bool) list"
  | Expired gotime
  | Removed string string

fun checker_step :: "checker_event \<Rightarrow> memory_cache \<Rightarrow> memory_cache" where
  "checker_step (Checked order hub ghcr runs) c = snd (CheckContainers (application_checker order hub ghcr) runs c)"
| "checker_step (Expired now) c = cache_cleanup now c"
| "checker_step (Removed img tag) c = cache_Delete c img tag"

definition mem_trusted :: "memory_cache \<Rightarrow> bool" where
  "mem_trusted c \<longleftrightarrow> distinct (map fst (mc_cache c)) \<and> trusted (memory_store (\<lambda>_. 0)) c"

lemma map_of_filter_distinct:
  "distinct (map fst es) \<Longrightarrow> map_of (filter P es) k = Some e \<Longrightarrow> map_of es k = Some e"
  by (auto dest!: map_of_SomeD)

lemma cache_Get_sub:
  "(\<And>e. map_of (mc_cache c') (cacheKey img tag) = Some e \<Longrightarrow> map_of (mc_cache c) (cacheKey img tag) = Some e) \<Longrightarrow>
     cache_Get c' now img tag = Some v \<Longrightarrow> cache_Get c now img tag = Some v"
  by (auto simp: cache_Get_def split: option.splits if_splits)

lemma trusted_sub:
  assumes "trusted (memory_store order) c" "\<And>k e. map_of (mc_cache c') k = Some e \<Longrightarrow> map_of (mc_cache c) k = Some e"
  shows "trusted (memory_store order) c'"
  unfolding trusted_def
proof (intro allI impI)
  fix now img tag v
  assume colon: "CHR '':'' \<notin> set tag" and "store_Get (memory_store order) c' now img tag = Some v"
  then have "cache_Get c' now img tag = Some v" by (simp add: memory_store_def)
  then have "cache_Get c now img tag = Some v" by (rule cache_Get_sub [rotated]) (rule assms(2))
  with trustedD [OF assms(1) colon] show "offers tag (v_Tag v)" by (simp add: memory_store_def)
qed

lemma CheckContainer_distinct:
  assumes "distinct (map fst (mc_cache c))"
  shows "distinct (map fst (mc_cache (snd (CheckContainer (application_checker order hub ghcr) now slot ct c))))"
proof -
  have "distinct (map fst (evictOldest order (mc_cache c)))"
    using assms by (simp add: evictOldest_def Let_def distinct_delete)
  with assms have "distinct (map fst (mc_cache (cache_Set order c now img tag v ttl)))" for now img tag v ttl
    by (simp add: cache_Set_def Let_def distinct_update)
  with assms show ?thesis
    by (auto simp: CheckContainer_def application_checker_def memory_store_def split: sum.splits option.splits)
qed

lemma check_loop_distinct:
  "distinct (map fst (mc_cache c)) \<Longrightarrow>
     distinct (map fst (mc_cache (snd (check_loop (application_checker order hub ghcr) runs (r, c)))))"
proof (induction runs arbitrary: r c)
  case (Cons run runs)
  obtain ct now slot where run: "run = (ct, now, slot)" by (cases run)
  obtain outcome c' where "CheckContainer (application_checker order hub ghcr) now slot ct c = (outcome, c')" by fastforce
  with Cons CheckContainer_distinct [OF Cons.prems, of order hub ghcr now slot ct] show ?case by (simp add: run)
qed simp

lemma application_checker_good:
  assumes "mem_trusted c"
  shows "mem_trusted (snd (CheckContainers (application_checker order hub ghcr) runs c))"
    "list_all good_update (cr_Updates (fst (CheckContainers (application_checker order hub ghcr) runs c)))"
proof -
  let ?C = "application_checker order hub ghcr"
  have t: "trusted (memory_store order) c"
    using assms trusted_order [where order = order and order' = "\<lambda>_. 0"] by (simp add: mem_trusted_def)
  have C: "ch_store ?C = Some (memory_store order)" "list_all honest (ch_clients ?C)"
    by (simp_all add: application_checker_def honest_clients)
  have "distinct (map fst (mc_cache (snd (CheckContainers ?C runs c))))"
    using assms check_loop_distinct by (simp add: CheckContainers_def mem_trusted_def)
  with mem_store.CheckContainers_good(1) [OF C t, of runs] show "mem_trusted (snd (CheckContainers ?C runs c))"
    using trusted_order [where order = order and order' = "\<lambda>_. 0"] by (simp add: mem_trusted_def)
  show "list_all good_update (cr_Updates (fst (CheckContainers ?C runs c)))"
    by (rule mem_store.CheckContainers_good(2) [OF C t])
qed

lemma checker_step_trusted: "mem_trusted c \<Longrightarrow> mem_trusted (checker_step e c)"
proof (cases e)
  case (Expired now)
  assume c: "mem_trusted c"
  then have d: "distinct (map fst (mc_cache c))" and t: "trusted (memory_store (\<lambda>_. 0)) c" by (simp_all add: mem_trusted_def)
  have "trusted (memory_store (\<lambda>_. 0)) (cache_cleanup now c)"
    using t by (rule trusted_sub) (simp add: cache_cleanup_def map_of_filter_distinct [OF d])
  with c Expired show ?thesis by (simp add: mem_trusted_def cache_cleanup_def distinct_map_filter)
next
  case (Removed img tag)
  assume c: "mem_trusted c"
  then have t: "trusted (memory_store (\<lambda>_. 0)) c" by (simp add: mem_trusted_def)
  have "trusted (memory_store (\<lambda>_. 0)) (cache_Delete c img tag)"
    using t by (rule trusted_sub) (simp add: cache_Delete_def delete_conv' split: if_splits)
  with c Removed show ?thesis by (simp add: mem_trusted_def cache_Delete_def distinct_delete)
qed (simp add: application_checker_good)

interpretation checks: op_invariant checker_step mem_trusted
  by unfold_locales (rule checker_step_trusted)

lemma mem_trusted_new: "mem_trusted NewMemoryVersionCache"
  by (simp add: mem_trusted_def trusted_def memory_store_def cache_Get_def NewMemoryVersionCache_def)

text \<open>
  C24. Every update the checker reports, at any point of any history of checks, answered by the registries
  or from the cache, offers \<^verbatim>\<open>latest\<close> to the owner of \<^verbatim>\<open>latest\<close> and to everyone else a tag of
  the same variant with a higher version: no downgrade and no change of variant is ever offered.
\<close>

theorem reported_updates_are_newer:
  "list_all (\<lambda>u. offers (a_CurrentVersion u) (a_LatestVersion u))
     (cr_Updates (fst (CheckContainers (application_checker order hub ghcr) runs
       (fold checker_step history NewMemoryVersionCache))))"
proof -
  have "mem_trusted (fold checker_step history NewMemoryVersionCache)"
    by (rule checks.run_inv) (rule mem_trusted_new)
  from application_checker_good(2) [OF this] show ?thesis unfolding good_update_def [abs_def] .
qed

section \<open>Containers that run \<^verbatim>\<open>latest\<close>\<close>

lemma CheckContainer_current:
  assumes "CheckContainer C now slot ct c = (Inr (Some u), c')" "ci_Digest ct = []" "cut_digest (ci_Image ct) = None"
  shows "a_CurrentDigest u = []"
proof (cases "ParseImageRef (ci_Image ct)")
  case (Inr ref)
  have "r_Digest ref = []"
    using Inr assms(3) by (auto simp: ParseImageRef_def Let_def split: if_splits option.splits prod.splits)
  with assms Inr show ?thesis
    by (auto simp: CheckContainer_def buildAvailableUpdate_def split: if_splits option.splits sum.splits)
qed (use assms in \<open>simp add: CheckContainer_def\<close>)

definition not_latest :: "available_update \<Rightarrow> bool" where
  "not_latest u \<longleftrightarrow> a_CurrentVersion u \<noteq> ''latest''"

lemma latest_not_needed:
  "good_update u \<Longrightarrow> a_CurrentDigest u = [] \<Longrightarrow> \<not> not_latest u \<Longrightarrow> \<not> NeedsUpdate u"
  by (simp add: good_update_def not_latest_def offers_def NeedsUpdate_def)

context version_store
begin

lemma check_loop_not_latest:
  assumes "ch_store C = Some S" "list_all honest (ch_clients C)" "trusted S c"
    and "list_all (\<lambda>(ct, _). ci_Digest ct = [] \<and> cut_digest (ci_Image ct) = None) runs" "list_all not_latest (cr_Updates r)"
  shows "list_all not_latest (cr_Updates (fst (check_loop C runs (r, c))))"
  using assms(3-)
proof (induction runs arbitrary: r c)
  case (Cons run runs)
  obtain ct now slot where run: "run = (ct, now, slot)" by (cases run)
  obtain outcome c' where step: "CheckContainer C now slot ct c = (outcome, c')" by fastforce
  note good = CheckContainer_good [OF assms(1,2) Cons.prems(1) step]
  have "not_latest u \<or> \<not> NeedsUpdate u" if "outcome = Inr (Some u)" for u
    using good that Cons.prems(2) step CheckContainer_current [of C now slot ct c u c'] latest_not_needed [of u]
    by (auto simp: run)
  then have "list_all not_latest (cr_Updates (absorb (ci_Image ct) outcome r))"
    using Cons.prems(3) by (auto simp: absorb_def Let_def split: sum.splits option.splits)
  with Cons.IH good Cons.prems(2) show ?case by (simp add: run step)
qed simp

end

text \<open>
  The check of a whole host never reports an update for a container whose image is
  \<^verbatim>\<open>name:latest\<close>, whatever the registries answer and whatever digest the engine lists for the
  container: that digest is not passed on, and without it \<^verbatim>\<open>latest\<close> counts as up to date.
\<close>

theorem host_check_never_reports_latest:
  assumes "list_all (\<lambda>(ct, _). cut_digest (ci_Image ct) = None) runs"
  shows "case fst (CheckForUpdates (application_checker order hub ghcr) (Inr runs)
      (fold checker_step history NewMemoryVersionCache)) of
      Inl _ \<Rightarrow> False
    | Inr (r, _) \<Rightarrow> list_all (\<lambda>u. a_CurrentVersion u \<noteq> ''latest'') (cr_Updates r)"
proof -
  let ?c = "fold checker_step history NewMemoryVersionCache" and ?C = "application_checker order hub ghcr"
  let ?runs = "map (\<lambda>(c, run). (without_digest c, run)) runs"
  have "mem_trusted ?c" by (rule checks.run_inv) (rule mem_trusted_new)
  then have t: "trusted (memory_store order) ?c"
    using trusted_order [where order = order and order' = "\<lambda>_. 0"] by (simp add: mem_trusted_def)
  have C: "ch_store ?C = Some (memory_store order)" "list_all honest (ch_clients ?C)"
    by (simp_all add: application_checker_def honest_clients)
  have "list_all (\<lambda>(ct, _). ci_Digest ct = [] \<and> cut_digest (ci_Image ct) = None) ?runs"
    using assms by (auto simp: list_all_iff without_digest_def)
  from mem_store.check_loop_not_latest [OF C t this]
  have "list_all not_latest (cr_Updates (fst (CheckContainers ?C ?runs ?c)))" by (simp add: CheckContainers_def)
  then show ?thesis by (simp add: CheckForUpdates_def not_latest_def [abs_def] split_beta)
qed

definition sample_registry :: "string list \<Rightarrow> string \<Rightarrow> registry" where
  "sample_registry tags digest = \<lparr>ListTags = (\<lambda>_. Inr tags), GetDigest = (\<lambda>_. Inr digest)\<rparr>"

definition sample_run :: "string \<Rightarrow> string \<Rightarrow> container_info \<times> gotime \<times> bool" where
  "sample_run img digest = (\<lparr>ci_ID = ''c1'', ci_Name = ''/web'', ci_Image = img, ci_Digest = digest\<rparr>, 0, True)"

theorem host_check_never_reports_latest_witness:
  "let hub = sample_registry [''latest'', ''1.25'', ''1.27''] ''sha256:new'';
       check = (\<lambda>img. fst (CheckForUpdates (application_checker (\<lambda>_. 0) hub hub) (Inr [sample_run img ''sha256:old'']) NewMemoryVersionCache))
   in (case check ''nginx:latest'' of Inl _ \<Rightarrow> False | Inr (r, _) \<Rightarrow> list_all (\<lambda>u. a_CurrentVersion u \<noteq> ''latest'') (cr_Updates r)) \<and>
      map_sum id (\<lambda>(r, _). cr_CheckedCount r) (check ''nginx:latest'') = Inr 1 \<and>
      map_sum id (\<lambda>(r, _). map a_LatestVersion (cr_Updates r)) (check ''nginx:1.25'') = Inr [''1.27'']"
proof -
  have "list_all (\<lambda>(ct, _). cut_digest (ci_Image ct) = None) [sample_run ''nginx:latest'' ''sha256:old'']" by code_simp
  from host_check_never_reports_latest [OF this, of "\<lambda>_. 0" _ _ "[]"] show ?thesis
    unfolding Let_def fold.simps id_apply by (intro conjI) (assumption | code_simp)+
qed

end
