(* ===== verification/Container_Update.thy ===== *)
theory Container_Update
  imports Update_Check
begin

text \<open>
  Updating a container and rolling an update back
  (\<^verbatim>\<open>internal/services/update/service.go\<close>), the records of updates, the policies and the
  webhooks (\<^verbatim>\<open>internal/models/update.go\<close>, \<^verbatim>\<open>internal/repository/postgres/update_repo.go\<close>,
  migration \<^verbatim>\<open>010_updates\<close>).

  The Docker engine is a parameter: a state \<open>'e\<close> and the calls of the interface
  \<^verbatim>\<open>DockerClient\<close>, each of which may fail and changes the state; what is relied on is the locale
  \<open>container_engine\<close>. \<open>'k\<close> is the configuration of a container apart from its image. Clock
  readings, fresh identifiers and the outcomes of the database, of backups and of security scans are an
  argument (\<open>update_io\<close>). Errors of other parts are their texts.
\<close>

section \<open>The engine\<close>

record 'k container_json =
  cj_Name :: string
  cj_Image :: string
  cj_ConfigImage :: string
  cj_Settings :: 'k
  cj_Running :: bool
  cj_Health :: "string option"

record image_info =
  ii_RepoDigests :: "string list"

record ('e, 'k) docker =
  ContainerInspect :: "'e \<Rightarrow> string \<Rightarrow> (string + 'k container_json) \<times> 'e"
  ContainerStop :: "'e \<Rightarrow> string \<Rightarrow> int \<Rightarrow> string option \<times> 'e"
  ContainerStart :: "'e \<Rightarrow> string \<Rightarrow> string option \<times> 'e"
  ContainerRemove :: "'e \<Rightarrow> string \<Rightarrow> bool \<Rightarrow> string option \<times> 'e"
  ContainerCreate :: "'e \<Rightarrow> string \<Rightarrow> 'k \<Rightarrow> string \<Rightarrow> (string + string) \<times> 'e"
  ContainerRename :: "'e \<Rightarrow> string \<Rightarrow> string \<Rightarrow> string option \<times> 'e"
  ImagePull :: "'e \<Rightarrow> string \<Rightarrow> string option \<times> 'e"
  ImageInspect :: "'e \<Rightarrow> string \<Rightarrow> (string + image_info) \<times> 'e"

section \<open>Records\<close>

datatype update_status =
    Pending | Checking | Available | Pulling | BackingUp | Updating | HealthCheck
  | Completed | Failed | RolledBack | Skipped

definition IsTerminal :: "update_status \<Rightarrow> bool" where
  "IsTerminal s \<longleftrightarrow> s \<in> set [Completed, Failed, RolledBack, Skipped]"

definition IsSuccess :: "update_status \<Rightarrow> bool" where
  "IsSuccess s \<longleftrightarrow> s = Completed"

record update_row =
  up_ID :: uuid
  up_HostID :: uuid
  up_Type :: string
  up_TargetID :: string
  up_TargetName :: string
  up_Image :: string
  up_FromVersion :: string
  up_ToVersion :: string
  up_FromDigest :: "string option"
  up_ToDigest :: "string option"
  up_Status :: update_status
  up_Trigger :: string
  up_BackupID :: "uuid option"
  up_ChangelogURL :: "string option"
  up_ChangelogBody :: "string option"
  up_SecurityScoreBefore :: "int option"
  up_SecurityScoreAfter :: "int option"
  up_HealthCheckPassed :: "bool option"
  up_RollbackReason :: "string option"
  up_ErrorMessage :: "string option"
  up_DurationMs :: "int option"
  up_CreatedBy :: "uuid option"
  up_StartedAt :: "gotime option"
  up_CompletedAt :: "gotime option"
  up_CreatedAt :: gotime

definition CanRollback :: "gotime \<Rightarrow> update_row \<Rightarrow> bool" where
  "CanRollback now u \<longleftrightarrow>
     up_Status u = Completed \<and> up_BackupID u \<noteq> None \<and> time_sub now (up_CreatedAt u) < 24 * 3600 * second"

record update_options =
  o_ContainerID :: string
  o_TargetVersion :: string
  o_BackupVolumes :: bool
  o_SecurityScan :: bool
  o_HealthCheckWait :: duration
  o_MaxRetries :: int
  o_DryRun :: bool
  o_CreatedBy :: "uuid option"

record update_result =
  res_Update :: update_row
  res_Success :: bool
  res_FromVersion :: string
  res_ToVersion :: string
  res_BackupID :: "uuid option"
  res_NewContainerID :: string
  res_Duration :: duration
  res_HealthPassed :: bool
  res_SecurityDelta :: int
  res_WasRolledBack :: bool
  res_RollbackReason :: string
  res_DryRun :: bool
  res_ErrorMessage :: string

record service_config =
  sc_DefaultHealthCheckWait :: duration
  sc_DefaultMaxRetries :: int
  sc_DefaultBackupVolumes :: bool
  sc_DefaultSecurityScan :: bool

definition DefaultServiceConfig :: service_config where
  "DefaultServiceConfig =
     \<lparr>sc_DefaultHealthCheckWait = 30 * second, sc_DefaultMaxRetries = 3, sc_DefaultBackupVolumes = True,
      sc_DefaultSecurityScan = True\<rparr>"

text \<open>The service: its configuration and which of the optional services it has.\<close>

record update_service =
  us_config :: service_config
  us_has_backup :: bool
  us_has_security :: bool

text \<open>
  The state an operation works on: the engine, the table of updates, the cache of versions and the
  warnings and errors logged while the containers are exchanged or put back.
\<close>

record ('e, 'c) update_state =
  st_engine :: 'e
  st_rows :: "update_row list"
  st_cache :: 'c
  st_log :: "string list"

text \<open>
  Inputs of one operation: readings of the clock, the new identifier and the outcomes of the statements
  (\<open>io_status\<close> those of the status changes), of the backup and of the scans. \<open>io_slot\<close> and
  \<open>io_check_slot\<close> tell whether the semaphores give a place; \<open>io_tick\<close> whether the ticker fires before
  the context is done; \<open>io_stamp\<close> is the time in the name of the old container.
\<close>

record update_io =
  io_id :: uuid
  io_created :: gotime
  io_checked :: gotime
  io_started :: gotime
  io_completed :: gotime
  io_stamp :: string
  io_slot :: bool
  io_check_slot :: bool
  io_create :: bool
  io_update :: bool
  io_status :: "update_status \<Rightarrow> bool"
  io_backup :: "string + uuid"
  io_scan_before :: "int option"
  io_scan_after :: "int option"
  io_changelog :: "changelog option"
  io_tick :: "nat \<Rightarrow> bool"

section \<open>The table of updates\<close>

definition map_row :: "uuid \<Rightarrow> (update_row \<Rightarrow> update_row) \<Rightarrow> update_row list \<Rightarrow> update_row list" where
  "map_row i f rows = map (\<lambda>r. if up_ID r = i then f r else r) rows"

definition repo_Get :: "update_row list \<Rightarrow> uuid \<Rightarrow> app_error + update_row" where
  "repo_Get rows i =
     (case find (\<lambda>r. up_ID r = i) rows of Some r \<Rightarrow> Inr r | None \<Rightarrow> Inl (AppError ''NOT_FOUND'' ''update not found''))"

text \<open>The columns \<^verbatim>\<open>UPDATE updates SET\<close> writes.\<close>

definition written_columns :: "update_row \<Rightarrow> update_row \<Rightarrow> update_row" where
  "written_columns u r =
     r\<lparr>up_Status := up_Status u, up_ToVersion := up_ToVersion u, up_ToDigest := up_ToDigest u, up_BackupID := up_BackupID u,
       up_ChangelogURL := up_ChangelogURL u, up_ChangelogBody := up_ChangelogBody u,
       up_SecurityScoreBefore := up_SecurityScoreBefore u, up_SecurityScoreAfter := up_SecurityScoreAfter u,
       up_HealthCheckPassed := up_HealthCheckPassed u, up_RollbackReason := up_RollbackReason u,
       up_ErrorMessage := up_ErrorMessage u, up_DurationMs := up_DurationMs u, up_StartedAt := up_StartedAt u,
       up_CompletedAt := up_CompletedAt u\<rparr>"

definition repo_Update :: "bool \<Rightarrow> update_row \<Rightarrow> update_row list \<Rightarrow> update_row list" where
  "repo_Update ok u rows = (if ok then map_row (up_ID u) (written_columns u) rows else rows)"

text \<open>None of the statuses the service sets this way is terminal.\<close>

definition repo_UpdateStatus :: "bool \<Rightarrow> gotime \<Rightarrow> uuid \<Rightarrow> update_status \<Rightarrow> string option \<Rightarrow> update_row list \<Rightarrow> update_row list" where
  "repo_UpdateStatus ok now i s msg rows =
     (if ok then map_row i (\<lambda>r. if IsTerminal s then r\<lparr>up_Status := s, up_ErrorMessage := msg, up_CompletedAt := Some now\<rparr>
                                else r\<lparr>up_Status := s, up_ErrorMessage := msg\<rparr>) rows
      else rows)"

definition GetByTarget :: "update_row list \<Rightarrow> uuid \<Rightarrow> string \<Rightarrow> int \<Rightarrow> update_row list" where
  "GetByTarget rows host target limit =
     take (nat (if limit \<le> 0 then 10 else limit))
       (rev (sort_key up_CreatedAt (filter (\<lambda>r. up_HostID r = host \<and> up_TargetID r = target) rows)))"

definition GetRollbackCandidate :: "gotime \<Rightarrow> update_row list \<Rightarrow> uuid \<Rightarrow> string \<Rightarrow> update_row option" where
  "GetRollbackCandidate now rows host target =
     (case rev (sort_key up_CreatedAt (filter (\<lambda>r. up_HostID r = host \<and> up_TargetID r = target \<and>
          up_Status r = Completed \<and> up_BackupID r \<noteq> None \<and> now - 24 * 3600 * second < up_CreatedAt r) rows)) of
        [] \<Rightarrow> None | r # _ \<Rightarrow> Some r)"

section \<open>Calls that change the state\<close>

definition stop :: "('e, 'k) docker \<Rightarrow> string \<Rightarrow> int \<Rightarrow> ('e, 'c) update_state \<Rightarrow> string option \<times> ('e, 'c) update_state" where
  "stop D i t st = (case ContainerStop D (st_engine st) i t of (err, e) \<Rightarrow> (err, st\<lparr>st_engine := e\<rparr>))"

definition start :: "('e, 'k) docker \<Rightarrow> string \<Rightarrow> ('e, 'c) update_state \<Rightarrow> string option \<times> ('e, 'c) update_state" where
  "start D i st = (case ContainerStart D (st_engine st) i of (err, e) \<Rightarrow> (err, st\<lparr>st_engine := e\<rparr>))"

definition remove :: "('e, 'k) docker \<Rightarrow> string \<Rightarrow> ('e, 'c) update_state \<Rightarrow> string option \<times> ('e, 'c) update_state" where
  "remove D i st = (case ContainerRemove D (st_engine st) i True of (err, e) \<Rightarrow> (err, st\<lparr>st_engine := e\<rparr>))"

definition rename :: "('e, 'k) docker \<Rightarrow> string \<Rightarrow> string \<Rightarrow> ('e, 'c) update_state \<Rightarrow> string option \<times> ('e, 'c) update_state" where
  "rename D i n st = (case ContainerRename D (st_engine st) i n of (err, e) \<Rightarrow> (err, st\<lparr>st_engine := e\<rparr>))"

definition create :: "('e, 'k) docker \<Rightarrow> string \<Rightarrow> 'k \<Rightarrow> string \<Rightarrow> ('e, 'c) update_state \<Rightarrow> (string + string) \<times> ('e, 'c) update_state" where
  "create D img settings n st = (case ContainerCreate D (st_engine st) img settings n of (r, e) \<Rightarrow> (r, st\<lparr>st_engine := e\<rparr>))"

definition pull :: "('e, 'k) docker \<Rightarrow> string \<Rightarrow> ('e, 'c) update_state \<Rightarrow> string option \<times> ('e, 'c) update_state" where
  "pull D img st = (case ImagePull D (st_engine st) img of (err, e) \<Rightarrow> (err, st\<lparr>st_engine := e\<rparr>))"

definition inspect :: "('e, 'k) docker \<Rightarrow> string \<Rightarrow> ('e, 'c) update_state \<Rightarrow> (string + 'k container_json) \<times> ('e, 'c) update_state" where
  "inspect D i st = (case ContainerInspect D (st_engine st) i of (r, e) \<Rightarrow> (r, st\<lparr>st_engine := e\<rparr>))"

definition inspect_image :: "('e, 'k) docker \<Rightarrow> string \<Rightarrow> ('e, 'c) update_state \<Rightarrow> (string + image_info) \<times> ('e, 'c) update_state" where
  "inspect_image D i st = (case ImageInspect D (st_engine st) i of (r, e) \<Rightarrow> (r, st\<lparr>st_engine := e\<rparr>))"

definition warn :: "string \<Rightarrow> string option \<Rightarrow> ('e, 'c) update_state \<Rightarrow> ('e, 'c) update_state" where
  "warn msg err st = (case err of None \<Rightarrow> st | Some _ \<Rightarrow> st\<lparr>st_log := st_log st @ [msg]\<rparr>)"

section \<open>Executing an update\<close>

definition milliseconds :: "duration \<Rightarrow> int" where
  "milliseconds d = (if 0 \<le> d then d div 1000000 else - ((- d) div 1000000))"

text \<open>A change of status: in memory and, if the statement runs, in the table.\<close>

definition set_status ::
  "update_io \<Rightarrow> update_status \<Rightarrow> update_row \<times> ('e, 'c) update_state \<Rightarrow> update_row \<times> ('e, 'c) update_state" where
  "set_status io s us =
     (case us of (u, st) \<Rightarrow>
        (u\<lparr>up_Status := s\<rparr>,
         st\<lparr>st_rows := repo_UpdateStatus (io_status io s) (io_started io) (up_ID u) s None (st_rows st)\<rparr>))"

definition failUpdate ::
  "update_io \<Rightarrow> string \<Rightarrow> update_row \<Rightarrow> update_result \<Rightarrow> ('e, 'c) update_state \<Rightarrow> update_result \<times> ('e, 'c) update_state" where
  "failUpdate io errMsg u result st =
     (let u = u\<lparr>up_Status := Failed, up_ErrorMessage := Some errMsg, up_CompletedAt := Some (io_completed io)\<rparr>;
          u = (case up_StartedAt u of None \<Rightarrow> u
               | Some t \<Rightarrow> u\<lparr>up_DurationMs := Some (milliseconds (time_sub (io_completed io) t))\<rparr>)
      in (result\<lparr>res_Update := u, res_Success := False, res_ErrorMessage := errMsg\<rparr>,
          st\<lparr>st_rows := repo_Update (io_update io) u (st_rows st)\<rparr>))"

definition rollbackContainer ::
  "('e, 'k) docker \<Rightarrow> string \<Rightarrow> string \<Rightarrow> string \<Rightarrow> ('e, 'c) update_state \<Rightarrow> ('e, 'c) update_state" where
  "rollbackContainer D target newContainerID originalName st =
     (let (err, st) = stop D newContainerID 10 st;
          st = warn ''rollback: failed to stop new container'' err st;
          (err, st) = remove D newContainerID st;
          st = warn ''rollback: failed to remove new container'' err st;
          (err, st) = rename D target originalName st;
          st = warn ''rollback: failed to rename original container back'' err st;
          (err, st) = start D target st
      in warn ''Failed to restart original container'' err st)"

fun wait_loop ::
  "('e, 'k) docker \<Rightarrow> update_io \<Rightarrow> string \<Rightarrow> nat \<Rightarrow> ('e, 'c) update_state \<Rightarrow> bool \<times> ('e, 'c) update_state" where
  "wait_loop D io i 0 st = (False, st)"
| "wait_loop D io i (Suc n) st =
     (if \<not> io_tick io n then (False, st)
      else (case inspect D i st of
          (Inl _, st) \<Rightarrow> wait_loop D io i n st
        | (Inr info, st) \<Rightarrow>
            (case cj_Health info of
               None \<Rightarrow> if cj_Running info then (True, st) else wait_loop D io i n st
             | Some status \<Rightarrow> if status = ''healthy'' then (True, st) else wait_loop D io i n st)))"

text \<open>\<open>None\<close>: \<^verbatim>\<open>time.NewTicker\<close> panics because the interval is not positive.\<close>

definition waitForHealthy ::
  "('e, 'k) docker \<Rightarrow> update_io \<Rightarrow> string \<Rightarrow> duration \<Rightarrow> int \<Rightarrow> ('e, 'c) update_state \<Rightarrow> (bool \<times> ('e, 'c) update_state) option" where
  "waitForHealthy D io i wait maxRetries st =
     (let maxRetries = (if maxRetries \<le> 0 then 1 else maxRetries) in
      if wait div maxRetries \<le> 0 then None else Some (wait_loop D io i (nat maxRetries) st))"

definition health_wait :: "update_service \<Rightarrow> update_options \<Rightarrow> duration" where
  "health_wait svc opts = (if o_HealthCheckWait opts > 0 then o_HealthCheckWait opts else sc_DefaultHealthCheckWait (us_config svc))"

definition max_retries :: "update_service \<Rightarrow> update_options \<Rightarrow> int" where
  "max_retries svc opts = (if o_MaxRetries opts > 0 then o_MaxRetries opts else sc_DefaultMaxRetries (us_config svc))"

definition wants_scan :: "update_service \<Rightarrow> update_options \<Rightarrow> bool" where
  "wants_scan svc opts \<longleftrightarrow> (o_SecurityScan opts \<or> sc_DefaultSecurityScan (us_config svc)) \<and> us_has_security svc"

definition wants_backup :: "update_service \<Rightarrow> update_options \<Rightarrow> bool" where
  "wants_backup svc opts \<longleftrightarrow> (o_BackupVolumes opts \<or> sc_DefaultBackupVolumes (us_config svc)) \<and> us_has_backup svc"

text \<open>Steps 9 and 10 and the end of a successful update.\<close>

definition finish ::
  "('e, 'k) docker \<Rightarrow> update_service \<Rightarrow> update_io \<Rightarrow> update_options \<Rightarrow> update_row \<Rightarrow> update_result \<Rightarrow> ('e, 'c) update_state \<Rightarrow>
     update_result \<times> ('e, 'c) update_state" where
  "finish D svc io opts u result st =
     (let (u, result) = (case (wants_scan svc opts, io_scan_after io) of
            (True, Some score) \<Rightarrow>
              (u\<lparr>up_SecurityScoreAfter := Some score\<rparr>,
               case up_SecurityScoreBefore u of None \<Rightarrow> result | Some before \<Rightarrow> result\<lparr>res_SecurityDelta := score - before\<rparr>)
          | _ \<Rightarrow> (u, result));
          (err, st) = remove D (up_TargetID u) st;
          st = warn ''failed to remove old container during cleanup'' err st;
          u = u\<lparr>up_CompletedAt := Some (io_completed io), up_Status := Completed,
                up_DurationMs := Some (milliseconds (time_sub (io_completed io) (io_started io)))\<rparr>
      in (result\<lparr>res_Update := u, res_Success := True, res_HealthPassed := True,
            res_Duration := time_sub (io_completed io) (io_started io)\<rparr>,
          st\<lparr>st_rows := repo_Update (io_update io) u (st_rows st)\<rparr>))"

text \<open>Steps 7 and 8: starting the new container and its health check.\<close>

definition start_new ::
  "('e, 'k) docker \<Rightarrow> update_service \<Rightarrow> update_io \<Rightarrow> update_options \<Rightarrow> 'k container_json \<Rightarrow> string \<Rightarrow>
     update_row \<Rightarrow> update_result \<Rightarrow> ('e, 'c) update_state \<Rightarrow> (app_error + update_result) \<times> ('e, 'c) update_state" where
  "start_new D svc io opts info newContainerID u result st =
     (case start D newContainerID st of
        (Some err, st) \<Rightarrow>
          apfst Inr (failUpdate io (''container start failed: '' @ err) u result
            (rollbackContainer D (up_TargetID u) newContainerID (cj_Name info) st))
      | (None, st) \<Rightarrow>
          (let (u, st) = set_status io HealthCheck (u, st) in
           case waitForHealthy D io newContainerID (health_wait svc opts) (max_retries svc opts) st of
             None \<Rightarrow> (Inl (Panicked ''non-positive interval for NewTicker''), st)
           | Some (healthy, st) \<Rightarrow>
               (let u = u\<lparr>up_HealthCheckPassed := Some healthy\<rparr> in
                if \<not> healthy then
                  apfst Inr (failUpdate io ''health check failed after update''
                    (u\<lparr>up_RollbackReason := Some ''health check failed''\<rparr>)
                    (result\<lparr>res_WasRolledBack := True, res_RollbackReason := ''health check failed''\<rparr>)
                    (rollbackContainer D (up_TargetID u) newContainerID (cj_Name info) st))
                else apfst Inr (finish D svc io opts u result st))))"

definition backup_name :: "string \<Rightarrow> update_io \<Rightarrow> string" where
  "backup_name oldName io = oldName @ ''_backup_'' @ io_stamp io"

text \<open>Steps 4 to 6: stopping and renaming the old container and creating the new one.\<close>

definition swap ::
  "('e, 'k) docker \<Rightarrow> update_service \<Rightarrow> update_io \<Rightarrow> update_options \<Rightarrow> 'k container_json \<Rightarrow> string \<Rightarrow>
     update_row \<Rightarrow> update_result \<Rightarrow> ('e, 'c) update_state \<Rightarrow> (app_error + update_result) \<times> ('e, 'c) update_state" where
  "swap D svc io opts info newImage u result st =
     (let (u, st) = set_status io Updating (u, st);
          target = up_TargetID u;
          oldName = cj_Name info
      in case stop D target 30 st of
        (Some err, st) \<Rightarrow> apfst Inr (failUpdate io (''container stop failed: '' @ err) u result st)
      | (None, st) \<Rightarrow>
          (case rename D target (backup_name oldName io) st of
             (Some err, st) \<Rightarrow>
               (let (startErr, st) = start D target st;
                    st = warn ''rollback: failed to restart container after rename failure'' startErr st
                in apfst Inr (failUpdate io (''container rename failed: '' @ err) u result st))
           | (None, st) \<Rightarrow>
               (case create D newImage (cj_Settings info) oldName st of
                  (Inl err, st) \<Rightarrow>
                    (let (renameErr, st) = rename D target oldName st;
                         st = warn ''rollback: failed to rename container back'' renameErr st;
                         (startErr, st) = start D target st;
                         st = warn ''rollback: failed to restart original container'' startErr st
                     in apfst Inr (failUpdate io (''container create failed: '' @ err) u result st))
                | (Inr newContainerID, st) \<Rightarrow>
                    start_new D svc io opts info newContainerID u (result\<lparr>res_NewContainerID := newContainerID\<rparr>) st)))"

text \<open>Step 3: pulling the image.\<close>

definition pull_image ::
  "('e, 'k) docker \<Rightarrow> update_service \<Rightarrow> update_io \<Rightarrow> update_options \<Rightarrow> 'k container_json \<Rightarrow>
     update_row \<Rightarrow> update_result \<Rightarrow> ('e, 'c) update_state \<Rightarrow> (app_error + update_result) \<times> ('e, 'c) update_state" where
  "pull_image D svc io opts info u result st =
     (let (u, st) = set_status io Pulling (u, st);
          newImage = buildImageRef (cj_ConfigImage info) (up_ToVersion u)
      in case pull D newImage st of
        (Some err, st) \<Rightarrow> apfst Inr (failUpdate io (''image pull failed: '' @ err) u result st)
      | (None, st) \<Rightarrow>
          (case inspect_image D newImage st of
             (Inl _, st) \<Rightarrow> swap D svc io opts info newImage u result st
           | (Inr img, st) \<Rightarrow>
               swap D svc io opts info newImage
                 (if ii_RepoDigests img \<noteq> []
                  then u\<lparr>up_ToDigest := Some (ExtractDigestFromRepoDigests (ii_RepoDigests img) newImage)\<rparr> else u)
                 result st))"

text \<open>Step 1: the security scan.\<close>

definition scan_before ::
  "update_service \<Rightarrow> update_io \<Rightarrow> update_options \<Rightarrow> update_row \<Rightarrow> ('e, 'c) update_state \<Rightarrow> update_row \<times> ('e, 'c) update_state" where
  "scan_before svc io opts u st =
     (if wants_scan svc opts then
        (case set_status io Checking (u, st) of (u, st) \<Rightarrow>
           (case io_scan_before io of None \<Rightarrow> u | Some score \<Rightarrow> u\<lparr>up_SecurityScoreBefore := Some score\<rparr>, st))
      else (u, st))"

text \<open>The whole of it, from the start and the steps 1 and 2.\<close>

definition executeUpdate ::
  "('e, 'k) docker \<Rightarrow> update_service \<Rightarrow> update_io \<Rightarrow> update_options \<Rightarrow> 'k container_json \<Rightarrow>
     update_row \<Rightarrow> ('e, 'c) update_state \<Rightarrow> (app_error + update_result) \<times> ('e, 'c) update_state" where
  "executeUpdate D svc io opts info u st =
     (let u = u\<lparr>up_StartedAt := Some (io_started io)\<rparr>;
          result = \<lparr>res_Update = u, res_Success = False, res_FromVersion = up_FromVersion u, res_ToVersion = up_ToVersion u,
            res_BackupID = None, res_NewContainerID = [], res_Duration = 0, res_HealthPassed = False, res_SecurityDelta = 0,
            res_WasRolledBack = False, res_RollbackReason = [], res_DryRun = False, res_ErrorMessage = []\<rparr>;
          (u, st) = scan_before svc io opts u st
      in if wants_backup svc opts then
           (let (u, st) = set_status io BackingUp (u, st) in
            case io_backup io of
              Inl err \<Rightarrow> apfst Inr (failUpdate io (''backup failed: '' @ err) u result st)
            | Inr backup \<Rightarrow>
                pull_image D svc io opts info (u\<lparr>up_BackupID := Some backup\<rparr>) (result\<lparr>res_BackupID := Some backup\<rparr>) st)
         else pull_image D svc io opts info u result st)"

section \<open>Checking one container\<close>

text \<open>The last component is what is written to the table of containers.\<close>

definition CheckContainerForUpdate ::
  "('e, 'k) docker \<Rightarrow> 'c checker \<Rightarrow> update_io \<Rightarrow> string \<Rightarrow> ('e, 'c) update_state \<Rightarrow>
     (app_error + available_update option) \<times> version_info list \<times> ('e, 'c) update_state" where
  "CheckContainerForUpdate D C io containerID st =
     (case inspect D containerID st of
        (Inl _, st) \<Rightarrow> (Inl (AppError ''DOCKER_CONNECTION_ERROR'' ''failed to inspect container''), [], st)
      | (Inr info, st) \<Rightarrow>
          (case inspect_image D (cj_Image info) st of
             (Inl _, st) \<Rightarrow> (Inl (AppError ''DOCKER_CONNECTION_ERROR'' ''failed to inspect image''), [], st)
           | (Inr img, st) \<Rightarrow>
               (let digest = (if ii_RepoDigests img = [] then [] else ExtractDigestFromRepoDigests (ii_RepoDigests img) (cj_ConfigImage info)) in
                case CheckContainer C (io_checked io) (io_check_slot io)
                    \<lparr>ci_ID = containerID, ci_Name = cj_Name info, ci_Image = cj_ConfigImage info, ci_Digest = digest\<rparr> (st_cache st) of
                  (Inl err, cache) \<Rightarrow> (Inl err, [], st\<lparr>st_cache := cache\<rparr>)
                | (Inr None, cache) \<Rightarrow> (Inr None, [], st\<lparr>st_cache := cache\<rparr>)
                | (Inr (Some a), cache) \<Rightarrow>
                    (let a = (case (NeedsUpdate a, io_changelog io) of
                           (True, Some cl) \<Rightarrow> a\<lparr>a_Changelog := Some cl, a_HasChangelog := True\<rparr> | _ \<Rightarrow> a)
                     in (Inr (Some a), [version_info a], st\<lparr>st_cache := cache\<rparr>)))))"

section \<open>Updating a container\<close>

definition new_update :: "update_io \<Rightarrow> uuid \<Rightarrow> update_options \<Rightarrow> 'k container_json \<Rightarrow> string \<Rightarrow> update_row" where
  "new_update io hostID opts info tag =
     \<lparr>up_ID = io_id io, up_HostID = hostID, up_Type = ''container'', up_TargetID = o_ContainerID opts,
      up_TargetName = cj_Name info, up_Image = cj_ConfigImage info, up_FromVersion = tag, up_ToVersion = [],
      up_FromDigest = None, up_ToDigest = None, up_Status = Pending, up_Trigger = ''manual'', up_BackupID = None,
      up_ChangelogURL = None, up_ChangelogBody = None, up_SecurityScoreBefore = None, up_SecurityScoreAfter = None,
      up_HealthCheckPassed = None, up_RollbackReason = None, up_ErrorMessage = None, up_DurationMs = None,
      up_CreatedBy = o_CreatedBy opts, up_StartedAt = None, up_CompletedAt = None, up_CreatedAt = io_created io\<rparr>"

definition with_from_digest :: "image_info \<Rightarrow> string \<Rightarrow> update_row \<Rightarrow> update_row" where
  "with_from_digest described img u =
     (if ii_RepoDigests described \<noteq> []
      then u\<lparr>up_FromDigest := Some (ExtractDigestFromRepoDigests (ii_RepoDigests described) img)\<rparr> else u)"

definition plain_result :: "update_row \<Rightarrow> string \<Rightarrow> bool \<Rightarrow> string \<Rightarrow> update_result" where
  "plain_result u toVersion dry msg =
     \<lparr>res_Update = u, res_Success = True, res_FromVersion = up_FromVersion u, res_ToVersion = toVersion,
      res_BackupID = None, res_NewContainerID = [], res_Duration = 0, res_HealthPassed = False, res_SecurityDelta = 0,
      res_WasRolledBack = False, res_RollbackReason = [], res_DryRun = dry, res_ErrorMessage = msg\<rparr>"

text \<open>From the target version on.\<close>

definition run_update ::
  "('e, 'k) docker \<Rightarrow> update_service \<Rightarrow> update_io \<Rightarrow> update_options \<Rightarrow> 'k container_json \<Rightarrow> update_row \<Rightarrow>
     ('e, 'c) update_state \<Rightarrow> (app_error + update_result) \<times> ('e, 'c) update_state" where
  "run_update D svc io opts info u st =
     (if \<not> io_create io then (Inl (AppError ''DATABASE_ERROR'' ''failed to create update record''), st)
      else
        (let st = st\<lparr>st_rows := st_rows st @ [u]\<rparr> in
         if o_DryRun opts then
           (let u = u\<lparr>up_Status := Skipped\<rparr>
            in (Inr (plain_result u (up_ToVersion u) True []), st\<lparr>st_rows := repo_Update (io_update io) u (st_rows st)\<rparr>))
         else if \<not> io_slot io then (Inl ContextDone, st)
         else executeUpdate D svc io opts info u st))"

definition UpdateContainer ::
  "('e, 'k) docker \<Rightarrow> update_service \<Rightarrow> 'c checker \<Rightarrow> update_io \<Rightarrow> uuid \<Rightarrow> update_options \<Rightarrow> ('e, 'c) update_state \<Rightarrow>
     (app_error + update_result) \<times> ('e, 'c) update_state" where
  "UpdateContainer D svc C io hostID opts st =
     (case inspect D (o_ContainerID opts) st of
        (Inl _, st) \<Rightarrow> (Inl (AppError ''DOCKER_CONNECTION_ERROR'' ''failed to inspect container''), st)
      | (Inr info, st) \<Rightarrow>
          (case ParseImageRef (cj_ConfigImage info) of
             Inl err \<Rightarrow> (Inl err, st)
           | Inr ref \<Rightarrow>
               (case inspect_image D (cj_Image info) st of
                  (Inl _, st) \<Rightarrow> (Inl (AppError ''DOCKER_CONNECTION_ERROR'' ''failed to inspect image''), st)
                | (Inr img, st) \<Rightarrow>
                    (let u = with_from_digest img (cj_ConfigImage info) (new_update io hostID opts info (r_Tag ref)) in
                     if o_TargetVersion opts \<noteq> [] then run_update D svc io opts info (u\<lparr>up_ToVersion := o_TargetVersion opts\<rparr>) st
                        else (case CheckContainerForUpdate D C io (o_ContainerID opts) st of
                            (Inl err, _, st) \<Rightarrow> (Inl err, st)
                          | (Inr None, _, st) \<Rightarrow> (Inr (plain_result u (up_FromVersion u) False ''already up to date''), st)
                          | (Inr (Some a), _, st) \<Rightarrow>
                              if \<not> NeedsUpdate a then (Inr (plain_result u (up_FromVersion u) False ''already up to date''), st)
                              else run_update D svc io opts info
                                (u\<lparr>up_ToVersion := a_LatestVersion a, up_ChangelogURL := map_option cl_URL (a_Changelog a),
                                   up_ChangelogBody := map_option cl_Body (a_Changelog a)\<rparr>) st)))))"

section \<open>Rolling back\<close>

record rollback_options =
  ro_UpdateID :: uuid
  ro_RestoreBackup :: bool
  ro_Reason :: string

record rollback_result =
  rr_Success :: bool
  rr_UpdateID :: uuid
  rr_RestoredVersion :: string
  rr_RestoredBackupID :: "uuid option"
  rr_ErrorMessage :: string

text \<open>
  Inputs of a rollback: whether the statements run, what restoring the backup answers (\<open>None\<close>: no error)
  and the time in the name of the current container.
\<close>

record rollback_io =
  rio_get :: bool
  rio_restore :: "string option"
  rio_stamp :: string
  rio_update :: bool

definition rollback_swap ::
  "('e, 'k) docker \<Rightarrow> rollback_io \<Rightarrow> rollback_options \<Rightarrow> update_row \<Rightarrow> string \<Rightarrow> 'k container_json \<Rightarrow> rollback_result \<Rightarrow>
     ('e, 'c) update_state \<Rightarrow> rollback_result \<times> ('e, 'c) update_state" where
  "rollback_swap D io opts u oldImage info result st =
     (let target = up_TargetID u;
          (_, st) = stop D target 30 st;
          (_, st) = rename D target (cj_Name info @ ''_rollback_'' @ rio_stamp io) st
      in case create D oldImage (cj_Settings info) (cj_Name info) st of
          (Inl err, st) \<Rightarrow>
            (let (_, st) = rename D target (cj_Name info) st; (_, st) = start D target st
             in (result\<lparr>rr_ErrorMessage := ''failed to create rolled back container: '' @ err\<rparr>, st))
        | (Inr newID, st) \<Rightarrow>
            (case start D newID st of
               (Some err, st) \<Rightarrow>
                 (let (_, st) = remove D newID st; (_, st) = rename D target (cj_Name info) st; (_, st) = start D target st
                  in (result\<lparr>rr_ErrorMessage := ''failed to start rolled back container: '' @ err\<rparr>, st))
             | (None, st) \<Rightarrow>
                 (let (_, st) = remove D target st;
                      u = u\<lparr>up_Status := RolledBack, up_RollbackReason := Some (ro_Reason opts)\<rparr>
                  in (result\<lparr>rr_Success := True\<rparr>, st\<lparr>st_rows := repo_Update (rio_update io) u (st_rows st)\<rparr>))))"

definition RollbackUpdate ::
  "('e, 'k) docker \<Rightarrow> update_service \<Rightarrow> rollback_io \<Rightarrow> rollback_options \<Rightarrow> ('e, 'c) update_state \<Rightarrow>
     (app_error + rollback_result) \<times> ('e, 'c) update_state" where
  "RollbackUpdate D svc io opts st =
     (if \<not> rio_get io then (Inl (AppError ''INTERNAL_ERROR'' ''failed to get update''), st)
      else case repo_Get (st_rows st) (ro_UpdateID opts) of
        Inl err \<Rightarrow> (Inl err, st)
      | Inr u \<Rightarrow>
          if up_Status u \<noteq> Completed then (Inl (AppError ''INVALID_INPUT'' ''can only rollback completed updates''), st)
          else
            (let result = \<lparr>rr_Success = False, rr_UpdateID = ro_UpdateID opts, rr_RestoredVersion = up_FromVersion u,
                   rr_RestoredBackupID = None, rr_ErrorMessage = []\<rparr>;
                 result = (if ro_RestoreBackup opts \<and> up_BackupID u \<noteq> None \<and> us_has_backup svc then
                     (case rio_restore io of
                        Some err \<Rightarrow> result\<lparr>rr_ErrorMessage := ''backup restore failed: '' @ err\<rparr>
                      | None \<Rightarrow> result\<lparr>rr_RestoredBackupID := up_BackupID u\<rparr>)
                   else result);
                 oldImage = buildImageRef (up_Image u) (up_FromVersion u)
             in case pull D oldImage st of
               (Some err, st) \<Rightarrow> (Inr (result\<lparr>rr_ErrorMessage := ''failed to pull original image: '' @ err\<rparr>), st)
             | (None, st) \<Rightarrow>
                 (case inspect D (up_TargetID u) st of
                    (Inl err, st) \<Rightarrow> (Inr (result\<lparr>rr_ErrorMessage := ''failed to inspect container: '' @ err\<rparr>), st)
                  | (Inr info, st) \<Rightarrow> apfst Inr (rollback_swap D io opts u oldImage info result st))))"

section \<open>Webhooks\<close>

record update_webhook =
  wh_ID :: uuid
  wh_HostID :: uuid
  wh_TargetType :: string
  wh_TargetID :: string
  wh_Token :: string
  wh_IsEnabled :: bool
  wh_LastUsedAt :: "gotime option"
  wh_CreatedAt :: gotime

text \<open>
  The constraints of the table: the identifier, the token and the target are unique. A statement is
  \<open>None\<close> when the database cannot run it.
\<close>

definition CreateWebhook ::
  "uuid \<Rightarrow> string \<Rightarrow> gotime \<Rightarrow> gotime option \<Rightarrow> uuid \<Rightarrow> string \<Rightarrow> string \<Rightarrow> update_webhook list \<Rightarrow> (app_error + update_webhook) \<times> update_webhook list" where
  "CreateWebhook i token now stmt hostID targetType targetID rows =
     (let w = \<lparr>wh_ID = i, wh_HostID = hostID, wh_TargetType = targetType, wh_TargetID = targetID, wh_Token = token,
                wh_IsEnabled = True, wh_LastUsedAt = None, wh_CreatedAt = now\<rparr>
      in if stmt = None \<or> targetType \<notin> set [''container'', ''stack'', ''service''] \<or>
           list_ex (\<lambda>r. wh_ID r = i \<or> wh_Token r = token \<or>
             wh_HostID r = hostID \<and> wh_TargetType r = targetType \<and> wh_TargetID r = targetID) rows
         then (Inl (AppError ''INTERNAL_ERROR'' ''failed to create webhook''), rows)
         else (Inr w, rows @ [w]))"

definition DeleteWebhook :: "gotime option \<Rightarrow> uuid \<Rightarrow> update_webhook list \<Rightarrow> app_error option \<times> update_webhook list" where
  "DeleteWebhook stmt i rows =
     (if stmt = None then (Some (AppError ''INTERNAL_ERROR'' ''failed to delete webhook''), rows)
      else if \<not> list_ex (\<lambda>r. wh_ID r = i) rows then (Some (AppError ''NOT_FOUND'' ''webhook not found''), rows)
      else (None, filter (\<lambda>r. wh_ID r \<noteq> i) rows))"

definition webhook_options :: "string \<Rightarrow> update_options" where
  "webhook_options target =
     \<lparr>o_ContainerID = target, o_TargetVersion = [], o_BackupVolumes = False, o_SecurityScan = False,
      o_HealthCheckWait = 0, o_MaxRetries = 0, o_DryRun = False, o_CreatedBy = None\<rparr>"

definition TriggerWebhook ::
  "('e, 'k) docker \<Rightarrow> update_service \<Rightarrow> 'c checker \<Rightarrow> update_io \<Rightarrow> gotime option \<Rightarrow> gotime option \<Rightarrow> string \<Rightarrow>
     update_webhook list \<Rightarrow> ('e, 'c) update_state \<Rightarrow> (app_error + update_result) \<times> update_webhook list \<times> ('e, 'c) update_state" where
  "TriggerWebhook D svc C io get used token rows st =
     (case (get, find (\<lambda>r. wh_Token r = token) rows) of
        (Some _, Some w) \<Rightarrow>
          if \<not> wh_IsEnabled w then (Inl (AppError ''FORBIDDEN'' ''webhook is disabled''), rows, st)
          else
            (let rows = (case used of None \<Rightarrow> rows | Some t \<Rightarrow> map (\<lambda>r. if wh_ID r = wh_ID w then r\<lparr>wh_LastUsedAt := Some t\<rparr> else r) rows)
             in case UpdateContainer D svc C io (wh_HostID w) (webhook_options (wh_TargetID w)) st of (out, st) \<Rightarrow> (out, rows, st))
      | _ \<Rightarrow> (Inl (AppError ''UNAUTHORIZED'' ''invalid webhook token''), rows, st))"

section \<open>Policies\<close>

record update_policy =
  pol_ID :: uuid
  pol_HostID :: uuid
  pol_TargetType :: string
  pol_TargetID :: string
  pol_TargetName :: string
  pol_IsEnabled :: bool
  pol_AutoUpdate :: bool
  pol_AutoBackup :: bool
  pol_IncludePrerelease :: bool
  pol_Schedule :: "string option"
  pol_NotifyOnUpdate :: bool
  pol_NotifyOnFailure :: bool
  pol_MaxRetries :: int
  pol_HealthCheckWait :: int
  pol_CreatedAt :: gotime
  pol_UpdatedAt :: gotime

definition same_target :: "update_policy \<Rightarrow> update_policy \<Rightarrow> bool" where
  "same_target p q \<longleftrightarrow> pol_HostID p = pol_HostID q \<and> pol_TargetType p = pol_TargetType q \<and> pol_TargetID p = pol_TargetID q"

definition policy_checks :: "update_policy \<Rightarrow> bool" where
  "policy_checks p \<longleftrightarrow> pol_TargetType p \<in> set [''container'', ''stack'', ''service''] \<and>
     0 \<le> pol_MaxRetries p \<and> pol_MaxRetries p \<le> 10 \<and> 5 \<le> pol_HealthCheckWait p \<and> pol_HealthCheckWait p \<le> 600"

definition GetPolicyByTarget :: "gotime option \<Rightarrow> uuid \<Rightarrow> string \<Rightarrow> string \<Rightarrow> update_policy list \<Rightarrow> app_error + update_policy option" where
  "GetPolicyByTarget stmt host targetType target rows =
     (if stmt = None then Inl (AppError ''INTERNAL_ERROR'' ''failed to get update policy by target'')
      else Inr (find (\<lambda>p. pol_HostID p = host \<and> pol_TargetType p = targetType \<and> pol_TargetID p = target) rows))"

definition CreatePolicy :: "uuid \<Rightarrow> gotime \<Rightarrow> gotime option \<Rightarrow> update_policy \<Rightarrow> update_policy list \<Rightarrow> app_error option \<times> update_policy list" where
  "CreatePolicy fresh now stmt p rows =
     (let p = p\<lparr>pol_ID := (if pol_ID p = 0 then fresh else pol_ID p),
                pol_CreatedAt := (if is_zero (pol_CreatedAt p) then now else pol_CreatedAt p), pol_UpdatedAt := now\<rparr>
      in if stmt = None \<or> \<not> policy_checks p \<or> list_ex (\<lambda>q. pol_ID q = pol_ID p \<or> same_target q p) rows
         then (Some (AppError ''INTERNAL_ERROR'' ''failed to create update policy''), rows)
         else (None, rows @ [p]))"

definition UpdatePolicy :: "gotime option \<Rightarrow> update_policy \<Rightarrow> update_policy list \<Rightarrow> app_error option \<times> update_policy list" where
  "UpdatePolicy stmt p rows =
     (let changed = (\<lambda>t q. q\<lparr>pol_IsEnabled := pol_IsEnabled p, pol_AutoUpdate := pol_AutoUpdate p, pol_AutoBackup := pol_AutoBackup p,
            pol_IncludePrerelease := pol_IncludePrerelease p, pol_Schedule := pol_Schedule p, pol_NotifyOnUpdate := pol_NotifyOnUpdate p,
            pol_NotifyOnFailure := pol_NotifyOnFailure p, pol_MaxRetries := pol_MaxRetries p, pol_HealthCheckWait := pol_HealthCheckWait p,
            pol_UpdatedAt := t\<rparr>)
      in case stmt of
          None \<Rightarrow> (Some (AppError ''INTERNAL_ERROR'' ''failed to update policy''), rows)
        | Some t \<Rightarrow>
            if \<not> list_ex (\<lambda>q. pol_ID q = pol_ID p) rows then (Some (AppError ''NOT_FOUND'' ''update policy not found''), rows)
            else if list_ex (\<lambda>q. pol_ID q = pol_ID p \<and> \<not> policy_checks (changed t q)) rows
            then (Some (AppError ''INTERNAL_ERROR'' ''failed to update policy''), rows)
            else (None, map (\<lambda>q. if pol_ID q = pol_ID p then changed t q else q) rows))"

definition DeletePolicy :: "gotime option \<Rightarrow> uuid \<Rightarrow> update_policy list \<Rightarrow> app_error option \<times> update_policy list" where
  "DeletePolicy stmt i rows =
     (if stmt = None then (Some (AppError ''INTERNAL_ERROR'' ''failed to delete policy''), rows)
      else if \<not> list_ex (\<lambda>q. pol_ID q = i) rows then (Some (AppError ''NOT_FOUND'' ''update policy not found''), rows)
      else (None, filter (\<lambda>q. pol_ID q \<noteq> i) rows))"

definition SetPolicy ::
  "uuid \<Rightarrow> gotime \<Rightarrow> gotime option \<Rightarrow> gotime option \<Rightarrow> update_policy \<Rightarrow> update_policy list \<Rightarrow> app_error option \<times> update_policy list" where
  "SetPolicy fresh now get stmt p rows =
     (case GetPolicyByTarget get (pol_HostID p) (pol_TargetType p) (pol_TargetID p) rows of
        Inr (Some existing) \<Rightarrow> UpdatePolicy stmt (p\<lparr>pol_ID := pol_ID existing\<rparr>) rows
      | _ \<Rightarrow> CreatePolicy fresh now stmt p rows)"

section \<open>What is relied on of the engine\<close>

record 'k container =
  c_Name :: string
  c_Image :: string
  c_Settings :: 'k
  c_Running :: bool

text \<open>Containers start and stop by themselves at any time; nothing else changes without a call.\<close>

definition same :: "'k container \<Rightarrow> 'k container \<Rightarrow> bool" where
  "same c d \<longleftrightarrow> c_Name c = c_Name d \<and> c_Image c = c_Image d \<and> c_Settings c = c_Settings d"

definition unchanged :: "(string \<Rightarrow> 'k container option) \<Rightarrow> (string \<Rightarrow> 'k container option) \<Rightarrow> bool" where
  "unchanged v v' \<longleftrightarrow> (\<forall>i. rel_option same (v i) (v' i))"

definition slashed :: "string \<Rightarrow> string" where
  "slashed n = (if HasPrefix n ''/'' then n else ''/'' @ n)"

lemma same_refl [simp, intro]: "same c c"
  by (simp add: same_def)

lemma same_trans: "same a b \<Longrightarrow> same b c \<Longrightarrow> same a c"
  by (simp add: same_def)

lemma unchanged_refl [simp, intro]: "unchanged v v"
  by (auto simp: unchanged_def intro: option.rel_refl)

lemma unchanged_trans [trans]: "unchanged u v \<Longrightarrow> unchanged v w \<Longrightarrow> unchanged u w"
  unfolding unchanged_def by (metis (no_types, lifting) option.rel_sel same_trans)

lemma unchangedD: "unchanged v v' \<Longrightarrow> v i = Some c \<Longrightarrow> \<exists>d. v' i = Some d \<and> same c d"
  unfolding unchanged_def by (metis option_rel_Some1)

lemma unchanged_None: "unchanged v v' \<Longrightarrow> v' i = None \<longleftrightarrow> v i = None"
  unfolding unchanged_def by (metis option.rel_distinct option.exhaust)

lemma unchanged_upd: "unchanged v v' \<Longrightarrow> rel_option same x y \<Longrightarrow> unchanged (v(i := x)) (v'(i := y))"
  by (simp add: unchanged_def)

lemma unchanged_upd_left: "unchanged (v(i := Some c)) v' \<Longrightarrow> \<exists>d. v' i = Some d \<and> same c d"
  by (erule unchangedD [where v = "v(i := Some c)"]) simp

text \<open>
  \<open>view\<close> is the engine's table of containers by identifier, \<open>lookup\<close> finds the container a reference
  names: an identifier, a name, or the beginning of an identifier. A call that fails changes nothing, one
  that succeeds has its effect on the container its reference names.
\<close>

locale container_engine =
  fixes D :: "('e, 'k) docker"
    and view :: "'e \<Rightarrow> string \<Rightarrow> 'k container option"
    and lookup :: "'e \<Rightarrow> string \<Rightarrow> string option"
  assumes lookup_id: "view e i \<noteq> None \<Longrightarrow> lookup e i = Some i"
    and lookup_view: "lookup e r = Some i \<Longrightarrow> view e i \<noteq> None"
    and lookup_other: "lookup e r = Some i \<Longrightarrow> view e i = Some c \<Longrightarrow>
      i = r \<or> c_Name c = slashed r \<or> length r < length i"
    and lookup_name: "view e i = Some c \<Longrightarrow> c_Name c = slashed r \<Longrightarrow> view e r = None \<Longrightarrow> lookup e r = Some i"
    and id_length: "view e i \<noteq> None \<Longrightarrow> length i = 64"
    and names: "view e i = Some c \<Longrightarrow> HasPrefix (c_Name c) ''/''"
    and names_unique: "view e i = Some c \<Longrightarrow> view e j = Some d \<Longrightarrow> c_Name c = c_Name d \<Longrightarrow> i = j"
    and inspect_frame: "ContainerInspect D e r = (answer, e') \<Longrightarrow> unchanged (view e) (view e')"
    and inspect_ok: "ContainerInspect D e r = (Inr json, e') \<Longrightarrow> \<exists>i c. lookup e r = Some i \<and> view e i = Some c \<and>
      cj_Name json = c_Name c \<and> cj_ConfigImage json = c_Image c \<and> cj_Settings json = c_Settings c"
    and stop_err: "ContainerStop D e r t = (Some err, e') \<Longrightarrow> unchanged (view e) (view e')"
    and stop_ok: "ContainerStop D e r t = (None, e') \<Longrightarrow> unchanged (view e) (view e')"
    and start_err: "ContainerStart D e r = (Some err, e') \<Longrightarrow> unchanged (view e) (view e')"
    and start_ok: "ContainerStart D e r = (None, e') \<Longrightarrow> unchanged (view e) (view e') \<and>
      (\<exists>i c. lookup e r = Some i \<and> view e' i = Some c \<and> c_Running c)"
    and remove_err: "ContainerRemove D e r force = (Some err, e') \<Longrightarrow> unchanged (view e) (view e')"
    and remove_ok: "ContainerRemove D e r force = (None, e') \<Longrightarrow>
      \<exists>i. lookup e r = Some i \<and> unchanged ((view e)(i := None)) (view e')"
    and rename_err: "ContainerRename D e r n = (Some err, e') \<Longrightarrow> unchanged (view e) (view e')"
    and rename_ok: "ContainerRename D e r n = (None, e') \<Longrightarrow>
      \<exists>i c. lookup e r = Some i \<and> view e i = Some c \<and> unchanged ((view e)(i \<mapsto> c\<lparr>c_Name := slashed n\<rparr>)) (view e')"
    and create_err: "ContainerCreate D e img k n = (Inl err, e') \<Longrightarrow> unchanged (view e) (view e')"
    and create_ok: "ContainerCreate D e img k n = (Inr i, e') \<Longrightarrow> view e i = None \<and> i \<noteq> [] \<and>
      (\<exists>running. unchanged ((view e)(i \<mapsto> \<lparr>c_Name = slashed n, c_Image = img, c_Settings = k, c_Running = running\<rparr>)) (view e'))"
    and pull_frame: "ImagePull D e img = (failure, e') \<Longrightarrow> unchanged (view e) (view e')"
    and image_frame: "ImageInspect D e img = (described, e') \<Longrightarrow> unchanged (view e) (view e')"

lemma warn_engine [simp]: "st_engine (warn msg err st) = st_engine st"
  by (simp add: warn_def split: option.split)

lemma warn_log: "st_log (warn msg err st) = st_log st @ (case err of None \<Rightarrow> [] | Some _ \<Rightarrow> [msg])"
  by (simp add: warn_def split: option.split)

lemma set_status_state:
  "set_status io s (u, st) = (u', st') \<Longrightarrow> st_engine st' = st_engine st \<and> st_log st' = st_log st \<and> st_cache st' = st_cache st"
  "set_status io s (u, st) = (u', st') \<Longrightarrow> u' = u\<lparr>up_Status := s\<rparr>"
  by (auto simp: set_status_def)

lemma scan_before_state:
  "scan_before svc io opts u st = (u', st') \<Longrightarrow>
     st_engine st' = st_engine st \<and> st_log st' = st_log st \<and> up_TargetID u' = up_TargetID u \<and> up_ToVersion u' = up_ToVersion u"
  by (auto simp: scan_before_def set_status_def split: if_splits option.splits)

lemma failUpdate_state:
  "st_engine (snd (failUpdate io msg u result st)) = st_engine st"
  "st_log (snd (failUpdate io msg u result st)) = st_log st"
  "res_Success (fst (failUpdate io msg u result st)) = False"
  "res_ErrorMessage (fst (failUpdate io msg u result st)) = msg"
  by (simp_all add: failUpdate_def Let_def)

lemma unchanged_upd_same: "unchanged v v' \<Longrightarrow> unchanged (v(i := x)) (v'(i := x))"
  by (intro unchanged_upd option.rel_refl) auto

lemma apfst_Inr: "apfst Inr p = (Inr r, st) \<longleftrightarrow> p = (r, st)" "apfst Inr p \<noteq> (Inl err, st)"
  by (cases p; auto)+

context container_engine
begin

lemma inspect_step:
  "inspect D r st = (out, st') \<Longrightarrow> unchanged v (view (st_engine st)) \<Longrightarrow>
     unchanged v (view (st_engine st')) \<and> st_log st' = st_log st \<and> st_rows st' = st_rows st"
  by (auto simp: inspect_def split: prod.splits intro: unchanged_trans [OF _ inspect_frame])

lemma inspect_image_step:
  "inspect_image D r st = (out, st') \<Longrightarrow> unchanged v (view (st_engine st)) \<Longrightarrow>
     unchanged v (view (st_engine st')) \<and> st_log st' = st_log st \<and> st_rows st' = st_rows st"
  by (auto simp: inspect_image_def split: prod.splits intro: unchanged_trans [OF _ image_frame])

lemma pull_step:
  "pull D r st = (out, st') \<Longrightarrow> unchanged v (view (st_engine st)) \<Longrightarrow>
     unchanged v (view (st_engine st')) \<and> st_log st' = st_log st"
  by (auto simp: pull_def split: prod.splits intro: unchanged_trans [OF _ pull_frame])

lemma stop_step:
  "stop D r t st = (out, st') \<Longrightarrow> unchanged v (view (st_engine st)) \<Longrightarrow>
     unchanged v (view (st_engine st')) \<and> st_log st' = st_log st"
  by (cases out) (auto simp: stop_def split: prod.splits intro: unchanged_trans [OF _ stop_err] unchanged_trans [OF _ stop_ok])

lemma start_step:
  "start D r st = (out, st') \<Longrightarrow> unchanged v (view (st_engine st)) \<Longrightarrow>
     unchanged v (view (st_engine st')) \<and> st_log st' = st_log st"
  by (cases out) (auto simp: start_def split: prod.splits intro: unchanged_trans [OF _ start_err] unchanged_trans [OF _ start_ok [THEN conjunct1]])

lemma lookup_step: "unchanged v (view e) \<Longrightarrow> v i = Some c \<Longrightarrow> lookup e i = Some i"
  using lookup_id unchangedD by (metis option.distinct(1))

lemma start_running:
  assumes "start D i st = (None, st')" "unchanged v (view (st_engine st))" "v i = Some c"
  shows "\<exists>c'. view (st_engine st') i = Some c' \<and> c_Running c'"
  using assms(1) start_ok lookup_step [OF assms(2,3)] by (fastforce simp: start_def split: prod.splits)

lemma rename_step:
  assumes "rename D i n st = (None, st')" "unchanged v (view (st_engine st))" "v i = Some c"
  shows "unchanged (v(i \<mapsto> c\<lparr>c_Name := slashed n\<rparr>)) (view (st_engine st')) \<and> st_log st' = st_log st"
proof -
  let ?e = "st_engine st"
  have ren: "ContainerRename D ?e i n = (None, st_engine st')" "st_log st' = st_log st"
    using assms(1) by (auto simp: rename_def split: prod.splits)
  then obtain j c' where j: "lookup ?e i = Some j" "view ?e j = Some c'"
      "unchanged ((view ?e)(j \<mapsto> c'\<lparr>c_Name := slashed n\<rparr>)) (view (st_engine st'))"
    using rename_ok by blast
  with lookup_step [OF assms(2,3)] have "j = i" by simp
  moreover have "same c c'" using unchangedD [OF assms(2,3)] j \<open>j = i\<close> by auto
  then have "unchanged (v(i \<mapsto> c\<lparr>c_Name := slashed n\<rparr>)) ((view ?e)(i \<mapsto> c'\<lparr>c_Name := slashed n\<rparr>))"
    by (intro unchanged_upd assms(2)) (simp add: same_def)
  ultimately show ?thesis using j(3) ren(2) by (blast intro: unchanged_trans)
qed

lemma rename_fails:
  "rename D i n st = (Some err, st') \<Longrightarrow> unchanged v (view (st_engine st)) \<Longrightarrow>
     unchanged v (view (st_engine st')) \<and> st_log st' = st_log st"
  by (auto simp: rename_def split: prod.splits intro: unchanged_trans [OF _ rename_err])

lemma remove_step:
  assumes "remove D i st = (None, st')" "unchanged v (view (st_engine st))" "v i = Some c"
  shows "unchanged (v(i := None)) (view (st_engine st')) \<and> st_log st' = st_log st"
proof -
  have rem: "ContainerRemove D (st_engine st) i True = (None, st_engine st')" "st_log st' = st_log st"
    using assms(1) by (auto simp: remove_def split: prod.splits)
  with remove_ok lookup_step [OF assms(2,3)]
  have "unchanged ((view (st_engine st))(i := None)) (view (st_engine st'))" by fastforce
  with unchanged_upd_same [OF assms(2), of i None] rem(2) show ?thesis by (blast intro: unchanged_trans)
qed

lemma remove_fails:
  "remove D i st = (Some err, st') \<Longrightarrow> unchanged v (view (st_engine st)) \<Longrightarrow>
     unchanged v (view (st_engine st')) \<and> st_log st' = st_log st"
  by (auto simp: remove_def split: prod.splits intro: unchanged_trans [OF _ remove_err])

lemma create_step:
  assumes "create D img k n st = (Inr i, st')" "unchanged v (view (st_engine st))"
  obtains running where "v i = None" "i \<noteq> []"
    "unchanged (v(i \<mapsto> \<lparr>c_Name = slashed n, c_Image = img, c_Settings = k, c_Running = running\<rparr>)) (view (st_engine st'))"
    "st_log st' = st_log st"
proof -
  let ?d = "\<lambda>running. \<lparr>c_Name = slashed n, c_Image = img, c_Settings = k, c_Running = running\<rparr>"
  have cr: "ContainerCreate D (st_engine st) img k n = (Inr i, st_engine st')" "st_log st' = st_log st"
    using assms(1) by (auto simp: create_def split: prod.splits)
  then obtain running where "view (st_engine st) i = None" "i \<noteq> []"
      "unchanged ((view (st_engine st))(i \<mapsto> ?d running)) (view (st_engine st'))"
    using create_ok by blast
  moreover from this have "v i = None" using unchanged_None [OF assms(2)] by simp
  ultimately show thesis
    using that [of running] cr(2) unchanged_upd_same [OF assms(2), of i "Some (?d running)"] by (blast intro: unchanged_trans)
qed

lemma create_fails:
  "create D img k n st = (Inl err, st') \<Longrightarrow> unchanged v (view (st_engine st)) \<Longrightarrow>
     unchanged v (view (st_engine st')) \<and> st_log st' = st_log st"
  by (auto simp: create_def split: prod.splits intro: unchanged_trans [OF _ create_err])

lemma wait_loop_step:
  "wait_loop D io i n st = (healthy, st') \<Longrightarrow> unchanged v (view (st_engine st)) \<Longrightarrow>
     unchanged v (view (st_engine st')) \<and> st_log st' = st_log st"
proof (induction n arbitrary: st)
  case (Suc n)
  obtain out st1 where out: "inspect D i st = (out, st1)" by fastforce
  from inspect_step [OF this Suc.prems(2)] Suc show ?case
    by (auto simp: out split: if_splits sum.splits option.splits)
qed simp

lemma wait_step:
  "waitForHealthy D io i wait retries st = Some (healthy, st') \<Longrightarrow> unchanged v (view (st_engine st)) \<Longrightarrow>
     unchanged v (view (st_engine st')) \<and> st_log st' = st_log st"
  using wait_loop_step [of io i "nat (if retries \<le> 0 then 1 else retries)" st healthy st' v]
  by (simp add: waitForHealthy_def Let_def del: wait_loop.simps split: if_splits)

end

lemma warn_quiet [simp]: "st_log (warn msg err st) = st_log st \<longleftrightarrow> err = None"
  by (auto simp: warn_log split: option.splits)

lemma engine_log:
  "stop D i t st = (out, st') \<Longrightarrow> st_log st' = st_log st"
  "start D i st = (out, st') \<Longrightarrow> st_log st' = st_log st"
  "remove D i st = (out, st') \<Longrightarrow> st_log st' = st_log st"
  "rename D i n st = (out, st') \<Longrightarrow> st_log st' = st_log st"
  by (auto simp: stop_def start_def remove_def rename_def split: prod.splits)

text \<open>The four calls of a rollback when none of them fails.\<close>

lemma rollbackContainer_quiet:
  assumes "rollbackContainer D target new n st = st'" "st_log st' = st_log st"
  obtains st1 st2 st3 where "stop D new 10 st = (None, st1)" "remove D new st1 = (None, st2)"
    "rename D target n st2 = (None, st3)" "start D target st3 = (None, st')"
proof -
  obtain e1 st1 where 1: "stop D new 10 st = (e1, st1)" by fastforce
  let ?w1 = "warn ''rollback: failed to stop new container'' e1 st1"
  obtain e2 st2 where 2: "remove D new ?w1 = (e2, st2)" by fastforce
  let ?w2 = "warn ''rollback: failed to remove new container'' e2 st2"
  obtain e3 st3 where 3: "rename D target n ?w2 = (e3, st3)" by fastforce
  let ?w3 = "warn ''rollback: failed to rename original container back'' e3 st3"
  obtain e4 st4 where 4: "start D target ?w3 = (e4, st4)" by fastforce
  have st': "st' = warn ''Failed to restart original container'' e4 st4"
    using assms(1) by (simp add: rollbackContainer_def Let_def 1 2 3 4)
  have "e1 = None \<and> e2 = None \<and> e3 = None \<and> e4 = None"
    using assms(2) unfolding st'
    by (simp add: warn_log engine_log(1) [OF 1] engine_log(3) [OF 2] engine_log(4) [OF 3] engine_log(2) [OF 4]
        split: option.splits)
  with 1 2 3 4 st' that show thesis by (simp add: warn_def)
qed

context container_engine
begin

lemma slashed_name: "unchanged v (view e) \<Longrightarrow> v i = Some c \<Longrightarrow> slashed (c_Name c) = c_Name c"
  using unchangedD names by (fastforce simp: slashed_def same_def)

text \<open>Putting the original back undoes the exchange.\<close>

lemma rollback_restores:
  assumes v: "v i = Some c" "v new = None" "slashed (c_Name c) = c_Name c"
    and st: "unchanged (v(i \<mapsto> c\<lparr>c_Name := bn\<rparr>, new \<mapsto> d)) (view (st_engine st))"
    and quiet: "st_log (rollbackContainer D i new (c_Name c) st) = st_log st"
  shows "unchanged v (view (st_engine (rollbackContainer D i new (c_Name c) st)))"
    "\<exists>c'. view (st_engine (rollbackContainer D i new (c_Name c) st)) i = Some c' \<and> c_Running c'"
proof -
  let ?w = "v(i \<mapsto> c\<lparr>c_Name := bn\<rparr>, new \<mapsto> d)"
  have ne: "i \<noteq> new" using v by auto
  obtain st1 st2 st3 st4 where calls: "stop D new 10 st = (None, st1)" "remove D new st1 = (None, st2)"
      "rename D i (c_Name c) st2 = (None, st3)" "start D i st3 = (None, st4)"
    and st4: "rollbackContainer D i new (c_Name c) st = st4"
    using rollbackContainer_quiet [OF refl quiet] by metis
  have "unchanged ?w (view (st_engine st1))" using stop_step [OF calls(1) st] by simp
  then have "unchanged (?w(new := None)) (view (st_engine st2))"
    using remove_step [OF calls(2), of ?w d] by simp
  moreover have "?w(new := None) = v(i \<mapsto> c\<lparr>c_Name := bn\<rparr>)" using v(2) ne by (intro ext) auto
  ultimately have "unchanged (v(i \<mapsto> c\<lparr>c_Name := bn\<rparr>)) (view (st_engine st2))" by simp
  from rename_step [OF calls(3) this]
  have "unchanged (v(i \<mapsto> c\<lparr>c_Name := slashed (c_Name c)\<rparr>)) (view (st_engine st3))" by simp
  moreover have "v(i \<mapsto> c\<lparr>c_Name := slashed (c_Name c)\<rparr>) = v" using v(1,3) by (intro ext) auto
  ultimately have "unchanged v (view (st_engine st3))" by simp
  from start_step [OF calls(4) this] start_running [OF calls(4) this v(1)]
  show "unchanged v (view (st_engine (rollbackContainer D i new (c_Name c) st)))"
    "\<exists>c'. view (st_engine (rollbackContainer D i new (c_Name c) st)) i = Some c' \<and> c_Running c'"
    by (simp_all add: st4)
qed

lemma start_new_fails:
  assumes v: "v i = Some c" "v new = None" "slashed (c_Name c) = c_Name c"
    and st: "unchanged (v(i \<mapsto> c\<lparr>c_Name := bn\<rparr>, new \<mapsto> d)) (view (st_engine st))"
    and u: "up_TargetID u = i" "cj_Name info = c_Name c"
    and run: "start_new D svc io opts info new u result st = (Inr res, st')" "\<not> res_Success res" "st_log st' = st_log st"
  shows "unchanged v (view (st_engine st')) \<and> (\<exists>c'. view (st_engine st') i = Some c' \<and> c_Running c')"
proof -
  obtain e1 st1 where start: "start D new st = (e1, st1)" by fastforce
  note st1 = start_step [OF start st]
  have restored: "unchanged v (view (st_engine st')) \<and> (\<exists>c'. view (st_engine st') i = Some c' \<and> c_Running c')"
    if "failUpdate io msg u' result' (rollbackContainer D i new (c_Name c) stx) = (res, st')"
      "unchanged (v(i \<mapsto> c\<lparr>c_Name := bn\<rparr>, new \<mapsto> d)) (view (st_engine stx))" "st_log stx = st_log st"
    for msg u' result' stx
  proof -
    have e: "st_engine st' = st_engine (rollbackContainer D i new (c_Name c) stx)"
      "st_log (rollbackContainer D i new (c_Name c) stx) = st_log stx"
      using failUpdate_state(1,2) [of io msg u' result' "rollbackContainer D i new (c_Name c) stx"] that(1,3) run(3) by simp_all
    show ?thesis using rollback_restores [OF v that(2) e(2)] by (simp add: e(1))
  qed
  show ?thesis
  proof (cases e1)
    case (Some err)
    have "failUpdate io (''container start failed: '' @ err) u result (rollbackContainer D i new (c_Name c) st1) = (res, st')"
      using run(1) by (simp add: start_new_def start Some u apfst_Inr)
    then show ?thesis using restored st1 by blast
  next
    case None
    obtain u2 st2 where status: "set_status io HealthCheck (u, st1) = (u2, st2)" by fastforce
    have st2: "st_engine st2 = st_engine st1" "st_log st2 = st_log st1" "up_TargetID u2 = i"
      using set_status_state [OF status] u(1) by simp_all
    obtain healthy st3 where wait: "waitForHealthy D io new (health_wait svc opts) (max_retries svc opts) st2 = Some (healthy, st3)"
      using run(1) by (auto simp: start_new_def start None status split: option.splits)
    have st3: "unchanged (v(i \<mapsto> c\<lparr>c_Name := bn\<rparr>, new \<mapsto> d)) (view (st_engine st3)) \<and> st_log st3 = st_log st"
      using wait_step [OF wait, of "v(i \<mapsto> c\<lparr>c_Name := bn\<rparr>, new \<mapsto> d)"] st1 st2 by simp
    have "\<not> healthy"
    proof
      assume healthy
      then have "finish D svc io opts (u2\<lparr>up_HealthCheckPassed := Some True\<rparr>) result st3 = (res, st')"
        using run(1) by (simp add: start_new_def start None status wait apfst_Inr)
      then have "res_Success res" by (auto simp: finish_def Let_def split: prod.splits)
      with run(2) show False by simp
    qed
    then have "\<exists>u' result'. failUpdate io ''health check failed after update'' u' result' (rollbackContainer D i new (c_Name c) st3) = (res, st')"
      using run(1) st2(3) by (auto simp: start_new_def start None status wait u(2) apfst_Inr)
    then show ?thesis using restored st3 by blast
  qed
qed

lemma start_new_succeeds:
  fixes st st' :: "('e, 'c) update_state"
  assumes v: "v i = Some c" "v new = None"
    and st: "unchanged (v(i \<mapsto> c\<lparr>c_Name := bn\<rparr>, new \<mapsto> d)) (view (st_engine st))"
    and u: "up_TargetID u = i"
    and run: "start_new D svc io opts info new u result st = (Inr res, st')" "res_Success res"
  shows "unchanged (v(new \<mapsto> d, i := None)) (view (st_engine st')) \<or>
      unchanged (v(i \<mapsto> c\<lparr>c_Name := bn\<rparr>, new \<mapsto> d)) (view (st_engine st')) \<and> st_log st' \<noteq> st_log st"
    and "res_NewContainerID res = res_NewContainerID result" "up_HealthCheckPassed (res_Update res) = Some True"
    and "up_TargetID (res_Update res) = i \<and> up_Status (res_Update res) = Completed"
proof -
  have ne: "i \<noteq> new" using v by auto
  obtain e1 st1 where start: "start D new st = (e1, st1)" by fastforce
  note st1 = start_step [OF start st]
  have nofail: "failUpdate io msg u' result' stx \<noteq> (res, sty)" for msg u' result' and stx sty :: "('e, 'c) update_state"
    using run(2) failUpdate_state(3) by (metis fst_conv)
  have "e1 = None"
    using run(1) nofail by (cases e1) (auto simp: start_new_def start apfst_Inr)
  obtain u2 st2 where status: "set_status io HealthCheck (u, st1) = (u2, st2)" by fastforce
  have st2: "st_engine st2 = st_engine st1" "st_log st2 = st_log st1" "up_TargetID u2 = i"
    using set_status_state [OF status] u by simp_all
  obtain healthy st3 where wait: "waitForHealthy D io new (health_wait svc opts) (max_retries svc opts) st2 = Some (healthy, st3)"
    using run(1) by (auto simp: start_new_def start \<open>e1 = None\<close> status split: option.splits)
  have st3: "unchanged (v(i \<mapsto> c\<lparr>c_Name := bn\<rparr>, new \<mapsto> d)) (view (st_engine st3))" "st_log st3 = st_log st"
    using wait_step [OF wait, of "v(i \<mapsto> c\<lparr>c_Name := bn\<rparr>, new \<mapsto> d)"] st1 st2 by simp_all
  have healthy
    using run(1) nofail by (cases healthy) (auto simp: start_new_def start \<open>e1 = None\<close> status wait apfst_Inr Let_def)
  then have fin: "finish D svc io opts (u2\<lparr>up_HealthCheckPassed := Some True\<rparr>) result st3 = (res, st')"
    using run(1) by (simp add: start_new_def start \<open>e1 = None\<close> status wait apfst_Inr)
  obtain e4 st4 where rem: "remove D i st3 = (e4, st4)" by fastforce
  have st': "st_engine st' = st_engine st4" "st_log st' = st_log st3 \<longleftrightarrow> e4 = None"
    using fin rem st2(3) engine_log(3) [OF rem] by (auto simp: finish_def Let_def warn_log split: prod.splits option.splits bool.splits)
  show "unchanged (v(new \<mapsto> d, i := None)) (view (st_engine st')) \<or>
      unchanged (v(i \<mapsto> c\<lparr>c_Name := bn\<rparr>, new \<mapsto> d)) (view (st_engine st')) \<and> st_log st' \<noteq> st_log st"
  proof (cases e4)
    case None
    have "v(i \<mapsto> c\<lparr>c_Name := bn\<rparr>, new \<mapsto> d, i := None) = v(new \<mapsto> d, i := None)" using ne by (intro ext) auto
    with remove_step [of i st3 st4, OF _ st3(1)] rem None ne show ?thesis by (simp add: st')
  next
    case (Some err)
    with remove_fails [of i st3 err st4, OF _ st3(1)] rem st' st3(2) show ?thesis by simp
  qed
  show "res_NewContainerID res = res_NewContainerID result" "up_HealthCheckPassed (res_Update res) = Some True"
    "up_TargetID (res_Update res) = i \<and> up_Status (res_Update res) = Completed"
    using fin st2(3) by (auto simp: finish_def Let_def split: prod.splits option.splits bool.splits)
qed

end

text \<open>
  How a failed update leaves the engine: as it was, and the container running unless the update stopped
  before it had stopped the container.
\<close>

definition restored ::
  "(string \<Rightarrow> 'k container option) \<Rightarrow> (string \<Rightarrow> 'k container option) \<Rightarrow> string \<Rightarrow> update_result \<Rightarrow> bool" where
  "restored v v' i res \<longleftrightarrow>
     unchanged v v' \<and>
     (list_ex (HasPrefix (res_ErrorMessage res)) [''backup failed: '', ''image pull failed: '', ''container stop failed: ''] \<or>
      (case v' i of Some c \<Rightarrow> c_Running c | None \<Rightarrow> False))"

text \<open>
  How a successful one leaves it: the new container, of the same configuration with the new image, has the
  name, and the old one is gone; if the log says that it could not be removed it is there under its other
  name. Nothing else has changed.
\<close>

definition taken_over ::
  "(string \<Rightarrow> 'k container option) \<Rightarrow> (string \<Rightarrow> 'k container option) \<Rightarrow> string \<Rightarrow> 'k container \<Rightarrow> string \<Rightarrow> string \<Rightarrow> string \<Rightarrow> bool \<Rightarrow> bool" where
  "taken_over v v' i c new img bn quiet \<longleftrightarrow>
     v new = None \<and> new \<noteq> [] \<and>
     (let d = c\<lparr>c_Image := img\<rparr> in
      unchanged (v(new \<mapsto> d, i := None)) v' \<or> \<not> quiet \<and> unchanged (v(i \<mapsto> c\<lparr>c_Name := slashed bn\<rparr>, new \<mapsto> d)) v')"

lemma unchanged_same_left: "same c d \<Longrightarrow> unchanged (v(i \<mapsto> c)) v' \<longleftrightarrow> unchanged (v(i \<mapsto> d)) v'"
  by (auto simp: unchanged_def same_def rel_option_iff fun_upd_def split: option.splits)

context container_engine
begin

lemma swap_fails:
  assumes v: "v i = Some c" "unchanged v (view (st_engine st))"
    and u: "up_TargetID u = i" "cj_Name info = c_Name c"
    and run: "swap D svc io opts info newImage u result st = (Inr res, st')" "\<not> res_Success res" "st_log st' = st_log st"
  shows "restored v (view (st_engine st')) i res"
proof -
  note name = slashed_name [OF v(2,1)]
  obtain u1 st1 where status: "set_status io Updating (u, st) = (u1, st1)" by fastforce
  have st1: "unchanged v (view (st_engine st1))" "st_log st1 = st_log st" "up_TargetID u1 = i"
    using set_status_state [OF status] u(1) v(2) by simp_all
  obtain e2 st2 where stop: "stop D i 30 st1 = (e2, st2)" by fastforce
  note st2 = stop_step [OF stop st1(1)]
  show ?thesis
  proof (cases e2)
    case (Some err)
    then have "failUpdate io (''container stop failed: '' @ err) u1 result st2 = (res, st')"
      using run(1) by (simp add: swap_def status stop st1 apfst_Inr)
    then have "st_engine st' = st_engine st2" "res_ErrorMessage res = ''container stop failed: '' @ err"
      using failUpdate_state by (metis snd_conv, metis fst_conv)
    with st2 show ?thesis by (simp add: restored_def)
  next
    case None
    let ?bn = "backup_name (c_Name c) io"
    obtain e3 st3 where ren: "rename D i ?bn st2 = (e3, st3)" by fastforce
    show ?thesis
    proof (cases e3)
      case (Some err)
      obtain e4 st4 where start: "start D i st3 = (e4, st4)" by fastforce
      note st3 = rename_fails [OF ren [unfolded Some] conjunct1 [OF st2]]
      note st4 = start_step [OF start conjunct1 [OF st3]]
      have fail: "failUpdate io (''container rename failed: '' @ err) u1 result
          (warn ''rollback: failed to restart container after rename failure'' e4 st4) = (res, st')"
        using run(1) by (simp add: swap_def status stop st1 None u(2) ren Some start apfst_Inr)
      then have eng: "st_engine st' = st_engine st4" and "st_log st' = st_log (warn ''rollback: failed to restart container after rename failure'' e4 st4)"
        using failUpdate_state by (metis snd_conv warn_engine, metis snd_conv)
      then have "e4 = None" using run(3) st1 st2 st3 st4 by (simp add: warn_log split: option.splits)
      with start_running [OF start [unfolded \<open>e4 = None\<close>] conjunct1 [OF st3] v(1)] st4 eng show ?thesis
        by (auto simp: restored_def)
    next
      case renamed: None
      note st3 = rename_step [OF ren [unfolded renamed] conjunct1 [OF st2] v(1)]
      let ?w = "v(i \<mapsto> c\<lparr>c_Name := slashed ?bn\<rparr>)"
      obtain out st4 where create: "create D newImage (cj_Settings info) (c_Name c) st3 = (out, st4)" by fastforce
      show ?thesis
      proof (cases out)
        case (Inl err)
        note st4 = create_fails [OF create [unfolded Inl] conjunct1 [OF st3]]
        obtain e5 st5 where undo: "rename D i (c_Name c) st4 = (e5, st5)" by fastforce
        let ?st5 = "warn ''rollback: failed to rename container back'' e5 st5"
        obtain e6 st6 where start: "start D i ?st5 = (e6, st6)" by fastforce
        let ?st6 = "warn ''rollback: failed to restart original container'' e6 st6"
        have fail: "failUpdate io (''container create failed: '' @ err) u1 result ?st6 = (res, st')"
          using run(1) by (simp add: swap_def status stop st1 None u(2) ren renamed create Inl undo start apfst_Inr)
        then have eng: "st_engine st' = st_engine st6" and "st_log st' = st_log ?st6"
          using failUpdate_state by (metis snd_conv warn_engine, metis snd_conv)
        then have ok: "e5 = None \<and> e6 = None"
          using run(3) st1 st2 st3 st4 engine_log(4) [OF undo] engine_log(2) [OF start]
          by (simp add: warn_log split: option.splits)
        then have "unchanged (?w(i \<mapsto> c\<lparr>c_Name := slashed (c_Name c)\<rparr>)) (view (st_engine st5))"
          using rename_step [of i "c_Name c" st4 st5 ?w "c\<lparr>c_Name := slashed ?bn\<rparr>"] undo st4 by simp
        moreover have "?w(i \<mapsto> c\<lparr>c_Name := slashed (c_Name c)\<rparr>) = v" using v(1) name by (intro ext) auto
        ultimately have "unchanged v (view (st_engine ?st5))" by simp
        from start_step [OF start this] start_running [OF _ this v(1)] start ok eng
        show ?thesis by (auto simp: restored_def)
      next
        case (Inr new)
        obtain running where new: "?w new = None" "new \<noteq> []"
          "unchanged (?w(new \<mapsto> \<lparr>c_Name = slashed (c_Name c), c_Image = newImage, c_Settings = cj_Settings info, c_Running = running\<rparr>)) (view (st_engine st4))"
          "st_log st4 = st_log st3"
          using create_step [OF create [unfolded Inr] conjunct1 [OF st3]] by metis
        have run4: "start_new D svc io opts info new u1 (result\<lparr>res_NewContainerID := new\<rparr>) st4 = (Inr res, st')"
          using run(1) by (simp add: swap_def status stop st1 None u(2) ren renamed create Inr)
        have "v new = None" using new(1) v(1) by (auto split: if_splits)
        from start_new_fails [OF v(1) this name new(3) st1(3) u(2) run4 run(2)] run(3) st1 st2 st3 new(4)
        show ?thesis by (auto simp: restored_def)
      qed
    qed
  qed
qed

lemma swap_succeeds:
  fixes st st' :: "('e, 'c) update_state"
  assumes v: "v i = Some c" "unchanged v (view (st_engine st))"
    and u: "up_TargetID u = i" "cj_Name info = c_Name c" "cj_Settings info = c_Settings c"
    and run: "swap D svc io opts info newImage u result st = (Inr res, st')" "res_Success res"
  shows "taken_over v (view (st_engine st')) i c (res_NewContainerID res) newImage (backup_name (c_Name c) io) (st_log st' = st_log st)"
    and "up_HealthCheckPassed (res_Update res) = Some True \<and> up_TargetID (res_Update res) = i \<and> up_Status (res_Update res) = Completed"
proof -
  have nofail: "failUpdate io msg u' result' stx \<noteq> (res, sty)" for msg u' result' and stx sty :: "('e, 'c) update_state"
    using run(2) failUpdate_state(3) by (metis fst_conv)
  let ?bn = "backup_name (c_Name c) io"
  obtain u1 st1 where status: "set_status io Updating (u, st) = (u1, st1)" by fastforce
  have st1: "unchanged v (view (st_engine st1))" "st_log st1 = st_log st" "up_TargetID u1 = i"
    using set_status_state [OF status] u(1) v(2) by simp_all
  obtain e2 st2 where stop: "stop D i 30 st1 = (e2, st2)" by fastforce
  have "e2 = None"
    using run(1) nofail by (cases e2) (simp_all add: swap_def status stop st1 apfst_Inr)
  note st2 = stop_step [OF stop [unfolded \<open>e2 = None\<close>] st1(1)]
  obtain e3 st3 where ren: "rename D i ?bn st2 = (e3, st3)" by fastforce
  have "e3 = None"
    using run(1) nofail by (cases e3) (auto simp: swap_def status stop \<open>e2 = None\<close> st1 u(2) ren apfst_Inr split: prod.splits)
  note st3 = rename_step [OF ren [unfolded \<open>e3 = None\<close>] conjunct1 [OF st2] v(1)]
  let ?w = "v(i \<mapsto> c\<lparr>c_Name := slashed ?bn\<rparr>)"
  obtain out st4 where create: "create D newImage (cj_Settings info) (c_Name c) st3 = (out, st4)" by fastforce
  obtain new where "out = Inr new"
    using run(1) nofail
    by (cases out) (auto simp: swap_def status stop \<open>e2 = None\<close> st1 u(2) ren \<open>e3 = None\<close> create apfst_Inr split: prod.splits)
  let ?d = "\<lambda>running. \<lparr>c_Name = slashed (c_Name c), c_Image = newImage, c_Settings = cj_Settings info, c_Running = running\<rparr>"
  obtain running where new: "?w new = None" "new \<noteq> []" "unchanged (?w(new \<mapsto> ?d running)) (view (st_engine st4))" "st_log st4 = st_log st3"
    using create_step [OF create [unfolded \<open>out = Inr new\<close>] conjunct1 [OF st3]] by metis
  have run4: "start_new D svc io opts info new u1 (result\<lparr>res_NewContainerID := new\<rparr>) st4 = (Inr res, st')"
    using run(1) by (simp add: swap_def status stop st1 \<open>e2 = None\<close> u(2) ren \<open>e3 = None\<close> create \<open>out = Inr new\<close>)
  have vnew: "v new = None" using new(1) v(1) by (auto split: if_splits)
  note final = start_new_succeeds [OF v(1) vnew new(3) st1(3) run4 run(2)]
  have same_new: "same (?d running) (c\<lparr>c_Image := newImage\<rparr>)" using slashed_name [OF v(2,1)] u(3) by (simp add: same_def)
  have ne: "i \<noteq> new" using v(1) vnew by auto
  have move: "v(new \<mapsto> x, i := None) = v(i := None, new \<mapsto> x)" for x using ne by (intro ext) auto
  have log: "st_log st4 = st_log st" using st1 st2 st3 new(4) by simp
  from final(1) show "taken_over v (view (st_engine st')) i c (res_NewContainerID res) newImage ?bn (st_log st' = st_log st)"
    using vnew new(2) unchanged_same_left [OF same_new, of "v(i := None)" new] unchanged_same_left [OF same_new, of ?w new]
    by (simp add: taken_over_def final(2) Let_def move log) blast
  show "up_HealthCheckPassed (res_Update res) = Some True \<and> up_TargetID (res_Update res) = i \<and> up_Status (res_Update res) = Completed"
    using final(3,4) by simp
qed

lemma pull_image_outcome:
  assumes v: "v i = Some c" "unchanged v (view (st_engine st))"
    and u: "up_TargetID u = i" "cj_Name info = c_Name c" "cj_Settings info = c_Settings c" "cj_ConfigImage info = c_Image c"
    and run: "pull_image D svc io opts info u result st = (Inr res, st')"
  shows "\<not> res_Success res \<Longrightarrow> st_log st' = st_log st \<Longrightarrow> restored v (view (st_engine st')) i res"
    and "res_Success res \<Longrightarrow> taken_over v (view (st_engine st')) i c (res_NewContainerID res)
      (buildImageRef (c_Image c) (up_ToVersion u)) (backup_name (c_Name c) io) (st_log st' = st_log st) \<and>
      up_HealthCheckPassed (res_Update res) = Some True \<and> up_TargetID (res_Update res) = i \<and> up_Status (res_Update res) = Completed"
proof -
  obtain u1 st1 where status: "set_status io Pulling (u, st) = (u1, st1)" by fastforce
  have st1: "unchanged v (view (st_engine st1))" "st_log st1 = st_log st" "u1 = u\<lparr>up_Status := Pulling\<rparr>"
    using set_status_state [OF status] v(2) by simp_all
  let ?img = "buildImageRef (c_Image c) (up_ToVersion u)"
  obtain e2 st2 where pull: "pull D ?img st1 = (e2, st2)" by fastforce
  note st2 = pull_step [OF pull st1(1)]
  obtain out st3 where img: "inspect_image D ?img st2 = (out, st3)" by fastforce
  note st3 = inspect_image_step [OF img conjunct1 [OF st2]]
  let ?u2 = "case out of Inl _ \<Rightarrow> u1 | Inr described \<Rightarrow> if ii_RepoDigests described \<noteq> []
    then u1\<lparr>up_ToDigest := Some (ExtractDigestFromRepoDigests (ii_RepoDigests described) ?img)\<rparr> else u1"
  have "up_TargetID ?u2 = i" using st1(3) u(1) by (simp split: sum.split)
  moreover have "e2 = None \<Longrightarrow> swap D svc io opts info ?img ?u2 result st3 = (Inr res, st')"
    using run st1(3) by (cases out) (auto simp: pull_image_def status pull img u(4) Let_def)
  ultimately have "(\<exists>err. e2 = Some err \<and> failUpdate io (''image pull failed: '' @ err) u1 result st2 = (res, st')) \<or>
      (\<exists>u2. up_TargetID u2 = i \<and> swap D svc io opts info ?img u2 result st3 = (Inr res, st'))"
    using run st1(3) by (cases e2) (force, simp add: pull_image_def status pull u(4) apfst_Inr Let_def)
  then show "\<not> res_Success res \<Longrightarrow> st_log st' = st_log st \<Longrightarrow> restored v (view (st_engine st')) i res"
    and "res_Success res \<Longrightarrow> taken_over v (view (st_engine st')) i c (res_NewContainerID res) ?img (backup_name (c_Name c) io) (st_log st' = st_log st) \<and>
      up_HealthCheckPassed (res_Update res) = Some True \<and> up_TargetID (res_Update res) = i \<and> up_Status (res_Update res) = Completed"
  proof (atomize (full), elim disjE exE conjE, goal_cases)
    case (1 err)
    then have "st_engine st' = st_engine st2" "\<not> res_Success res" "res_ErrorMessage res = ''image pull failed: '' @ err"
      using failUpdate_state by (metis snd_conv, metis fst_conv, metis fst_conv)
    with st2 show ?case by (simp add: restored_def)
  next
    case (2 u2)
    have log: "st_log st3 = st_log st" using st1 st2 st3 by simp
    from swap_fails [OF v(1) conjunct1 [OF st3] 2(1) u(2) 2(2)] swap_succeeds [OF v(1) conjunct1 [OF st3] 2(1) u(2,3) 2(2)]
    show ?case by (simp add: log)
  qed
qed

end

text \<open>The target version stays in the result, and only the ticker's panic ends an execution without one.\<close>

lemma finish_ToVersion: "finish D svc io opts u result st = (res, st') \<Longrightarrow> res_ToVersion res = res_ToVersion result"
  by (auto simp: finish_def Let_def split: prod.splits option.splits bool.splits)

lemma failUpdate_ToVersion: "failUpdate io msg u result st = (res, st') \<Longrightarrow> res_ToVersion res = res_ToVersion result"
  by (auto simp: failUpdate_def Let_def)

lemma start_new_ToVersion:
  "start_new D svc io opts info new u result st = (out, st') \<Longrightarrow>
     case out of Inl err \<Rightarrow> err = Panicked ''non-positive interval for NewTicker'' | Inr res \<Rightarrow> res_ToVersion res = res_ToVersion result"
  by (cases out) (auto simp: start_new_def apfst_Inr Let_def split: prod.splits option.splits if_splits
      dest: finish_ToVersion failUpdate_ToVersion)

lemma swap_ToVersion:
  "swap D svc io opts info img u result st = (out, st') \<Longrightarrow>
     case out of Inl err \<Rightarrow> err = Panicked ''non-positive interval for NewTicker'' | Inr res \<Rightarrow> res_ToVersion res = res_ToVersion result"
  by (cases out) (auto simp: swap_def apfst_Inr Let_def split: prod.splits option.splits sum.splits
      dest!: failUpdate_ToVersion start_new_ToVersion)

lemma pull_image_ToVersion:
  "pull_image D svc io opts info u result st = (out, st') \<Longrightarrow>
     case out of Inl err \<Rightarrow> err = Panicked ''non-positive interval for NewTicker'' | Inr res \<Rightarrow> res_ToVersion res = res_ToVersion result"
  by (cases out) (auto simp: pull_image_def apfst_Inr Let_def split: prod.splits option.splits sum.splits
      dest!: failUpdate_ToVersion swap_ToVersion)

lemma executeUpdate_ToVersion:
  "executeUpdate D svc io opts info u st = (out, st') \<Longrightarrow>
     case out of Inl err \<Rightarrow> err = Panicked ''non-positive interval for NewTicker'' | Inr res \<Rightarrow> res_ToVersion res = up_ToVersion u"
  by (cases out) (auto simp: executeUpdate_def apfst_Inr Let_def split: prod.splits option.splits sum.splits if_splits
      dest!: failUpdate_ToVersion pull_image_ToVersion)

context container_engine
begin

lemma executeUpdate_outcome:
  assumes v: "v i = Some c" "unchanged v (view (st_engine st))"
    and u: "up_TargetID u = i" "cj_Name info = c_Name c" "cj_Settings info = c_Settings c" "cj_ConfigImage info = c_Image c"
    and run: "executeUpdate D svc io opts info u st = (Inr res, st')"
  shows "\<not> res_Success res \<Longrightarrow> st_log st' = st_log st \<Longrightarrow> restored v (view (st_engine st')) i res"
    and "res_Success res \<Longrightarrow> taken_over v (view (st_engine st')) i c (res_NewContainerID res)
      (buildImageRef (c_Image c) (up_ToVersion u)) (backup_name (c_Name c) io) (st_log st' = st_log st) \<and>
      up_HealthCheckPassed (res_Update res) = Some True \<and> up_TargetID (res_Update res) = i \<and> up_Status (res_Update res) = Completed"
proof -
  have "\<exists>u2 result st2. st_engine st2 = st_engine st \<and> st_log st2 = st_log st \<and> up_TargetID u2 = i \<and> up_ToVersion u2 = up_ToVersion u \<and>
      ((\<exists>err. failUpdate io (''backup failed: '' @ err) u2 result st2 = (res, st')) \<or>
       pull_image D svc io opts info u2 result st2 = (Inr res, st'))"
  proof -
    let ?u = "u\<lparr>up_StartedAt := Some (io_started io)\<rparr>"
    obtain u1 st1 where scan: "scan_before svc io opts ?u st = (u1, st1)" by fastforce
    note scanned = scan_before_state [OF scan]
    obtain u2 st2 where status: "set_status io BackingUp (u1, st1) = (u2, st2)" by fastforce
    note backing = set_status_state [OF status]
    show ?thesis
    proof (cases "wants_backup svc opts")
      case False
      then have "\<exists>result. pull_image D svc io opts info u1 result st1 = (Inr res, st')"
        using run by (auto simp: executeUpdate_def scan Let_def)
      with scanned u(1) show ?thesis by (intro exI [of _ u1] exI [of _ st1]) auto
    next
      case True
      show ?thesis
      proof (cases "io_backup io")
        case (Inl err)
        with run True have "\<exists>result. failUpdate io (''backup failed: '' @ err) u2 result st2 = (res, st')"
          by (auto simp: executeUpdate_def scan status apfst_Inr Let_def)
        with scanned backing u(1) show ?thesis by (intro exI [of _ u2] exI [of _ st2]) auto
      next
        case (Inr backup)
        with run True have "\<exists>result. pull_image D svc io opts info (u2\<lparr>up_BackupID := Some backup\<rparr>) result st2 = (Inr res, st')"
          by (auto simp: executeUpdate_def scan status Let_def)
        with scanned backing u(1) show ?thesis
          by (intro exI [of _ "u2\<lparr>up_BackupID := Some backup\<rparr>"] exI [of _ st2]) auto
      qed
    qed
  qed
  then obtain u2 result st2 where st2: "st_engine st2 = st_engine st" "st_log st2 = st_log st" "up_TargetID u2 = i" "up_ToVersion u2 = up_ToVersion u"
    and cases: "(\<exists>err. failUpdate io (''backup failed: '' @ err) u2 result st2 = (res, st')) \<or>
       pull_image D svc io opts info u2 result st2 = (Inr res, st')" by blast
  have v2: "unchanged v (view (st_engine st2))" using v(2) by (simp add: st2)
  have failed: "restored v (view (st_engine st')) i res \<and> \<not> res_Success res"
    if "failUpdate io (''backup failed: '' @ err) u2 result st2 = (res, st')" for err
  proof -
    have "st_engine st' = st_engine st2" "\<not> res_Success res" "res_ErrorMessage res = ''backup failed: '' @ err"
      using that failUpdate_state by (metis snd_conv, metis fst_conv, metis fst_conv)
    with v2 show ?thesis by (simp add: restored_def)
  qed
  show "\<not> res_Success res \<Longrightarrow> st_log st' = st_log st \<Longrightarrow> restored v (view (st_engine st')) i res"
    and "res_Success res \<Longrightarrow> taken_over v (view (st_engine st')) i c (res_NewContainerID res)
      (buildImageRef (c_Image c) (up_ToVersion u)) (backup_name (c_Name c) io) (st_log st' = st_log st) \<and>
      up_HealthCheckPassed (res_Update res) = Some True \<and> up_TargetID (res_Update res) = i \<and> up_Status (res_Update res) = Completed"
    using cases failed pull_image_outcome [OF v(1) v2 st2(3) u(2-4)] st2 by (metis, metis)
qed

end

definition update_outcome ::
  "(string \<Rightarrow> 'k container option) \<Rightarrow> (string \<Rightarrow> 'k container option) \<Rightarrow> string \<Rightarrow> 'k container \<Rightarrow> string \<Rightarrow> bool \<Rightarrow>
     app_error + update_result \<Rightarrow> bool" where
  "update_outcome v v' i c bn quiet out \<longleftrightarrow>
     (case out of
        Inl (Panicked _) \<Rightarrow> True
      | Inl _ \<Rightarrow> unchanged v v'
      | Inr res \<Rightarrow>
          if \<not> res_Success res then quiet \<longrightarrow> restored v v' i res
          else if res_NewContainerID res = [] then unchanged v v'
          else taken_over v v' i c (res_NewContainerID res) (buildImageRef (c_Image c) (res_ToVersion res)) bn quiet \<and>
            up_HealthCheckPassed (res_Update res) = Some True \<and> up_TargetID (res_Update res) = i \<and>
            up_Status (res_Update res) = Completed)"

context container_engine
begin

lemma check_step:
  assumes "CheckContainerForUpdate D C io i st = (out, written, st')" "unchanged v (view (st_engine st))"
  shows "unchanged v (view (st_engine st')) \<and> st_log st' = st_log st \<and> st_rows st' = st_rows st"
proof -
  obtain o1 st1 where 1: "inspect D i st = (o1, st1)" by fastforce
  note st1 = inspect_step [OF 1 assms(2)]
  show ?thesis
  proof (cases o1)
    case (Inr info)
    obtain o2 st2 where 2: "inspect_image D (cj_Image info) st1 = (o2, st2)" by fastforce
    from inspect_image_step [OF 2 conjunct1 [OF st1]] st1 assms(1) show ?thesis
      by (auto simp: CheckContainerForUpdate_def 1 2 Inr Let_def split: sum.splits prod.splits option.splits)
  qed (use assms(1) st1 in \<open>simp add: CheckContainerForUpdate_def 1\<close>)
qed

lemma run_update_outcome:
  assumes v: "v i = Some c" "unchanged v (view (st_engine st))"
    and u: "up_TargetID u = i" "cj_Name info = c_Name c" "cj_Settings info = c_Settings c" "cj_ConfigImage info = c_Image c"
    and run: "run_update D svc io opts info u st = (out, st')"
  shows "update_outcome v (view (st_engine st')) i c (backup_name (c_Name c) io) (st_log st' = st_log st) out"
proof (cases "io_create io \<and> \<not> o_DryRun opts \<and> io_slot io")
  case True
  let ?st = "st\<lparr>st_rows := st_rows st @ [u]\<rparr>"
  have exec: "executeUpdate D svc io opts info u ?st = (out, st')" using run True by (simp add: run_update_def)
  have v': "unchanged v (view (st_engine ?st))" "st_log ?st = st_log st" using v(2) by simp_all
  show ?thesis
  proof (cases out)
    case (Inl err)
    with executeUpdate_ToVersion [OF exec] show ?thesis by (simp add: update_outcome_def)
  next
    case (Inr res)
    note outcome = executeUpdate_outcome [OF v(1) v'(1) u exec [unfolded Inr]]
    have "res_ToVersion res = up_ToVersion u" using executeUpdate_ToVersion [OF exec] by (simp add: Inr)
    with outcome v'(2) show ?thesis by (auto simp: update_outcome_def Inr taken_over_def)
  qed
next
  case False
  with run v(2) show ?thesis
    by (auto simp: run_update_def update_outcome_def plain_result_def Let_def split: if_splits)
qed

lemma update_outcome_quiet: "update_outcome v v' i c bn q out \<Longrightarrow> q = q' \<Longrightarrow> update_outcome v v' i c bn q' out"
  by simp

lemma UpdateContainer_outcome:
  assumes v: "v i = Some c" "unchanged v (view (st_engine st))" and i: "o_ContainerID opts = i"
    and run: "UpdateContainer D svc C io host opts st = (out, st')"
  shows "update_outcome v (view (st_engine st')) i c (backup_name (c_Name c) io) (st_log st' = st_log st) out"
proof -
  obtain o1 st1 where 1: "inspect D i st = (o1, st1)" by fastforce
  note st1 = inspect_step [OF 1 v(2)]
  have same: "unchanged v (view (st_engine st')) \<Longrightarrow> update_outcome v (view (st_engine st')) i c (backup_name (c_Name c) io) q (Inl err)" for q err
    by (simp add: update_outcome_def split: app_error.split)
  show ?thesis
  proof (cases o1)
    case (Inl err)
    with run st1 same show ?thesis by (auto simp: UpdateContainer_def i 1)
  next
    case (Inr info)
    have info: "cj_Name info = c_Name c" "cj_Settings info = c_Settings c" "cj_ConfigImage info = c_Image c"
    proof -
      have "ContainerInspect D (st_engine st) i = (Inr info, st_engine st1)"
        using 1 Inr by (auto simp: inspect_def split: prod.splits)
      then obtain j d where "lookup (st_engine st) i = Some j" "view (st_engine st) j = Some d"
          "cj_Name info = c_Name d" "cj_ConfigImage info = c_Image d" "cj_Settings info = c_Settings d"
        using inspect_ok by blast
      moreover from this have "j = i" using lookup_step [OF v(2,1)] by simp
      ultimately show "cj_Name info = c_Name c" "cj_Settings info = c_Settings c" "cj_ConfigImage info = c_Image c"
        using unchangedD [OF v(2,1)] by (auto simp: same_def)
    qed
    show ?thesis
    proof (cases "ParseImageRef (c_Image c)")
      case (Inl err)
      with run st1 same show ?thesis by (auto simp: UpdateContainer_def i 1 Inr info)
    next
      case parsed: (Inr ref)
      obtain o2 st2 where 2: "inspect_image D (cj_Image info) st1 = (o2, st2)" by fastforce
      note st2 = inspect_image_step [OF 2 conjunct1 [OF st1]]
      show ?thesis
      proof (cases o2)
        case (Inl err)
        with run st2 same show ?thesis by (auto simp: UpdateContainer_def i 1 Inr info parsed 2)
      next
        case described: (Inr img)
        let ?u = "with_from_digest img (c_Image c) (new_update io host opts info (r_Tag ref))"
        have u: "up_TargetID ?u = i" by (simp add: with_from_digest_def new_update_def i)
        have log: "st_log st2 = st_log st" using st1 st2 by simp
        show ?thesis
        proof (cases "o_TargetVersion opts = []")
          case False
          then have "run_update D svc io opts info (?u\<lparr>up_ToVersion := o_TargetVersion opts\<rparr>) st2 = (out, st')"
            using run by (simp add: UpdateContainer_def i 1 Inr info parsed 2 described Let_def)
          from run_update_outcome [OF v(1) conjunct1 [OF st2] _ info this] u log show ?thesis by simp
        next
          case True
          obtain o3 written st3 where 3: "CheckContainerForUpdate D C io i st2 = (o3, written, st3)" by (metis prod_cases3)
          note st3 = check_step [OF 3 conjunct1 [OF st2]]
          have "unchanged v (view (st_engine st')) \<and> (\<exists>err. out = Inl err) \<or>
              unchanged v (view (st_engine st')) \<and> (\<exists>u. out = Inr (plain_result u (up_FromVersion u) False ''already up to date'')) \<or>
              (\<exists>a :: available_update. run_update D svc io opts info (?u\<lparr>up_ToVersion := a_LatestVersion a, up_ChangelogURL := map_option cl_URL (a_Changelog a),
                 up_ChangelogBody := map_option cl_Body (a_Changelog a)\<rparr>) st3 = (out, st'))"
            using run st3 True
            by (auto simp: UpdateContainer_def i 1 Inr info parsed 2 described 3 Let_def split: sum.splits option.splits if_splits)
          then show ?thesis
          proof (elim disjE exE conjE)
            fix a :: available_update
            assume "run_update D svc io opts info (?u\<lparr>up_ToVersion := a_LatestVersion a, up_ChangelogURL := map_option cl_URL (a_Changelog a),
                 up_ChangelogBody := map_option cl_Body (a_Changelog a)\<rparr>) st3 = (out, st')"
            from run_update_outcome [OF v(1) conjunct1 [OF st3] _ info this] u st3 log show ?thesis by simp
          qed (auto simp: same, simp add: update_outcome_def plain_result_def)
        qed
      qed
    qed
  qed
qed

end

text \<open>An update changes neither the identifier nor the target of a row.\<close>

definition targets :: "('e, 'c) update_state \<Rightarrow> (uuid \<times> string) list" where
  "targets st = map (\<lambda>r. (up_ID r, up_TargetID r)) (st_rows st)"

lemma targets_written [simp]:
  "map (\<lambda>r. (up_ID r, up_TargetID r)) (repo_Update ok u rows) = map (\<lambda>r. (up_ID r, up_TargetID r)) rows"
  "map (\<lambda>r. (up_ID r, up_TargetID r)) (repo_UpdateStatus ok now i s msg rows) = map (\<lambda>r. (up_ID r, up_TargetID r)) rows"
  by (auto simp: repo_Update_def repo_UpdateStatus_def map_row_def written_columns_def)

lemma engine_rows:
  "stop D i t st = (out1, st') \<Longrightarrow> st_rows st' = st_rows st"
  "start D i st = (out2, st') \<Longrightarrow> st_rows st' = st_rows st"
  "remove D i st = (out3, st') \<Longrightarrow> st_rows st' = st_rows st"
  "rename D i n st = (out4, st') \<Longrightarrow> st_rows st' = st_rows st"
  "create D img k n st = (out5, st') \<Longrightarrow> st_rows st' = st_rows st"
  "pull D img st = (out6, st') \<Longrightarrow> st_rows st' = st_rows st"
  "inspect D i st = (out7, st') \<Longrightarrow> st_rows st' = st_rows st"
  "inspect_image D i st = (out8, st') \<Longrightarrow> st_rows st' = st_rows st"
  by (auto simp: stop_def start_def remove_def rename_def create_def pull_def inspect_def inspect_image_def split: prod.splits)

lemma warn_rows [simp]: "st_rows (warn msg err st) = st_rows st"
  by (simp add: warn_def split: option.split)

lemma rollbackContainer_rows: "st_rows (rollbackContainer D i new n st) = st_rows st"
  by (auto simp: rollbackContainer_def Let_def engine_rows split: prod.splits)

lemma wait_loop_rows: "wait_loop D io i n st = (healthy, st') \<Longrightarrow> st_rows st' = st_rows st"
proof (induction n arbitrary: st)
  case (Suc n)
  obtain out st1 where "inspect D i st = (out, st1)" by fastforce
  with Suc engine_rows(7) [OF this] show ?case by (auto split: if_splits sum.splits option.splits)
qed simp

lemma wait_rows: "waitForHealthy D io i wait retries st = Some (healthy, st') \<Longrightarrow> st_rows st' = st_rows st"
  using wait_loop_rows [of D io i "nat (if retries \<le> 0 then 1 else retries)" st healthy st']
  by (simp add: waitForHealthy_def Let_def del: wait_loop.simps split: if_splits)

lemma set_status_targets: "set_status io s (u, st) = (u', st') \<Longrightarrow> targets st' = targets st"
  by (auto simp: set_status_def targets_def)

lemma failUpdate_targets: "failUpdate io msg u result st = (res, st') \<Longrightarrow> targets st' = targets st \<and> up_ID (res_Update res) = up_ID u"
  by (auto simp: failUpdate_def Let_def targets_def split: option.splits)

lemma finish_targets:
  "finish D svc io opts u result st = (res, st') \<Longrightarrow> targets st' = targets st \<and> up_ID (res_Update res) = up_ID u"
  by (auto simp: finish_def Let_def targets_def engine_rows split: prod.splits option.splits bool.splits)

lemma targets_cong: "st_rows st' = st_rows st \<Longrightarrow> targets st' = targets st"
  by (simp add: targets_def)

lemma targets_warn [simp]: "targets (warn msg err st) = targets st"
  by (simp add: targets_def)

lemma status_targets: "set_status io s (u, st) = (u', st') \<Longrightarrow> targets st' = targets st \<and> up_ID u' = up_ID u"
  using set_status_targets set_status_state(2) by fastforce

lemma start_new_targets:
  assumes "start_new D svc io opts info new u result st = (Inr res, st')"
  shows "targets st' = targets st \<and> up_ID (res_Update res) = up_ID u"
proof -
  obtain e1 st1 where 1: "start D new st = (e1, st1)" by fastforce
  obtain u2 st2 where 2: "set_status io HealthCheck (u, st1) = (u2, st2)" by fastforce
  have t: "targets st1 = targets st" "targets st2 = targets st1" "up_ID u2 = up_ID u"
    using targets_cong engine_rows(2) [OF 1] set_status_targets [OF 2] set_status_state(2) [OF 2] by simp_all
  have r: "targets (rollbackContainer D i new n stx) = targets stx" for i n stx
    by (rule targets_cong) (rule rollbackContainer_rows)
  show ?thesis
  proof (cases e1)
    case (Some err)
    with assms t show ?thesis by (auto simp: start_new_def 1 apfst_Inr r dest!: failUpdate_targets)
  next
    case None
    obtain healthy st3 where 3: "waitForHealthy D io new (health_wait svc opts) (max_retries svc opts) st2 = Some (healthy, st3)"
      using assms by (auto simp: start_new_def 1 None 2 split: option.splits)
    have "targets st3 = targets st2" by (rule targets_cong) (rule wait_rows [OF 3])
    with assms t None show ?thesis
      by (cases healthy) (auto simp: start_new_def 1 2 3 apfst_Inr Let_def r dest!: failUpdate_targets finish_targets)
  qed
qed

lemma swap_targets:
  "swap D svc io opts info img u result st = (Inr res, st') \<Longrightarrow> targets st' = targets st \<and> up_ID (res_Update res) = up_ID u"
  by (auto simp: swap_def apfst_Inr Let_def split: prod.splits option.splits sum.splits
      dest!: failUpdate_targets start_new_targets engine_rows [THEN targets_cong] status_targets)

lemma pull_image_targets:
  "pull_image D svc io opts info u result st = (Inr res, st') \<Longrightarrow> targets st' = targets st \<and> up_ID (res_Update res) = up_ID u"
  by (auto simp: pull_image_def apfst_Inr Let_def split: prod.splits option.splits sum.splits if_splits
      dest!: failUpdate_targets swap_targets engine_rows [THEN targets_cong] status_targets)

lemma scan_before_targets: "scan_before svc io opts u st = (u', st') \<Longrightarrow> targets st' = targets st \<and> up_ID u' = up_ID u"
  by (auto simp: scan_before_def split: if_splits prod.splits option.splits dest!: status_targets)

lemma executeUpdate_targets:
  "executeUpdate D svc io opts info u st = (Inr res, st') \<Longrightarrow> targets st' = targets st \<and> up_ID (res_Update res) = up_ID u"
  by (auto simp: executeUpdate_def apfst_Inr Let_def split: prod.splits sum.splits if_splits
      dest!: failUpdate_targets pull_image_targets scan_before_targets status_targets)

text \<open>A completed update is one row more, with the identifier of the operation.\<close>

lemma UpdateContainer_targets:
  assumes "UpdateContainer D svc C io host opts st = (Inr res, st')" "res_NewContainerID res \<noteq> []"
  shows "targets st' = targets st @ [(io_id io, o_ContainerID opts)] \<and> up_ID (res_Update res) = io_id io"
proof -
  have run: "targets st' = targets st1 @ [(up_ID u, up_TargetID u)] \<and> up_ID (res_Update res) = up_ID u"
    if "run_update D svc io opts info u st1 = (Inr res, st')" for info u st1
    using that assms(2)
    by (auto simp: run_update_def plain_result_def Let_def split: if_splits dest!: executeUpdate_targets) (simp add: targets_def)
  have check: "targets st2 = targets st1" if "CheckContainerForUpdate D C io i st1 = (out, written, st2)" for i st1 out written st2
    using that by (auto simp: CheckContainerForUpdate_def targets_def Let_def
        split: prod.splits sum.splits option.splits dest!: engine_rows)
  from assms show ?thesis
    by (auto simp: UpdateContainer_def Let_def plain_result_def with_from_digest_def new_update_def
        split: prod.splits sum.splits option.splits if_splits dest!: run check engine_rows [THEN targets_cong])
qed

context container_engine
begin

lemma lookup_gone:
  assumes "length i = 64" "view e i = None" "\<And>j d. view e j = Some d \<Longrightarrow> c_Name d \<noteq> slashed i"
  shows "lookup e i = None"
proof (rule ccontr)
  assume "lookup e i \<noteq> None"
  then obtain j where j: "lookup e i = Some j" by blast
  then obtain d where d: "view e j = Some d" using lookup_view by blast
  with lookup_other [OF j d] assms id_length [of e j] show False by auto
qed

lemma rollback_fails:
  assumes gone: "length i = 64" "view (st_engine st) i = None" "\<And>j d. view (st_engine st) j = Some d \<Longrightarrow> c_Name d \<noteq> slashed i"
    and rows: "\<And>r. r \<in> set (st_rows st) \<Longrightarrow> up_ID r = ro_UpdateID opts \<Longrightarrow> up_TargetID r = i"
    and run: "RollbackUpdate D svc io opts st = (Inr r, st')"
  shows "\<not> rr_Success r \<and> unchanged (view (st_engine st)) (view (st_engine st'))"
proof -
  obtain u where u: "repo_Get (st_rows st) (ro_UpdateID opts) = Inr u"
    using run by (auto simp: RollbackUpdate_def split: if_splits sum.splits)
  then have "u \<in> set (st_rows st) \<and> up_ID u = ro_UpdateID opts"
    by (auto simp: repo_Get_def find_Some_iff split: option.splits)
  with rows have target: "up_TargetID u = i" by blast
  obtain e1 st1 where 1: "pull D (buildImageRef (up_Image u) (up_FromVersion u)) st = (e1, st1)" by fastforce
  note st1 = pull_step [OF 1 unchanged_refl]
  have "c_Name d \<noteq> slashed i" if d: "view (st_engine st1) j = Some d" for j d
  proof -
    obtain d' where "view (st_engine st) j = Some d'" using d unchanged_None [OF conjunct1 [OF st1]] by (metis option.exhaust)
    with gone(3) d unchangedD [OF conjunct1 [OF st1]] show ?thesis by (fastforce simp: same_def)
  qed
  then have "lookup (st_engine st1) i = None"
    using lookup_gone gone(1,2) unchanged_None [OF conjunct1 [OF st1]] by blast
  obtain o2 st2 where 2: "inspect D i st1 = (o2, st2)" by fastforce
  then have "\<exists>err. o2 = Inl err"
    using inspect_ok \<open>lookup (st_engine st1) i = None\<close> by (cases o2) (fastforce simp: inspect_def split: prod.splits)+
  with run st1 inspect_step [OF 2 conjunct1 [OF st1]] show ?thesis
    by (auto simp: RollbackUpdate_def u target 1 2 Let_def split: if_splits option.splits)
qed

end

end
