(* ===== verification/Update_Props.thy ===== *)
theory Update_Props
  imports Container_Update
begin

text \<open>
  The properties of container updates, and an engine in memory that meets the laws of
  \<open>container_engine\<close>, on which the properties are applied.
\<close>

section \<open>An engine in memory\<close>

text \<open>
  A reference instance of the laws: a table of containers, the identifiers of the containers it will
  create, the calls it refuses and the containers it reports as unhealthy.
\<close>

record ref_engine =
  re_table :: "(string \<times> string container) list"
  re_ids :: "string list"
  re_refused :: "(string \<times> string) list"
  re_unhealthy :: "string list"

definition ref_ok :: "(string \<times> string container) list \<Rightarrow> bool" where
  "ref_ok t \<longleftrightarrow>
     distinct (map fst t) \<and> distinct (map (c_Name \<circ> snd) t) \<and>
     list_all (\<lambda>(i, c). length i = 64 \<and> HasPrefix (c_Name c) ''/'') t"

definition ref_view :: "ref_engine \<Rightarrow> string \<Rightarrow> string container option" where
  "ref_view e i = (if ref_ok (re_table e) then map_of (re_table e) i else None)"

definition ref_lookup :: "ref_engine \<Rightarrow> string \<Rightarrow> string option" where
  "ref_lookup e r =
     (if \<not> ref_ok (re_table e) then None
      else if map_of (re_table e) r \<noteq> None then Some r
      else case find (\<lambda>(_, c). c_Name c = slashed r) (re_table e) of
          Some (i, _) \<Rightarrow> Some i
        | None \<Rightarrow> (case filter (\<lambda>(i, _). length r < length i \<and> HasPrefix i r) (re_table e) of [(i, _)] \<Rightarrow> Some i | _ \<Rightarrow> None))"

definition ref_change ::
  "string \<Rightarrow> (string \<Rightarrow> (string \<times> string container) list \<Rightarrow> (string \<times> string container) list) \<Rightarrow> ref_engine \<Rightarrow> string \<Rightarrow> string option \<times> ref_engine" where
  "ref_change call f e r =
     (if (call, r) \<in> set (re_refused e) then (Some ''refused'', e)
      else case ref_lookup e r of
          None \<Rightarrow> (Some ''no such container'', e)
        | Some i \<Rightarrow>
            (if ref_ok (f i (re_table e)) then (None, e\<lparr>re_table := f i (re_table e)\<rparr>) else (Some ''conflict'', e)))"

definition on_container :: "(string container \<Rightarrow> string container) \<Rightarrow> string \<Rightarrow> (string \<times> string container) list \<Rightarrow> (string \<times> string container) list" where
  "on_container f i t = map (\<lambda>(j, c). (j, if j = i then f c else c)) t"

definition ref_create :: "ref_engine \<Rightarrow> string \<Rightarrow> string \<Rightarrow> string \<Rightarrow> (string + string) \<times> ref_engine" where
  "ref_create e img k n =
     (case re_ids e of
        [] \<Rightarrow> (Inl ''no identifier left'', e)
      | i # ids \<Rightarrow>
          (let t = (i, \<lparr>c_Name = slashed n, c_Image = img, c_Settings = k, c_Running = False\<rparr>) # re_table e in
           if (''create'', n) \<in> set (re_refused e) \<or> \<not> ref_ok (re_table e) \<or> \<not> ref_ok t then (Inl ''conflict'', e)
           else (Inr i, e\<lparr>re_table := t, re_ids := ids\<rparr>)))"

definition ref_inspect :: "ref_engine \<Rightarrow> string \<Rightarrow> (string + string container_json) \<times> ref_engine" where
  "ref_inspect e r =
     (case Option.bind (ref_lookup e r) (\<lambda>i. map_option (Pair i) (ref_view e i)) of
        None \<Rightarrow> (Inl ''no such container'', e)
      | Some (i, c) \<Rightarrow>
          (Inr \<lparr>cj_Name = c_Name c, cj_Image = c_Image c, cj_ConfigImage = c_Image c, cj_Settings = c_Settings c,
             cj_Running = c_Running c, cj_Health = (if i \<in> set (re_unhealthy e) then Some ''unhealthy'' else None)\<rparr>, e))"

definition ref_docker :: "(ref_engine, string) docker" where
  "ref_docker =
     \<lparr>ContainerInspect = ref_inspect,
      ContainerStop = (\<lambda>e r t. ref_change ''stop'' (on_container (\<lambda>c. c\<lparr>c_Running := False\<rparr>)) e r),
      ContainerStart = ref_change ''start'' (on_container (\<lambda>c. c\<lparr>c_Running := True\<rparr>)),
      ContainerRemove = (\<lambda>e r force. ref_change ''remove'' AList.delete e r),
      ContainerCreate = ref_create,
      ContainerRename = (\<lambda>e r n. ref_change ''rename'' (on_container (\<lambda>c. c\<lparr>c_Name := slashed n\<rparr>)) e r),
      ImagePull = (\<lambda>e img. (if (''pull'', img) \<in> set (re_refused e) then Some ''refused'' else None, e)),
      ImageInspect = (\<lambda>e img. (Inr \<lparr>ii_RepoDigests = []\<rparr>, e))\<rparr>"

lemma ref_lookup_view: "ref_lookup e r = Some i \<Longrightarrow> ref_ok (re_table e) \<and> map_of (re_table e) i \<noteq> None"
  unfolding map_of_eq_None_iff ref_lookup_def
  by (force split: if_splits option.splits list.splits simp: find_Some_iff filter_eq_Cons_iff dest: nth_mem)

lemma map_of_on_container: "map_of (on_container f i t) = (\<lambda>j. if j = i then map_option f (map_of t j) else map_of t j)"
  by (induction t) (auto simp: on_container_def)

lemma ref_change_err: "ref_change call f e r = (Some err, e') \<Longrightarrow> e' = e"
  by (auto simp: ref_change_def split: if_splits option.splits)

lemma ref_change_ok:
  "ref_change call f e r = (None, e') \<Longrightarrow>
     \<exists>i c. ref_lookup e r = Some i \<and> map_of (re_table e) i = Some c \<and> ref_ok (re_table e) \<and> ref_ok (re_table e') \<and> re_table e' = f i (re_table e)"
  using ref_lookup_view by (fastforce simp: ref_change_def split: if_splits option.splits)

lemma unchanged_on_container:
  assumes "map_of t i = Some c" "same c (f c)"
  shows "unchanged (map_of t) (map_of (on_container f i t))"
  using assms by (auto simp: unchanged_def map_of_on_container option.rel_refl)

lemma on_container_upd: "map_of t i = Some c \<Longrightarrow> map_of (on_container f i t) = (map_of t)(i \<mapsto> f c)"
  by (auto simp: map_of_on_container)

lemma ref_view_ok: "ref_ok (re_table e) \<Longrightarrow> ref_view e = map_of (re_table e)"
  by (auto simp: ref_view_def)

lemma ref_okD:
  assumes "ref_ok t" "map_of t i = Some c"
  shows "length i = 64" "HasPrefix (c_Name c) ''/''"
  using assms map_of_SomeD [OF assms(2)] by (auto simp: ref_ok_def list_all_iff)

lemma distinct_map_inj: "distinct (map f xs) \<Longrightarrow> x \<in> set xs \<Longrightarrow> y \<in> set xs \<Longrightarrow> f x = f y \<Longrightarrow> x = y"
  by (auto simp: distinct_map dest: inj_onD)

lemma ref_names_unique:
  "ref_ok t \<Longrightarrow> map_of t i = Some c \<Longrightarrow> map_of t j = Some d \<Longrightarrow> c_Name c = c_Name d \<Longrightarrow> i = j"
  using distinct_map_inj [of "c_Name \<circ> snd" t "(i, c)" "(j, d)"] by (auto simp: ref_ok_def dest!: map_of_SomeD)

lemma find_name:
  assumes "ref_ok t" "map_of t i = Some c" "c_Name c = n"
  shows "find (\<lambda>(_, c). c_Name c = n) t = Some (i, c)"
proof -
  obtain p where p: "find (\<lambda>(_, c). c_Name c = n) t = Some p"
    using assms(3) map_of_SomeD [OF assms(2)] by (cases "find (\<lambda>(_, c). c_Name c = n) t") (auto simp: find_None_iff)
  then obtain k where "k < length t" "p = t ! k" "c_Name (snd p) = n" by (auto simp: find_Some_iff split_beta)
  then have "p \<in> set t" "c_Name (snd p) = n" by simp_all
  then have "p = (i, c)"
    using distinct_map_inj [of "c_Name \<circ> snd" t p "(i, c)"] assms map_of_SomeD [OF assms(2)] by (auto simp: ref_ok_def)
  with p show ?thesis by simp
qed

lemma ref_lookup_other:
  assumes "ref_lookup e r = Some i" "ref_view e i = Some c"
  shows "i = r \<or> c_Name c = slashed r \<or> length r < length i"
proof (rule ccontr)
  assume not: "\<not> ?thesis"
  note ok = ref_lookup_view [OF assms(1)]
  then have c: "map_of (re_table e) i = Some c" using assms(2) by (simp add: ref_view_def)
  have "map_of (re_table e) r = None" using assms(1) not by (auto simp: ref_lookup_def split: if_splits)
  show False
  proof (cases "find (\<lambda>(_, c). c_Name c = slashed r) (re_table e)")
    case None
    with assms(1) not \<open>map_of (re_table e) r = None\<close> show False
      by (auto simp: ref_lookup_def filter_eq_Cons_iff split: if_splits list.splits)
  next
    case (Some p)
    with assms(1) not \<open>map_of (re_table e) r = None\<close> have "p = (i, snd p)"
      by (auto simp: ref_lookup_def split: if_splits prod.splits)
    with Some have "(i, snd p) \<in> set (re_table e)" "c_Name (snd p) = slashed r"
      by (metis (mono_tags, lifting) case_prod_beta find_Some_iff nth_mem snd_conv)+
    moreover have "(i, snd p) \<in> set (re_table e) \<Longrightarrow> snd p = c"
      using c ok by (auto simp: ref_ok_def dest: map_of_is_SomeI)
    ultimately show False using not by simp
  qed
qed

lemma ref_keep:
  "ref_change call (on_container f) e r = (None, e') \<Longrightarrow> (\<And>c. same c (f c)) \<Longrightarrow>
     unchanged (ref_view e) (ref_view e') \<and> (\<exists>i c. ref_lookup e r = Some i \<and> ref_view e' i = Some (f c))"
proof -
  assume "ref_change call (on_container f) e r = (None, e')" and f: "\<And>c. same c (f c)"
  then obtain i c where i: "ref_lookup e r = Some i" "map_of (re_table e) i = Some c" "ref_ok (re_table e)" "ref_ok (re_table e')"
      "re_table e' = on_container f i (re_table e)" using ref_change_ok by blast
  have "unchanged (ref_view e) (ref_view e')"
    unfolding ref_view_ok [OF i(3)] ref_view_ok [OF i(4)] i(5) using i(2) f by (rule unchanged_on_container)
  moreover have "ref_view e' i = Some (f c)"
    unfolding ref_view_ok [OF i(4)] i(5) using i(2) by (simp add: on_container_upd)
  ultimately show ?thesis using i(1) by blast
qed

lemma ref_create_ok:
  assumes "ref_create e img k n = (Inr i, e')"
  shows "ref_view e i = None \<and> i \<noteq> [] \<and>
    ref_view e' = (ref_view e)(i \<mapsto> \<lparr>c_Name = slashed n, c_Image = img, c_Settings = k, c_Running = False\<rparr>)"
proof -
  let ?d = "\<lparr>c_Name = slashed n, c_Image = img, c_Settings = k, c_Running = False\<rparr>"
  have e': "re_table e' = (i, ?d) # re_table e" "ref_ok (re_table e)" "ref_ok ((i, ?d) # re_table e)"
    using assms by (auto simp: ref_create_def Let_def split: list.splits if_splits)
  then have "ref_view e' = (ref_view e)(i \<mapsto> ?d)" by (auto simp: ref_view_def)
  moreover have "map_of (re_table e) i = None" "length i = 64"
    using e'(3) by (auto simp: ref_ok_def map_of_eq_None_iff)
  ultimately show ?thesis using e'(2) by (auto simp: ref_view_def)
qed

interpretation mem_engine: container_engine ref_docker ref_view ref_lookup
proof (unfold_locales, goal_cases)
  case (1 e i) then show ?case by (auto simp: ref_view_def ref_lookup_def split: if_splits)
next
  case (2 e r i) then show ?case by (simp add: ref_view_def ref_lookup_view)
next
  case (3 e r i c) then show ?case by (rule ref_lookup_other)
next
  case (4 e i c r) then show ?case
    using find_name [of "re_table e" i c "slashed r"] by (auto simp: ref_view_def ref_lookup_def split: if_splits)
next
  case (5 e i) then show ?case using ref_okD by (fastforce simp: ref_view_def split: if_splits)
next
  case (6 e i c) then show ?case using ref_okD by (fastforce simp: ref_view_def split: if_splits)
next
  case (7 e i c j d) then show ?case using ref_names_unique by (fastforce simp: ref_view_def split: if_splits)
next
  case (8 e r answer e') then show ?case by (auto simp: ref_docker_def ref_inspect_def split: option.splits)
next
  case (9 e r json e')
  then show ?case by (auto simp: ref_docker_def ref_inspect_def bind_eq_Some_conv split: option.splits)
next
  case (10 e r t err e') then show ?case by (auto simp: ref_docker_def dest: ref_change_err)
next
  case (11 e r t e')
  then have "ref_change ''stop'' (on_container (\<lambda>c. c\<lparr>c_Running := False\<rparr>)) e r = (None, e')" by (simp add: ref_docker_def)
  then show ?case by (rule ref_keep [THEN conjunct1]) (simp add: same_def)
next
  case (12 e r err e') then show ?case by (auto simp: ref_docker_def dest: ref_change_err)
next
  case (13 e r e')
  then have "ref_change ''start'' (on_container (\<lambda>c. c\<lparr>c_Running := True\<rparr>)) e r = (None, e')" by (simp add: ref_docker_def)
  from ref_keep [OF this] show ?case by (fastforce simp: same_def)
next
  case (14 e r force err e') then show ?case by (auto simp: ref_docker_def dest: ref_change_err)
next
  case (15 e r force e')
  then have "ref_change ''remove'' AList.delete e r = (None, e')" by (simp add: ref_docker_def)
  from ref_change_ok [OF this] obtain i where i: "ref_lookup e r = Some i" "ref_ok (re_table e)" "ref_ok (re_table e')"
      "re_table e' = AList.delete i (re_table e)" by blast
  have "ref_view e' = (ref_view e)(i := None)"
    unfolding ref_view_ok [OF i(2)] ref_view_ok [OF i(3)] i(4) by (rule ext) (simp add: delete_conv')
  with i(1) show ?case by auto
next
  case (16 e r n err e') then show ?case by (auto simp: ref_docker_def dest: ref_change_err)
next
  case (17 e r n e')
  then have "ref_change ''rename'' (on_container (\<lambda>c. c\<lparr>c_Name := slashed n\<rparr>)) e r = (None, e')" by (simp add: ref_docker_def)
  from ref_change_ok [OF this] obtain i c where i: "ref_lookup e r = Some i" "map_of (re_table e) i = Some c" "ref_ok (re_table e)"
      "ref_ok (re_table e')" "re_table e' = on_container (\<lambda>c. c\<lparr>c_Name := slashed n\<rparr>) i (re_table e)" by blast
  have "ref_view e' = (ref_view e)(i \<mapsto> c\<lparr>c_Name := slashed n\<rparr>)"
    unfolding ref_view_ok [OF i(3)] ref_view_ok [OF i(4)] i(5) by (rule on_container_upd [OF i(2)])
  moreover have "ref_view e i = Some c" using i(2,3) by (simp add: ref_view_def)
  ultimately show ?case using i(1) by auto
next
  case (18 e img k n err e')
  then show ?case by (auto simp: ref_docker_def ref_create_def Let_def split: list.splits if_splits)
next
  case (19 e img k n i e')
  then show ?case using ref_create_ok [of e img k n i e'] by (auto simp: ref_docker_def)
next
  case (20 e img failure e') then show ?case by (auto simp: ref_docker_def)
next
  case (21 e img described e') then show ?case by (auto simp: ref_docker_def)
qed

section \<open>An update that fails\<close>



context container_engine
begin

lemma completed_update_gone:
  assumes c: "view (st_engine st) i = Some c" "o_ContainerID opts = i"
    and names: "\<And>j d. view (st_engine st) j = Some d \<Longrightarrow> c_Name d \<noteq> slashed i"
    and run: "UpdateContainer D svc C io host opts st = (Inr res, st')" "res_Success res" "res_NewContainerID res \<noteq> []" "st_log st' = st_log st"
  shows "length i = 64" "view (st_engine st') i = None" "view (st_engine st') j = Some d \<Longrightarrow> c_Name d \<noteq> slashed i"
proof -
  let ?v = "view (st_engine st)" and ?new = "res_NewContainerID res"
  let ?d = "c\<lparr>c_Image := buildImageRef (c_Image c) (res_ToVersion res)\<rparr>"
  have over: "unchanged (?v(?new \<mapsto> ?d, i := None)) (view (st_engine st'))"
    using UpdateContainer_outcome [OF c(1) unchanged_refl c(2) run(1)] run(2-4)
    by (auto simp: update_outcome_def taken_over_def Let_def)
  show "length i = 64" using id_length [of "st_engine st" i] c(1) by simp
  show "view (st_engine st') i = None" using unchanged_None [OF over, of i] by simp
  show "c_Name d \<noteq> slashed i" if d: "view (st_engine st') j = Some d"
  proof -
    obtain d' where "(?v(?new \<mapsto> ?d, i := None)) j = Some d'" "same d' d"
      using over d by (metis option_rel_Some2 unchanged_def)
    with names [of j d'] names [OF c(1)] show ?thesis by (auto simp: same_def split: if_splits)
  qed
qed

lemma completed_update_rows:
  assumes "UpdateContainer D svc C io host opts st = (Inr res, st')" "res_NewContainerID res \<noteq> []"
    and "io_id io \<notin> up_ID ` set (st_rows st)" "r \<in> set (st_rows st')" "up_ID r = up_ID (res_Update res)"
  shows "up_TargetID r = o_ContainerID opts"
proof -
  note t = UpdateContainer_targets [OF assms(1,2)]
  have "(up_ID r, up_TargetID r) \<in> set (targets st')" using assms(4) by (auto simp: targets_def)
  with t assms(3,5) show ?thesis by (auto simp: targets_def)
qed

end


section \<open>The properties at work\<close>

definition old_id :: string where "old_id = replicate 64 CHR ''a''"
definition new_id :: string where "new_id = replicate 64 CHR ''b''"

definition sample_engine :: "string list \<Rightarrow> ref_engine" where
  "sample_engine unhealthy =
     \<lparr>re_table = [(old_id, \<lparr>c_Name = ''/web'', c_Image = ''nginx:1.25'', c_Settings = ''ports'', c_Running = True\<rparr>),
                  (replicate 64 CHR ''d'', \<lparr>c_Name = ''/db'', c_Image = ''postgres:16'', c_Settings = [], c_Running = True\<rparr>)],
      re_ids = [new_id], re_refused = [], re_unhealthy = unhealthy\<rparr>"

definition sample_state :: "string list \<Rightarrow> (ref_engine, memory_cache) update_state" where
  "sample_state unhealthy = \<lparr>st_engine = sample_engine unhealthy, st_rows = [], st_cache = NewMemoryVersionCache, st_log = []\<rparr>"

definition sample_service :: update_service where
  "sample_service = \<lparr>us_config = DefaultServiceConfig, us_has_backup = True, us_has_security = True\<rparr>"

definition sample_checker :: "memory_cache checker" where
  "sample_checker = application_checker (\<lambda>_. 0) (sample_registry [''1.25'', ''1.27''] ''sha256:new'') (sample_registry [] [])"

definition sample_update_io :: update_io where
  "sample_update_io =
     \<lparr>io_id = 7, io_created = 100, io_checked = 100, io_started = 100, io_completed = 5000000100, io_stamp = ''20260101000000'',
      io_slot = True, io_check_slot = True, io_create = True, io_update = True, io_status = (\<lambda>_. True), io_backup = Inr 9,
      io_scan_before = Some 80, io_scan_after = Some 90, io_changelog = None, io_tick = (\<lambda>_. True)\<rparr>"

definition sample_options :: "string \<Rightarrow> update_options" where
  "sample_options target = webhook_options target"

definition sample_update :: "string \<Rightarrow> string list \<Rightarrow> (app_error + update_result) \<times> (ref_engine, memory_cache) update_state" where
  "sample_update target unhealthy =
     UpdateContainer ref_docker sample_service sample_checker sample_update_io 1 (sample_options target) (sample_state unhealthy)"

lemma sample_names: "\<forall>j d. ref_view (sample_engine []) j = Some d \<longrightarrow> c_Name d \<noteq> slashed old_id"
proof (intro allI impI)
  fix j d
  assume "ref_view (sample_engine []) j = Some d"
  then have "(j, d) \<in> set (re_table (sample_engine []))" by (auto simp: ref_view_def dest: map_of_SomeD split: if_splits)
  moreover have "list_all (\<lambda>(_, d). c_Name d \<noteq> slashed old_id) (re_table (sample_engine []))" by code_simp
  ultimately show "c_Name d \<noteq> slashed old_id" by (auto simp: list_all_iff)
qed



definition sample_rollback :: "(app_error + rollback_result) \<times> (ref_engine, memory_cache) update_state" where
  "sample_rollback = RollbackUpdate ref_docker sample_service
     \<lparr>rio_get = True, rio_restore = None, rio_stamp = ''20260101000100'', rio_update = True\<rparr>
     \<lparr>ro_UpdateID = 7, ro_RestoreBackup = True, ro_Reason = ''regression''\<rparr> (snd (sample_update old_id []))"


text \<open>
  An update whose target is given by name instead of identifier removes the container it has just
  created: after the exchange the name is that of the new container, and the cleanup removes the container
  of that name. The update succeeds, and the old container is left stopped under its other name.
\<close>

lemma update_by_name_removes_new_container:
  "let (out, st') = sample_update ''web'' [] in
     map_sum id (\<lambda>res. (res_Success res, res_NewContainerID res)) out = Inr (True, new_id) \<and>
     map (\<lambda>(i, c). (i, c_Name c, c_Running c)) (re_table (st_engine st')) =
       [(old_id, ''/web_backup_20260101000000'', False), (replicate 64 CHR ''d'', ''/db'', True)]"
  by code_simp

end
