(* ===== verification/Gateway.thy ===== *)
theory Gateway
  imports Go_Strings "HOL-Library.AList"
begin

text \<open>
  The gateway to the hosts' agents: the connections and the index of hosts, the handlers of
  registrations, heartbeats, events and deregistrations, the removal of silent agents
  (\<^verbatim>\<open>internal/gateway/server.go\<close>), the statements they run on the table of hosts
  (\<^verbatim>\<open>internal/repository/postgres/host_repo.go\<close>), commands and their time limits
  (\<^verbatim>\<open>internal/gateway/commands.go\<close>, \<^verbatim>\<open>internal/gateway/protocol\<close>).

  A handler changes the maps of connections under a mutex and then writes to the database without
  it. A handler is therefore a function to the new maps and the list of its writes, and the step
  relation at the end interleaves the handlers' critical sections and writes the way the
  subscriptions' goroutines do: one handler at a time for each subscription, the writes of the
  removal of silent agents in goroutines of their own.
\<close>

section \<open>Messages\<close>

record agent_info =
  ai_AgentID :: string
  ai_Version :: string
  ai_Hostname :: string
  ai_OS :: string
  ai_Arch :: string
  ai_DockerHost :: string
  ai_Labels :: "(string \<times> string) list"
  ai_Capabilities :: "string list"

record registration_request =
  rq_Token :: string
  rq_Info :: agent_info

record registration_response =
  rs_Success :: bool
  rs_Error :: string
  rs_AgentID :: string
  rs_HeartbeatInterval :: duration
  rs_InventoryInterval :: duration

record heartbeat =
  hb_AgentID :: string
  hb_LastError :: string
  hb_Health :: string

record agent_event =
  ev_ID :: string
  ev_Type :: string
  ev_AgentID :: string
  ev_Severity :: string
  ev_Message :: string

definition persisted_events :: "string list" where
  "persisted_events =
     [''container.create'', ''container.start'', ''container.stop'', ''container.die'', ''container.kill'',
      ''container.destroy'', ''container.oom'', ''image.pull'', ''image.delete'', ''volume.create'', ''volume.destroy'',
      ''network.create'', ''network.destroy'', ''agent.started'', ''agent.stopping'', ''agent.error'',
      ''job.started'', ''job.completed'', ''job.failed'', ''security.scan_completed'', ''security.vulnerability_found'',
      ''security.score_changed'', ''backup.started'', ''backup.completed'', ''backup.failed'', ''restore.started'',
      ''restore.completed'', ''restore.failed'', ''update.available'', ''update.started'', ''update.completed'',
      ''update.failed'', ''update.rollback'', ''resource.critical'']"

definition ShouldPersist :: "string \<Rightarrow> bool" where
  "ShouldPersist t \<longleftrightarrow> t \<in> set persisted_events"

definition notified_events :: "string list" where
  "notified_events =
     [''container.die'', ''container.oom'', ''agent.error'', ''agent.stopping'', ''job.failed'',
      ''security.vulnerability_found'', ''security.score_changed'', ''backup.failed'', ''restore.failed'',
      ''update.available'', ''update.failed'', ''update.rollback'', ''resource.critical'', ''resource.low'']"

definition ShouldNotify :: "string \<Rightarrow> bool" where
  "ShouldNotify t \<longleftrightarrow> t \<in> set notified_events"

section \<open>The table of hosts\<close>

record host_row =
  hr_ID :: uuid
  hr_Name :: string
  hr_EndpointType :: string
  hr_TokenHash :: "string option"
  hr_Status :: string
  hr_LastSeen :: "gotime option"
  hr_DockerVersion :: string
  hr_OSType :: string
  hr_Architecture :: string
  hr_AgentInfo :: "agent_info option"

text \<open>
  \<open>cmp\<close> is bcrypt's comparison of a hash with a token, \<open>ok\<close> tells whether the query succeeds. The
  query has no order; the list is the order in which the rows come. An error of any kind rejects the
  registration in the same way, so it is \<open>None\<close>.
\<close>

definition GetByAgentToken ::
  "(string \<Rightarrow> string \<Rightarrow> bool) \<Rightarrow> bool \<Rightarrow> string \<Rightarrow> host_row list \<Rightarrow> host_row option" where
  "GetByAgentToken cmp ok token rows =
     (if \<not> ok then None
      else find (\<lambda>h. case hr_TokenHash h of None \<Rightarrow> False | Some hash \<Rightarrow> cmp hash token)
        (filter (\<lambda>h. hr_EndpointType h = ''agent'' \<and> hr_TokenHash h \<noteq> None \<and> hr_TokenHash h \<noteq> Some []) rows))"

text \<open>The two statements a handler runs, by the repository's names.\<close>

datatype host_write =
    UpdateStatus uuid string gotime
  | UpdateAgentInfo uuid agent_info

fun written_host :: "host_write \<Rightarrow> uuid" where
  "written_host (UpdateStatus h _ _) = h"
| "written_host (UpdateAgentInfo h _) = h"

fun write_row :: "host_write \<Rightarrow> host_row \<Rightarrow> host_row" where
  "write_row (UpdateStatus h status lastSeen) r = r\<lparr>hr_Status := status, hr_LastSeen := Some lastSeen\<rparr>"
| "write_row (UpdateAgentInfo h info) r =
     r\<lparr>hr_DockerVersion := ai_Version info, hr_OSType := ai_OS info, hr_Architecture := ai_Arch info,
       hr_AgentInfo := Some info\<rparr>"

definition run_write :: "bool \<Rightarrow> host_write \<Rightarrow> host_row list \<Rightarrow> host_row list" where
  "run_write ok w rows = (if ok then map (\<lambda>r. if hr_ID r = written_host w then write_row w r else r) rows else rows)"

section \<open>The server\<close>

record agent_connection =
  ac_AgentID :: string
  ac_HostID :: uuid
  ac_HostName :: string
  ac_ConnectedAt :: gotime
  ac_LastSeen :: gotime
  ac_Status :: string
  ac_Info :: agent_info
  ac_Health :: string

record server_config =
  gc_HeartbeatInterval :: duration
  gc_HeartbeatTimeout :: duration
  gc_InventoryInterval :: duration
  gc_CleanupInterval :: duration
  gc_CommandTimeout :: duration

definition DefaultServerConfig :: server_config where
  "DefaultServerConfig =
     \<lparr>gc_HeartbeatInterval = 30 * second, gc_HeartbeatTimeout = 90 * second, gc_InventoryInterval = 5 * minute,
      gc_CleanupInterval = 60 * second, gc_CommandTimeout = 30 * second\<rparr>"

record server =
  sv_config :: server_config
  sv_agents :: "(string \<times> agent_connection) list"
  sv_hostIndex :: "(uuid \<times> string) list"

definition NewServer :: "server_config \<Rightarrow> server" where
  "NewServer c = \<lparr>sv_config = c, sv_agents = [], sv_hostIndex = []\<rparr>"

text \<open>The critical section of a registration.\<close>

definition connect :: "agent_connection \<Rightarrow> server \<Rightarrow> server" where
  "connect conn s =
     (let s = (case map_of (sv_hostIndex s) (ac_HostID conn) of
                 None \<Rightarrow> s
               | Some oldAgentID \<Rightarrow> s\<lparr>sv_agents := AList.delete oldAgentID (sv_agents s)\<rparr>)
      in s\<lparr>sv_agents := AList.update (ac_AgentID conn) conn (sv_agents s),
           sv_hostIndex := AList.update (ac_HostID conn) (ac_AgentID conn) (sv_hostIndex s)\<rparr>)"

definition errorResponse :: "string \<Rightarrow> string \<Rightarrow> registration_response" where
  "errorResponse code message =
     \<lparr>rs_Success = False, rs_Error = code @ '': '' @ message, rs_AgentID = [], rs_HeartbeatInterval = 0,
      rs_InventoryInterval = 0\<rparr>"

definition request_agent_id :: "string \<Rightarrow> registration_request \<Rightarrow> string" where
  "request_agent_id fresh req = (if ai_AgentID (rq_Info req) = [] then fresh else ai_AgentID (rq_Info req))"

definition new_connection :: "string \<Rightarrow> gotime \<Rightarrow> registration_request \<Rightarrow> host_row \<Rightarrow> agent_connection" where
  "new_connection fresh now req host =
     \<lparr>ac_AgentID = request_agent_id fresh req, ac_HostID = hr_ID host, ac_HostName = hr_Name host, ac_ConnectedAt = now,
      ac_LastSeen = now, ac_Status = ''connected'', ac_Info = rq_Info req, ac_Health = ''healthy''\<rparr>"

text \<open>A message that is no JSON of the expected form is \<open>None\<close>.\<close>

definition handleRegistration ::
  "(string \<Rightarrow> string \<Rightarrow> bool) \<Rightarrow> bool \<Rightarrow> string \<Rightarrow> gotime \<Rightarrow> host_row list \<Rightarrow> registration_request option \<Rightarrow> server \<Rightarrow>
     registration_response \<times> server \<times> host_write list" where
  "handleRegistration cmp ok fresh now rows msg s =
     (case msg of
        None \<Rightarrow> (errorResponse ''INVALID_PAYLOAD'' ''invalid request format'', s, [])
      | Some req \<Rightarrow>
          (case GetByAgentToken cmp ok (rq_Token req) rows of
             None \<Rightarrow> (errorResponse ''INVALID_TOKEN'' ''invalid or expired token'', s, [])
           | Some host \<Rightarrow>
               (let conn = new_connection fresh now req host in
                (\<lparr>rs_Success = True, rs_Error = [], rs_AgentID = ac_AgentID conn,
                  rs_HeartbeatInterval = gc_HeartbeatInterval (sv_config s),
                  rs_InventoryInterval = gc_InventoryInterval (sv_config s)\<rparr>,
                 connect conn s,
                 [UpdateStatus (hr_ID host) ''online'' now, UpdateAgentInfo (hr_ID host) (rq_Info req)]))))"

definition heard :: "gotime \<Rightarrow> heartbeat \<Rightarrow> agent_connection \<Rightarrow> agent_connection" where
  "heard now hb conn =
     conn\<lparr>ac_LastSeen := now, ac_Health := hb_Health hb,
          ac_Status := (if hb_LastError hb \<noteq> [] then ''degraded'' else ''connected'')\<rparr>"

text \<open>The first component tells whether a message that asks for a reply gets an acknowledgement.\<close>

definition handleHeartbeat :: "gotime \<Rightarrow> heartbeat option \<Rightarrow> server \<Rightarrow> bool \<times> server \<times> host_write list" where
  "handleHeartbeat now msg s =
     (case msg of
        None \<Rightarrow> (False, s, [])
      | Some hb \<Rightarrow>
          (case map_of (sv_agents s) (hb_AgentID hb) of
             None \<Rightarrow> (False, s, [])
           | Some conn \<Rightarrow>
               (True, s\<lparr>sv_agents := AList.update (hb_AgentID hb) (heard now hb conn) (sv_agents s)\<rparr>,
                [UpdateStatus (ac_HostID conn) ''online'' now])))"

definition handleEvent :: "bool \<Rightarrow> agent_event option \<Rightarrow> agent_event list \<Rightarrow> bool \<times> agent_event list" where
  "handleEvent store msg events =
     (case msg of
        None \<Rightarrow> (False, events)
      | Some event \<Rightarrow> (True, if ShouldPersist (ev_Type event) \<and> store then events @ [event] else events))"

definition handleDeregistration :: "gotime \<Rightarrow> string option \<Rightarrow> server \<Rightarrow> server \<times> host_write list" where
  "handleDeregistration now msg s =
     (case msg of
        None \<Rightarrow> (s, [])
      | Some agentID \<Rightarrow>
          (case map_of (sv_agents s) agentID of
             None \<Rightarrow> (s, [])
           | Some conn \<Rightarrow>
               (s\<lparr>sv_agents := AList.delete agentID (sv_agents s),
                  sv_hostIndex := AList.delete (ac_HostID conn) (sv_hostIndex s)\<rparr>,
                [UpdateStatus (ac_HostID conn) ''offline'' now])))"

text \<open>The removal of silent agents: the first loop collects, the second one removes.\<close>

definition stale :: "gotime \<Rightarrow> server \<Rightarrow> string list" where
  "stale threshold s = map fst (filter (\<lambda>(agentID, conn). ac_LastSeen conn < threshold) (sv_agents s))"

fun remove_stale :: "string list \<Rightarrow> server \<Rightarrow> server \<times> host_write list" where
  "remove_stale [] s = (s, [])"
| "remove_stale (agentID # ids) s =
     (case map_of (sv_agents s) agentID of
        None \<Rightarrow> (s, [])
      | Some conn \<Rightarrow>
          (let (s', ws) = remove_stale ids
                 (s\<lparr>sv_agents := AList.delete agentID (sv_agents s),
                    sv_hostIndex := AList.delete (ac_HostID conn) (sv_hostIndex s)\<rparr>)
           in (s', UpdateStatus (ac_HostID conn) ''offline'' (ac_LastSeen conn) # ws)))"

text \<open>The case \<open>None\<close> of the loop is a nil pointer; the collected identifiers are keys, each once, so it is not reached.\<close>

definition cleanupStaleAgents :: "gotime \<Rightarrow> server \<Rightarrow> server \<times> host_write list" where
  "cleanupStaleAgents now s = remove_stale (stale (time_add now (- gc_HeartbeatTimeout (sv_config s))) s) s"

subsection \<open>Queries\<close>

datatype 'a found = Missing | NilPointer | Found 'a

definition GetAgent :: "string \<Rightarrow> server \<Rightarrow> agent_connection option" where
  "GetAgent agentID s = map_of (sv_agents s) agentID"

text \<open>The source returns \<^verbatim>\<open>s.agents[agentID], true\<close>, a nil pointer when the index names an agent that is not there.\<close>

definition GetAgentByHost :: "uuid \<Rightarrow> server \<Rightarrow> agent_connection found" where
  "GetAgentByHost hostID s =
     (case map_of (sv_hostIndex s) hostID of
        None \<Rightarrow> Missing
      | Some agentID \<Rightarrow> (case map_of (sv_agents s) agentID of None \<Rightarrow> NilPointer | Some conn \<Rightarrow> Found conn))"

definition AgentCount :: "server \<Rightarrow> int" where
  "AgentCount s = int (length (sv_agents s))"

definition ConnectedCount :: "server \<Rightarrow> int" where
  "ConnectedCount s = int (length (filter (\<lambda>(_, conn). ac_Status conn = ''connected'') (sv_agents s)))"

definition IsAgentConnected :: "uuid \<Rightarrow> server \<Rightarrow> bool" where
  "IsAgentConnected hostID s \<longleftrightarrow> map_of (sv_hostIndex s) hostID \<noteq> None"

definition GetAgentHealth :: "uuid \<Rightarrow> server \<Rightarrow> string found" where
  "GetAgentHealth hostID s =
     (case GetAgentByHost hostID s of Missing \<Rightarrow> Missing | NilPointer \<Rightarrow> NilPointer | Found conn \<Rightarrow> Found (ac_Health conn))"

section \<open>Commands\<close>

definition timeouts :: "(string list \<times> duration) list" where
  "timeouts =
     [([''image.pull''], 10 * minute), ([''stack.deploy''], 5 * minute), ([''container.logs'', ''stack.logs''], 30 * second),
      ([''backup.volume'', ''backup.restore''], 30 * minute), ([''security.scan'', ''security.scan_image''], 10 * minute),
      ([''update.apply''], 15 * minute), ([''system.prune'', ''image.prune'', ''volume.prune'', ''network.prune''], 5 * minute),
      ([''firewall.apply'', ''firewall.sync''], 2 * minute), ([''firewall.detect''], 15 * second),
      ([''wireguard.apply_peer'', ''wireguard.remove_peer''], 30 * second), ([''wireguard.status''], 15 * second),
      ([''wireguard.probe''], 5 * second)]"

definition DefaultTimeout :: "string \<Rightarrow> duration" where
  "DefaultTimeout cmdType = (case find (\<lambda>(types, _). cmdType \<in> set types) timeouts of None \<Rightarrow> 30 * second | Some (_, d) \<Rightarrow> d)"

record 'p agent_command =
  cm_ID :: string
  cm_Type :: string
  cm_HostID :: string
  cm_Timeout :: duration
  cm_ReplyTo :: string
  cm_CreatedAt :: gotime
  cm_Params :: 'p

record command_result =
  cr_CommandID :: string
  cr_Status :: string
  cr_CompletedAt :: gotime
  cr_Error :: "(string \<times> string) option"

text \<open>
  What a call meets: whether the subscription and the message get through, and how the wait ends.
  \<open>Reply None\<close> is a reply that is no result.
\<close>

datatype answer = Reply "command_result option" | TimedOut gotime | Cancelled string

record command_io =
  ci_id :: string
  ci_now :: gotime
  ci_subscribed :: bool
  ci_published :: bool
  ci_answer :: answer

datatype command_error = ProtocolError string string | GoError string | NilDereference

record 'p dispatcher =
  dp_pending :: "(string \<times> 'p agent_command) list"
  dp_published :: "(string \<times> string) list"

definition prepare :: "command_io \<Rightarrow> 'p agent_command \<Rightarrow> 'p agent_command" where
  "prepare io cmd =
     (let cmd = (if cm_ID cmd = [] then cmd\<lparr>cm_ID := ci_id io\<rparr> else cmd);
          cmd = (if is_zero (cm_CreatedAt cmd) then cmd\<lparr>cm_CreatedAt := ci_now io\<rparr> else cmd)
      in if cm_Timeout cmd = 0 then cmd\<lparr>cm_Timeout := DefaultTimeout (cm_Type cmd)\<rparr> else cmd)"

definition reply_subject :: "string \<Rightarrow> string" where
  "reply_subject i = ''usulnet.reply.'' @ i"

definition command_subject :: "string \<Rightarrow> string" where
  "command_subject agentID = ''usulnet.commands.'' @ agentID"

text \<open>The message of a time-out is given without the duration it names.\<close>

definition timeout_result :: "string \<Rightarrow> gotime \<Rightarrow> command_result" where
  "timeout_result i now =
     \<lparr>cr_CommandID = i, cr_Status = ''timeout'', cr_CompletedAt = now,
      cr_Error = Some (''COMMAND_TIMEOUT'', ''command timed out'')\<rparr>"

text \<open>
  The entry in the table of pending commands is there while the call waits and removed when it
  returns. \<open>marshal\<close> is the JSON text of a command, \<open>None\<close> when its parameters have none.
\<close>

definition SendCommand ::
  "('p agent_command \<Rightarrow> string option) \<Rightarrow> command_io \<Rightarrow> server \<Rightarrow> uuid \<Rightarrow> 'p agent_command \<Rightarrow> 'p dispatcher \<Rightarrow>
     (command_error + command_result) \<times> 'p dispatcher" where
  "SendCommand marshal io s hostID cmd d =
     (let cmd = prepare io cmd in
      case GetAgentByHost hostID s of
        Missing \<Rightarrow> (Inl (ProtocolError ''AGENT_UNAVAILABLE'' ''no agent connected for host''), d)
      | agent \<Rightarrow>
          (let cmd = cmd\<lparr>cm_ReplyTo := reply_subject (cm_ID cmd)\<rparr>;
               d' = d\<lparr>dp_pending := AList.delete (cm_ID cmd) (dp_pending d)\<rparr>
           in if \<not> ci_subscribed io then (Inl (GoError ''failed to subscribe for reply''), d)
              else (case (marshal cmd, agent) of
                  (None, _) \<Rightarrow> (Inl (GoError ''failed to marshal command''), d')
                | (Some cmdData, Found conn) \<Rightarrow>
                    if \<not> ci_published io then (Inl (GoError ''failed to publish command''), d')
                    else
                      (case ci_answer io of
                         TimedOut now \<Rightarrow> Inr (timeout_result (cm_ID cmd) now)
                       | Cancelled err \<Rightarrow> Inl (GoError err)
                       | Reply None \<Rightarrow> Inl (GoError ''failed to unmarshal result'')
                       | Reply (Some r) \<Rightarrow> Inr r,
                       d'\<lparr>dp_published := dp_published d' @ [(command_subject (ac_AgentID conn), cmdData)]\<rparr>)
                | (Some cmdData, _) \<Rightarrow> (Inl NilDereference, d'))))"

lemma SendCommand_found:
  assumes "GetAgentByHost hostID s = Found conn" "SendCommand marshal io s hostID cmd d = (out, d')"
  shows "out \<noteq> Inl NilDereference"
    and "dp_published d' = dp_published d \<or>
      (\<exists>cmdData. dp_published d' = dp_published d @ [(command_subject (ac_AgentID conn), cmdData)])"
  using assms by (auto simp: SendCommand_def Let_def split: option.splits if_splits answer.splits)

text \<open>A broadcast sends to every connection; a call that fails counts as a failed command.\<close>

definition failed_result :: "string \<Rightarrow> command_error \<Rightarrow> command_result" where
  "failed_result i e =
     \<lparr>cr_CommandID = i, cr_Status = ''failed'', cr_CompletedAt = time_zero,
      cr_Error = Some (''COMMAND_FAILED'',
        case e of ProtocolError c m \<Rightarrow> c @ '': '' @ m | GoError m \<Rightarrow> m | NilDereference \<Rightarrow> [])\<rparr>"

fun broadcast_loop ::
  "('p agent_command \<Rightarrow> string option) \<Rightarrow> (nat \<Rightarrow> command_io) \<Rightarrow> (uuid \<Rightarrow> string) \<Rightarrow> server \<Rightarrow> 'p agent_command \<Rightarrow> nat \<Rightarrow>
     (string \<times> agent_connection) list \<Rightarrow> (uuid \<times> command_result) list \<Rightarrow> 'p dispatcher \<Rightarrow>
     (uuid \<times> command_result) list \<times> 'p dispatcher" where
  "broadcast_loop marshal io uid s cmd n [] results d = (results, d)"
| "broadcast_loop marshal io uid s cmd n ((_, conn) # agents) results d =
     (let agentCmd = cmd\<lparr>cm_ID := ci_id (io n), cm_HostID := uid (ac_HostID conn)\<rparr>;
          (out, d) = SendCommand marshal (io n) s (ac_HostID conn) agentCmd d;
          result = (case out of Inl e \<Rightarrow> failed_result (cm_ID agentCmd) e | Inr r \<Rightarrow> r)
      in broadcast_loop marshal io uid s cmd (Suc n) agents (AList.update (ac_HostID conn) result results) d)"

definition BroadcastCommand ::
  "('p agent_command \<Rightarrow> string option) \<Rightarrow> (nat \<Rightarrow> command_io) \<Rightarrow> (uuid \<Rightarrow> string) \<Rightarrow> server \<Rightarrow> 'p agent_command \<Rightarrow> 'p dispatcher \<Rightarrow>
     (uuid \<times> command_result) list \<times> 'p dispatcher" where
  "BroadcastCommand marshal io uid s cmd d = broadcast_loop marshal io uid s cmd 0 (sv_agents s) [] d"

section \<open>Handlers in their goroutines\<close>

datatype subscription = Registrations | Heartbeats | Deregistrations

record world =
  w_clock :: gotime
  w_server :: server
  w_hosts :: "host_row list"
  w_busy :: "subscription \<Rightarrow> host_write list"
  w_background :: "host_write list"

text \<open>
  \<open>allowed\<close> restricts who registers: it holds of the agent's identifier and the host of its token.
  With \<open>\<lambda>_ _. True\<close> the relation has all the steps of the gateway.
\<close>

definition claim_ok ::
  "(string \<Rightarrow> uuid \<Rightarrow> bool) \<Rightarrow> (string \<Rightarrow> string \<Rightarrow> bool) \<Rightarrow> bool \<Rightarrow> string \<Rightarrow> host_row list \<Rightarrow> registration_request option \<Rightarrow> bool" where
  "claim_ok allowed cmp ok fresh rows msg \<longleftrightarrow>
     (case msg of None \<Rightarrow> True
      | Some req \<Rightarrow>
          (case GetByAgentToken cmp ok (rq_Token req) rows of None \<Rightarrow> True
           | Some host \<Rightarrow> allowed (request_agent_id fresh req) (hr_ID host)))"

inductive gw_step :: "(string \<Rightarrow> string \<Rightarrow> bool) \<Rightarrow> (string \<Rightarrow> uuid \<Rightarrow> bool) \<Rightarrow> world \<Rightarrow> world \<Rightarrow> bool"
  for cmp :: "string \<Rightarrow> string \<Rightarrow> bool" and allowed :: "string \<Rightarrow> uuid \<Rightarrow> bool" where
  time_passes: "w_clock w \<le> t \<Longrightarrow> gw_step cmp allowed w (w\<lparr>w_clock := t\<rparr>)"
| registers: "w_busy w Registrations = [] \<Longrightarrow> claim_ok allowed cmp ok fresh (w_hosts w) msg \<Longrightarrow>
    handleRegistration cmp ok fresh (w_clock w) (w_hosts w) msg (w_server w) = (response, s, ws) \<Longrightarrow>
    gw_step cmp allowed w (w\<lparr>w_server := s, w_busy := (w_busy w)(Registrations := ws)\<rparr>)"
| beats: "w_busy w Heartbeats = [] \<Longrightarrow> handleHeartbeat (w_clock w) hb (w_server w) = (ack, s, ws) \<Longrightarrow>
    gw_step cmp allowed w (w\<lparr>w_server := s, w_busy := (w_busy w)(Heartbeats := ws)\<rparr>)"
| deregisters: "w_busy w Deregistrations = [] \<Longrightarrow> handleDeregistration (w_clock w) agentID (w_server w) = (s, ws) \<Longrightarrow>
    gw_step cmp allowed w (w\<lparr>w_server := s, w_busy := (w_busy w)(Deregistrations := ws)\<rparr>)"
| cleans: "cleanupStaleAgents (w_clock w) (w_server w) = (s, ws) \<Longrightarrow>
    gw_step cmp allowed w (w\<lparr>w_server := s, w_background := w_background w @ ws\<rparr>)"
| writes: "w_busy w sub = x # xs \<Longrightarrow>
    gw_step cmp allowed w (w\<lparr>w_hosts := run_write ok x (w_hosts w), w_busy := (w_busy w)(sub := xs)\<rparr>)"
| writes_late: "w_background w = xs @ x # ys \<Longrightarrow>
    gw_step cmp allowed w (w\<lparr>w_hosts := run_write ok x (w_hosts w), w_background := xs @ ys\<rparr>)"

inductive_cases gw_stepE: "gw_step cmp allowed w w'"

definition quiet :: "world \<Rightarrow> bool" where
  "quiet w \<longleftrightarrow> w_busy w Registrations = [] \<and> w_busy w Heartbeats = [] \<and> w_busy w Deregistrations = [] \<and> w_background w = []"

section \<open>The maps of connections\<close>

text \<open>Every connection is found under its own identifier, and its host's index entry leads to it.\<close>

definition index_ok :: "(string \<rightharpoonup> agent_connection) \<Rightarrow> (uuid \<rightharpoonup> string) \<Rightarrow> bool" where
  "index_ok A H \<longleftrightarrow> (\<forall>a c. A a = Some c \<longrightarrow> ac_AgentID c = a \<and> H (ac_HostID c) = Some a)"

text \<open>
  When each identifier belongs to one host (\<open>owner\<close>), the two maps are inverse to each other.
\<close>

definition route_ok :: "(string \<Rightarrow> uuid) \<Rightarrow> (string \<rightharpoonup> agent_connection) \<Rightarrow> (uuid \<rightharpoonup> string) \<Rightarrow> bool" where
  "route_ok owner A H \<longleftrightarrow> index_ok A H \<and> (\<forall>a c. A a = Some c \<longrightarrow> ac_HostID c = owner a) \<and>
     (\<forall>h a. H h = Some a \<longrightarrow> owner a = h \<and> A a \<noteq> None)"

definition indexed :: "server \<Rightarrow> bool" where
  "indexed s \<longleftrightarrow> distinct (map fst (sv_agents s)) \<and> index_ok (map_of (sv_agents s)) (map_of (sv_hostIndex s))"

definition routed :: "(string \<Rightarrow> uuid) \<Rightarrow> server \<Rightarrow> bool" where
  "routed owner s \<longleftrightarrow> distinct (map fst (sv_agents s)) \<and> route_ok owner (map_of (sv_agents s)) (map_of (sv_hostIndex s))"

lemmas alist_simps = update_conv' delete_conv' distinct_update distinct_delete

lemma routed_indexed: "routed owner s \<Longrightarrow> indexed s"
  by (simp add: routed_def route_ok_def indexed_def)

lemma indexed_new [simp]: "indexed (NewServer c)" "routed owner (NewServer c)"
  by (simp_all add: indexed_def index_ok_def route_ok_def routed_def NewServer_def)

lemma index_okI [intro?]:
  "(\<And>a c. A a = Some c \<Longrightarrow> ac_AgentID c = a \<and> H (ac_HostID c) = Some a) \<Longrightarrow> index_ok A H"
  by (simp add: index_ok_def)

lemma index_okD: "index_ok A H \<Longrightarrow> A a = Some c \<Longrightarrow> ac_AgentID c = a \<and> H (ac_HostID c) = Some a"
  by (simp add: index_ok_def)

lemma route_okD:
  assumes "route_ok owner A H"
  shows "index_ok A H" "A a = Some c \<Longrightarrow> ac_HostID c = owner a" "H h = Some a \<Longrightarrow> owner a = h \<and> A a \<noteq> None"
  using assms by (simp_all add: route_ok_def)

lemma index_ok_connect:
  assumes "index_ok A H" "ac_AgentID conn = a" "ac_HostID conn = h"
  shows "index_ok ((case H h of None \<Rightarrow> A | Some old \<Rightarrow> A(old := None))(a \<mapsto> conn)) (H(h \<mapsto> a))"
proof
  fix b c assume "((case H h of None \<Rightarrow> A | Some old \<Rightarrow> A(old := None))(a \<mapsto> conn)) b = Some c"
  then consider "b = a" "c = conn" | "b \<noteq> a" "A b = Some c" "H h \<noteq> Some b"
    by (auto split: if_splits option.splits)
  then show "ac_AgentID c = b \<and> (H(h \<mapsto> a)) (ac_HostID c) = Some b"
    using index_okD [OF assms(1), of b c] assms(2,3) by cases auto
qed

lemma route_ok_connect:
  assumes "route_ok owner A H" "ac_AgentID conn = a" "ac_HostID conn = h" "owner a = h"
  shows "route_ok owner ((case H h of None \<Rightarrow> A | Some old \<Rightarrow> A(old := None))(a \<mapsto> conn)) (H(h \<mapsto> a))"
proof -
  have "index_ok ((case H h of None \<Rightarrow> A | Some old \<Rightarrow> A(old := None))(a \<mapsto> conn)) (H(h \<mapsto> a))"
    using assms by (intro index_ok_connect) (simp_all add: route_ok_def)
  moreover have "H k = Some b \<Longrightarrow> k \<noteq> h \<Longrightarrow> H h \<noteq> Some b" for k b
    using route_okD(3) [OF assms(1)] by metis
  ultimately show ?thesis
    using assms by (fastforce simp: route_ok_def split: option.splits if_splits)
qed

lemma connect_maps:
  "map_of (sv_agents (connect conn s)) =
     (case map_of (sv_hostIndex s) (ac_HostID conn) of None \<Rightarrow> map_of (sv_agents s)
      | Some old \<Rightarrow> (map_of (sv_agents s))(old := None))(ac_AgentID conn \<mapsto> conn)"
  "map_of (sv_hostIndex (connect conn s)) = (map_of (sv_hostIndex s))(ac_HostID conn \<mapsto> ac_AgentID conn)"
  "distinct (map fst (sv_agents s)) \<Longrightarrow> distinct (map fst (sv_agents (connect conn s)))"
  by (auto simp: connect_def alist_simps Let_def split: option.splits)

lemma maps_connect:
  "indexed s \<Longrightarrow> indexed (connect conn s)"
  "routed owner s \<Longrightarrow> owner (ac_AgentID conn) = ac_HostID conn \<Longrightarrow> routed owner (connect conn s)"
  using index_ok_connect [OF _ refl refl] route_ok_connect [OF _ refl refl]
  by (simp_all add: indexed_def routed_def connect_maps del: fun_upd_apply)

lemma index_ok_heard:
  assumes "A a = Some c"
  shows "index_ok A H \<Longrightarrow> index_ok (A(a \<mapsto> heard now hb c)) H"
    and "route_ok owner A H \<Longrightarrow> route_ok owner (A(a \<mapsto> heard now hb c)) H"
  using assms by (auto simp: route_ok_def index_ok_def heard_def)

lemma maps_heard:
  assumes "map_of (sv_agents s) a = Some c"
  shows "indexed s \<Longrightarrow> indexed (s\<lparr>sv_agents := AList.update a (heard now hb c) (sv_agents s)\<rparr>)"
    and "routed owner s \<Longrightarrow> routed owner (s\<lparr>sv_agents := AList.update a (heard now hb c) (sv_agents s)\<rparr>)"
  using index_ok_heard [of "map_of (sv_agents s)", OF assms]
  by (simp_all add: indexed_def routed_def alist_simps del: fun_upd_apply)

text \<open>Deregistration and the removal of a silent agent take a connection out in the same way.\<close>

definition disconnect :: "string \<Rightarrow> agent_connection \<Rightarrow> server \<Rightarrow> server" where
  "disconnect a c s = s\<lparr>sv_agents := AList.delete a (sv_agents s), sv_hostIndex := AList.delete (ac_HostID c) (sv_hostIndex s)\<rparr>"

lemma index_ok_disconnect:
  assumes "A a = Some c"
  shows "index_ok A H \<Longrightarrow> index_ok (A(a := None)) (H(ac_HostID c := None))"
    and "route_ok owner A H \<Longrightarrow> route_ok owner (A(a := None)) (H(ac_HostID c := None))"
proof -
  show *: "index_ok (A(a := None)) (H(ac_HostID c := None))" if ok: "index_ok A H"
  proof
    fix b d assume b: "(A(a := None)) b = Some d"
    then have "A b = Some d" "b \<noteq> a" by (auto split: if_splits)
    with index_okD [OF ok, of b d] index_okD [OF ok assms]
    show "ac_AgentID d = b \<and> (H(ac_HostID c := None)) (ac_HostID d) = Some b" by auto
  qed
  show "route_ok owner (A(a := None)) (H(ac_HostID c := None))" if ok: "route_ok owner A H"
    using * [OF route_okD(1) [OF ok]] ok assms by (auto simp: route_ok_def)
qed

lemma disconnect_maps:
  "map_of (sv_agents (disconnect a c s)) = (map_of (sv_agents s))(a := None)"
  "map_of (sv_hostIndex (disconnect a c s)) = (map_of (sv_hostIndex s))(ac_HostID c := None)"
  "distinct (map fst (sv_agents s)) \<Longrightarrow> distinct (map fst (sv_agents (disconnect a c s)))"
  by (simp_all add: disconnect_def alist_simps)

lemma maps_disconnect:
  assumes "map_of (sv_agents s) a = Some c"
  shows "indexed s \<Longrightarrow> indexed (disconnect a c s)"
    and "routed owner s \<Longrightarrow> routed owner (disconnect a c s)"
  using index_ok_disconnect [of "map_of (sv_agents s)", OF assms]
  by (simp_all add: indexed_def routed_def disconnect_maps del: fun_upd_apply)

lemma remove_stale_step:
  "map_of (sv_agents s) a = Some c \<Longrightarrow> remove_stale (a # ids) s =
     (fst (remove_stale ids (disconnect a c s)),
      UpdateStatus (ac_HostID c) ''offline'' (ac_LastSeen c) # snd (remove_stale ids (disconnect a c s)))"
  by (simp add: disconnect_def split_beta)

declare remove_stale.simps(2) [simp del]

definition went_offline :: "server \<Rightarrow> string \<Rightarrow> host_write" where
  "went_offline s a = (case map_of (sv_agents s) a of Some c \<Rightarrow> UpdateStatus (ac_HostID c) ''offline'' (ac_LastSeen c))"

lemma remove_stale_maps:
  assumes "indexed s" "distinct ids" "set ids \<subseteq> dom (map_of (sv_agents s))"
  shows "map_of (sv_agents (fst (remove_stale ids s))) = map_of (sv_agents s) |` (- set ids) \<and>
    (\<forall>h. map_of (sv_hostIndex (fst (remove_stale ids s))) h =
      (if \<exists>a c. a \<in> set ids \<and> map_of (sv_agents s) a = Some c \<and> ac_HostID c = h then None else map_of (sv_hostIndex s) h)) \<and>
    snd (remove_stale ids s) = map (went_offline s) ids"
  using assms
proof (induction ids arbitrary: s)
  case (Cons a ids)
  from Cons.prems(3) obtain c where c: "map_of (sv_agents s) a = Some c" by auto
  let ?s = "disconnect a c s"
  have s: "indexed ?s" "distinct ids" "set ids \<subseteq> dom (map_of (sv_agents ?s))"
    using Cons.prems maps_disconnect(1) [OF c] by (auto simp: disconnect_maps)
  have "b \<in> set ids \<Longrightarrow> map_of (sv_agents ?s) b = map_of (sv_agents s) b" for b
    using Cons.prems(2) by (auto simp: disconnect_maps)
  then have same: "map (went_offline ?s) ids = map (went_offline s) ids" by (simp add: went_offline_def)
  note ih = Cons.IH [OF s, unfolded same]
  have "map_of (sv_hostIndex (fst (remove_stale (a # ids) s))) h =
      (if \<exists>b d. b \<in> set (a # ids) \<and> map_of (sv_agents s) b = Some d \<and> ac_HostID d = h then None else map_of (sv_hostIndex s) h)" for h
    using ih Cons.prems(2) c by (auto simp: remove_stale_step [OF c] disconnect_maps)
  with ih show ?case
    by (auto simp: remove_stale_step [OF c] disconnect_maps fun_eq_iff restrict_map_def went_offline_def c)
qed (simp_all add: restrict_map_def fun_eq_iff)

lemma remove_stale_stop: "map_of (sv_agents s) a = None \<Longrightarrow> remove_stale (a # ids) s = (s, [])"
  by (simp add: remove_stale.simps(2))

lemma maps_remove_stale:
  "indexed s \<Longrightarrow> indexed (fst (remove_stale ids s))"
  "routed owner s \<Longrightarrow> routed owner (fst (remove_stale ids s))"
proof (induction ids arbitrary: s)
  case (Cons a ids)
  { case 1 then show ?case
      by (cases "map_of (sv_agents s) a") (simp_all add: remove_stale_stop remove_stale_step Cons.IH maps_disconnect) }
  { case 2 then show ?case
      by (cases "map_of (sv_agents s) a") (simp_all add: remove_stale_stop remove_stale_step Cons.IH maps_disconnect) }
qed simp_all

lemma stale_ids:
  assumes "indexed s"
  shows "distinct (stale t s)" "set (stale t s) = {a. \<exists>c. map_of (sv_agents s) a = Some c \<and> ac_LastSeen c < t}"
proof -
  have d: "distinct (map fst (sv_agents s))" using assms by (simp add: indexed_def)
  then show "distinct (stale t s)" by (auto simp: stale_def distinct_map intro: inj_on_subset)
  show "set (stale t s) = {a. \<exists>c. map_of (sv_agents s) a = Some c \<and> ac_LastSeen c < t}"
    using d by (force simp: stale_def)
qed

lemma disconnect_handler:
  "handleDeregistration now (Some a) s =
     (case map_of (sv_agents s) a of None \<Rightarrow> (s, [])
      | Some c \<Rightarrow> (disconnect a c s, [UpdateStatus (ac_HostID c) ''offline'' now]))"
  by (simp add: handleDeregistration_def disconnect_def split: option.split)

lemma bad_deregistration: "handleDeregistration now None s = (s, [])"
  by (simp add: handleDeregistration_def)

text \<open>What each handler keeps, whatever the messages are.\<close>

lemma handlers_indexed:
  assumes "indexed s"
  shows "handleRegistration cmp ok fresh now rows msg s = (r, s', ws) \<Longrightarrow> indexed s'"
    and "handleHeartbeat now hb s = (ack, s', ws) \<Longrightarrow> indexed s'"
    and "handleDeregistration now i s = (s', ws) \<Longrightarrow> indexed s'"
    and "cleanupStaleAgents now s = (s', ws) \<Longrightarrow> indexed s'"
proof -
  show "handleRegistration cmp ok fresh now rows msg s = (r, s', ws) \<Longrightarrow> indexed s'"
    using maps_connect(1) [OF assms] assms by (auto simp: handleRegistration_def Let_def split: option.splits)
  show "handleHeartbeat now hb s = (ack, s', ws) \<Longrightarrow> indexed s'"
    using maps_heard(1) assms by (auto simp: handleHeartbeat_def split: option.splits)
  show "handleDeregistration now i s = (s', ws) \<Longrightarrow> indexed s'"
    using maps_disconnect(1) assms by (cases i) (auto simp: disconnect_handler bad_deregistration split: option.splits)
  show "cleanupStaleAgents now s = (s', ws) \<Longrightarrow> indexed s'"
    using maps_remove_stale(1) [OF assms] by (metis cleanupStaleAgents_def fst_conv)
qed

lemma handlers_routed:
  assumes "routed owner s"
  shows "handleRegistration cmp ok fresh now rows msg s = (r, s', ws) \<Longrightarrow>
      claim_ok (\<lambda>a h. owner a = h) cmp ok fresh rows msg \<Longrightarrow> routed owner s'"
    and "handleHeartbeat now hb s = (ack, s', ws) \<Longrightarrow> routed owner s'"
    and "handleDeregistration now i s = (s', ws) \<Longrightarrow> routed owner s'"
    and "cleanupStaleAgents now s = (s', ws) \<Longrightarrow> routed owner s'"
proof -
  show "handleRegistration cmp ok fresh now rows msg s = (r, s', ws) \<Longrightarrow>
      claim_ok (\<lambda>a h. owner a = h) cmp ok fresh rows msg \<Longrightarrow> routed owner s'"
    using maps_connect(2) [OF assms] assms
    by (auto simp: handleRegistration_def claim_ok_def Let_def new_connection_def split: option.splits)
  show "handleHeartbeat now hb s = (ack, s', ws) \<Longrightarrow> routed owner s'"
    using maps_heard(2) assms by (auto simp: handleHeartbeat_def split: option.splits)
  show "handleDeregistration now i s = (s', ws) \<Longrightarrow> routed owner s'"
    using maps_disconnect(2) assms by (cases i) (auto simp: disconnect_handler bad_deregistration split: option.splits)
  show "cleanupStaleAgents now s = (s', ws) \<Longrightarrow> routed owner s'"
    using maps_remove_stale(2) [OF assms] by (metis cleanupStaleAgents_def fst_conv)
qed

interpretation gateway: step_invariant "gw_step cmp allowed" "\<lambda>w. indexed (w_server w)" for cmp allowed
  by unfold_locales (auto elim!: gw_stepE intro: handlers_indexed)

interpretation honest: step_invariant "gw_step cmp (\<lambda>a h. owner a = h)" "\<lambda>w. routed owner (w_server w)" for cmp owner
  by unfold_locales (auto elim!: gw_stepE intro: handlers_routed)

section \<open>Handlers one after the other\<close>

text \<open>
  When each handler's writes are done, and succeed, before the next handler starts, the table agrees
  with the maps.
\<close>

definition agrees :: "(uuid \<Rightarrow> bool) \<Rightarrow> host_row list \<Rightarrow> bool" where
  "agrees online rows \<longleftrightarrow> (\<forall>r \<in> set rows. hr_Status r = ''online'' \<longleftrightarrow> online (hr_ID r))"

abbreviation write_all :: "host_write list \<Rightarrow> host_row list \<Rightarrow> host_row list" where
  "write_all \<equiv> fold (run_write True)"

inductive atomic_step ::
  "(string \<Rightarrow> string \<Rightarrow> bool) \<Rightarrow> (string \<Rightarrow> uuid) \<Rightarrow> server \<times> host_row list \<Rightarrow> server \<times> host_row list \<Rightarrow> bool"
  for cmp :: "string \<Rightarrow> string \<Rightarrow> bool" and owner :: "string \<Rightarrow> uuid" where
  registered: "claim_ok (\<lambda>a h. owner a = h) cmp ok fresh rows msg \<Longrightarrow>
    handleRegistration cmp ok fresh now rows msg s = (response, s', ws) \<Longrightarrow>
    atomic_step cmp owner (s, rows) (s', write_all ws rows)"
| beaten: "handleHeartbeat now hb s = (ack, s', ws) \<Longrightarrow> atomic_step cmp owner (s, rows) (s', write_all ws rows)"
| deregistered: "handleDeregistration now i s = (s', ws) \<Longrightarrow> atomic_step cmp owner (s, rows) (s', write_all ws rows)"
| cleaned: "cleanupStaleAgents now s = (s', ws) \<Longrightarrow> atomic_step cmp owner (s, rows) (s', write_all ws rows)"

definition status_ok :: "(string \<Rightarrow> uuid) \<Rightarrow> server \<times> host_row list \<Rightarrow> bool" where
  "status_ok owner x \<longleftrightarrow> routed owner (fst x) \<and> agrees (\<lambda>h. IsAgentConnected h (fst x)) (snd x)"

lemma agrees_status:
  "agrees P rows \<Longrightarrow> agrees (P(h := (st = ''online''))) (run_write True (UpdateStatus h st t) rows)"
  by (auto simp: agrees_def run_write_def)

lemma agrees_online:
  assumes "agrees P rows" "P h"
  shows "agrees P (run_write True (UpdateStatus h ''online'' t) rows)"
proof -
  have "P(h := True) = P" using assms(2) by (simp add: fun_eq_iff)
  with agrees_status [OF assms(1), of h "''online''" t] show ?thesis by (simp del: fun_upd_apply)
qed

lemma agrees_info: "agrees P rows \<Longrightarrow> agrees P (run_write True (UpdateAgentInfo h info) rows)"
  by (auto simp: agrees_def run_write_def)

lemma connected_maps:
  "(\<lambda>h. IsAgentConnected h (connect conn s)) = (\<lambda>h. IsAgentConnected h s)(ac_HostID conn := True)"
  "(\<lambda>h. IsAgentConnected h (disconnect a c s)) = (\<lambda>h. IsAgentConnected h s)(ac_HostID c := False)"
  by (auto simp: IsAgentConnected_def connect_maps disconnect_maps fun_eq_iff)

lemma remove_stale_agrees:
  "agrees (\<lambda>h. IsAgentConnected h s) rows \<Longrightarrow>
   agrees (\<lambda>h. IsAgentConnected h (fst (remove_stale ids s))) (write_all (snd (remove_stale ids s)) rows)"
proof (induction ids arbitrary: s rows)
  case (Cons a ids)
  show ?case
  proof (cases "map_of (sv_agents s) a")
    case None
    with Cons.prems show ?thesis by (simp add: remove_stale_stop)
  next
    case (Some c)
    have "agrees (\<lambda>h. IsAgentConnected h (disconnect a c s))
        (run_write True (UpdateStatus (ac_HostID c) ''offline'' (ac_LastSeen c)) rows)"
      using agrees_status [OF Cons.prems, of "ac_HostID c" "''offline''"] by (simp add: connected_maps)
    from Cons.IH [OF this] show ?thesis by (simp add: remove_stale_step [OF Some])
  qed
qed simp

lemma IsAgentConnected_agents: "IsAgentConnected h (s\<lparr>sv_agents := x\<rparr>) = IsAgentConnected h s"
  by (simp add: IsAgentConnected_def)

lemma connected_host: "indexed s \<Longrightarrow> map_of (sv_agents s) a = Some c \<Longrightarrow> IsAgentConnected (ac_HostID c) s"
  by (auto simp: indexed_def IsAgentConnected_def dest: index_okD)

lemma atomic_status:
  assumes "status_ok owner x" "atomic_step cmp owner x y"
  shows "status_ok owner y"
  using assms(2,1)
proof cases
  case (registered ok fresh rows msg now s response s' ws)
  with assms(1) have routed: "routed owner s" and ag: "agrees (\<lambda>h. IsAgentConnected h s) rows"
    by (auto simp: status_ok_def)
  have "agrees (\<lambda>h. IsAgentConnected h s') (write_all ws rows)"
    using registered(4) ag agrees_info [OF agrees_status [OF ag, of _ "''online''"]]
    by (auto simp: handleRegistration_def Let_def connected_maps new_connection_def split: option.splits)
  with registered routed show ?thesis by (simp add: status_ok_def handlers_routed(1))
next
  case (beaten now hb s ack s' ws rows)
  with assms(1) have routed: "routed owner s" and ag: "agrees (\<lambda>h. IsAgentConnected h s) rows"
    by (auto simp: status_ok_def)
  have "agrees (\<lambda>h. IsAgentConnected h s') (write_all ws rows)"
    using beaten(3) ag agrees_online [OF ag] connected_host [OF routed_indexed [OF routed]]
    by (auto simp: handleHeartbeat_def IsAgentConnected_agents split: option.splits)
  with beaten routed show ?thesis by (simp add: status_ok_def handlers_routed(2))
next
  case (deregistered now i s s' ws rows)
  with assms(1) have routed: "routed owner s" and ag: "agrees (\<lambda>h. IsAgentConnected h s) rows"
    by (auto simp: status_ok_def)
  have "agrees (\<lambda>h. IsAgentConnected h s') (write_all ws rows)"
    using deregistered(3) ag agrees_status [OF ag, of _ "''offline''"]
    by (cases i) (auto simp: disconnect_handler bad_deregistration connected_maps split: option.splits)
  with deregistered routed show ?thesis by (simp add: status_ok_def handlers_routed(3))
next
  case (cleaned now s s' ws rows)
  with assms(1) have routed: "routed owner s" and ag: "agrees (\<lambda>h. IsAgentConnected h s) rows"
    by (auto simp: status_ok_def)
  have "agrees (\<lambda>h. IsAgentConnected h s') (write_all ws rows)"
    using cleaned(3) remove_stale_agrees [OF ag] by (metis cleanupStaleAgents_def fst_conv snd_conv)
  with cleaned routed show ?thesis by (simp add: status_ok_def handlers_routed(4))
qed

interpretation status: step_invariant "atomic_step cmp owner" "status_ok owner" for cmp owner
  by unfold_locales (rule atomic_status)

section \<open>A host without an agent\<close>

lemma lost_maps:
  assumes "\<not> IsAgentConnected h s"
  shows "ac_HostID conn \<noteq> h \<Longrightarrow> \<not> IsAgentConnected h (connect conn s)" "\<not> IsAgentConnected h (disconnect a c s)"
  using assms by (simp_all add: IsAgentConnected_def connect_maps disconnect_maps)

lemma lost_remove_stale: "\<not> IsAgentConnected h s \<Longrightarrow> \<not> IsAgentConnected h (fst (remove_stale ids s))"
proof (induction ids arbitrary: s)
  case (Cons a ids)
  then show ?case
    by (cases "map_of (sv_agents s) a") (auto simp: remove_stale_stop remove_stale_step lost_maps)
qed simp

lemma lost_step:
  assumes "\<not> IsAgentConnected h (w_server w)" "gw_step cmp (\<lambda>a k. k \<noteq> h) w w'"
  shows "\<not> IsAgentConnected h (w_server w')"
  using assms(2,1)
proof cases
  case (registers ok fresh msg response s ws)
  with assms(1) show ?thesis
    by (auto simp: handleRegistration_def claim_ok_def Let_def new_connection_def lost_maps split: option.splits)
next
  case (deregisters agentID s ws)
  with assms(1) show ?thesis
    by (cases agentID) (auto simp: disconnect_handler bad_deregistration lost_maps split: option.splits)
next
  case (cleans s ws)
  from cleans(2) have "s = fst (remove_stale (stale (time_add (w_clock w) (- gc_HeartbeatTimeout (sv_config (w_server w)))) (w_server w)) (w_server w))"
    by (metis cleanupStaleAgents_def fst_conv)
  with cleans assms(1) show ?thesis by (simp add: lost_remove_stale)
qed (use assms(1) in \<open>auto simp: handleHeartbeat_def IsAgentConnected_agents split: option.splits\<close>)

interpretation lost: step_invariant "gw_step cmp (\<lambda>a k. k \<noteq> h)" "\<lambda>w. \<not> IsAgentConnected h (w_server w)" for cmp h
  by unfold_locales (rule lost_step)
end
