(* ===== verification/Gateway_Props.thy ===== *)
theory Gateway_Props
  imports Gateway
begin

text \<open>
  What the gateway guarantees: how its maps fit together in any interleaving of the handlers, which
  agent a command reaches, what happens to a host whose agent is gone, what the removal of silent agents
  does, and when the table of hosts tells the truth.
\<close>

section \<open>Running the steps\<close>

definition do_register ::
  "(string \<Rightarrow> string \<Rightarrow> bool) \<Rightarrow> string \<Rightarrow> registration_request \<Rightarrow> world \<Rightarrow> world" where
  "do_register cmp fresh req w =
     (case handleRegistration cmp True fresh (w_clock w) (w_hosts w) (Some req) (w_server w) of
        (_, s, ws) \<Rightarrow> w\<lparr>w_server := s, w_busy := (w_busy w)(Registrations := ws)\<rparr>)"

definition do_heartbeat :: "heartbeat \<Rightarrow> world \<Rightarrow> world" where
  "do_heartbeat hb w =
     (case handleHeartbeat (w_clock w) (Some hb) (w_server w) of
        (_, s, ws) \<Rightarrow> w\<lparr>w_server := s, w_busy := (w_busy w)(Heartbeats := ws)\<rparr>)"

definition do_deregister :: "string \<Rightarrow> world \<Rightarrow> world" where
  "do_deregister i w =
     (case handleDeregistration (w_clock w) (Some i) (w_server w) of
        (s, ws) \<Rightarrow> w\<lparr>w_server := s, w_busy := (w_busy w)(Deregistrations := ws)\<rparr>)"

definition do_write :: "subscription \<Rightarrow> world \<Rightarrow> world" where
  "do_write sub w =
     (case w_busy w sub of [] \<Rightarrow> w
      | x # xs \<Rightarrow> w\<lparr>w_hosts := run_write True x (w_hosts w), w_busy := (w_busy w)(sub := xs)\<rparr>)"

lemma do_steps:
  "w_busy w Registrations = [] \<Longrightarrow> claim_ok allowed cmp True fresh (w_hosts w) (Some req) \<Longrightarrow>
    (gw_step cmp allowed)\<^sup>*\<^sup>* w (do_register cmp fresh req w)"
  "w_busy w Heartbeats = [] \<Longrightarrow> (gw_step cmp allowed)\<^sup>*\<^sup>* w (do_heartbeat hb w)"
  "w_busy w Deregistrations = [] \<Longrightarrow> (gw_step cmp allowed)\<^sup>*\<^sup>* w (do_deregister i w)"
  "(gw_step cmp allowed)\<^sup>*\<^sup>* w (do_write sub w)"
  by (auto simp: do_register_def do_heartbeat_def do_deregister_def do_write_def
      intro!: r_into_rtranclp registers beats deregisters writes split: prod.split list.split)

section \<open>Properties\<close>

text \<open>
  C12. However the handlers interleave, a connection is found under its agent's identifier, the entry of
  its host in the index leads to this very connection, and no host has two.
\<close>

theorem connections_indexed:
  assumes "(gw_step cmp (\<lambda>_ _. True))\<^sup>*\<^sup>* w0 w" "w_server w0 = NewServer cfg" "GetAgent a (w_server w) = Some c"
  shows "ac_AgentID c = a \<and> GetAgentByHost (ac_HostID c) (w_server w) = Found c \<and>
    (\<forall>b d. GetAgent b (w_server w) = Some d \<and> ac_HostID d = ac_HostID c \<longrightarrow> b = a)"
proof -
  have "indexed (w_server w)" using gateway.reach_inv [OF assms(1)] assms(2) by simp
  then have ok: "index_ok (map_of (sv_agents (w_server w))) (map_of (sv_hostIndex (w_server w)))" by (simp add: indexed_def)
  note c = index_okD [OF ok assms(3) [unfolded GetAgent_def]]
  have "b = a" if "GetAgent b (w_server w) = Some d" "ac_HostID d = ac_HostID c" for b d
    using index_okD [OF ok that(1) [unfolded GetAgent_def]] that(2) c by simp
  moreover have "GetAgentByHost (ac_HostID c) (w_server w) = Found c"
    using c assms(3) by (simp add: GetAgentByHost_def GetAgent_def)
  ultimately show ?thesis using c by blast
qed

text \<open>
  C4. When no two hosts' agents use the same identifier, a command for a host never meets a nil pointer and
  is published, if at all, exactly once, on the subject of the agent connected for that host, whose
  registration presented the host's token.
\<close>

theorem commands_reach_own_agent:
  assumes "(gw_step cmp (\<lambda>a h. owner a = h))\<^sup>*\<^sup>* w0 w" "w_server w0 = NewServer cfg"
    and "SendCommand marshal io (w_server w) h cmd d = (out, d')"
  shows "out \<noteq> Inl NilDereference \<and>
    (dp_published d' = dp_published d \<or>
     (\<exists>a c cmdData. GetAgent a (w_server w) = Some c \<and> ac_HostID c = h \<and> owner a = h \<and>
        dp_published d' = dp_published d @ [(command_subject a, cmdData)]))"
proof -
  have "routed owner (w_server w)" using honest.reach_inv [OF assms(1)] assms(2) by simp
  then have ok: "route_ok owner (map_of (sv_agents (w_server w))) (map_of (sv_hostIndex (w_server w)))" by (simp add: routed_def)
  consider (none) "GetAgentByHost h (w_server w) = Missing"
    | (agent) a c where "GetAgentByHost h (w_server w) = Found c" "GetAgent a (w_server w) = Some c" "owner a = h"
        "ac_AgentID c = a" "ac_HostID c = h"
  proof (cases "map_of (sv_hostIndex (w_server w)) h")
    case (Some a)
    with route_okD(3) [OF ok Some] obtain c where "map_of (sv_agents (w_server w)) a = Some c" "owner a = h" by auto
    with Some route_okD(2) [OF ok] index_okD [OF route_okD(1) [OF ok]] show thesis
      by (intro agent [of c a]) (auto simp: GetAgentByHost_def GetAgent_def)
  qed (simp add: GetAgentByHost_def none)
  then show ?thesis
  proof cases
    case none
    then show ?thesis using assms(3) by (auto simp: SendCommand_def)
  next
    case (agent a c)
    with SendCommand_found [OF agent(1) assms(3)] show ?thesis by blast
  qed
qed

text \<open>
  C15. A host without a connection gets one only by a registration with its token: after any run without
  one, whatever heartbeats, events and other messages its agent sends, every command for it is refused.
  An agent registers when it starts and when its connection to the broker was lost, so a restart
  of the server alone leaves all hosts in this state.
\<close>

theorem lost_host_refuses_commands:
  assumes "\<not> IsAgentConnected h (w_server w)" "(gw_step cmp (\<lambda>a k. k \<noteq> h))\<^sup>*\<^sup>* w w'"
  shows "SendCommand marshal io (w_server w') h cmd d =
    (Inl (ProtocolError ''AGENT_UNAVAILABLE'' ''no agent connected for host''), d)"
  using lost.reach_inv [OF assms(2,1)]
  by (simp add: SendCommand_def GetAgentByHost_def IsAgentConnected_def)

text \<open>
  C23. The removal of silent agents takes out exactly the connections last heard of before the time limit,
  from both maps, and marks exactly their hosts as offline, with the time they were last heard of.
\<close>

theorem cleanup_removes_silent:
  assumes "(gw_step cmp (\<lambda>_ _. True))\<^sup>*\<^sup>* w0 w" "w_server w0 = NewServer cfg"
    and "cleanupStaleAgents now (w_server w) = (s', ws)"
  shows "let silent = (\<lambda>c. ac_LastSeen c < now - gc_HeartbeatTimeout (sv_config (w_server w))) in
    GetAgent a s' = (case GetAgent a (w_server w) of None \<Rightarrow> None | Some c \<Rightarrow> if silent c then None else Some c) \<and>
    (IsAgentConnected h s' \<longleftrightarrow> IsAgentConnected h (w_server w) \<and>
       \<not> (\<exists>b c. GetAgent b (w_server w) = Some c \<and> ac_HostID c = h \<and> silent c)) \<and>
    set ws = {UpdateStatus (ac_HostID c) ''offline'' (ac_LastSeen c) | b c. GetAgent b (w_server w) = Some c \<and> silent c}"
proof -
  let ?s = "w_server w" and ?t = "now - gc_HeartbeatTimeout (sv_config (w_server w))"
  have ok: "indexed ?s" using gateway.reach_inv [OF assms(1)] assms(2) by simp
  note ids = stale_ids [OF ok, of ?t]
  have run: "remove_stale (stale ?t ?s) ?s = (s', ws)"
    using assms(3) by (simp add: cleanupStaleAgents_def time_add_def)
  have "set (stale ?t ?s) \<subseteq> dom (map_of (sv_agents ?s))" unfolding ids(2) by auto
  note maps = remove_stale_maps [OF ok ids(1) this, unfolded run ids(2) fst_conv snd_conv]
  from maps have "ws = map (went_offline ?s) (stale ?t ?s)" by blast
  then have "set ws = went_offline ?s ` {b. \<exists>c. map_of (sv_agents ?s) b = Some c \<and> ac_LastSeen c < ?t}"
    using ids(2) by (metis list.set_map)
  then have "set ws = {UpdateStatus (ac_HostID c) ''offline'' (ac_LastSeen c) | b c.
      map_of (sv_agents ?s) b = Some c \<and> ac_LastSeen c < ?t}"
    by (force simp: went_offline_def image_iff)
  with maps show ?thesis
    by (auto simp: Let_def GetAgent_def IsAgentConnected_def restrict_map_def split: option.splits)
qed


section \<open>The properties at work\<close>

text \<open>Two hosts with agents; a token's hash is the token.\<close>

abbreviation same_token :: "string \<Rightarrow> string \<Rightarrow> bool" where
  "same_token hash token \<equiv> hash = token"

definition sample_host :: "uuid \<Rightarrow> string \<Rightarrow> host_row" where
  "sample_host i token =
     \<lparr>hr_ID = i, hr_Name = ''host'', hr_EndpointType = ''agent'', hr_TokenHash = Some token, hr_Status = ''offline'',
      hr_LastSeen = None, hr_DockerVersion = [], hr_OSType = [], hr_Architecture = [], hr_AgentInfo = None\<rparr>"

definition sample_world :: world where
  "sample_world =
     \<lparr>w_clock = 100 * second, w_server = NewServer DefaultServerConfig, w_hosts = [sample_host 1 ''t1'', sample_host 2 ''t2''],
      w_busy = (\<lambda>_. []), w_background = []\<rparr>"

definition sample_request :: "string \<Rightarrow> string \<Rightarrow> registration_request" where
  "sample_request agentID token =
     \<lparr>rq_Token = token,
      rq_Info = \<lparr>ai_AgentID = agentID, ai_Version = ''1.0'', ai_Hostname = ''h'', ai_OS = ''linux'', ai_Arch = ''amd64'',
        ai_DockerHost = [], ai_Labels = [], ai_Capabilities = []\<rparr>\<rparr>"

definition registered_world :: world where
  "registered_world = do_register same_token [] (sample_request ''agent-a'' ''t1'') sample_world"

definition sample_io :: command_io where
  "sample_io = \<lparr>ci_id = ''c1'', ci_now = 100 * second, ci_subscribed = True, ci_published = True, ci_answer = TimedOut (130 * second)\<rparr>"

definition sample_command :: "unit agent_command" where
  "sample_command =
     \<lparr>cm_ID = [], cm_Type = ''system.ping'', cm_HostID = [], cm_Timeout = 0, cm_ReplyTo = [], cm_CreatedAt = 0, cm_Params = ()\<rparr>"

definition ping :: "uuid \<Rightarrow> world \<Rightarrow> (command_error + command_result) \<times> unit dispatcher" where
  "ping h w = SendCommand (\<lambda>c. Some (cm_ID c)) sample_io (w_server w) h sample_command \<lparr>dp_pending = [], dp_published = []\<rparr>"

lemma sample_run:
  assumes "allowed ''agent-a'' 1"
  shows "(gw_step same_token allowed)\<^sup>*\<^sup>* sample_world registered_world"
proof -
  have "GetByAgentToken same_token True ''t1'' (w_hosts sample_world) = Some (sample_host 1 ''t1'')" by code_simp
  then have "claim_ok allowed same_token True [] (w_hosts sample_world) (Some (sample_request ''agent-a'' ''t1''))"
    using assms by (simp add: claim_ok_def sample_request_def request_agent_id_def sample_host_def)
  then show ?thesis unfolding registered_world_def by (intro do_steps) (simp_all add: sample_world_def)
qed

lemma sample_server: "w_server sample_world = NewServer DefaultServerConfig"
  by (simp add: sample_world_def)

theorem connections_indexed_witness:
  "map_option ac_HostID (GetAgent ''agent-a'' (w_server registered_world)) = Some 1 \<and>
   (case GetAgentByHost 1 (w_server registered_world) of Found c \<Rightarrow> ac_AgentID c = ''agent-a'' | _ \<Rightarrow> False)"
proof -
  have host: "map_option ac_HostID (GetAgent ''agent-a'' (w_server registered_world)) = Some 1" by code_simp
  then obtain c where c: "GetAgent ''agent-a'' (w_server registered_world) = Some c" "ac_HostID c = 1" by auto
  have "GetAgentByHost 1 (w_server registered_world) = Found c" "ac_AgentID c = ''agent-a''"
    using connections_indexed [OF sample_run [of "\<lambda>_ _. True", OF TrueI] sample_server c(1)] unfolding c(2) by blast+
  then show ?thesis using host by simp
qed

theorem commands_reach_own_agent_witness:
  "dp_published (snd (ping 1 registered_world)) = [(''usulnet.commands.agent-a'', ''c1'')] \<and>
   fst (ping 1 registered_world) \<noteq> Inl NilDereference"
proof -
  have sent: "dp_published (snd (ping 1 registered_world)) = [(''usulnet.commands.agent-a'', ''c1'')]" by code_simp
  have "(gw_step same_token (\<lambda>a h. (\<lambda>_. 1) a = h))\<^sup>*\<^sup>* sample_world registered_world"
    by (rule sample_run) simp
  note sound = commands_reach_own_agent [of same_token "\<lambda>_. 1", OF this sample_server]
  have "SendCommand (\<lambda>c. Some (cm_ID c)) sample_io (w_server registered_world) 1 sample_command
      \<lparr>dp_pending = [], dp_published = []\<rparr> = (fst (ping 1 registered_world), snd (ping 1 registered_world))"
    by (simp add: ping_def)
  from sound [OF this] have "fst (ping 1 registered_world) \<noteq> Inl NilDereference" by (rule conjunct1)
  with sent show ?thesis by (rule conjI)
qed

text \<open>After a restart the server has no connections; the agent's next heartbeat does not change that.\<close>

theorem lost_host_refuses_commands_witness:
  "fst (ping 1 (do_heartbeat \<lparr>hb_AgentID = ''agent-a'', hb_LastError = [], hb_Health = ''healthy''\<rparr> sample_world)) =
   Inl (ProtocolError ''AGENT_UNAVAILABLE'' ''no agent connected for host'')"
proof -
  have "\<not> IsAgentConnected 1 (w_server sample_world)" by (simp add: sample_world_def NewServer_def IsAgentConnected_def)
  moreover have "(gw_step same_token (\<lambda>a k. k \<noteq> 1))\<^sup>*\<^sup>* sample_world
      (do_heartbeat \<lparr>hb_AgentID = ''agent-a'', hb_LastError = [], hb_Health = ''healthy''\<rparr> sample_world)"
    by (rule do_steps) (simp add: sample_world_def)
  ultimately show ?thesis unfolding ping_def by (simp add: lost_host_refuses_commands)
qed

theorem cleanup_removes_silent_witness:
  "GetAgent ''agent-a'' (fst (cleanupStaleAgents (200 * second) (w_server registered_world))) = None \<and>
   \<not> IsAgentConnected 1 (fst (cleanupStaleAgents (200 * second) (w_server registered_world)))"
proof -
  let ?c = "cleanupStaleAgents (200 * second) (w_server registered_world)"
  have "map_option (\<lambda>c. (ac_HostID c, ac_LastSeen c)) (GetAgent ''agent-a'' (w_server registered_world)) = Some (1, 100 * second)"
    by code_simp
  then obtain c where c: "GetAgent ''agent-a'' (w_server registered_world) = Some c" "ac_HostID c = 1" "ac_LastSeen c = 100 * second"
    by auto
  moreover have "gc_HeartbeatTimeout (sv_config (w_server registered_world)) = 90 * second" by code_simp
  moreover have "\<exists>b c. GetAgent b (w_server registered_world) = Some c \<and> ac_HostID c = 1 \<and> ac_LastSeen c < 110 * second"
    using c by (intro exI [of _ "''agent-a''"] exI [of _ c]) (simp add: second_def)
  ultimately show ?thesis
    using cleanup_removes_silent [OF sample_run [of "\<lambda>_ _. True", OF TrueI] sample_server, of "200 * second" "fst ?c" "snd ?c" "''agent-a''" 1]
    by (auto simp: Let_def second_def)
qed


section \<open>What goes wrong otherwise\<close>

text \<open>
  Two hosts whose agents give the same identifier, for example because a machine was copied: a command
  for the first host goes to the second one, and when the second one leaves, a command for the first one
  dereferences a nil pointer.
\<close>

definition clash_world :: world where
  "clash_world =
     do_register same_token [] (sample_request ''agent-a'' ''t2'')
       (do_write Registrations (do_write Registrations registered_world))"

lemma shared_agent_id_misroutes:
  "(gw_step same_token (\<lambda>_ _. True))\<^sup>*\<^sup>* sample_world clash_world"
  "dp_published (snd (ping 1 clash_world)) = dp_published (snd (ping 2 clash_world))"
  "fst (ping 1 (do_deregister ''agent-a'' clash_world)) = Inl NilDereference"
proof -
  have "w_busy (do_write Registrations (do_write Registrations registered_world)) Registrations = []" by code_simp
  then have "(gw_step same_token (\<lambda>_ _. True))\<^sup>*\<^sup>* (do_write Registrations (do_write Registrations registered_world)) clash_world"
    unfolding clash_world_def by (rule do_steps) (simp add: claim_ok_def split: option.split)
  then show "(gw_step same_token (\<lambda>_ _. True))\<^sup>*\<^sup>* sample_world clash_world"
    using sample_run [of "\<lambda>_ _. True", OF TrueI] do_steps(4) [of same_token "\<lambda>_ _. True"] by (meson rtranclp_trans)
  show "dp_published (snd (ping 1 clash_world)) = dp_published (snd (ping 2 clash_world))" by code_simp
  show "fst (ping 1 (do_deregister ''agent-a'' clash_world)) = Inl NilDereference" by code_simp
qed

text \<open>
  The write of a heartbeat that was handled before a deregistration may come after it: the host stays online in the
  table although nothing is connected and nothing is left to write.
\<close>

definition late_write_world :: world where
  "late_write_world =
     do_write Heartbeats
      (do_write Deregistrations
       (do_deregister ''agent-a''
        (do_heartbeat \<lparr>hb_AgentID = ''agent-a'', hb_LastError = [], hb_Health = ''healthy''\<rparr>
         (do_write Registrations (do_write Registrations registered_world)))))"

lemma late_heartbeat_write:
  "(gw_step same_token (\<lambda>_ _. True))\<^sup>*\<^sup>* sample_world late_write_world" "quiet late_write_world"
  "\<not> IsAgentConnected 1 (w_server late_write_world)" "map hr_Status (w_hosts late_write_world) = [''online'', ''offline'']"
proof -
  let ?w = "do_write Registrations (do_write Registrations registered_world)"
  let ?b = "do_heartbeat \<lparr>hb_AgentID = ''agent-a'', hb_LastError = [], hb_Health = ''healthy''\<rparr> ?w"
  have "w_busy ?w Heartbeats = []" "w_busy ?b Deregistrations = []" by code_simp+
  then have "(gw_step same_token (\<lambda>_ _. True))\<^sup>*\<^sup>* ?w ?b" "(gw_step same_token (\<lambda>_ _. True))\<^sup>*\<^sup>* ?b (do_deregister ''agent-a'' ?b)"
    by (auto intro: do_steps)
  then show "(gw_step same_token (\<lambda>_ _. True))\<^sup>*\<^sup>* sample_world late_write_world"
    unfolding late_write_world_def
    using sample_run [of "\<lambda>_ _. True", OF TrueI] do_steps(4) [of same_token "\<lambda>_ _. True"] by (meson rtranclp_trans)
  show "quiet late_write_world" "\<not> IsAgentConnected 1 (w_server late_write_world)"
    "map hr_Status (w_hosts late_write_world) = [''online'', ''offline'']" by code_simp+
qed
end
