(* ===== verification/Go_Crypto.thy ===== *)
theory Go_Crypto
  imports Go_Strings
begin

text \<open>
  What the code uses of Go's \<^verbatim>\<open>encoding/base64\<close>, \<^verbatim>\<open>encoding/base32\<close>, \<^verbatim>\<open>encoding/hex\<close>,
  \<^verbatim>\<open>crypto/sha1\<close>, \<^verbatim>\<open>crypto/sha256\<close> and \<^verbatim>\<open>crypto/hmac\<close>, on byte strings. The hash functions are the
  ones of FIPS 180-4 on 32-bit words; the proofs use only the length of their results.
\<close>

unbundle bit_operations_syntax

section \<open>Alphabets\<close>

definition digit_of :: "string \<Rightarrow> char \<Rightarrow> nat option" where
  "digit_of alphabet c = map_of (zip alphabet [0..<length alphabet]) c"

lemma digit_of_nth [simp]: "distinct alphabet \<Longrightarrow> i < length alphabet \<Longrightarrow> digit_of alphabet (alphabet ! i) = Some i"
  by (simp add: digit_of_def map_of_zip_nth)

lemma those_map_Some [simp]: "those (map (\<lambda>x. Some (f x)) xs) = Some (map f xs)"
  by (induction xs) auto

lemma those_digits:
  "distinct alphabet \<Longrightarrow> list_all (\<lambda>v. v < length alphabet) vs \<Longrightarrow> those (map (digit_of alphabet) (map ((!) alphabet) vs)) = Some vs"
  by (induction vs) auto

definition is_newline :: "char \<Rightarrow> bool" where
  "is_newline c \<longleftrightarrow> c = CHR 0x0A \<or> c = CHR 0x0D"

abbreviation val :: "char \<Rightarrow> nat" where
  "val c \<equiv> of_char c"

abbreviation byte :: "nat \<Rightarrow> char" where
  "byte \<equiv> char_of"


section \<open>Base64 for URLs, without padding\<close>

definition b64_alphabet :: string where
  "b64_alphabet = ''ABCDEFGHIJKLMNOPQRSTUVWXYZabcdefghijklmnopqrstuvwxyz0123456789-_''"

fun b64_digits :: "nat list \<Rightarrow> nat list" where
  "b64_digits [] = []"
| "b64_digits [a] = [a div 4, a mod 4 * 16]"
| "b64_digits [a, b] = [a div 4, a mod 4 * 16 + b div 16, b mod 16 * 4]"
| "b64_digits (a # b # c # r) = [a div 4, a mod 4 * 16 + b div 16, b mod 16 * 4 + c div 64, c mod 64] @ b64_digits r"

fun b64_bytes :: "nat list \<Rightarrow> nat list option" where
  "b64_bytes [] = Some []"
| "b64_bytes [v] = None"
| "b64_bytes [v, w] = Some [v * 4 + w div 16]"
| "b64_bytes [v, w, x] = Some [v * 4 + w div 16, w mod 16 * 16 + x div 4]"
| "b64_bytes (v # w # x # y # r) =
     map_option (\<lambda>bs. [v * 4 + w div 16, w mod 16 * 16 + x div 4, x mod 4 * 64 + y] @ bs) (b64_bytes r)"

definition b64_encode :: "string \<Rightarrow> string" where
  "b64_encode s = map ((!) b64_alphabet) (b64_digits (map val s))"

definition b64_decode :: "string \<Rightarrow> string option" where
  "b64_decode s = (case those (map (digit_of b64_alphabet) (filter (\<lambda>c. \<not> is_newline c) s)) of
     None \<Rightarrow> None | Some vs \<Rightarrow> map_option (map byte) (b64_bytes vs))"

lemma b64_alphabet: "distinct b64_alphabet" "length b64_alphabet = 64" "list_all (\<lambda>c. \<not> is_newline c \<and> c \<noteq> CHR ''.'') b64_alphabet"
  by code_simp+

lemma b64_digits_less: "list_all (\<lambda>b. b < 256) bs \<Longrightarrow> list_all (\<lambda>v. v < 64) (b64_digits bs)"
  by (induction bs rule: b64_digits.induct) (auto simp: div_less_iff_less_mult)

lemma b64_bytes_digits: "list_all (\<lambda>b. b < 256) bs \<Longrightarrow> b64_bytes (b64_digits bs) = Some bs"
  by (induction bs rule: b64_digits.induct) (auto simp: div_mult2_eq)

lemma list_all_val [simp]: "list_all (\<lambda>b. b < 256) (map val s)"
  by (simp add: list_all_iff)

lemma b64_encode_chars: "c \<in> set (b64_encode s) \<Longrightarrow> \<not> is_newline c \<and> c \<noteq> CHR ''.''"
  using b64_digits_less [of "map val s"] b64_alphabet(2,3) by (force simp: b64_encode_def list_all_iff)

lemma b64_decode_encode [simp]: "b64_decode (b64_encode s) = Some s"
proof -
  have "filter (\<lambda>c. \<not> is_newline c) (b64_encode s) = b64_encode s"
    using b64_encode_chars by (auto intro: filter_True)
  then show ?thesis
    using those_digits [OF b64_alphabet(1), unfolded b64_alphabet(2), OF b64_digits_less [of "map val s"]]
    by (simp add: b64_decode_def b64_encode_def b64_bytes_digits comp_def)
qed

section \<open>Base32\<close>

definition b32_alphabet :: string where
  "b32_alphabet = ''ABCDEFGHIJKLMNOPQRSTUVWXYZ234567''"

fun b32_group :: "nat list \<Rightarrow> nat list" where
  "b32_group [a, b, c, d, e] =
     [a div 8, a mod 8 * 4 + b div 64, b div 2 mod 32, b mod 2 * 16 + c div 16, c mod 16 * 2 + d div 128, d div 4 mod 32,
      d mod 4 * 8 + e div 32, e mod 32]"
| "b32_group _ = []"

fun b32_ungroup :: "nat list \<Rightarrow> nat list" where
  "b32_ungroup (p # q # r # s # t # u # v # w # _) =
     [p * 8 + q div 4, q mod 4 * 64 + r * 2 + s div 16, s mod 16 * 16 + t div 2, t mod 2 * 128 + u * 4 + v div 8, v mod 8 * 32 + w]"
| "b32_ungroup _ = []"

text \<open>\<^verbatim>\<open>StdEncoding.WithPadding(NoPadding).EncodeToString\<close>: the last group is filled with zeros and cut.\<close>

function b32_encode :: "string \<Rightarrow> string" where
  "b32_encode s =
     (if s = [] then []
      else (let g = take 5 s in
        take ((8 * length g + 4) div 5) (map ((!) b32_alphabet) (b32_group (map val g @ replicate (5 - length g) 0))) @
        b32_encode (drop 5 s)))"
  by auto

termination by (relation "measure length") auto

declare b32_encode.simps [simp del]

text \<open>
  \<^verbatim>\<open>StdEncoding.DecodeString\<close>, group by group: \<open>b32_quantum j buf src\<close> has read \<open>j\<close> digits. It stops at a
  padding character, which is accepted only from the third place on and where the rest fits.
\<close>

function b32_quantum :: "nat \<Rightarrow> nat list \<Rightarrow> string \<Rightarrow> (nat list \<times> string \<times> bool) option" where
  "b32_quantum j buf src =
     (if 8 \<le> j then Some (buf, src, False)
      else (case src of
          [] \<Rightarrow> None
        | c # src \<Rightarrow>
            if c = CHR ''='' \<and> 2 \<le> j \<and> length src < 8 then
              (if length src + j < 7 \<or> \<not> list_all (\<lambda>c. c = CHR ''='') (take (7 - j) src) \<or> j \<in> {3, 6} then None
               else Some (buf, src, True))
            else (case digit_of b32_alphabet c of None \<Rightarrow> None | Some v \<Rightarrow> b32_quantum (Suc j) (buf @ [v]) src)))"
  by auto

termination by (relation "measure (\<lambda>(j, _, _). 8 - j)") auto

declare b32_quantum.simps [simp del]

definition b32_keep :: "nat \<Rightarrow> nat" where
  "b32_keep n = n * 5 div 8"

lemma b32_quantum_shorter: "b32_quantum j buf src = Some (vs, rest, done) \<Longrightarrow> j < 8 \<Longrightarrow> length rest < length src"
proof (induction j buf src rule: b32_quantum.induct)
  case (1 j buf src)
  show ?case
  proof (cases src)
    case (Cons c cs)
    show ?thesis
    proof (cases "j = 7")
      case True
      with 1(2) Cons show ?thesis
        by (auto simp: b32_quantum.simps [of 7] b32_quantum.simps [of 8] split: if_splits option.splits)
    next
      case False
      with 1 Cons show ?thesis
        by (fastforce simp: b32_quantum.simps [of j] split: if_splits option.splits)
    qed
  qed (use 1 in \<open>auto simp: b32_quantum.simps [of j]\<close>)
qed

function b32_groups :: "string \<Rightarrow> string option" where
  "b32_groups src =
     (if src = [] then Some []
      else (case b32_quantum 0 [] src of
          None \<Rightarrow> None
        | Some (vs, rest, done) \<Rightarrow>
            (let bytes = take (b32_keep (length vs)) (map byte (b32_ungroup (vs @ replicate (8 - length vs) 0))) in
             if done then Some bytes else map_option ((@) bytes) (b32_groups rest))))"
  by auto

termination by (relation "measure length") (auto dest: b32_quantum_shorter)

declare b32_groups.simps [simp del]

definition b32_decode :: "string \<Rightarrow> string option" where
  "b32_decode s = b32_groups (filter (\<lambda>c. \<not> is_newline c) s)"

lemma b32_alphabet:
  "distinct b32_alphabet" "length b32_alphabet = 32"
  "list_all (\<lambda>c. \<not> is_newline c \<and> c \<noteq> CHR '' '' \<and> c \<noteq> CHR ''='' \<and> \<not> (97 \<le> val c \<and> val c \<le> 122)) b32_alphabet"
  by code_simp+

lemma length_five: "length g = 5 \<longleftrightarrow> (\<exists>a b c d e. g = [a, b, c, d, e])"
  by (auto simp: numeral_eq_Suc length_Suc_conv)

lemma byte_parts:
  "b div 64 * 64 + b div 2 mod 32 * 2 + b mod 2 = (b :: nat)" "d div 128 * 128 + d div 4 mod 32 * 4 + d mod 4 = (d :: nat)"
  using mod_mult2_eq [of b 2 32] div_mult_mod_eq [of b 64] mod_mult2_eq [of d 4 32] div_mult_mod_eq [of d 128] by simp_all

lemma b32_ungroup_group: "list_all (\<lambda>b. b < 256) [a, b, c, d, e] \<Longrightarrow> b32_ungroup (b32_group [a, b, c, d, e]) = [a, b, c, d, e]"
  by (auto simp: div_mult2_eq byte_parts)

lemma b32_group_less:
  "list_all (\<lambda>b. b < 256) [a, b, c, d, e] \<Longrightarrow> list_all (\<lambda>v. v < 32) (b32_group [a, b, c, d, e]) \<and> length (b32_group [a, b, c, d, e]) = 8"
  by (auto simp: div_less_iff_less_mult)

lemma b32_char:
  assumes "v < 32"
  shows "b32_alphabet ! v \<noteq> CHR ''=''" "\<not> is_newline (b32_alphabet ! v)" "digit_of b32_alphabet (b32_alphabet ! v) = Some v"
  using b32_alphabet assms by (auto simp: list_all_length)

lemma b32_quantum_digits:
  "list_all (\<lambda>v. v < 32) vs \<Longrightarrow> length vs + j = 8 \<Longrightarrow>
   b32_quantum j buf (map ((!) b32_alphabet) vs @ rest) = Some (buf @ vs, rest, False)"
proof (induction vs arbitrary: j buf)
  case Nil
  then show ?case by (simp add: b32_quantum.simps [of 8])
next
  case (Cons v vs)
  then show ?case using b32_char [of v] by (simp add: b32_quantum.simps [of j])
qed

lemma b32_groups_group:
  assumes "length g = 5"
  shows "b32_groups (map ((!) b32_alphabet) (b32_group (map val g)) @ rest) = map_option ((@) g) (b32_groups rest)"
proof -
  obtain a b c d e where g: "g = [a, b, c, d, e]" using assms by (auto simp: length_five)
  let ?vs = "b32_group (map val g)"
  have vs: "list_all (\<lambda>v. v < 32) ?vs" "length ?vs = 8" using b32_group_less [of "val a" "val b" "val c" "val d" "val e"] by (simp_all add: g)
  have "b32_ungroup ?vs = map val g" using b32_ungroup_group [of "val a" "val b" "val c" "val d" "val e"] by (simp add: g)
  moreover have "map ((!) b32_alphabet) ?vs \<noteq> []" using vs(2) by (metis list.map_disc_iff list.size(3) zero_neq_numeral)
  ultimately show ?thesis
    using b32_quantum_digits [OF vs(1), of 0 "[]" rest] vs(2)
    by (simp add: b32_groups.simps [of "_ @ rest"] b32_keep_def assms comp_def)
qed

lemma b32_encode_group:
  assumes "length g = 5"
  shows "b32_encode (g @ s) = map ((!) b32_alphabet) (b32_group (map val g)) @ b32_encode s"
proof -
  obtain a b c d e where "g = [a, b, c, d, e]" using assms by (auto simp: length_five)
  then show ?thesis by (simp add: b32_encode.simps [of "a # b # c # d # e # s"])
qed

lemma five_split:
  assumes "length s mod 5 = 0" "s \<noteq> []"
  shows "length (take 5 s) = 5" "length (drop 5 s) mod 5 = 0" "length s div 5 = Suc (length (drop 5 s) div 5)"
proof -
  have "5 \<le> length s"
  proof (rule ccontr)
    assume "\<not> 5 \<le> length s"
    then show False using assms by simp
  qed
  then show "length (take 5 s) = 5" "length (drop 5 s) mod 5 = 0" "length s div 5 = Suc (length (drop 5 s) div 5)"
    using assms(1) by (simp_all add: le_mod_geq le_div_geq)
qed

lemma b32_chars: "c \<in> set (b32_encode s) \<Longrightarrow> c \<in> set b32_alphabet"
proof (induction s rule: b32_encode.induct)
  case (1 s)
  let ?g = "map val (take 5 s) @ replicate (5 - length (take 5 s)) 0"
  have "length ?g = 5" by simp
  then obtain a b c d e where g: "?g = [a, b, c, d, e]" unfolding length_five by blast
  moreover have "list_all (\<lambda>b. b < 256) ?g" by (auto simp: list_all_iff)
  ultimately have less: "list_all (\<lambda>v. v < 32) (b32_group ?g)" using b32_group_less by metis
  have "set (map ((!) b32_alphabet) (b32_group ?g)) \<subseteq> set b32_alphabet"
    using less b32_alphabet(2) by (auto simp: list_all_iff)
  then have "set (take n (map ((!) b32_alphabet) (b32_group ?g))) \<subseteq> set b32_alphabet" for n
    using set_take_subset by fast
  with 1 show ?case by (fastforce simp: b32_encode.simps [of s] Let_def split: if_splits)
qed

lemma b32_groups_encode: "length s mod 5 = 0 \<Longrightarrow> b32_groups (b32_encode s) = Some s"
proof (induction s rule: b32_encode.induct)
  case (1 s)
  show ?case
  proof (cases "s = []")
    case False
    note five = five_split [OF 1(2) False]
    have "b32_groups (b32_encode (drop 5 s)) = Some (drop 5 s)" using 1(1) [OF False refl] five(2) by blast
    then show ?thesis
      using b32_encode_group [OF five(1), of "drop 5 s"] by (simp add: b32_groups_group [OF five(1)])
  qed (simp add: b32_encode.simps b32_groups.simps)
qed

lemma b32_decode_encode: "length s mod 5 = 0 \<Longrightarrow> b32_decode (b32_encode s) = Some s"
proof -
  have "filter (\<lambda>c. \<not> is_newline c) (b32_encode s) = b32_encode s"
    using b32_chars b32_alphabet(3) by (auto simp: list_all_iff intro: filter_True)
  then show "length s mod 5 = 0 \<Longrightarrow> b32_decode (b32_encode s) = Some s"
    by (simp add: b32_decode_def b32_groups_encode)
qed

lemma length_b32_encode: "length s mod 5 = 0 \<Longrightarrow> length (b32_encode s) = 8 * (length s div 5)"
proof (induction s rule: b32_encode.induct)
  case (1 s)
  show ?case
  proof (cases "s = []")
    case False
    note five = five_split [OF 1(2) False]
    obtain a b c d e where "take 5 s = [a, b, c, d, e]" using five(1) unfolding length_five by blast
    then have "length (b32_group (map val (take 5 s))) = 8" by simp
    moreover have "length (b32_encode (drop 5 s)) = 8 * (length (drop 5 s) div 5)" using 1(1) [OF False refl] five(2) by blast
    ultimately show ?thesis
      using arg_cong [OF b32_encode_group [OF five(1), of "drop 5 s"], of length] five(3)
      unfolding append_take_drop_id by simp
  qed (simp add: b32_encode.simps)
qed

section \<open>Hexadecimal\<close>

definition hex_char :: "nat \<Rightarrow> char" where
  "hex_char n = ''0123456789abcdef'' ! n"

definition hex_encode :: "string \<Rightarrow> string" where
  "hex_encode s = concat (map (\<lambda>c. [hex_char (val c div 16), hex_char (val c mod 16)]) s)"

lemma length_hex_encode [simp]: "length (hex_encode s) = 2 * length s"
  by (induction s) (auto simp: hex_encode_def)

section \<open>Hash functions\<close>

definition be_word :: "string \<Rightarrow> 32 word" where
  "be_word bs = foldl (\<lambda>w c. push_bit 8 w OR word_of_int (of_char c)) 0 bs"

definition be_bytes :: "nat list \<Rightarrow> int \<Rightarrow> string" where
  "be_bytes shifts n = map (\<lambda>i. char_of (drop_bit i n)) shifts"

definition word_bytes :: "32 word \<Rightarrow> string" where
  "word_bytes w = be_bytes [24, 16, 8, 0] (uint w)"

definition PutUint64 :: "64 word \<Rightarrow> string" where
  "PutUint64 w = be_bytes [56, 48, 40, 32, 24, 16, 8, 0] (uint w)"

text \<open>A message is filled to a multiple of 64 bytes, the last 8 of them its length in bits.\<close>

definition pad_message :: "string \<Rightarrow> string" where
  "pad_message m =
     m @ CHR 0x80 # replicate ((119 - length m mod 64) mod 64) CHR 0x00 @ PutUint64 (word_of_int (8 * int (length m)))"

fun chunks :: "nat \<Rightarrow> nat \<Rightarrow> 'a list \<Rightarrow> 'a list list" where
  "chunks k 0 xs = []"
| "chunks k (Suc n) xs = take k xs # chunks k n (drop k xs)"

definition blocks :: "string \<Rightarrow> 32 word list list" where
  "blocks m = map (\<lambda>b. map be_word (chunks 4 16 b)) (chunks 64 (length (pad_message m) div 64) (pad_message m))"

definition rotl :: "nat \<Rightarrow> 32 word \<Rightarrow> 32 word" where
  "rotl n w = push_bit n w OR drop_bit (32 - n) w"

definition rotr :: "nat \<Rightarrow> 32 word \<Rightarrow> 32 word" where
  "rotr n w = drop_bit n w OR push_bit (32 - n) w"

text \<open>The schedules hold the newest word first.\<close>

fun sha1_schedule :: "nat \<Rightarrow> 32 word list \<Rightarrow> 32 word list" where
  "sha1_schedule 0 ws = rev ws"
| "sha1_schedule (Suc n) ws = sha1_schedule n (rotl 1 (ws ! 2 XOR ws ! 7 XOR ws ! 13 XOR ws ! 15) # ws)"

definition sha1_round :: "nat \<Rightarrow> 32 word \<Rightarrow> 32 word \<Rightarrow> 32 word \<Rightarrow> 32 word" where
  "sha1_round t b c d =
     (if t < 20 then ((b AND c) OR (NOT b AND d)) + 0x5A827999
      else if t < 40 then (b XOR c XOR d) + 0x6ED9EBA1
      else if t < 60 then ((b AND c) OR (b AND d) OR (c AND d)) + 0x8F1BBCDC
      else (b XOR c XOR d) + 0xCA62C1D6)"

type_synonym sha1_state = "32 word \<times> 32 word \<times> 32 word \<times> 32 word \<times> 32 word"

fun sha1_rounds :: "nat \<Rightarrow> 32 word list \<Rightarrow> sha1_state \<Rightarrow> sha1_state" where
  "sha1_rounds t [] s = s"
| "sha1_rounds t (w # ws) (a, b, c, d, e) =
     sha1_rounds (Suc t) ws (rotl 5 a + sha1_round t b c d + e + w, a, rotl 30 b, c, d)"

definition sha1_block :: "sha1_state \<Rightarrow> 32 word list \<Rightarrow> sha1_state" where
  "sha1_block s ws =
     (case (s, sha1_rounds 0 (sha1_schedule 64 (rev ws)) s) of
        ((a, b, c, d, e), (a', b', c', d', e')) \<Rightarrow> (a + a', b + b', c + c', d + d', e + e'))"

definition sha1 :: "string \<Rightarrow> string" where
  "sha1 m =
     (case foldl sha1_block (0x67452301, 0xEFCDAB89, 0x98BADCFE, 0x10325476, 0xC3D2E1F0) (blocks m) of
        (a, b, c, d, e) \<Rightarrow> concat (map word_bytes [a, b, c, d, e]))"

text \<open>The first 32 bits behind the point of the cube roots of the first 64 primes.\<close>

definition sha256_constants :: "32 word list" where
  "sha256_constants =
     [1116352408, 1899447441, 3049323471, 3921009573, 961987163, 1508970993, 2453635748, 2870763221,
      3624381080, 310598401, 607225278, 1426881987, 1925078388, 2162078206, 2614888103, 3248222580,
      3835390401, 4022224774, 264347078, 604807628, 770255983, 1249150122, 1555081692, 1996064986,
      2554220882, 2821834349, 2952996808, 3210313671, 3336571891, 3584528711, 113926993, 338241895,
      666307205, 773529912, 1294757372, 1396182291, 1695183700, 1986661051, 2177026350, 2456956037,
      2730485921, 2820302411, 3259730800, 3345764771, 3516065817, 3600352804, 4094571909, 275423344,
      430227734, 506948616, 659060556, 883997877, 958139571, 1322822218, 1537002063, 1747873779,
      1955562222, 2024104815, 2227730452, 2361852424, 2428436474, 2756734187, 3204031479, 3329325298]"

fun sha256_schedule :: "nat \<Rightarrow> 32 word list \<Rightarrow> 32 word list" where
  "sha256_schedule 0 ws = rev ws"
| "sha256_schedule (Suc n) ws =
     (let s0 = (let w = ws ! 14 in rotr 7 w XOR rotr 18 w XOR drop_bit 3 w);
          s1 = (let w = ws ! 1 in rotr 17 w XOR rotr 19 w XOR drop_bit 10 w)
      in sha256_schedule n ((ws ! 15 + s0 + ws ! 6 + s1) # ws))"

type_synonym sha256_state = "(32 word \<times> 32 word \<times> 32 word \<times> 32 word) \<times> (32 word \<times> 32 word \<times> 32 word \<times> 32 word)"

definition sha256_round :: "sha256_state \<Rightarrow> 32 word \<times> 32 word \<Rightarrow> sha256_state" where
  "sha256_round s kw =
     (case (s, kw) of (((a, b, c, d), (e, f, g, h)), (k, w)) \<Rightarrow>
        (let t1 = h + (rotr 6 e XOR rotr 11 e XOR rotr 25 e) + ((e AND f) XOR (NOT e AND g)) + k + w;
             t2 = (rotr 2 a XOR rotr 13 a XOR rotr 22 a) + ((a AND b) XOR (a AND c) XOR (b AND c))
         in ((t1 + t2, a, b, c), (d + t1, e, f, g))))"

definition sha256_block :: "sha256_state \<Rightarrow> 32 word list \<Rightarrow> sha256_state" where
  "sha256_block s ws =
     (case (s, foldl sha256_round s (zip sha256_constants (sha256_schedule 48 (rev ws)))) of
        (((a, b, c, d), (e, f, g, h)), ((a', b', c', d'), (e', f', g', h'))) \<Rightarrow>
          ((a + a', b + b', c + c', d + d'), (e + e', f + f', g + g', h + h')))"

definition sha256 :: "string \<Rightarrow> string" where
  "sha256 m =
     (case foldl sha256_block
         ((0x6a09e667, 0xbb67ae85, 0x3c6ef372, 0xa54ff53a), (0x510e527f, 0x9b05688c, 0x1f83d9ab, 0x5be0cd19)) (blocks m) of
        ((a, b, c, d), (e, f, g, h)) \<Rightarrow> concat (map word_bytes [a, b, c, d, e, f, g, h]))"

text \<open>\<^verbatim>\<open>crypto/hmac\<close>, for hash functions with blocks of 64 bytes.\<close>

definition xor_bytes :: "int \<Rightarrow> string \<Rightarrow> string" where
  "xor_bytes n s = map (\<lambda>c. char_of (of_char c XOR n)) s"

definition hmac :: "(string \<Rightarrow> string) \<Rightarrow> string \<Rightarrow> string \<Rightarrow> string" where
  "hmac hash key m =
     (let key = (if 64 < length key then hash key else key);
          block = key @ replicate (64 - length key) CHR 0x00
      in hash (xor_bytes 0x5c block @ hash (xor_bytes 0x36 block @ m)))"

lemma length_be_bytes [simp]: "length (be_bytes shifts n) = length shifts"
  by (simp add: be_bytes_def)

lemma length_sha1 [simp]: "length (sha1 m) = 20"
  by (simp add: sha1_def word_bytes_def split: prod.split)

lemma length_hmac_sha1 [simp]: "length (hmac sha1 key m) = 20"
  by (simp add: hmac_def Let_def)
end
