(* ===== verification/Two_Factor.thy ===== *)
theory Two_Factor
  imports Go_Crypto Auth_Props
begin

text \<open>
  Two-factor authentication: one-time codes, pending tokens and backup codes
  (\<^verbatim>\<open>internal/pkg/totp\<close>), the settings in the table of users
  (\<^verbatim>\<open>internal/repository/postgres/user_repo.go\<close>, \<^verbatim>\<open>internal/web/adapter_user.go\<close>) and the two steps of
  the login (\<^verbatim>\<open>internal/web/handler.go\<close>, \<^verbatim>\<open>internal/web/handler_frontend.go\<close>).
\<close>

section \<open>One-time codes\<close>

text \<open>\<^verbatim>\<open>fmt.Sprintf("%0*d", digits, otp)\<close> of a number that is not negative\<close>

definition zero_padded :: "nat \<Rightarrow> int \<Rightarrow> string" where
  "zero_padded digits n = (let d = format_int n in replicate (digits - length d) CHR ''0'' @ d)"

definition generateHOTP :: "string \<Rightarrow> 64 word \<Rightarrow> nat \<Rightarrow> string" where
  "generateHOTP key counter digits =
     (let hash = hmac sha1 key (PutUint64 counter);
          offset = val (last hash) AND 0x0f;
          code = uint (be_word (take 4 (drop offset hash)) AND 0x7fffffff);
          otp = code mod 10 ^ digits
      in zero_padded digits otp)"

definition DefaultDigits :: nat where "DefaultDigits = 6"
definition DefaultPeriod :: "64 word" where "DefaultPeriod = 30"

text \<open>\<^verbatim>\<open>uint64(t.Unix()) / DefaultPeriod\<close>\<close>

definition counter_at :: "gotime \<Rightarrow> 64 word" where
  "counter_at t = word_of_int (unix t) div DefaultPeriod"

text \<open>\<open>unicode\<close> is \<^verbatim>\<open>strings.ToUpper\<close> on text that is not ASCII.\<close>

definition upper_char :: "char \<Rightarrow> char" where
  "upper_char c = (if 97 \<le> val c \<and> val c \<le> 122 then byte (val c - 32) else c)"

definition ToUpper :: "(string \<Rightarrow> string) \<Rightarrow> string \<Rightarrow> string" where
  "ToUpper unicode s = (if list_all (\<lambda>c. val c < 128) s then map upper_char s else unicode s)"

definition decodeSecret :: "(string \<Rightarrow> string) \<Rightarrow> string \<Rightarrow> string + string" where
  "decodeSecret unicode secret =
     (let secret = ToUpper unicode (filter (\<lambda>c. c \<noteq> CHR '' '') secret);
          m = length secret mod 8;
          secret = (if m \<noteq> 0 then secret @ replicate (8 - m) CHR ''='' else secret)
      in case b32_decode secret of None \<Rightarrow> Inl ''decode totp secret'' | Some key \<Rightarrow> Inr key)"

text \<open>The 20 random bytes are an argument, \<open>None\<close> when there are none.\<close>

definition GenerateSecret :: "string option \<Rightarrow> string + string" where
  "GenerateSecret raw = (case raw of None \<Rightarrow> Inl ''generate totp secret'' | Some secret \<Rightarrow> Inr (b32_encode secret))"

definition GenerateCode :: "(string \<Rightarrow> string) \<Rightarrow> string \<Rightarrow> gotime \<Rightarrow> string + string" where
  "GenerateCode unicode secret t =
     (case decodeSecret unicode secret of Inl e \<Rightarrow> Inl e | Inr key \<Rightarrow> Inr (generateHOTP key (counter_at t) DefaultDigits))"

definition Validate :: "(string \<Rightarrow> string) \<Rightarrow> gotime \<Rightarrow> string \<Rightarrow> string \<Rightarrow> string + bool" where
  "Validate unicode now code secret =
     (if length code \<noteq> DefaultDigits then Inr False
      else (case decodeSecret unicode secret of
          Inl e \<Rightarrow> Inl e
        | Inr key \<Rightarrow>
            Inr (list_ex (\<lambda>i. code = generateHOTP key (counter_at now + word_of_int i) DefaultDigits) [- 1, 0, 1])))"

subsection \<open>The address for the authenticator\<close>

definition hex_upper :: "nat \<Rightarrow> char" where
  "hex_upper n = ''0123456789ABCDEF'' ! n"

definition percent :: "char \<Rightarrow> string" where
  "percent c = [CHR ''%'', hex_upper (val c div 16), hex_upper (val c mod 16)]"

definition unreserved :: "char \<Rightarrow> bool" where
  "unreserved c \<longleftrightarrow> 65 \<le> val c \<and> val c \<le> 90 \<or> 97 \<le> val c \<and> val c \<le> 122 \<or> is_digit c \<or> c \<in> set ''-_.~''"

definition QueryEscape :: "string \<Rightarrow> string" where
  "QueryEscape s = concat (map (\<lambda>c. if unreserved c then [c] else if c = CHR '' '' then ''+'' else percent c) s)"

definition PathEscape :: "string \<Rightarrow> string" where
  "PathEscape s = concat (map (\<lambda>c. if unreserved c \<or> c \<in> set ''$&+=:@'' then [c] else percent c) s)"

text \<open>\<^verbatim>\<open>Values.Encode\<close> sorts the keys.\<close>

definition OTPAuthURI :: "string \<Rightarrow> string \<Rightarrow> string \<Rightarrow> string" where
  "OTPAuthURI secret account issuer =
     (let issuer = (if issuer = [] then ''usulnet'' else issuer)
      in ''otpauth://totp/'' @ PathEscape (issuer @ '':'' @ account) @ ''?algorithm=SHA1&digits=6&issuer='' @
         QueryEscape issuer @ ''&period=30&secret='' @ QueryEscape secret)"

section \<open>Pending tokens\<close>

definition PendingTokenTTL :: duration where
  "PendingTokenTTL = 5 * minute"

definition signature :: "string \<Rightarrow> string \<Rightarrow> string" where
  "signature secret payloadB64 = b64_encode (hmac sha256 secret payloadB64)"

definition GeneratePendingToken :: "string \<Rightarrow> string \<Rightarrow> gotime \<Rightarrow> string" where
  "GeneratePendingToken userID secret now =
     (let expires = unix (time_add now PendingTokenTTL);
          payloadB64 = b64_encode (userID @ '':'' @ format_int expires)
      in payloadB64 @ ''.'' @ signature secret payloadB64)"

definition ValidatePendingToken :: "string \<Rightarrow> string \<Rightarrow> gotime \<Rightarrow> string + string" where
  "ValidatePendingToken token secret now =
     (case Cut CHR ''.'' token of
        None \<Rightarrow> Inl ''invalid token format''
      | Some (payloadB64, sigB64) \<Rightarrow>
          if sigB64 \<noteq> signature secret payloadB64 then Inl ''invalid token signature''
          else (case b64_decode payloadB64 of
              None \<Rightarrow> Inl ''invalid token payload''
            | Some payload \<Rightarrow>
                (case cut_last CHR '':'' payload of
                   None \<Rightarrow> Inl ''invalid token payload format''
                 | Some (userID, expStr) \<Rightarrow>
                     (case Atoi expStr of
                        None \<Rightarrow> Inl ''invalid token expiration''
                      | Some expires \<Rightarrow> if expires < unix now then Inl ''token expired'' else Inr userID))))"

text \<open>The tokens that pass the check of the signature.\<close>

definition signed :: "string \<Rightarrow> string \<Rightarrow> bool" where
  "signed secret token \<longleftrightarrow> (case Cut CHR ''.'' token of None \<Rightarrow> False | Some (p, sig) \<Rightarrow> sig = signature secret p)"

section \<open>Backup codes\<close>

record backup_code =
  bc_Code :: string
  bc_CodeHash :: string
  bc_Used :: bool

text \<open>\<open>hash i\<close> is bcrypt's result for the \<open>i\<close>-th call, \<open>cmp\<close> its comparison.\<close>

definition formatCode :: "(string \<Rightarrow> string) \<Rightarrow> string \<Rightarrow> string" where
  "formatCode unicode code = (if length code < 8 then code else ToUpper unicode (take 4 code @ ''-'' @ drop 4 code))"

definition normalizeCode :: "(string \<Rightarrow> string) \<Rightarrow> string \<Rightarrow> string" where
  "normalizeCode unicode code = ToUpper unicode (filter (\<lambda>c. c \<noteq> CHR ''-'') code)"

definition generateBackupCode :: "string option \<Rightarrow> string option" where
  "generateBackupCode raw = map_option hex_encode raw"

fun generate_codes :: "(string \<Rightarrow> string) \<Rightarrow> (nat \<Rightarrow> string option) \<Rightarrow> (nat \<Rightarrow> string \<Rightarrow> string option) \<Rightarrow> nat \<Rightarrow> nat \<Rightarrow> backup_code list option" where
  "generate_codes unicode raw hash i 0 = Some []"
| "generate_codes unicode raw hash i (Suc n) =
     (case generateBackupCode (raw i) of
        None \<Rightarrow> None
      | Some code \<Rightarrow>
          (case hash i (normalizeCode unicode code) of
             None \<Rightarrow> None
           | Some h \<Rightarrow>
               map_option ((#) \<lparr>bc_Code = formatCode unicode code, bc_CodeHash = h, bc_Used = False\<rparr>) (generate_codes unicode raw hash (Suc i) n)))"

definition GenerateBackupCodes :: "(string \<Rightarrow> string) \<Rightarrow> (nat \<Rightarrow> string option) \<Rightarrow> (nat \<Rightarrow> string \<Rightarrow> string option) \<Rightarrow> int \<Rightarrow> backup_code list option" where
  "GenerateBackupCodes unicode raw hash count = generate_codes unicode raw hash 0 (nat (if count \<le> 0 then 10 else count))"

fun find_code :: "(string \<Rightarrow> string \<Rightarrow> bool) \<Rightarrow> string \<Rightarrow> int \<Rightarrow> backup_code list \<Rightarrow> int" where
  "find_code cmp normalized i [] = - 1"
| "find_code cmp normalized i (code # codes) =
     (if \<not> bc_Used code \<and> cmp (bc_CodeHash code) normalized then i else find_code cmp normalized (i + 1) codes)"

definition ValidateBackupCode :: "(string \<Rightarrow> string) \<Rightarrow> (string \<Rightarrow> string \<Rightarrow> bool) \<Rightarrow> string \<Rightarrow> backup_code list \<Rightarrow> int" where
  "ValidateBackupCode unicode cmp inputCode codes = find_code cmp (normalizeCode unicode inputCode) 0 codes"

definition GetPlaintextCodes :: "backup_code list \<Rightarrow> string list" where
  "GetPlaintextCodes codes = map bc_Code codes"

definition GetCodeHashes :: "backup_code list \<Rightarrow> string list" where
  "GetCodeHashes codes = map bc_CodeHash codes"

definition GetRemainingCount :: "backup_code list \<Rightarrow> int" where
  "GetRemainingCount codes = int (length (filter (\<lambda>c. \<not> bc_Used c) codes))"

text \<open>The simple variant takes the hashes and the marks of the used codes; the answer is whether it matches and where.\<close>

fun find_hash :: "(string \<Rightarrow> string \<Rightarrow> bool) \<Rightarrow> string \<Rightarrow> int \<Rightarrow> (string \<times> bool) list \<Rightarrow> bool \<times> int" where
  "find_hash cmp normalized i [] = (False, - 1)"
| "find_hash cmp normalized i ((hash, used) # codes) =
     (if \<not> used \<and> cmp hash normalized then (True, i) else find_hash cmp normalized (i + 1) codes)"

definition ValidateBackupCodeSimple ::
  "(string \<Rightarrow> string) \<Rightarrow> (string \<Rightarrow> string \<Rightarrow> bool) \<Rightarrow> string \<Rightarrow> string list \<Rightarrow> bool list \<Rightarrow> bool \<times> int" where
  "ValidateBackupCodeSimple unicode cmp inputCode codeHashes usedFlags =
     (if length codeHashes \<noteq> length usedFlags then (False, - 1)
      else find_hash cmp (normalizeCode unicode inputCode) 0 (zip codeHashes usedFlags))"

definition HashBackupCode :: "(string \<Rightarrow> string) \<Rightarrow> (string \<Rightarrow> string option) \<Rightarrow> string \<Rightarrow> string option" where
  "HashBackupCode unicode hash code = hash (normalizeCode unicode code)"

definition CompareBackupCode :: "(string \<Rightarrow> string) \<Rightarrow> (string \<Rightarrow> string \<Rightarrow> bool) \<Rightarrow> string \<Rightarrow> string \<Rightarrow> bool" where
  "CompareBackupCode unicode cmp code hash \<longleftrightarrow> cmp hash (normalizeCode unicode code)"

section \<open>The settings of a user\<close>

text \<open>
  The columns of the table of users. A statement that meets no row is an error.
\<close>

definition SetTOTPSecret :: "gotime option \<Rightarrow> uuid \<Rightarrow> string \<Rightarrow> auth_db \<Rightarrow> auth_error option \<times> auth_db" where
  "SetTOTPSecret st i encrypted db =
     (if st = None then (Some (Failed ''set totp secret''), db)
      else if i \<notin> u_ID ` set (users db) then (Some (NotFound ''user''), db)
      else (None, update_user i (\<lambda>u. u\<lparr>u_TOTPSecret := Some encrypted, u_TOTPEnabled := False, u_TOTPVerifiedAt := None\<rparr>) db))"

definition EnableTOTP :: "gotime option \<Rightarrow> gotime \<Rightarrow> uuid \<Rightarrow> auth_db \<Rightarrow> auth_error option \<times> auth_db" where
  "EnableTOTP st now i db =
     (if st = None then (Some (Failed ''enable totp''), db)
      else if \<not> list_ex (\<lambda>u. u_ID u = i \<and> u_TOTPSecret u \<noteq> None) (users db) then (Some (NotFound ''user''), db)
      else (None, update_user i
              (\<lambda>u. if u_TOTPSecret u \<noteq> None then u\<lparr>u_TOTPEnabled := True, u_TOTPVerifiedAt := Some now\<rparr> else u) db))"

definition repo_DisableTOTP :: "gotime option \<Rightarrow> uuid \<Rightarrow> auth_db \<Rightarrow> auth_error option \<times> auth_db" where
  "repo_DisableTOTP st i db =
     (if st = None then (Some (Failed ''disable totp''), db)
      else if i \<notin> u_ID ` set (users db) then (Some (NotFound ''user''), db)
      else (None, update_user i (\<lambda>u. u\<lparr>u_TOTPSecret := None, u_TOTPEnabled := False, u_TOTPVerifiedAt := None\<rparr>) db))"

text \<open>
  What the adapters and handlers hold: the authentication service, the table of users, the encryption of
  secrets (with a nonce, and back), Unicode's upper case, the key that signs pending tokens.
\<close>

record 'r web_login =
  wl_auth :: "'r auth_service"
  wl_repo :: bool
  wl_encryptor :: "((string \<Rightarrow> string \<Rightarrow> string option) \<times> (string \<Rightarrow> string option)) option"
  wl_unicode :: "string \<Rightarrow> string"
  wl_signing_key :: string

definition parse_id :: "'r web_login \<Rightarrow> string \<Rightarrow> uuid option" where
  "parse_id C = uuid_Parse (dep_jwt (sv_deps (wl_auth C)))"

definition show_id :: "'r web_login \<Rightarrow> uuid \<Rightarrow> string" where
  "show_id C = uuid_String (dep_jwt (sv_deps (wl_auth C)))"

text \<open>The first steps of the adapter's operations: encryption, identifier and user.\<close>

definition totp_user :: "'r web_login \<Rightarrow> gotime option \<Rightarrow> string \<Rightarrow> auth_db \<Rightarrow> auth_error +
    ((string \<Rightarrow> string \<Rightarrow> string option) \<times> (string \<Rightarrow> string option)) \<times> user" where
  "totp_user C st userID db =
     (if \<not> wl_repo C then Inl (Failed ''totp not configured'')
      else case wl_encryptor C of
        None \<Rightarrow> Inl (Failed ''totp not configured'')
      | Some encryptor \<Rightarrow>
          (case parse_id C userID of
             None \<Rightarrow> Inl (Failed ''invalid user ID'')
           | Some i \<Rightarrow> (case user_GetByID st i db of Inl e \<Rightarrow> Inl e | Inr u \<Rightarrow> Inr (encryptor, u))))"

text \<open>\<open>st\<close> answers the statements in their order; the random bytes of the secret and the nonce are arguments.\<close>

definition SetupTOTP ::
  "'r web_login \<Rightarrow> statements \<Rightarrow> string option \<Rightarrow> string \<Rightarrow> string \<Rightarrow> auth_db \<Rightarrow> (auth_error + string \<times> string) \<times> auth_db" where
  "SetupTOTP C st raw nonce userID db =
     (case totp_user C (st 0) userID db of
        Inl e \<Rightarrow> (Inl e, db)
      | Inr ((encrypt, _), u) \<Rightarrow>
          (case GenerateSecret raw of
             Inl e \<Rightarrow> (Inl (Failed e), db)
           | Inr secret \<Rightarrow>
               (case encrypt nonce secret of
                  None \<Rightarrow> (Inl (Failed ''encrypt totp secret''), db)
                | Some encrypted \<Rightarrow>
                    (case SetTOTPSecret (st 1) (u_ID u) encrypted db of
                       (Some e, db) \<Rightarrow> (Inl e, db)
                     | (None, db) \<Rightarrow>
                         (let account = (case u_Email u of Some (c # cs) \<Rightarrow> c # cs | _ \<Rightarrow> u_Username u)
                          in (Inr (secret, OTPAuthURI secret account []), db))))))"

definition VerifyAndEnableTOTP ::
  "'r web_login \<Rightarrow> statements \<Rightarrow> gotime \<Rightarrow> gotime \<Rightarrow> string \<Rightarrow> string \<Rightarrow> auth_db \<Rightarrow> auth_error option \<times> auth_db" where
  "VerifyAndEnableTOTP C st now later userID code db =
     (case totp_user C (st 0) userID db of
        Inl e \<Rightarrow> (Some e, db)
      | Inr ((_, decrypt), u) \<Rightarrow>
          if u_TOTPSecret u = None \<or> u_TOTPSecret u = Some [] then (Some (Failed ''totp not set up''), db)
          else (case decrypt (the (u_TOTPSecret u)) of
              None \<Rightarrow> (Some (Failed ''decrypt totp secret''), db)
            | Some secret \<Rightarrow>
                (case Validate (wl_unicode C) now code secret of
                   Inl e \<Rightarrow> (Some (Failed e), db)
                 | Inr valid \<Rightarrow>
                     if \<not> valid then (Some (Failed ''invalid totp code''), db)
                     else EnableTOTP (st 1) later (u_ID u) db)))"

definition ValidateTOTPCode :: "'r web_login \<Rightarrow> gotime option \<Rightarrow> gotime \<Rightarrow> string \<Rightarrow> string \<Rightarrow> auth_db \<Rightarrow> auth_error + bool" where
  "ValidateTOTPCode C st now userID code db =
     (case totp_user C st userID db of
        Inl e \<Rightarrow> Inl e
      | Inr ((_, decrypt), u) \<Rightarrow>
          if \<not> user_HasTOTP u then Inl (Failed ''totp not enabled'')
          else (case decrypt (the (u_TOTPSecret u)) of
              None \<Rightarrow> Inl (Failed ''decrypt totp secret'')
            | Some secret \<Rightarrow> (case Validate (wl_unicode C) now code secret of Inl e \<Rightarrow> Inl (Failed e) | Inr valid \<Rightarrow> Inr valid)))"

definition DisableTOTP ::
  "'r web_login \<Rightarrow> statements \<Rightarrow> gotime \<Rightarrow> string \<Rightarrow> string \<Rightarrow> auth_db \<Rightarrow> auth_error option \<times> auth_db" where
  "DisableTOTP C st now userID code db =
     (case ValidateTOTPCode C (st 0) now userID code db of
        Inl e \<Rightarrow> (Some e, db)
      | Inr valid \<Rightarrow>
          if \<not> valid then (Some (Failed ''invalid totp code''), db)
          else (case parse_id C userID of
              None \<Rightarrow> (Some (Failed ''invalid user ID''), db)
            | Some i \<Rightarrow> repo_DisableTOTP (st 1) i db))"

text \<open>\<^verbatim>\<open>HasTOTP\<close> of the adapter; it needs no encryption.\<close>

definition HasTOTP :: "'r web_login \<Rightarrow> gotime option \<Rightarrow> string \<Rightarrow> auth_db \<Rightarrow> auth_error + bool" where
  "HasTOTP C st userID db =
     (if \<not> wl_repo C then Inl (Failed ''user repository not configured'')
      else case parse_id C userID of
        None \<Rightarrow> Inl (Failed ''invalid user ID'')
      | Some i \<Rightarrow> (case user_GetByID st i db of Inl e \<Rightarrow> Inl e | Inr u \<Rightarrow> Inr (user_HasTOTP u)))"


section \<open>What the codes and tokens guarantee\<close>

lemma Atoi_format_Some: "Atoi (format_int i) = Some j \<Longrightarrow> j = i"
  by (auto simp: Atoi_def signed_digits_format signed_val_def Let_def split: if_splits)

lemma colon_format_int: "CHR '':'' \<notin> set (format_int i)"
proof
  assume "CHR '':'' \<in> set (format_int i)"
  then have "CHR '':'' \<in> set (decimal (nat \<bar>i\<bar>))" by (auto simp: format_int_def split: if_splits)
  then have "is_digit CHR '':''" using decimal_digits by blast
  then show False by (simp add: is_digit_def)
qed

text \<open>Reading back a token that was handed out.\<close>

lemma ValidatePendingToken_generated:
  "ValidatePendingToken (GeneratePendingToken userID key t) key now =
     (case Atoi (format_int (unix (time_add t PendingTokenTTL))) of
        None \<Rightarrow> Inl ''invalid token expiration''
      | Some expires \<Rightarrow> if expires < unix now then Inl ''token expired'' else Inr userID)"
proof -
  have "CHR ''.'' \<notin> set (b64_encode s)" for s using b64_encode_chars by blast
  then show ?thesis
    by (simp add: ValidatePendingToken_def GeneratePendingToken_def Let_def Cut_append cut_last_append [OF colon_format_int])
qed

lemma unix_expiry: "unix (time_add t PendingTokenTTL) = unix t + 300"
  by (simp add: unix_def time_add_def PendingTokenTTL_def second_def)

lemma ValidatePendingToken_Inr:
  "ValidatePendingToken (GeneratePendingToken userID key t) key now = Inr i \<Longrightarrow> i = userID \<and> unix now \<le> unix t + 300"
  unfolding ValidatePendingToken_generated unix_expiry
  by (auto dest: Atoi_format_Some split: option.splits if_splits)

text \<open>No other token than a signed one passes.\<close>

lemma ValidatePendingToken_signed: "ValidatePendingToken token key now = Inr i \<Longrightarrow> signed key token"
  by (auto simp: ValidatePendingToken_def signed_def split: option.splits if_splits)

text \<open>Codes have six digits, secrets survive the way to the authenticator and back.\<close>

lemma length_decimal: "n < 10 ^ k \<Longrightarrow> 0 < k \<Longrightarrow> length (decimal n) \<le> k"
proof (induction n arbitrary: k rule: decimal.induct)
  case (1 n)
  show ?case
  proof (cases "n < 10")
    case False
    with 1(2,3) have k: "1 < k" by (cases "k = 1") auto
    with 1(2) have "n div 10 < 10 ^ (k - 1)" by (cases k) (auto simp: div_less_iff_less_mult mult.commute)
    with 1(1) [OF False this] k False show ?thesis by (subst decimal.simps) simp
  qed (use 1(3) in \<open>subst decimal.simps, simp\<close>)
qed

lemma length_generateHOTP: "0 < digits \<Longrightarrow> length (generateHOTP key counter digits) = digits"
proof -
  define otp where
    "otp = (let hash = hmac sha1 key (PutUint64 counter); offset = val (last hash) AND 0x0f
            in uint (be_word (take 4 (drop offset hash)) AND 0x7fffffff) mod 10 ^ digits)"
  assume "0 < digits"
  moreover have "0 \<le> otp" "otp < 10 ^ digits" by (simp_all add: otp_def Let_def)
  moreover from this have "nat otp < 10 ^ digits" by (simp add: nat_less_iff)
  ultimately have "length (format_int otp) \<le> digits" using length_decimal by (simp add: format_int_def)
  moreover have "generateHOTP key counter digits = zero_padded digits otp"
    by (simp add: generateHOTP_def otp_def Let_def)
  ultimately show ?thesis by (simp add: zero_padded_def Let_def)
qed

lemma decodeSecret_generated:
  assumes "length raw = 20"
  shows "decodeSecret unicode (b32_encode raw) = Inr raw"
proof -
  have chars: "c \<in> set (b32_encode raw) \<Longrightarrow> c \<in> set b32_alphabet" for c by (rule b32_chars)
  have "list_all (\<lambda>c. val c < 128 \<and> upper_char c = c \<and> c \<noteq> CHR '' '') b32_alphabet" by code_simp
  then have c: "\<forall>c \<in> set (b32_encode raw). val c < 128 \<and> upper_char c = c \<and> c \<noteq> CHR '' ''"
    using chars by (simp add: list_all_iff)
  then have "filter (\<lambda>c. c \<noteq> CHR '' '') (b32_encode raw) = b32_encode raw" by simp
  moreover have "ToUpper unicode (b32_encode raw) = b32_encode raw"
    using c by (simp add: ToUpper_def list_all_iff map_idI)
  moreover have "length (b32_encode raw) = 32" "b32_decode (b32_encode raw) = Some raw"
    using length_b32_encode [of raw] b32_decode_encode [of raw] assms by simp_all
  ultimately show ?thesis by (simp add: decodeSecret_def)
qed

text \<open>The codes of neighbouring periods are accepted; the counter may pass zero.\<close>

lemma counter_at_period: "0 \<le> unix t \<Longrightarrow> unix t < 2 ^ 63 \<Longrightarrow> counter_at t = word_of_int (unix t div 30)"
  by (simp add: counter_at_def DefaultPeriod_def word_div_def uint_word_of_int_eq take_bit_int_eq_self)

definition in_window :: "gotime \<Rightarrow> gotime \<Rightarrow> bool" where
  "in_window t now \<longleftrightarrow> \<bar>unix t div 30 - unix now div 30\<bar> \<le> 1"

definition plausible :: "gotime \<Rightarrow> bool" where
  "plausible t \<longleftrightarrow> 0 \<le> unix t \<and> unix t < 2 ^ 63"

lemma Validate_window:
  assumes "decodeSecret unicode secret = Inr key" "GenerateCode unicode secret t = Inr code"
    and "plausible t" "plausible now" "in_window t now"
  shows "Validate unicode now code secret = Inr True"
proof -
  define i where "i = unix t div 30 - unix now div 30"
  have "counter_at t = counter_at now + word_of_int i"
    using assms(3,4) by (simp add: counter_at_period plausible_def i_def)
  moreover have "i \<in> {- 1, 0, 1}" using assms(5) by (auto simp: i_def in_window_def)
  ultimately have "list_ex (\<lambda>i. generateHOTP key (counter_at t) DefaultDigits = generateHOTP key (counter_at now + word_of_int i) DefaultDigits) [- 1, 0, 1]"
    by auto
  then show ?thesis using assms(1,2) length_generateHOTP [of 6 key "counter_at t"]
    by (simp add: Validate_def GenerateCode_def DefaultDigits_def)
qed

end
