(* ===== verification/Web_Login.thy ===== *)
theory Web_Login
  imports Two_Factor
begin

text \<open>
  Logging in to the web frontend: the adapter of the authentication service
  (\<^verbatim>\<open>internal/web/adapter_auth.go\<close>), the handler of the password form
  (\<^verbatim>\<open>internal/web/handler.go\<close>) and the handlers of the second factor
  (\<^verbatim>\<open>internal/web/handler_frontend.go\<close>).

  The authentication service is configured, as it is in the application. A handler's result is the address it
  redirects to, the pending token it hands out in a cookie, and the web session it stores; \<open>saved\<close> tells
  whether the store takes it. Access events are not kept.
\<close>

section \<open>The adapter\<close>

record user_ctx =
  uc_ID :: string
  uc_Username :: string
  uc_Email :: string
  uc_Role :: string

definition user_context :: "'r web_login \<Rightarrow> user \<Rightarrow> user_ctx" where
  "user_context C u =
     \<lparr>uc_ID = show_id C (u_ID u), uc_Username = u_Username u, uc_Email = (case u_Email u of None \<Rightarrow> [] | Some e \<Rightarrow> e),
      uc_Role = u_Role u\<rparr>"

text \<open>Who asks: \<^verbatim>\<open>r.UserAgent()\<close> and \<^verbatim>\<open>getClientIP(r)\<close>.\<close>

record client =
  cl_UserAgent :: string
  cl_IP :: string

definition adapter_VerifyCredentials ::
  "'r web_login \<Rightarrow> auth_io \<Rightarrow> string \<Rightarrow> string \<Rightarrow> client \<Rightarrow> 'r auth_world \<Rightarrow> (auth_error + user_ctx) \<times> 'r auth_world" where
  "adapter_VerifyCredentials C io username password cl w =
     (case VerifyCredentials (wl_auth C) io
         \<lparr>in_Username = username, in_Password = password, in_UserAgent = cl_UserAgent cl, in_IPAddress = cl_IP cl\<rparr> w of
        (Inl e, w) \<Rightarrow> (Inl e, w)
      | (Inr u, w) \<Rightarrow> (Inr (user_context C u), w))"

definition CreateSessionForUser ::
  "'r web_login \<Rightarrow> auth_io \<Rightarrow> string \<Rightarrow> client \<Rightarrow> 'r auth_world \<Rightarrow> (auth_error + user_ctx) \<times> 'r auth_world" where
  "CreateSessionForUser C io userID cl w =
     (case parse_id C userID of
        None \<Rightarrow> (Inl (Failed ''invalid user ID''), w)
      | Some i \<Rightarrow>
          (case user_GetByID (io_st io 0) i (w_db w) of
             Inl e \<Rightarrow> (Inl e, w)
           | Inr u \<Rightarrow>
               (case createLoginSession (wl_auth C) (io_after 1 io) u
                   \<lparr>in_Username = u_Username u, in_Password = [], in_UserAgent = cl_UserAgent cl, in_IPAddress = cl_IP cl\<rparr> w of
                  (Inl e, w) \<Rightarrow> (Inl e, w)
                | (Inr r, w) \<Rightarrow> (Inr (user_context C (lr_User r)), w))))"

section \<open>The handlers\<close>

record login_outcome =
  lo_redirect :: string
  lo_pending :: "string option"
  lo_session :: "user_ctx option"

definition redirect_to :: "string \<Rightarrow> login_outcome" where
  "redirect_to url = \<lparr>lo_redirect = url, lo_pending = None, lo_session = None\<rparr>"

definition landing_page :: "string \<Rightarrow> string" where
  "landing_page returnURL =
     (if returnURL \<noteq> [] \<and> returnURL \<noteq> ''/login'' \<and> HasPrefix returnURL ''/'' \<and> \<not> HasPrefix returnURL ''//'' then returnURL else ''/'')"

text \<open>What the two handlers share: the session of the service, the web session, the way on.\<close>

definition start_session ::
  "'r web_login \<Rightarrow> auth_io \<Rightarrow> bool \<Rightarrow> string \<Rightarrow> string \<Rightarrow> client \<Rightarrow> 'r auth_world \<Rightarrow> login_outcome \<times> 'r auth_world" where
  "start_session C io saved userID returnURL cl w =
     (case CreateSessionForUser C io userID cl w of
        (Inl e, w) \<Rightarrow> (redirect_to ''/login?error=Session+creation+failed'', w)
      | (Inr ctx, w) \<Rightarrow>
          if \<not> saved then (redirect_to ''/login?error=Session+creation+failed'', w)
          else ((redirect_to (landing_page returnURL))\<lparr>lo_session := Some ctx\<rparr>, w))"

record login_form =
  lf_username :: string
  lf_password :: string
  lf_return_url :: string

text \<open>The statements are those of the check of the credentials (two at most), of \<^verbatim>\<open>HasTOTP\<close>, of the session.\<close>

definition LoginSubmit ::
  "'r web_login \<Rightarrow> auth_io \<Rightarrow> gotime \<Rightarrow> bool \<Rightarrow> client \<Rightarrow> login_form option \<Rightarrow> 'r auth_world \<Rightarrow> login_outcome \<times> 'r auth_world" where
  "LoginSubmit C io now saved cl form w =
     (case form of
        None \<Rightarrow> (redirect_to ''/login?error=Invalid+form+data'', w)
      | Some f \<Rightarrow>
          if lf_username f = [] \<or> lf_password f = [] then
            (redirect_to (''/login?error=Username+and+password+required&username='' @ QueryEscape (lf_username f)), w)
          else (case adapter_VerifyCredentials C io (lf_username f) (lf_password f) cl w of
              (Inl e, w) \<Rightarrow> (redirect_to (''/login?error=Invalid+username+or+password&username='' @ QueryEscape (lf_username f)), w)
            | (Inr userCtx, w) \<Rightarrow>
                (let hasTOTP = (case HasTOTP C (io_st io 2) (uc_ID userCtx) (w_db w) of Inl e \<Rightarrow> False | Inr b \<Rightarrow> b);
                     returnURL = lf_return_url f in
                 if hasTOTP \<and> wl_signing_key C \<noteq> [] then
                   ((redirect_to (''/login/totp'' @ (if returnURL \<noteq> [] then ''?return='' @ returnURL else [])))
                      \<lparr>lo_pending := Some (GeneratePendingToken (uc_ID userCtx) (wl_signing_key C) now)\<rparr>, w)
                 else start_session C (io_after 3 io) saved (uc_ID userCtx) returnURL cl w)))"

text \<open>\<open>Inl\<close> is a redirect, \<open>Inr\<close> the page for the code with the token of the cookie.\<close>

definition TOTPVerifyPageTempl :: "'r web_login \<Rightarrow> gotime \<Rightarrow> string option \<Rightarrow> string + string" where
  "TOTPVerifyPageTempl C now cookie =
     (if cookie = None \<or> cookie = Some [] then Inl ''/login''
      else if wl_signing_key C = [] then Inl ''/login?error=2FA+not+configured''
      else (case ValidatePendingToken (the cookie) (wl_signing_key C) now of
          Inl e \<Rightarrow> Inl ''/login?error=Session+expired,+please+login+again''
        | Inr userID \<Rightarrow> Inr (the cookie)))"

record totp_form =
  tf_token :: string
  tf_code :: string
  tf_return_url :: string

definition form_token :: "totp_form \<Rightarrow> string option \<Rightarrow> string" where
  "form_token f cookie = (if tf_token f = [] then (case cookie of None \<Rightarrow> [] | Some v \<Rightarrow> v) else tf_token f)"

text \<open>\<open>Inl\<close> of the form is the message of \<^verbatim>\<open>BindForm\<close>; \<open>now\<close> and \<open>later\<close> are the clock at the two checks.\<close>

definition TOTPVerifySubmit ::
  "'r web_login \<Rightarrow> auth_io \<Rightarrow> gotime \<Rightarrow> gotime \<Rightarrow> bool \<Rightarrow> client \<Rightarrow> string + totp_form \<Rightarrow> string option \<Rightarrow> 'r auth_world \<Rightarrow>
   login_outcome \<times> 'r auth_world" where
  "TOTPVerifySubmit C io now later saved cl form cookie w =
     (case form of
        Inl msg \<Rightarrow> (redirect_to (''/login?error='' @ QueryEscape msg), w)
      | Inr f \<Rightarrow>
          (let token = form_token f cookie; code = tf_code f; returnURL = tf_return_url f in
           if token = [] \<or> code = [] then (redirect_to ''/login?error=Invalid+request'', w)
           else (case ValidatePendingToken token (wl_signing_key C) now of
               Inl e \<Rightarrow> (redirect_to ''/login?error=Session+expired,+please+login+again'', w)
             | Inr userID \<Rightarrow>
                 if ValidateTOTPCode C (io_st io 0) later userID code (w_db w) \<noteq> Inr True then
                   (redirect_to (''/login/totp?error=Invalid+code,+please+try+again'' @
                      (if returnURL \<noteq> [] then ''&return='' @ returnURL else [])), w)
                 else start_session C (io_after 1 io) saved userID returnURL cl w)))"

subsection \<open>Settings\<close>

text \<open>
  The page shows whether the second factor is on; if not, it makes a new secret. \<open>Inl\<close> is a redirect,
  \<open>Inr\<close> the page: the state, the error and the secret with its address.
\<close>

definition TOTPSetupPageTempl ::
  "'r web_login \<Rightarrow> statements \<Rightarrow> string option \<Rightarrow> string \<Rightarrow> (auth_error \<Rightarrow> string) \<Rightarrow> user_ctx option \<Rightarrow> string \<Rightarrow> auth_db \<Rightarrow>
   (string + bool \<times> string \<times> (string \<times> string) option) \<times> auth_db" where
  "TOTPSetupPageTempl C st raw nonce show user errorMsg db =
     (case user of
        None \<Rightarrow> (Inl ''/login'', db)
      | Some u \<Rightarrow>
          (let hasTOTP = (case HasTOTP C (st 0) (uc_ID u) db of Inl e \<Rightarrow> False | Inr b \<Rightarrow> b) in
           if hasTOTP then (Inr (True, errorMsg, None), db)
           else (case SetupTOTP C (\<lambda>n. st (1 + n)) raw nonce (uc_ID u) db of
               (Inl e, db) \<Rightarrow> (Inr (False, ''Failed to generate 2FA secret: '' @ show e, None), db)
             | (Inr r, db) \<Rightarrow> (Inr (False, errorMsg, Some r), db))))"

text \<open>The form is \<open>None\<close> when it does not bind, for example without a code.\<close>

definition TOTPVerifySetupSubmit ::
  "'r web_login \<Rightarrow> statements \<Rightarrow> gotime \<Rightarrow> gotime \<Rightarrow> string option \<Rightarrow> user_ctx option \<Rightarrow> auth_db \<Rightarrow> string \<times> auth_db" where
  "TOTPVerifySetupSubmit C st now later form user db =
     (case form of
        None \<Rightarrow> (''/settings/totp?error=Please+enter+a+code'', db)
      | Some code \<Rightarrow>
          (case user of
             None \<Rightarrow> (''/login'', db)
           | Some u \<Rightarrow>
               (case VerifyAndEnableTOTP C st now later (uc_ID u) code db of
                  (Some e, db) \<Rightarrow> (''/settings/totp?error=Invalid+code.+Make+sure+your+authenticator+app+is+synced'', db)
                | (None, db) \<Rightarrow> (''/settings/totp?success=Two-factor+authentication+enabled+successfully'', db))))"

definition TOTPDisableSubmit ::
  "'r web_login \<Rightarrow> statements \<Rightarrow> gotime \<Rightarrow> string option \<Rightarrow> user_ctx option \<Rightarrow> auth_db \<Rightarrow> string \<times> auth_db" where
  "TOTPDisableSubmit C st now form user db =
     (case form of
        None \<Rightarrow> (''/settings/totp?error=Please+enter+your+current+TOTP+code'', db)
      | Some code \<Rightarrow>
          (case user of
             None \<Rightarrow> (''/login'', db)
           | Some u \<Rightarrow>
               (case DisableTOTP C st now (uc_ID u) code db of
                  (Some e, db) \<Rightarrow> (''/settings/totp?error=Invalid+code.+Cannot+disable+2FA'', db)
                | (None, db) \<Rightarrow> (''/settings/totp?success=Two-factor+authentication+disabled'', db))))"

section \<open>Requests in a running server\<close>

datatype web_request = PasswordForm "login_form option" | CodeForm "string + totp_form" "string option"

fun request_token :: "web_request \<Rightarrow> string option" where
  "request_token (CodeForm (Inr f) cookie) = Some (form_token f cookie)"
| "request_token _ = None"

fun request_code :: "web_request \<Rightarrow> string" where
  "request_code (CodeForm (Inr f) cookie) = tf_code f"
| "request_code _ = []"

fun handle_login ::
  "'r web_login \<Rightarrow> auth_io \<Rightarrow> gotime \<Rightarrow> bool \<Rightarrow> client \<Rightarrow> web_request \<Rightarrow> 'r auth_world \<Rightarrow> login_outcome \<times> 'r auth_world" where
  "handle_login C io now saved cl (PasswordForm form) w = LoginSubmit C io now saved cl form w"
| "handle_login C io now saved cl (CodeForm form cookie) w = TOTPVerifySubmit C io now now saved cl form cookie w"

text \<open>
  The clock, the tables, the pending tokens handed out so far. Between the requests the rest of the program
  does to the tables what it wants; a request reads the clock once.
\<close>

record 'r web_world =
  ww_clock :: gotime
  ww_auth :: "'r auth_world"
  ww_issued :: "string list"

inductive web_step :: "'r web_login \<Rightarrow> 'r web_world \<Rightarrow> 'r web_world \<Rightarrow> bool" for C where
  time_passes: "ww_clock w \<le> t \<Longrightarrow> web_step C w (w\<lparr>ww_clock := t\<rparr>)"
| others: "web_step C w (w\<lparr>ww_auth := A\<rparr>)"
| login_request:
    "handle_login C io (ww_clock w) saved cl req (ww_auth w) = (out, A) \<Longrightarrow> io_clk io 0 = ww_clock w \<Longrightarrow>
     web_step C w (w\<lparr>ww_auth := A, ww_issued := (case lo_pending out of None \<Rightarrow> [] | Some token \<Rightarrow> [token]) @ ww_issued w\<rparr>)"

end
