(* ===== verification/Web_Login_Props.thy ===== *)
theory Web_Login_Props
  imports Web_Login
begin

text \<open>
  What the second factor guarantees: who gets a web session, how long a pending token lives, that
  setting it up makes it work; and the ways around it.
\<close>

section \<open>Users\<close>

lemma find_map: "find P (map f xs) = map_option f (find (\<lambda>x. P (f x)) xs)"
  by (induction xs) auto

lemma user_GetByID_Inr: "user_GetByID st i db = Inr u \<Longrightarrow> st \<noteq> None \<and> find (\<lambda>u. u_ID u = i) (users db) = Some u \<and> u_ID u = i"
  by (auto simp: user_GetByID_def find_Some_iff split: if_splits option.splits)

lemma user_GetByID_update:
  assumes "user_GetByID st i db = Inr u" "\<And>u. u_ID (f u) = u_ID u" "st' \<noteq> None"
  shows "user_GetByID st' i (update_user i f db) = Inr (f u)"
proof -
  have "u_ID (if u_ID u = i then f u else u) = u_ID u" for u using assms(2) by simp
  then show ?thesis using user_GetByID_Inr [OF assms(1)] assms(3) by (simp add: user_GetByID_def find_map)
qed

lemma totp_user_Inr:
  "totp_user C st userID db = Inr (cr, u) \<longleftrightarrow>
   wl_repo C \<and> wl_encryptor C = Some cr \<and> (\<exists>i. parse_id C userID = Some i \<and> user_GetByID st i db = Inr u)"
  by (auto simp: totp_user_def split: option.splits sum.splits)

text \<open>An update of other columns does not change who has a second factor.\<close>

lemma HasTOTP_user_Update: "HasTOTP C st i (snd (user_Update st' now v db)) = HasTOTP C st i db"
proof -
  let ?f = "\<lambda>v u. u\<lparr>u_Email := u_Email v, u_PasswordHash := u_PasswordHash v, u_Role := u_Role v,
                    u_IsActive := u_IsActive v, u_UpdatedAt := now\<rparr>"
  have "find (\<lambda>u. u_ID u = j) (users (update_user (u_ID v) (?f v) db)) =
      map_option (\<lambda>u. if u_ID u = u_ID v then ?f v u else u) (find (\<lambda>u. u_ID u = j) (users db))" for j
    by (simp add: find_map if_distrib [of u_ID] cong: if_cong)
  moreover have "user_HasTOTP (if u_ID u = u_ID v then ?f v u else u) = user_HasTOTP u" for u
    by (simp add: user_HasTOTP_def)
  ultimately show ?thesis
    by (auto simp: HasTOTP_def user_GetByID_def user_Update_def split: option.splits)
qed

lemma HasTOTP_try_ldap: "HasTOTP C st i (w_db (snd (try_ldap ps io u input w))) = HasTOTP C st i (w_db w)"
  by (induction ps io u input w rule: try_ldap.induct) (auto simp: HasTOTP_user_Update Let_def split: option.splits)

lemma VerifyCredentials_Inr:
  assumes "VerifyCredentials sv io input w = (Inr u, w')"
  shows "\<exists>v. u_ID v = u_ID u \<and> may_login sv (io_clk io 0) input v" "HasTOTP C st i (w_db w') = HasTOTP C st i (w_db w)"
proof -
  obtain v where v: "user_GetByUsername (dep_lower (sv_deps sv)) (io_st io 0) (in_Username input) (w_db w) = Inr v"
    using assms by (auto simp: VerifyCredentials_def split: sum.splits)
  show "\<exists>v. u_ID v = u_ID u \<and> may_login sv (io_clk io 0) input v"
  proof (rule exI [of _ v], cases "u_IsLDAP v")
    case True
    with assms v show "u_ID v = u_ID u \<and> may_login sv (io_clk io 0) input v"
      by (auto simp: VerifyCredentials_def verifyLDAPCredentials_def may_login_def
          dest: try_ldap_accepts id_try_ldap split: if_splits prod.splits option.splits)
  qed (use assms v in \<open>auto simp: VerifyCredentials_def may_login_def split: if_splits\<close>)
  show "HasTOTP C st i (w_db w') = HasTOTP C st i (w_db w)"
  proof (cases "u_IsLDAP v")
    case True
    with assms v HasTOTP_try_ldap [of C st i "sv_ldap sv" "io_after 1 io" v input w] show ?thesis
      by (auto simp: VerifyCredentials_def verifyLDAPCredentials_def split: if_splits prod.splits option.splits)
  qed (use assms v in \<open>auto simp: VerifyCredentials_def split: if_splits\<close>)
qed


section \<open>The two handlers\<close>

lemma start_session_user:
  assumes "start_session C io saved userID url cl w = (out, A)" "lo_session out = Some s"
  shows "\<exists>i. parse_id C userID = Some i \<and> uc_ID s = show_id C i"
proof -
  obtain ctx w1 where ctx: "CreateSessionForUser C io userID cl w = (Inr ctx, w1)" "s = ctx"
    using assms by (auto simp: start_session_def redirect_to_def split: prod.splits sum.splits if_splits)
  then obtain i u r input where i: "parse_id C userID = Some i" "user_GetByID (io_st io 0) i (w_db w) = Inr u"
    "createLoginSession (wl_auth C) (io_after 1 io) u input w = (Inr r, w1)" "ctx = user_context C (lr_User r)"
    by (auto simp: CreateSessionForUser_def split: prod.splits sum.splits option.splits)
  then have "lr_User r = u" "u_ID u = i" using createLoginSession_session user_GetByID_Inr by blast+
  with i ctx show ?thesis by (simp add: user_context_def)
qed

lemma start_session_pending: "lo_pending (fst (start_session C io saved userID url cl w)) = None"
  by (auto simp: start_session_def redirect_to_def split: prod.split sum.split)

lemma adapter_VerifyCredentials_Inr:
  assumes "adapter_VerifyCredentials C io username password cl w = (Inr ctx, w')"
  shows "\<exists>v input. uc_ID ctx = show_id C (u_ID v) \<and> may_login (wl_auth C) (io_clk io 0) input v"
    "HasTOTP C st i (w_db w') = HasTOTP C st i (w_db w)"
proof -
  obtain u input where "VerifyCredentials (wl_auth C) io input w = (Inr u, w')" "ctx = user_context C u"
    using assms by (auto simp: adapter_VerifyCredentials_def split: prod.splits sum.splits)
  note u = this
  obtain v where "u_ID v = u_ID u" "may_login (wl_auth C) (io_clk io 0) input v" using VerifyCredentials_Inr(1) [OF u(1)] by blast
  with u(2) have "uc_ID ctx = show_id C (u_ID v) \<and> may_login (wl_auth C) (io_clk io 0) input v" by (simp add: user_context_def)
  then show "\<exists>v input. uc_ID ctx = show_id C (u_ID v) \<and> may_login (wl_auth C) (io_clk io 0) input v" by blast
  show "HasTOTP C st i (w_db w') = HasTOTP C st i (w_db w)" using VerifyCredentials_Inr(2) [OF u(1)] .
qed

text \<open>The answer to a password: redirects alone, a pending token, or a session.\<close>

lemma LoginSubmit_cases:
  assumes "LoginSubmit C io now saved cl form w = (out, A)"
  obtains "lo_pending out = None" "lo_session out = None"
  | ctx :: user_ctx and v input where "uc_ID ctx = show_id C (u_ID v)" "may_login (wl_auth C) (io_clk io 0) input v"
      "lo_pending out = Some (GeneratePendingToken (uc_ID ctx) (wl_signing_key C) now)" "lo_session out = None"
  | ctx :: user_ctx and v input w1 url where "uc_ID ctx = show_id C (u_ID v)" "may_login (wl_auth C) (io_clk io 0) input v"
      "HasTOTP C (io_st io 2) (uc_ID ctx) (w_db w) \<noteq> Inr True \<or> wl_signing_key C = []"
      "start_session C (io_after 3 io) saved (uc_ID ctx) url cl w1 = (out, A)"
proof (cases "\<exists>f ctx w1. form = Some f \<and> lf_username f \<noteq> [] \<and> lf_password f \<noteq> [] \<and>
    adapter_VerifyCredentials C io (lf_username f) (lf_password f) cl w = (Inr ctx, w1)")
  case True
  then obtain f ctx w1 where f: "form = Some f" "lf_username f \<noteq> []" "lf_password f \<noteq> []"
    "adapter_VerifyCredentials C io (lf_username f) (lf_password f) cl w = (Inr ctx, w1)" by blast
  note verified = adapter_VerifyCredentials_Inr [OF f(4)]
  obtain v input where v: "uc_ID ctx = show_id C (u_ID v)" "may_login (wl_auth C) (io_clk io 0) input v"
    using verified(1) by blast
  show thesis
  proof (cases "HasTOTP C (io_st io 2) (uc_ID ctx) (w_db w) \<noteq> Inr True \<or> wl_signing_key C = []")
    case True
    with assms f verified(2) have "start_session C (io_after 3 io) saved (uc_ID ctx) (lf_return_url f) cl w1 = (out, A)"
      by (auto simp: LoginSubmit_def Let_def split: sum.splits if_splits)
    from that(3) [OF v True this] show thesis .
  next
    case False
    with assms f verified(2) have "lo_pending out = Some (GeneratePendingToken (uc_ID ctx) (wl_signing_key C) now)" "lo_session out = None"
      by (auto simp: LoginSubmit_def Let_def redirect_to_def)
    from that(2) [OF v this] show thesis .
  qed
qed (use assms that(1) in \<open>auto simp: LoginSubmit_def redirect_to_def split: option.splits prod.splits sum.splits if_splits\<close>)

lemma TOTPVerifySubmit_cases:
  assumes "TOTPVerifySubmit C io now later saved cl form cookie w = (out, A)"
  obtains "lo_pending out = None" "lo_session out = None"
  | f userID where "form = Inr f" "ValidatePendingToken (form_token f cookie) (wl_signing_key C) now = Inr userID"
      "ValidateTOTPCode C (io_st io 0) later userID (tf_code f) (w_db w) = Inr True"
      "start_session C (io_after 1 io) saved userID (tf_return_url f) cl w = (out, A)"
  using assms
  by (cases form) (auto simp: TOTPVerifySubmit_def Let_def redirect_to_def split: sum.splits if_splits)

section \<open>Pending tokens in a running server\<close>

definition tokens_ok :: "'r web_login \<Rightarrow> 'r web_world \<Rightarrow> bool" where
  "tokens_ok C w \<longleftrightarrow> (\<forall>token \<in> set (ww_issued w). \<exists>v input t. t \<le> ww_clock w \<and> may_login (wl_auth C) t input v \<and>
     token = GeneratePendingToken (show_id C (u_ID v)) (wl_signing_key C) t)"

lemma tokens_ok_step:
  assumes "tokens_ok C w" "web_step C w w'"
  shows "tokens_ok C w'"
  using assms(2)
proof cases
  case (time_passes t)
  show ?thesis unfolding tokens_ok_def
  proof
    fix token
    assume "token \<in> set (ww_issued w')"
    then obtain v input t0 where "t0 \<le> ww_clock w" "may_login (wl_auth C) t0 input v"
      "token = GeneratePendingToken (show_id C (u_ID v)) (wl_signing_key C) t0"
      using assms(1) time_passes(1) by (auto simp: tokens_ok_def)
    moreover from this have "t0 \<le> ww_clock w'" using time_passes by simp
    ultimately show "\<exists>v input t. t \<le> ww_clock w' \<and> may_login (wl_auth C) t input v \<and>
        token = GeneratePendingToken (show_id C (u_ID v)) (wl_signing_key C) t" by blast
  qed
next
  case (others A)
  with assms(1) show ?thesis by (simp add: tokens_ok_def)
next
  case (login_request io saved cl req out A)
  have "\<exists>v input. may_login (wl_auth C) (ww_clock w) input v \<and>
      token = GeneratePendingToken (show_id C (u_ID v)) (wl_signing_key C) (ww_clock w)" if token: "lo_pending out = Some token" for token
  proof (cases req)
    case (PasswordForm form)
    with login_request(2) have "LoginSubmit C io (ww_clock w) saved cl form (ww_auth w) = (out, A)" by simp
    then show ?thesis
    proof (cases rule: LoginSubmit_cases)
      case (2 ctx v input)
      with token login_request(3) show ?thesis by auto
    next
      case (3 ctx v input w1 url)
      with token start_session_pending [of C "io_after 3 io" saved "uc_ID ctx" url cl w1] show ?thesis by simp
    qed (use token in simp)
  next
    case (CodeForm form cookie)
    with login_request(2) have "TOTPVerifySubmit C io (ww_clock w) (ww_clock w) saved cl form cookie (ww_auth w) = (out, A)" by simp
    then show ?thesis
    proof (cases rule: TOTPVerifySubmit_cases)
      case (2 f userID)
      with token start_session_pending [of C "io_after 1 io" saved userID "tf_return_url f" cl "ww_auth w"] show ?thesis by simp
    qed (use token in simp)
  qed
  with assms(1) login_request(1) show ?thesis by (fastforce simp: tokens_ok_def split: option.splits)
qed

interpretation web: step_invariant "web_step C" "tokens_ok C" for C :: "'r web_login"
  by unfold_locales (rule tokens_ok_step)


section \<open>Properties\<close>


text \<open>
  C36. A pending token gives back its user for five minutes and is refused afterwards.
\<close>

theorem pending_token_lifetime:
  assumes "fits64 (unix t + 300)"
  shows "ValidatePendingToken (GeneratePendingToken userID key t) key now =
    (if unix t + 300 < unix now then Inl ''token expired'' else Inr userID)"
  using assms by (simp add: ValidatePendingToken_generated unix_expiry)

text \<open>
  C16. Setting up the second factor works: the secret shown by the setup, entered in an authenticator, gives codes that
  switch the factor on, and from then on each of its codes is accepted in its own period and in the two next to it.
\<close>

theorem totp_enrolment:
  assumes "wl_encryptor C = Some (encrypt, decrypt)"
    and "\<forall>nonce text encrypted. encrypt nonce text = Some encrypted \<longrightarrow> encrypted \<noteq> [] \<and> decrypt encrypted = Some text"
    and "SetupTOTP C st (Some raw) nonce userID db = (Inr (secret, uri), db1)" "length raw = 20"
    and "GenerateCode (wl_unicode C) secret t = Inr code" "plausible t" "plausible now" "in_window t now"
    and "st' 0 \<noteq> None" "st' 1 \<noteq> None"
  shows "\<exists>db2. VerifyAndEnableTOTP C st' now later userID code db1 = (None, db2) \<and>
    HasTOTP C (Some x) userID db1 = Inr False \<and> HasTOTP C (Some x) userID db2 = Inr True \<and>
    (\<forall>t' now' code'. GenerateCode (wl_unicode C) secret t' = Inr code' \<and> plausible t' \<and> plausible now' \<and> in_window t' now' \<longrightarrow>
       ValidateTOTPCode C (Some x) now' userID code' db2 = Inr True)"
proof -
  obtain u encrypted where made: "totp_user C (st 0) userID db = Inr ((encrypt, decrypt), u)" "secret = b32_encode raw"
    "encrypt nonce secret = Some encrypted" "SetTOTPSecret (st 1) (u_ID u) encrypted db = (None, db1)"
    using assms(1,3) by (auto simp: SetupTOTP_def GenerateSecret_def totp_user_Inr split: sum.splits option.splits prod.splits)
  then obtain i where i: "wl_repo C" "parse_id C userID = Some i" "user_GetByID (st 0) i db = Inr u" "u_ID u = i"
    by (auto simp: totp_user_Inr dest: user_GetByID_Inr)
  let ?u1 = "u\<lparr>u_TOTPSecret := Some encrypted, u_TOTPEnabled := False, u_TOTPVerifiedAt := None\<rparr>"
  let ?u2 = "?u1\<lparr>u_TOTPEnabled := True, u_TOTPVerifiedAt := Some later\<rparr>"
  have db1: "db1 = update_user i (\<lambda>u. u\<lparr>u_TOTPSecret := Some encrypted, u_TOTPEnabled := False, u_TOTPVerifiedAt := None\<rparr>) db"
    using made(4) i(4) by (auto simp: SetTOTPSecret_def split: if_splits)
  have u1: "user_GetByID s i db1 = Inr ?u1" if "s \<noteq> None" for s
    unfolding db1 using that i(3) by (intro user_GetByID_update) auto
  have dec: "encrypted \<noteq> []" "decrypt encrypted = Some secret" "decodeSecret (wl_unicode C) secret = Inr raw"
    using assms(2,4) made(2,3) decodeSecret_generated by auto
  have ok: "Validate (wl_unicode C) now' code' secret = Inr True"
    if "GenerateCode (wl_unicode C) secret t' = Inr code'" "plausible t'" "plausible now'" "in_window t' now'" for t' now' code'
    using Validate_window [OF dec(3) that] .
  let ?db2 = "update_user i (\<lambda>u. if u_TOTPSecret u \<noteq> None then u\<lparr>u_TOTPEnabled := True, u_TOTPVerifiedAt := Some later\<rparr> else u) db1"
  have u2: "user_GetByID s i ?db2 = Inr ?u2" if "s \<noteq> None" for s
    using user_GetByID_update [OF u1 [OF that], of "\<lambda>u. if u_TOTPSecret u \<noteq> None then u\<lparr>u_TOTPEnabled := True, u_TOTPVerifiedAt := Some later\<rparr> else u" s] that
    by simp
  have "?u1 \<in> set (users db1)" using user_GetByID_Inr [OF u1 [of "Some 0"]] by (auto simp: find_Some_iff)
  then have "list_ex (\<lambda>u. u_ID u = i \<and> u_TOTPSecret u \<noteq> None) (users db1)"
    unfolding list_ex_iff using i(4) by (intro bexI [of _ ?u1]) simp_all
  then have enable: "EnableTOTP (st' 1) later i db1 = (None, ?db2)" using assms(10) by (auto simp: EnableTOTP_def)
  have rows: "totp_user C s userID db1 = Inr ((encrypt, decrypt), ?u1)" "totp_user C s userID ?db2 = Inr ((encrypt, decrypt), ?u2)"
    if "s \<noteq> None" for s
    using that i assms(1) u1 u2 by (auto simp: totp_user_Inr)
  have "VerifyAndEnableTOTP C st' now later userID code db1 = (None, ?db2)"
    using rows(1) [OF assms(9)] dec ok [OF assms(5-8)] enable i(4) by (simp add: VerifyAndEnableTOTP_def)
  moreover have "HasTOTP C (Some x) userID db1 = Inr False" "HasTOTP C (Some x) userID ?db2 = Inr True"
    using i(1,2) u1 [of "Some x"] u2 [of "Some x"] dec(1) by (simp_all add: HasTOTP_def user_HasTOTP_def)
  moreover have "ValidateTOTPCode C (Some x) now' userID code' ?db2 = Inr True"
    if "GenerateCode (wl_unicode C) secret t' = Inr code'" "plausible t'" "plausible now'" "in_window t' now'" for t' now' code'
    using rows(2) [of "Some x"] dec ok [OF that] by (simp add: ValidateTOTPCode_def user_HasTOTP_def)
  ultimately show ?thesis by blast
qed


section \<open>The properties at work\<close>

definition demo_login :: "string \<Rightarrow> mem_kv web_login" where
  "demo_login key =
     \<lparr>wl_auth = demo_service, wl_repo = True, wl_encryptor = Some (\<lambda>nonce s. if CHR ''#'' \<in> set nonce then None else Some (nonce @ CHR ''#'' # s), \<lambda>s. map_option snd (Cut CHR ''#'' s)),
      wl_unicode = id, wl_signing_key = key\<rparr>"

text \<open>Ann, with the secret of the documentation of the key URI format.\<close>

definition ann_world :: "bool \<Rightarrow> mem_kv auth_world" where
  "ann_world active =
     demo_world\<lparr>w_db := \<lparr>users = [demo_user\<lparr>u_TOTPSecret := Some ''#JBSWY3DPEHPK3PXP'', u_IsActive := active\<rparr>], sessions = [], api_keys = []\<rparr>\<rparr>"

definition demo_client :: client where
  "demo_client = \<lparr>cl_UserAgent = ''ua'', cl_IP = ''10.0.0.1''\<rparr>"

definition ann_form :: login_form where
  "ann_form = \<lparr>lf_username = ''ann'', lf_password = ''Pw'', lf_return_url = ''/hosts''\<rparr>"

lemma demo_login_sel [simp]:
  "wl_auth (demo_login key) = demo_service" "wl_repo (demo_login key)" "wl_signing_key (demo_login key) = key" "wl_unicode (demo_login key) = id"
  "wl_encryptor (demo_login key) = Some (\<lambda>nonce s. if CHR ''#'' \<in> set nonce then None else Some (nonce @ CHR ''#'' # s), \<lambda>s. map_option snd (Cut CHR ''#'' s))"
  by (simp_all add: demo_login_def)

abbreviation ann_id :: string where
  "ann_id \<equiv> uuid_String ref_jwt 1"

lemma ann_ids [simp]: "show_id (demo_login key) i = uuid_String ref_jwt i" "parse_id (demo_login key) ann_id = Some 1"
  by (simp_all add: parse_id_def show_id_def demo_service_def ref_jwt.uuid_parse_string)

lemma io_after_demo [simp]: "io_after n (demo_io t raw i) = demo_io t raw i"
  by (simp add: io_after_def demo_io_def)

lemma ann_has_totp: "HasTOTP (demo_login key) (Some t) ann_id (w_db (ann_world active)) = Inr True"
  by (simp add: HasTOTP_def user_GetByID_def ann_world_def user_HasTOTP_def demo_user_def)

lemma ann_verified:
  "adapter_VerifyCredentials (demo_login key) (demo_io t ''R1'' 5) ''ann'' ''Pw'' demo_client (ann_world True) =
   (Inr \<lparr>uc_ID = ann_id, uc_Username = ''ann'', uc_Email = [], uc_Role = ''admin''\<rparr>, ann_world True)"
proof -
  have "VerifyCredentials demo_service (demo_io t ''R1'' 5)
      \<lparr>in_Username = ''ann'', in_Password = ''Pw'', in_UserAgent = cl_UserAgent demo_client, in_IPAddress = cl_IP demo_client\<rparr> (ann_world True) =
    (Inr (demo_user\<lparr>u_TOTPSecret := Some ''#JBSWY3DPEHPK3PXP'', u_IsActive := True\<rparr>), ann_world True)"
    by (simp add: VerifyCredentials_def user_GetByUsername_def demo_io_def ann_world_def user_IsLocked_def CheckPassword_def)
      (simp add: demo_service_def demo_user_def)
  then show ?thesis
    by (simp add: adapter_VerifyCredentials_def user_context_def) (simp add: demo_user_def)
qed

lemma ann_password:
  "LoginSubmit (demo_login key) (demo_io t ''R1'' 5) t True demo_client (Some ann_form) (ann_world True) =
   (if key \<noteq> [] then ((redirect_to ''/login/totp?return=/hosts'')\<lparr>lo_pending := Some (GeneratePendingToken ann_id key t)\<rparr>, ann_world True)
    else start_session (demo_login key) (demo_io t ''R1'' 5) True ann_id ''/hosts'' demo_client (ann_world True))"
proof -
  have "HasTOTP (demo_login key) (io_st (demo_io t ''R1'' 5) 2) ann_id (w_db (ann_world True)) = Inr True"
    using ann_has_totp by (simp add: demo_io_def)
  then show ?thesis
    by (simp add: LoginSubmit_def ann_form_def ann_verified redirect_to_def)
qed

lemma ann_session:
  "map_option uc_ID (lo_session (fst (start_session (demo_login ''k'') (demo_io (1100 * second) ''R1'' 5) True ann_id ''/hosts'' demo_client (ann_world True)))) =
   Some ann_id"
  by code_simp


text \<open>Ann logs in: the password, and 100 seconds later a code.\<close>

lemma ann_code:
  obtains code where "GenerateCode id ''JBSWY3DPEHPK3PXP'' (1100 * second) = Inr code"
    "ValidateTOTPCode (demo_login key) (Some t) (1100 * second) ann_id code (w_db (ann_world active)) = Inr True" "code \<noteq> []"
proof -
  have "\<not> isl (decodeSecret id ''JBSWY3DPEHPK3PXP'')" by code_simp
  then obtain k where k: "decodeSecret id ''JBSWY3DPEHPK3PXP'' = Inr k" by (metis sum.collapse(2))
  then obtain code where code: "GenerateCode id ''JBSWY3DPEHPK3PXP'' (1100 * second) = Inr code"
    and some: "code \<noteq> []"
    using length_generateHOTP [of 6 k "counter_at (1100 * second)"] by (force simp: GenerateCode_def DefaultDigits_def)
  have "plausible (1100 * second)" by (simp add: plausible_def unix_def second_def)
  then have "Validate id (1100 * second) code ''JBSWY3DPEHPK3PXP'' = Inr True"
    by (intro Validate_window [OF k code]) (simp_all add: in_window_def)
  then have "ValidateTOTPCode (demo_login key) (Some t) (1100 * second) ann_id code (w_db (ann_world active)) = Inr True"
    by (simp add: ValidateTOTPCode_def totp_user_def user_GetByID_def ann_world_def user_HasTOTP_def demo_user_def)
  with that code some show thesis by blast
qed

definition ann_submits :: "string \<Rightarrow> string option \<Rightarrow> mem_kv auth_world \<Rightarrow> login_outcome \<times> mem_kv auth_world" where
  "ann_submits code cookie w =
     TOTPVerifySubmit (demo_login ''k'') (demo_io (1100 * second) ''R1'' 5) (1100 * second) (1100 * second) True demo_client
       (Inr \<lparr>tf_token = [], tf_code = code, tf_return_url = ''/hosts''\<rparr>) cookie w"


theorem pending_token_lifetime_witness:
  "ValidatePendingToken (GeneratePendingToken ''ann'' ''k'' 0) ''k'' (300 * second) = Inr ''ann'' \<and>
   ValidatePendingToken (GeneratePendingToken ''ann'' ''k'' 0) ''k'' (301 * second) = Inl ''token expired''"
  using pending_token_lifetime [of 0 "''ann''" "''k''" "300 * second"] pending_token_lifetime [of 0 "''ann''" "''k''" "301 * second"]
  by (simp add: unix_def second_def fits64_def)


definition always :: statements where
  "always = (\<lambda>n. Some 0)"

theorem totp_enrolment_witness:
  "case SetupTOTP (demo_login ''k'') always (Some (replicate 20 CHR ''r'')) ''n'' ann_id (w_db (ann_world True)) of
     (Inl e, db) \<Rightarrow> False
   | (Inr (secret, uri), db1) \<Rightarrow>
       (case GenerateCode id secret (1000 * second) of
          Inl e \<Rightarrow> False
        | Inr code \<Rightarrow>
            fst (VerifyAndEnableTOTP (demo_login ''k'') always (1025 * second) (1026 * second) ann_id code db1) = None)"
proof -
  let ?r = "SetupTOTP (demo_login ''k'') always (Some (replicate 20 CHR ''r'')) ''n'' ann_id (w_db (ann_world True))"
  have "\<not> isl (fst ?r)" by code_simp
  then obtain secret uri db1 where r: "?r = (Inr (secret, uri), db1)" by (metis sum.collapse(2) prod.collapse)
  have "case_sum (\<lambda>e. False) (\<lambda>(secret, uri). \<not> isl (decodeSecret id secret)) (fst ?r)" by code_simp
  then obtain k where "decodeSecret id secret = Inr k" using r by (auto simp: isl_def) (metis sum.collapse(2) isl_def)
  then obtain code where code: "GenerateCode id secret (1000 * second) = Inr code" by (simp add: GenerateCode_def)
  have times: "plausible (1000 * second)" "plausible (1025 * second)" "in_window (1000 * second) (1025 * second)"
    by (simp_all add: plausible_def in_window_def unix_def second_def)
  have "\<exists>db2. VerifyAndEnableTOTP (demo_login ''k'') always (1025 * second) (1026 * second) ann_id code db1 = (None, db2)"
  proof -
    have "\<forall>nonce t encrypted. (if CHR ''#'' \<in> set nonce then None else Some (nonce @ CHR ''#'' # t)) = Some encrypted \<longrightarrow>
        encrypted \<noteq> [] \<and> map_option snd (Cut CHR ''#'' encrypted) = Some t"
      by (auto simp: Cut_append split: if_splits)
    note works = totp_enrolment [OF demo_login_sel(5) this r _ _ times, of code always "1026 * second" 0]
    have "GenerateCode (wl_unicode (demo_login ''k'')) secret (1000 * second) = Inr code" using code by simp
    from works [OF _ this] show ?thesis by (auto simp: always_def)
  qed
  then show ?thesis by (auto simp: r code)
qed

section \<open>Ways around the second factor\<close>

text \<open>When the statement of \<^verbatim>\<open>HasTOTP\<close> fails, or no key is configured, the password alone is enough.\<close>

lemma password_alone_when_unreadable:
  "map_option uc_ID (lo_session (fst (LoginSubmit (demo_login ''k'')
     ((demo_io (1000 * second) ''R1'' 5)\<lparr>io_st := (\<lambda>n. if n = 2 then None else Some 0)\<rparr>) (1000 * second) True demo_client
     (Some ann_form) (ann_world True)))) = Some ann_id"
  by code_simp

lemma password_alone_without_key:
  "map_option uc_ID (lo_session (fst (LoginSubmit (demo_login []) (demo_io (1100 * second) ''R1'' 5) (1100 * second) True demo_client
     (Some ann_form) (ann_world True)))) = Some ann_id"
  by code_simp

text \<open>Between the two steps nobody asks again whether the account is still active.\<close>

lemma disabled_user_gets_session:
  "map_option uc_ID (lo_session (fst (start_session (demo_login ''k'') (demo_io (1100 * second) ''R1'' 5) True ann_id ''/'' demo_client
     (ann_world False)))) = Some ann_id"
  by code_simp

text \<open>A look at the settings while the user's row cannot be read switches the second factor off.\<close>

lemma settings_page_switches_off:
  "HasTOTP (demo_login ''k'') (Some 0) ann_id
     (snd (TOTPSetupPageTempl (demo_login ''k'') (\<lambda>n. if n = 0 then None else Some 0) (Some (replicate 20 CHR ''r'')) ''n'' (\<lambda>e. [])
        (Some \<lparr>uc_ID = ann_id, uc_Username = ''ann'', uc_Email = [], uc_Role = ''admin''\<rparr>) [] (w_db (ann_world True)))) = Inr False"
  by code_simp

text \<open>The address a login leads to may name another host after a backslash, which browsers read as a slash.\<close>

lemma landing_page_backslash: "landing_page (''/'' @ [CHR 0x5C] @ ''evil.example'') = ''/'' @ [CHR 0x5C] @ ''evil.example''"
  by code_simp

end
