(* ===== verification/Worker_Pool.thy ===== *)
theory Worker_Pool
  imports Job_Queue
begin

text \<open>
  The pool of workers: \<^verbatim>\<open>internal/scheduler/workers/pool.go\<close>, the registry of
  \<^verbatim>\<open>workers/worker.go\<close> and the default workers of \<^verbatim>\<open>workers/registry.go\<close>
  (\<^verbatim>\<open>internal/scheduler/pool.go\<close> and \<^verbatim>\<open>worker.go\<close> are copies that nothing uses).

  A running job has a context; cancelling it is noted, what the worker makes of that is its own business.
  The channel is the list of the jobs in it, the workers are their number. Every operation under the mutex,
  on the channel or on an atomic is one step; what a worker returns is an input.
\<close>

section \<open>Registry\<close>

text \<open>A worker is known by its job type; a second one for the same type replaces the first.\<close>

definition register_worker :: "string \<Rightarrow> string list \<Rightarrow> string list" where
  "register_worker jobType types = (if jobType \<in> set types then types else types @ [jobType])"

definition has_worker :: "string \<Rightarrow> string list \<Rightarrow> bool" where
  "has_worker jobType types \<longleftrightarrow> jobType \<in> set types"

record worker_deps =
  wd_Security :: bool
  wd_Docker :: bool
  wd_Backup :: bool
  wd_BackupVerify :: bool
  wd_Update :: bool
  wd_Cleanup :: bool
  wd_JobCleanup :: bool
  wd_Metrics :: bool
  wd_Inventory :: bool
  wd_Retention :: bool
  wd_Notification :: bool
  wd_Webhook :: bool
  wd_Runbook :: bool
  wd_AutoDeploy :: bool
  wd_TrackedVuln :: bool
  wd_SSLScan :: bool

definition RegisterDefaultWorkers :: "worker_deps \<Rightarrow> string list \<Rightarrow> string list" where
  "RegisterDefaultWorkers d types =
     fold register_worker
      ((if wd_Security d \<and> wd_Docker d then [''security_scan''] else []) @
       (if wd_Backup d then [''backup_create'', ''backup_restore''] else []) @
       (if wd_BackupVerify d then [''backup_verify''] else []) @
       (if wd_Update d then [''update_check'', ''container_update''] else []) @
       (if wd_Cleanup d \<or> wd_JobCleanup d then [''cleanup''] else []) @
       (if wd_Cleanup d then [''image_prune'', ''volume_prune'', ''network_prune''] else []) @
       (if wd_Metrics d then [''metrics_collection''] else []) @
       (if wd_Inventory d then [''host_inventory''] else []) @
       (if wd_Retention d then [''retention''] else []) @
       (if wd_Notification d then [''notification'', ''alert''] else []) @
       (if wd_Webhook d then [''webhook_dispatch''] else []) @
       (if wd_Runbook d then [''runbook_execute''] else []) @
       (if wd_AutoDeploy d then [''auto_deploy''] else []) @
       (if wd_TrackedVuln d then [''sla_breach''] else []) @
       (if wd_SSLScan d then [''ssl_scan''] else [])) types"

section \<open>State\<close>

record pool_config =
  pc_Size :: nat
  pc_MaxJobDuration :: duration
  pc_ShutdownTimeout :: duration

definition DefaultPoolConfig :: pool_config where
  "DefaultPoolConfig = \<lparr>pc_Size = 5, pc_MaxJobDuration = 30 * minute, pc_ShutdownTimeout = 60 * second\<rparr>"

text \<open>\<open>pj_Callbacks\<close> tells whether the job came with callbacks of its own.\<close>

record pool_job =
  pj_Job :: job
  pj_Callbacks :: bool

record running_job =
  rj_Context :: nat
  rj_Job :: pool_job

record pool =
  po_config :: pool_config
  po_types :: "string list"
  po_chan :: "pool_job list"
  po_running :: bool
  po_stopped :: bool
  po_workers :: nat
  po_active :: "running_job list"
  po_cancelFns :: "uuid \<rightharpoonup> nat"
  po_canceled :: "nat list"
  po_next :: nat
  po_processed :: int
  po_succeeded :: int
  po_failed :: int

definition NewPool :: "pool_config option \<Rightarrow> string list \<Rightarrow> pool" where
  "NewPool config types =
     \<lparr>po_config = (case config of None \<Rightarrow> DefaultPoolConfig | Some c \<Rightarrow> c), po_types = types, po_chan = [], po_running = False,
      po_stopped = False, po_workers = 0, po_active = [], po_cancelFns = Map.empty, po_canceled = [], po_next = 0,
      po_processed = 0, po_succeeded = 0, po_failed = 0\<rparr>"

definition capacity :: "pool \<Rightarrow> nat" where
  "capacity p = pc_Size (po_config p) * 10"

section \<open>Operations\<close>

datatype pool_error = PoolRunning | PoolNotRunning | NoWorkerFor string | QueueFull

definition pool_Start :: "pool \<Rightarrow> pool_error option \<times> pool" where
  "pool_Start p =
     (if po_running p then (Some PoolRunning, p)
      else (None, p\<lparr>po_running := True, po_workers := po_workers p + pc_Size (po_config p)\<rparr>))"

definition cancelAllJobs :: "pool \<Rightarrow> pool" where
  "cancelAllJobs p = p\<lparr>po_canceled := map rj_Context (filter (\<lambda>r. po_cancelFns p (j_ID (pj_Job (rj_Job r))) = Some (rj_Context r)) (po_active p)) @ po_canceled p\<rparr>"

text \<open>
  \<open>None\<close> is the panic of closing the channel a second time; \<open>in_time\<close> tells whether the workers
  are done when the timer fires.
\<close>

definition pool_Stop :: "bool \<Rightarrow> pool \<Rightarrow> pool option" where
  "pool_Stop in_time p =
     (if \<not> po_running p then Some p
      else if po_stopped p then None
      else let p = p\<lparr>po_running := False, po_stopped := True\<rparr> in Some (if in_time then p else cancelAllJobs p))"

definition submit :: "bool \<Rightarrow> job \<Rightarrow> pool \<Rightarrow> pool_error option \<times> pool" where
  "submit callbacks job p =
     (if \<not> po_running p then (Some PoolNotRunning, p)
      else if \<not> has_worker (j_Type job) (po_types p) then (Some (NoWorkerFor (j_Type job)), p)
      else if length (po_chan p) < capacity p then (None, p\<lparr>po_chan := po_chan p @ [\<lparr>pj_Job = job, pj_Callbacks = callbacks\<rparr>]\<rparr>)
      else (Some QueueFull, p))"

definition Submit :: "job \<Rightarrow> pool \<Rightarrow> pool_error option \<times> pool" where
  "Submit = submit False"

definition SubmitWithCallbacks :: "job \<Rightarrow> pool \<Rightarrow> pool_error option \<times> pool" where
  "SubmitWithCallbacks = submit True"

definition pool_CancelJob :: "uuid \<Rightarrow> pool \<Rightarrow> bool \<times> pool" where
  "pool_CancelJob jobID p =
     (case po_cancelFns p jobID of None \<Rightarrow> (False, p) | Some ctx \<Rightarrow> (True, p\<lparr>po_canceled := ctx # po_canceled p\<rparr>))"

record pool_stats =
  ps_Size :: nat
  ps_QueueLength :: nat
  ps_QueueCapacity :: nat
  ps_TotalProcessed :: int
  ps_TotalSucceeded :: int
  ps_TotalFailed :: int
  ps_Running :: bool

definition Stats :: "pool \<Rightarrow> pool_stats" where
  "Stats p =
     \<lparr>ps_Size = pc_Size (po_config p), ps_QueueLength = length (po_chan p), ps_QueueCapacity = capacity p,
      ps_TotalProcessed = po_processed p, ps_TotalSucceeded = po_succeeded p, ps_TotalFailed = po_failed p,
      ps_Running = po_running p\<rparr>"

subsection \<open>A worker\<close>

text \<open>
  An idle worker takes the first job of the channel. \<open>Inl\<close> of the job: there is no worker for its type,
  it completes with an error at once; \<open>Inr\<close> of the context: it runs.
\<close>

definition take_job :: "pool \<Rightarrow> ((pool_job + nat) option) \<times> pool" where
  "take_job p =
     (case po_chan p of
        [] \<Rightarrow> (None, p)
      | pj # pjs \<Rightarrow>
          if length (po_active p) < po_workers p then
            (let p = p\<lparr>po_chan := pjs\<rparr> in
             if \<not> has_worker (j_Type (pj_Job pj)) (po_types p) then (Some (Inl pj), p)
             else (Some (Inr (po_next p)),
                   p\<lparr>po_active := po_active p @ [\<lparr>rj_Context = po_next p, rj_Job = pj\<rparr>],
                     po_cancelFns := (po_cancelFns p)(j_ID (pj_Job pj) \<mapsto> po_next p), po_next := po_next p + 1\<rparr>))
          else (None, p))"

definition running :: "nat \<Rightarrow> pool \<Rightarrow> pool_job option" where
  "running ctx p = map_option rj_Job (find (\<lambda>r. rj_Context r = ctx) (po_active p))"

text \<open>What \<^verbatim>\<open>Execute\<close> does: an encoded result, an error, a panic that is recovered.\<close>

datatype execution = Returned "string option option" | Failed string | Panicked string

fun outcome :: "execution \<Rightarrow> string + string option option" where
  "outcome (Returned r) = Inr r"
| "outcome (Failed e) = Inl e"
| "outcome (Panicked r) = Inl (''worker panic: '' @ r)"

text \<open>The counters move before the callbacks, the cancel function goes after them.\<close>

definition count_job :: "string + 'a \<Rightarrow> pool \<Rightarrow> pool" where
  "count_job out p =
     (let p = p\<lparr>po_processed := po_processed p + 1\<rparr>
      in case out of Inl _ \<Rightarrow> p\<lparr>po_failed := po_failed p + 1\<rparr> | Inr _ \<Rightarrow> p\<lparr>po_succeeded := po_succeeded p + 1\<rparr>)"

definition release_job :: "nat \<Rightarrow> uuid \<Rightarrow> pool \<Rightarrow> pool" where
  "release_job ctx jobID p =
     p\<lparr>po_active := filter (\<lambda>r. rj_Context r \<noteq> ctx) (po_active p), po_cancelFns := (po_cancelFns p)(jobID := None)\<rparr>"

end
