(* ===== verification/Scheduler.thy ===== *)
theory Scheduler
  imports Worker_Pool Go_Strings
begin

text \<open>
  The scheduler: \<^verbatim>\<open>internal/scheduler/scheduler.go\<close> over the queue in Redis, the pool of workers and
  the tables of \<^verbatim>\<open>internal/repository/postgres/job_repo.go\<close>, and the jobs the application
  creates at its start (\<^verbatim>\<open>internal/app/bootstrap.go\<close>).

  The cron library is a parameter (\<open>cron_lib\<close>). An operation takes its inputs in the record \<open>sched_io\<close>:
  the answers of the statements and the readings of the clock, in order, and a fresh identifier.
\<close>

section \<open>Scheduled jobs and inputs\<close>

record scheduled_job =
  sj_ID :: uuid
  sj_Name :: string
  sj_Type :: string
  sj_Schedule :: string
  sj_HostID :: "uuid option"
  sj_TargetID :: "string option"
  sj_TargetName :: "string option"
  sj_Payload :: "string option"
  sj_Priority :: int
  sj_MaxAttempts :: int
  sj_IsEnabled :: bool
  sj_LastRunAt :: "gotime option"
  sj_LastRunStatus :: "string option"
  sj_NextRunAt :: "gotime option"
  sj_RunCount :: int
  sj_FailCount :: int
  sj_CreatedBy :: "uuid option"
  sj_CreatedAt :: gotime
  sj_UpdatedAt :: gotime

text \<open>A payload is \<open>None\<close> for nil, \<open>Some None\<close> when it does not encode.\<close>

record create_job_input =
  cj_Type :: string
  cj_HostID :: "uuid option"
  cj_TargetID :: "string option"
  cj_TargetName :: "string option"
  cj_Payload :: "string option option"
  cj_Priority :: int
  cj_MaxAttempts :: int
  cj_ScheduledAt :: "gotime option"

record create_scheduled_input =
  cs_Name :: string
  cs_Type :: string
  cs_Schedule :: string
  cs_HostID :: "uuid option"
  cs_TargetID :: "string option"
  cs_TargetName :: "string option"
  cs_Payload :: "string option option"
  cs_Priority :: int
  cs_MaxAttempts :: int
  cs_IsEnabled :: bool

record update_scheduled_input =
  us_Name :: "string option"
  us_Schedule :: "string option"
  us_Payload :: "string option option"
  us_Priority :: "int option"
  us_MaxAttempts :: "int option"
  us_IsEnabled :: "bool option"

datatype sched_error =
    SchedulerRunning | NoWorker string | PayloadFailed | SaveFailed | InvalidCron | NoRepository | NotFound | DatabaseFailed
  | Queue queue_error | NilDereference

section \<open>The tables\<close>

definition job_Create :: "gotime option \<Rightarrow> job \<Rightarrow> job list \<Rightarrow> bool \<times> job list" where
  "job_Create st job rows = (if st = None \<or> j_ID job \<in> j_ID ` set rows then (False, rows) else (True, rows @ [job]))"

definition job_Get :: "gotime option \<Rightarrow> uuid \<Rightarrow> job list \<Rightarrow> sched_error + job" where
  "job_Get st i rows =
     (if st = None then Inl DatabaseFailed else case find (\<lambda>j. j_ID j = i) rows of None \<Rightarrow> Inl NotFound | Some j \<Rightarrow> Inr j)"

definition job_Update :: "gotime option \<Rightarrow> gotime \<Rightarrow> job \<Rightarrow> job list \<Rightarrow> sched_error option \<times> job list" where
  "job_Update st now job rows =
     (if st = None then (Some DatabaseFailed, rows)
      else if j_ID job \<notin> j_ID ` set rows then (Some NotFound, rows)
      else (None, map (\<lambda>j. if j_ID j = j_ID job
              then j\<lparr>j_Status := j_Status job, j_Progress := j_Progress job, j_ProgressMessage := j_ProgressMessage job,
                     j_Result := j_Result job, j_ErrorMessage := j_ErrorMessage job, j_Attempts := j_Attempts job,
                     j_StartedAt := j_StartedAt job, j_CompletedAt := j_CompletedAt job, j_UpdatedAt := now\<rparr>
              else j) rows))"

definition job_Delete :: "gotime option \<Rightarrow> uuid \<Rightarrow> job list \<Rightarrow> sched_error option \<times> job list" where
  "job_Delete st i rows =
     (if st = None then (Some DatabaseFailed, rows)
      else if i \<notin> j_ID ` set rows then (Some NotFound, rows)
      else (None, filter (\<lambda>j. j_ID j \<noteq> i) rows))"

record job_list_options =
  jl_Type :: "string option"
  jl_Status :: "string option"
  jl_HostID :: "uuid option"
  jl_TargetID :: "string option"
  jl_Before :: "gotime option"
  jl_After :: "gotime option"
  jl_Limit :: int
  jl_Offset :: int

definition job_matches :: "job_list_options \<Rightarrow> job \<Rightarrow> bool" where
  "job_matches opts j \<longleftrightarrow>
     (case jl_Type opts of None \<Rightarrow> True | Some x \<Rightarrow> j_Type j = x) \<and> (case jl_Status opts of None \<Rightarrow> True | Some x \<Rightarrow> j_Status j = x) \<and>
     (case jl_HostID opts of None \<Rightarrow> True | Some x \<Rightarrow> j_HostID j = Some x) \<and>
     (case jl_TargetID opts of None \<Rightarrow> True | Some x \<Rightarrow> j_TargetID j = Some x) \<and>
     (case jl_Before opts of None \<Rightarrow> True | Some x \<Rightarrow> j_CreatedAt j < x) \<and>
     (case jl_After opts of None \<Rightarrow> True | Some x \<Rightarrow> x < j_CreatedAt j)"

definition job_List :: "gotime option \<Rightarrow> gotime option \<Rightarrow> job_list_options \<Rightarrow> job list \<Rightarrow> sched_error + job list \<times> nat" where
  "job_List st st' opts rows =
     (if st = None \<or> st' = None then Inl DatabaseFailed
      else let found = filter (job_matches opts) rows;
               page = sort_key (\<lambda>j. - j_CreatedAt j) found;
               page = (if 0 < jl_Offset opts then drop (nat (jl_Offset opts)) page else page);
               page = (if 0 < jl_Limit opts then take (nat (jl_Limit opts)) page else page)
           in Inr (page, length found))"

definition sj_Create :: "gotime option \<Rightarrow> scheduled_job \<Rightarrow> scheduled_job list \<Rightarrow> bool \<times> scheduled_job list" where
  "sj_Create st job rows = (if st = None \<or> sj_ID job \<in> sj_ID ` set rows then (False, rows) else (True, rows @ [job]))"

definition sj_Get :: "gotime option \<Rightarrow> uuid \<Rightarrow> scheduled_job list \<Rightarrow> sched_error + scheduled_job" where
  "sj_Get st i rows =
     (if st = None then Inl DatabaseFailed else case find (\<lambda>j. sj_ID j = i) rows of None \<Rightarrow> Inl NotFound | Some j \<Rightarrow> Inr j)"

definition sj_Update :: "gotime option \<Rightarrow> gotime \<Rightarrow> scheduled_job \<Rightarrow> scheduled_job list \<Rightarrow> sched_error option \<times> scheduled_job list" where
  "sj_Update st now job rows =
     (if st = None then (Some DatabaseFailed, rows)
      else if sj_ID job \<notin> sj_ID ` set rows then (Some NotFound, rows)
      else (None, map (\<lambda>j. if sj_ID j = sj_ID job
              then j\<lparr>sj_Name := sj_Name job, sj_Schedule := sj_Schedule job, sj_Payload := sj_Payload job, sj_Priority := sj_Priority job,
                     sj_MaxAttempts := sj_MaxAttempts job, sj_IsEnabled := sj_IsEnabled job, sj_NextRunAt := sj_NextRunAt job,
                     sj_UpdatedAt := now\<rparr>
              else j) rows))"

definition sj_Delete :: "gotime option \<Rightarrow> uuid \<Rightarrow> scheduled_job list \<Rightarrow> sched_error option \<times> scheduled_job list" where
  "sj_Delete st i rows =
     (if st = None then (Some DatabaseFailed, rows)
      else if i \<notin> sj_ID ` set rows then (Some NotFound, rows)
      else (None, filter (\<lambda>j. sj_ID j \<noteq> i) rows))"

text \<open>\<open>ORDER BY name\<close>, with the collation of the database as an argument.\<close>

definition sj_List :: "(string \<Rightarrow> int) \<Rightarrow> gotime option \<Rightarrow> bool option \<Rightarrow> scheduled_job list \<Rightarrow> sched_error + scheduled_job list" where
  "sj_List collate st enabled rows =
     (if st = None then Inl DatabaseFailed
      else Inr (sort_key (\<lambda>j. collate (sj_Name j)) (filter (\<lambda>j. case enabled of None \<Rightarrow> True | Some b \<Rightarrow> sj_IsEnabled j = b) rows)))"

definition sj_UpdateLastRun :: "gotime option \<Rightarrow> uuid \<Rightarrow> string \<Rightarrow> gotime option \<Rightarrow> scheduled_job list \<Rightarrow> scheduled_job list" where
  "sj_UpdateLastRun st i status nextRun rows =
     (case st of
        None \<Rightarrow> rows
      | Some t \<Rightarrow>
          map (\<lambda>j. if sj_ID j = i
                 then j\<lparr>sj_LastRunAt := Some t, sj_LastRunStatus := Some status, sj_NextRunAt := nextRun, sj_RunCount := sj_RunCount j + 1,
                        sj_FailCount := (if status = ''failed'' then sj_FailCount j + 1 else sj_FailCount j), sj_UpdatedAt := t\<rparr>
                 else j) rows)"

section \<open>The scheduler\<close>

text \<open>
  \<open>cron_ParseStandard\<close> and \<open>cron_Parse6\<close> give the function from an instant to the next run. An entry of the cron
  has an identifier and runs the job it was made for.
\<close>

record 'c cron_lib =
  cron_ParseStandard :: "string \<Rightarrow> (gotime \<Rightarrow> gotime) option"
  cron_Parse6 :: "string \<Rightarrow> (gotime \<Rightarrow> gotime) option"
  cron_AddFunc :: "string \<Rightarrow> scheduled_job \<Rightarrow> 'c \<Rightarrow> nat option \<times> 'c"
  cron_Remove :: "nat \<Rightarrow> 'c \<Rightarrow> 'c"

record scheduler_config =
  WorkerPoolSize :: nat
  MaxJobDuration :: duration
  QueueVisibilityTimeout :: duration
  PollInterval :: duration
  RecoveryInterval :: duration
  CleanupInterval :: duration
  DeadLetterMaxAge :: duration

definition DefaultConfig :: scheduler_config where
  "DefaultConfig =
     \<lparr>WorkerPoolSize = 5, MaxJobDuration = 30 * minute, QueueVisibilityTimeout = 5 * minute, PollInterval = second,
      RecoveryInterval = minute, CleanupInterval = hour, DeadLetterMaxAge = 7 * (24 * hour)\<rparr>"

record event =
  ev_Type :: string
  ev_JobID :: uuid
  ev_JobType :: string
  ev_Status :: string
  ev_Progress :: int
  ev_Message :: string
  ev_Error :: "string option"

definition job_event :: "string \<Rightarrow> uuid \<Rightarrow> event" where
  "job_event t i = \<lparr>ev_Type = t, ev_JobID = i, ev_JobType = [], ev_Status = [], ev_Progress = 0, ev_Message = [], ev_Error = None\<rparr>"

record ('r, 'd, 'c) sched_deps =
  sd_queue :: "('r, 'd) queue_deps"
  sd_visibility :: duration
  sd_cron :: "'c cron_lib"
  sd_collate :: "string \<Rightarrow> int"
  sd_repo :: bool
  sd_config :: scheduler_config

record ('r, 'c) sched =
  sc_pool :: pool
  sc_redis :: 'r
  sc_jobs :: "job list"
  sc_scheduled :: "scheduled_job list"
  sc_cron :: 'c
  sc_cronEntries :: "string \<rightharpoonup> nat"
  sc_running :: bool
  sc_events :: "event list"

record sched_io =
  si_st :: statements
  si_clk :: "nat \<Rightarrow> gotime"
  si_id :: uuid

definition emitEvent :: "event \<Rightarrow> ('r, 'c) sched \<Rightarrow> ('r, 'c) sched" where
  "emitEvent e S = S\<lparr>sc_events := sc_events S @ [e]\<rparr>"

text \<open>The pool is made without a time limit for its shutdown.\<close>

definition New :: "('r, 'd, 'c) sched_deps \<Rightarrow> 'r \<Rightarrow> job list \<Rightarrow> scheduled_job list \<Rightarrow> 'c \<Rightarrow> ('r, 'c) sched" where
  "New D redis jobs scheduled cron =
     \<lparr>sc_pool = NewPool (Some \<lparr>pc_Size = WorkerPoolSize (sd_config D), pc_MaxJobDuration = MaxJobDuration (sd_config D), pc_ShutdownTimeout = 0\<rparr>) [],
      sc_redis = redis, sc_jobs = jobs, sc_scheduled = scheduled, sc_cron = cron, sc_cronEntries = Map.empty, sc_running = False, sc_events = []\<rparr>"

definition RegisterWorker :: "string \<Rightarrow> ('r, 'c) sched \<Rightarrow> ('r, 'c) sched" where
  "RegisterWorker jobType S = S\<lparr>sc_pool := (sc_pool S)\<lparr>po_types := register_worker jobType (po_types (sc_pool S))\<rparr>\<rparr>"

subsection \<open>Jobs\<close>

definition new_job :: "sched_io \<Rightarrow> create_job_input \<Rightarrow> job" where
  "new_job io input =
     \<lparr>j_ID = si_id io, j_Type = cj_Type input, j_Status = ''pending'',
      j_Priority = (if cj_Priority input = 0 then JobPriorityNormal else cj_Priority input),
      j_HostID = cj_HostID input, j_TargetID = cj_TargetID input, j_TargetName = cj_TargetName input, j_Payload = None, j_Result = None,
      j_ErrorMessage = None, j_Progress = 0, j_ProgressMessage = None, j_Attempts = 0,
      j_MaxAttempts = (if cj_MaxAttempts input = 0 then 3 else cj_MaxAttempts input),
      j_ScheduledAt = cj_ScheduledAt input, j_StartedAt = None, j_CompletedAt = None, j_CreatedBy = None,
      j_CreatedAt = si_clk io 0, j_UpdatedAt = si_clk io 1\<rparr>"

definition EnqueueJob ::
  "('r, 'd, 'c) sched_deps \<Rightarrow> sched_io \<Rightarrow> create_job_input \<Rightarrow> ('r, 'c) sched \<Rightarrow> (sched_error + job) \<times> ('r, 'c) sched" where
  "EnqueueJob D io input S =
     (if \<not> has_worker (cj_Type input) (po_types (sc_pool S)) then (Inl (NoWorker (cj_Type input)), S)
      else if cj_Payload input = Some None then (Inl PayloadFailed, S)
      else let job = (new_job io input)\<lparr>j_Payload := (case cj_Payload input of None \<Rightarrow> None | Some p \<Rightarrow> p)\<rparr>;
               (ok, rows) = (if sd_repo D then job_Create (si_st io 0) job (sc_jobs S) else (True, sc_jobs S))
           in if \<not> ok then (Inl SaveFailed, S)
              else case Enqueue (sd_queue D) (\<lambda>n. si_clk io (2 + n)) (si_id io) job (sc_redis S) of
                     ((Some e, job), redis) \<Rightarrow> (Inl (Queue e), S\<lparr>sc_jobs := rows, sc_redis := redis\<rparr>)
                   | ((None, job), redis) \<Rightarrow>
                       (Inr job, emitEvent ((job_event ''job_created'' (j_ID job))\<lparr>ev_JobType := j_Type job, ev_Status := j_Status job\<rparr>)
                                   (S\<lparr>sc_jobs := rows, sc_redis := redis\<rparr>)))"

text \<open>Read a row, change it, write it back; an error is dropped.\<close>

definition change_row :: "gotime option \<Rightarrow> gotime option \<Rightarrow> gotime \<Rightarrow> uuid \<Rightarrow> (job \<Rightarrow> job) \<Rightarrow> job list \<Rightarrow> job list" where
  "change_row st st' now jobID f rows =
     (case job_Get st jobID rows of Inl _ \<Rightarrow> rows | Inr job \<Rightarrow> snd (job_Update st' now (f job) rows))"

definition CancelJob ::
  "('r, 'd, 'c) sched_deps \<Rightarrow> sched_io \<Rightarrow> uuid \<Rightarrow> ('r, 'c) sched \<Rightarrow> sched_error option \<times> ('r, 'c) sched" where
  "CancelJob D io jobID S =
     (let S = S\<lparr>sc_pool := snd (pool_CancelJob jobID (sc_pool S))\<rparr> in
      case Cancel (sd_queue D) (si_clk io 0) jobID (sc_redis S) of
        (Some e, redis) \<Rightarrow> (Some (Queue e), S\<lparr>sc_redis := redis\<rparr>)
      | (None, redis) \<Rightarrow>
          (let rows = (if sd_repo D
                 then change_row (si_st io 0) (si_st io 1) (si_clk io 2) jobID
                        (\<lambda>j. j\<lparr>j_Status := ''canceled'', j_CompletedAt := Some (si_clk io 1), j_UpdatedAt := si_clk io 1\<rparr>) (sc_jobs S)
                 else sc_jobs S)
           in (None, emitEvent (job_event ''job_canceled'' jobID) (S\<lparr>sc_redis := redis, sc_jobs := rows\<rparr>))))"

definition sched_GetJob ::
  "('r, 'd, 'c) sched_deps \<Rightarrow> sched_io \<Rightarrow> uuid \<Rightarrow> ('r, 'c) sched \<Rightarrow> (sched_error + job) \<times> ('r, 'c) sched" where
  "sched_GetJob D io jobID S =
     (case GetJob (sd_queue D) jobID (sc_redis S) of
        (Inr job, redis) \<Rightarrow> (Inr job, S\<lparr>sc_redis := redis\<rparr>)
      | (Inl _, redis) \<Rightarrow>
          (if sd_repo D then job_Get (si_st io 0) jobID (sc_jobs S) else Inl NotFound, S\<lparr>sc_redis := redis\<rparr>))"

definition ListJobs ::
  "('r, 'd, 'c) sched_deps \<Rightarrow> sched_io \<Rightarrow> job_list_options \<Rightarrow> ('r, 'c) sched \<Rightarrow> sched_error + job list \<times> nat" where
  "ListJobs D io opts S = (if \<not> sd_repo D then Inl NoRepository else job_List (si_st io 0) (si_st io 1) opts (sc_jobs S))"

definition DeleteJob ::
  "('r, 'd, 'c) sched_deps \<Rightarrow> sched_io \<Rightarrow> uuid \<Rightarrow> ('r, 'c) sched \<Rightarrow> sched_error option \<times> ('r, 'c) sched" where
  "DeleteJob D io i S =
     (if \<not> sd_repo D then (Some NoRepository, S)
      else case job_Delete (si_st io 0) i (sc_jobs S) of (e, rows) \<Rightarrow> (e, S\<lparr>sc_jobs := rows\<rparr>))"

subsection \<open>Progress and completion\<close>

definition handleProgress ::
  "('r, 'd, 'c) sched_deps \<Rightarrow> sched_io \<Rightarrow> uuid \<Rightarrow> int \<Rightarrow> string \<Rightarrow> ('r, 'c) sched \<Rightarrow> ('r, 'c) sched" where
  "handleProgress D io jobID progress message S =
     (let redis = snd (UpdateProgress (sd_queue D) (sd_visibility D) (si_clk io) jobID progress message (sc_redis S));
          rows = (if sd_repo D
            then change_row (si_st io 0) (si_st io 1) (si_clk io 3) jobID
                   (\<lambda>j. j\<lparr>j_Progress := progress, j_ProgressMessage := (if message \<noteq> [] then Some message else j_ProgressMessage j),
                         j_UpdatedAt := si_clk io 2\<rparr>) (sc_jobs S)
            else sc_jobs S)
      in emitEvent ((job_event ''job_progress'' jobID)\<lparr>ev_Progress := progress, ev_Message := message\<rparr>)
           (S\<lparr>sc_redis := redis, sc_jobs := rows\<rparr>))"

definition failed_row :: "gotime \<Rightarrow> gotime \<Rightarrow> string \<Rightarrow> job \<Rightarrow> job" where
  "failed_row now later errMsg j =
     (let j = j\<lparr>j_ErrorMessage := Some errMsg, j_UpdatedAt := now\<rparr>
      in if job_CanRetry j then j\<lparr>j_Status := ''retrying''\<rparr> else j\<lparr>j_Status := ''failed'', j_CompletedAt := Some later\<rparr>)"

definition completed_row :: "gotime \<Rightarrow> string option option \<Rightarrow> job \<Rightarrow> job" where
  "completed_row now result j =
     (let j = j\<lparr>j_Status := ''completed'', j_Progress := 100, j_CompletedAt := Some now, j_UpdatedAt := now\<rparr>
      in case result of Some (Some r) \<Rightarrow> j\<lparr>j_Result := Some r\<rparr> | _ \<Rightarrow> j)"

definition handleComplete ::
  "('r, 'd, 'c) sched_deps \<Rightarrow> sched_io \<Rightarrow> uuid \<Rightarrow> string + string option option \<Rightarrow> ('r, 'c) sched \<Rightarrow> ('r, 'c) sched" where
  "handleComplete D io jobID out S =
     (case out of
        Inl errMsg \<Rightarrow>
          (let redis = snd (Fail (sd_queue D) (si_clk io) jobID errMsg (sc_redis S));
               rows = (if sd_repo D
                 then change_row (si_st io 0) (si_st io 1) (si_clk io 5) jobID (failed_row (si_clk io 3) (si_clk io 4) errMsg) (sc_jobs S)
                 else sc_jobs S);
               (r, redis) = GetJob (sd_queue D) jobID redis;
               eventType = (case r of Inr job \<Rightarrow> if j_Status job = ''retrying'' then ''job_retrying'' else ''job_failed'' | Inl _ \<Rightarrow> ''job_failed'')
           in emitEvent ((job_event eventType jobID)\<lparr>ev_Error := Some errMsg\<rparr>) (S\<lparr>sc_redis := redis, sc_jobs := rows\<rparr>))
      | Inr result \<Rightarrow>
          (let redis = snd (Complete (sd_queue D) (si_clk io 0) jobID result (sc_redis S));
               rows = (if sd_repo D
                 then change_row (si_st io 0) (si_st io 1) (si_clk io 2) jobID (completed_row (si_clk io 1) result) (sc_jobs S)
                 else sc_jobs S)
           in emitEvent (job_event ''job_completed'' jobID) (S\<lparr>sc_redis := redis, sc_jobs := rows\<rparr>)))"

subsection \<open>The pool's callbacks\<close>

text \<open>
  A job that the queue gave to the pool has callbacks, and the pool has the same two of its own: each report and
  each completion is handled twice. The inputs of the two calls are \<open>io1\<close> and \<open>io2\<close>.
\<close>

definition handleCompletion ::
  "('r, 'd, 'c) sched_deps \<Rightarrow> sched_io \<Rightarrow> sched_io \<Rightarrow> pool_job \<Rightarrow> string + string option option \<Rightarrow> ('r, 'c) sched \<Rightarrow> ('r, 'c) sched" where
  "handleCompletion D io1 io2 pj out S =
     (let S = (if pj_Callbacks pj then handleComplete D io1 (j_ID (pj_Job pj)) out S else S)
      in handleComplete D io2 (j_ID (pj_Job pj)) out S)"

definition report_progress ::
  "('r, 'd, 'c) sched_deps \<Rightarrow> sched_io \<Rightarrow> sched_io \<Rightarrow> pool_job \<Rightarrow> int \<Rightarrow> string \<Rightarrow> ('r, 'c) sched \<Rightarrow> ('r, 'c) sched" where
  "report_progress D io1 io2 pj progress message S =
     (let S = (if pj_Callbacks pj then handleProgress D io1 (j_ID (pj_Job pj)) progress message S else S)
      in handleProgress D io2 (j_ID (pj_Job pj)) progress message S)"

text \<open>A worker takes a job; one that no worker is registered for completes at once.\<close>

definition start_job :: "('r, 'd, 'c) sched_deps \<Rightarrow> sched_io \<Rightarrow> sched_io \<Rightarrow> ('r, 'c) sched \<Rightarrow> ('r, 'c) sched" where
  "start_job D io1 io2 S =
     (case take_job (sc_pool S) of
        (Some (Inl pj), p) \<Rightarrow>
          handleCompletion D io1 io2 pj (Inl (''no worker for job type: '' @ j_Type (pj_Job pj))) (S\<lparr>sc_pool := p\<rparr>)
      | (_, p) \<Rightarrow> S\<lparr>sc_pool := p\<rparr>)"

text \<open>The worker of a context is done.\<close>

definition finish_job :: "('r, 'd, 'c) sched_deps \<Rightarrow> sched_io \<Rightarrow> sched_io \<Rightarrow> nat \<Rightarrow> execution \<Rightarrow> ('r, 'c) sched \<Rightarrow> ('r, 'c) sched" where
  "finish_job D io1 io2 ctx ex S =
     (case running ctx (sc_pool S) of
        None \<Rightarrow> S
      | Some pj \<Rightarrow>
          (let S = S\<lparr>sc_pool := count_job (outcome ex) (sc_pool S)\<rparr>;
               S = handleCompletion D io1 io2 pj (outcome ex) S
           in S\<lparr>sc_pool := release_job ctx (j_ID (pj_Job pj)) (sc_pool S)\<rparr>))"

definition progress_job :: "('r, 'd, 'c) sched_deps \<Rightarrow> sched_io \<Rightarrow> sched_io \<Rightarrow> nat \<Rightarrow> int \<Rightarrow> string \<Rightarrow> ('r, 'c) sched \<Rightarrow> ('r, 'c) sched" where
  "progress_job D io1 io2 ctx progress message S =
     (case running ctx (sc_pool S) of None \<Rightarrow> S | Some pj \<Rightarrow> report_progress D io1 io2 pj progress message S)"

subsection \<open>From the queue to the pool\<close>

fun pool_message :: "pool_error \<Rightarrow> string" where
  "pool_message PoolRunning = ''pool already running''"
| "pool_message PoolNotRunning = ''pool not running''"
| "pool_message (NoWorkerFor t) = ''no worker registered for job type: '' @ t"
| "pool_message QueueFull = ''job queue full''"

text \<open>One round of the loop; \<open>False\<close>: nothing was ready.\<close>

definition process_one ::
  "('r, 'd, 'c) sched_deps \<Rightarrow> gotime \<Rightarrow> (nat \<Rightarrow> nat \<Rightarrow> gotime) \<Rightarrow> (nat \<Rightarrow> gotime) \<Rightarrow> ('r, 'c) sched \<Rightarrow> bool \<times> ('r, 'c) sched" where
  "process_one D now clk fclk S =
     (case Dequeue (sd_queue D) (sd_visibility D) now clk (sc_redis S) of
        (None, redis) \<Rightarrow> (False, S\<lparr>sc_redis := redis\<rparr>)
      | (Some job, redis) \<Rightarrow>
          (let S = emitEvent ((job_event ''job_started'' (j_ID job))\<lparr>ev_JobType := j_Type job, ev_Status := j_Status job\<rparr>)
                     (S\<lparr>sc_redis := redis\<rparr>)
           in case SubmitWithCallbacks job (sc_pool S) of
                (None, p) \<Rightarrow> (True, S\<lparr>sc_pool := p\<rparr>)
              | (Some e, p) \<Rightarrow>
                  (True, S\<lparr>sc_pool := p, sc_redis := snd (Fail (sd_queue D) fclk (j_ID job) (pool_message e) (sc_redis S))\<rparr>)))"

text \<open>
  The loop runs as long as something is ready: a round for each element of the list of clocks. The first
  component tells whether it has come to its end.
\<close>

fun processQueue ::
  "('r, 'd, 'c) sched_deps \<Rightarrow> (gotime \<times> (nat \<Rightarrow> nat \<Rightarrow> gotime) \<times> (nat \<Rightarrow> gotime)) list \<Rightarrow> ('r, 'c) sched \<Rightarrow> bool \<times> ('r, 'c) sched" where
  "processQueue D [] S = (False, S)"
| "processQueue D ((now, clk, fclk) # rounds) S =
     (case process_one D now clk fclk S of (False, S) \<Rightarrow> (True, S) | (True, S) \<Rightarrow> processQueue D rounds S)"

definition recover_tick :: "('r, 'd, 'c) sched_deps \<Rightarrow> gotime \<Rightarrow> (nat \<Rightarrow> gotime) \<Rightarrow> ('r, 'c) sched \<Rightarrow> ('r, 'c) sched" where
  "recover_tick D now clk S = S\<lparr>sc_redis := snd (RecoverStaleJobs (sd_queue D) now clk (sc_redis S))\<rparr>"

definition cleanup_tick :: "('r, 'd, 'c) sched_deps \<Rightarrow> gotime \<Rightarrow> ('r, 'c) sched \<Rightarrow> ('r, 'c) sched" where
  "cleanup_tick D now S = S\<lparr>sc_redis := snd (CleanupDeadLetterQueue (sd_queue D) now (DeadLetterMaxAge (sd_config D)) (sc_redis S))\<rparr>"

section \<open>Scheduled jobs\<close>

definition calculateNextRun :: "'c cron_lib \<Rightarrow> gotime \<Rightarrow> string \<Rightarrow> gotime option" where
  "calculateNextRun K now schedule =
     (case cron_ParseStandard K schedule of
        Some next_run \<Rightarrow> Some (next_run now)
      | None \<Rightarrow> map_option (\<lambda>next_run. next_run now) (cron_Parse6 K schedule))"

text \<open>\<^verbatim>\<open>strings.Fields\<close> of ASCII text\<close>

fun Fields :: "string \<Rightarrow> string list" where
  "Fields [] = []"
| "Fields (c # s) =
     (if is_space c then Fields s
      else (let w = takeWhile (\<lambda>c. \<not> is_space c) s in (c # w) # Fields (drop (length w) s)))"

text \<open>The cron expects six fields; a schedule of five gets a zero for the seconds.\<close>

definition cron_spec :: "string \<Rightarrow> string" where
  "cron_spec schedule = (if length (Fields schedule) = 5 then ''0 '' @ schedule else schedule)"

definition registerCronJob :: "('r, 'd, 'c) sched_deps \<Rightarrow> scheduled_job \<Rightarrow> ('r, 'c) sched \<Rightarrow> bool \<times> ('r, 'c) sched" where
  "registerCronJob D job S =
     (let K = sd_cron D; key = uuid_String (sd_queue D) (sj_ID job);
          c = (case sc_cronEntries S key of None \<Rightarrow> sc_cron S | Some entryID \<Rightarrow> cron_Remove K entryID (sc_cron S))
      in case cron_AddFunc K (cron_spec (sj_Schedule job)) job c of
           (None, c) \<Rightarrow> (False, S\<lparr>sc_cron := c\<rparr>)
         | (Some entryID, c) \<Rightarrow> (True, S\<lparr>sc_cron := c, sc_cronEntries := (sc_cronEntries S)(key \<mapsto> entryID)\<rparr>))"

definition unregisterCronJob :: "('r, 'd, 'c) sched_deps \<Rightarrow> uuid \<Rightarrow> ('r, 'c) sched \<Rightarrow> ('r, 'c) sched" where
  "unregisterCronJob D i S =
     (let key = uuid_String (sd_queue D) i in
      case sc_cronEntries S key of
        None \<Rightarrow> S
      | Some entryID \<Rightarrow> S\<lparr>sc_cron := cron_Remove (sd_cron D) entryID (sc_cron S), sc_cronEntries := (sc_cronEntries S)(key := None)\<rparr>)"

definition new_scheduled_job :: "('r, 'd, 'c) sched_deps \<Rightarrow> sched_io \<Rightarrow> create_scheduled_input \<Rightarrow> scheduled_job" where
  "new_scheduled_job D io input =
     \<lparr>sj_ID = si_id io, sj_Name = cs_Name input, sj_Type = cs_Type input, sj_Schedule = cs_Schedule input, sj_HostID = cs_HostID input,
      sj_TargetID = cs_TargetID input, sj_TargetName = cs_TargetName input,
      sj_Payload = (case cs_Payload input of None \<Rightarrow> None | Some p \<Rightarrow> p),
      sj_Priority = (if cs_Priority input = 0 then JobPriorityNormal else cs_Priority input),
      sj_MaxAttempts = (if cs_MaxAttempts input = 0 then 3 else cs_MaxAttempts input), sj_IsEnabled = cs_IsEnabled input,
      sj_LastRunAt = None, sj_LastRunStatus = None, sj_NextRunAt = calculateNextRun (sd_cron D) (si_clk io 2) (cs_Schedule input),
      sj_RunCount = 0, sj_FailCount = 0, sj_CreatedBy = None, sj_CreatedAt = si_clk io 0, sj_UpdatedAt = si_clk io 1\<rparr>"

definition CreateScheduledJob ::
  "('r, 'd, 'c) sched_deps \<Rightarrow> sched_io \<Rightarrow> create_scheduled_input \<Rightarrow> ('r, 'c) sched \<Rightarrow> (sched_error + scheduled_job) \<times> ('r, 'c) sched" where
  "CreateScheduledJob D io input S =
     (if cron_ParseStandard (sd_cron D) (cs_Schedule input) = None then (Inl InvalidCron, S)
      else if \<not> has_worker (cs_Type input) (po_types (sc_pool S)) then (Inl (NoWorker (cs_Type input)), S)
      else if cs_Payload input = Some None then (Inl PayloadFailed, S)
      else let job = new_scheduled_job D io input;
               (ok, rows) = (if sd_repo D then sj_Create (si_st io 0) job (sc_scheduled S) else (True, sc_scheduled S))
           in if \<not> ok then (Inl SaveFailed, S)
              else let S = S\<lparr>sc_scheduled := rows\<rparr> in (Inr job, if sj_IsEnabled job then snd (registerCronJob D job S) else S))"

definition updated_job :: "('r, 'd, 'c) sched_deps \<Rightarrow> sched_io \<Rightarrow> update_scheduled_input \<Rightarrow> scheduled_job \<Rightarrow> scheduled_job" where
  "updated_job D io input job =
     (let job = (case us_Name input of None \<Rightarrow> job | Some x \<Rightarrow> job\<lparr>sj_Name := x\<rparr>);
          job = (case us_Schedule input of None \<Rightarrow> job
                 | Some x \<Rightarrow> job\<lparr>sj_Schedule := x, sj_NextRunAt := calculateNextRun (sd_cron D) (si_clk io 0) x\<rparr>);
          job = (case us_Priority input of None \<Rightarrow> job | Some x \<Rightarrow> job\<lparr>sj_Priority := x\<rparr>);
          job = (case us_MaxAttempts input of None \<Rightarrow> job | Some x \<Rightarrow> job\<lparr>sj_MaxAttempts := x\<rparr>);
          job = (case us_IsEnabled input of None \<Rightarrow> job | Some x \<Rightarrow> job\<lparr>sj_IsEnabled := x\<rparr>);
          job = (case us_Payload input of None \<Rightarrow> job | Some p \<Rightarrow> job\<lparr>sj_Payload := p\<rparr>)
      in job\<lparr>sj_UpdatedAt := si_clk io 1\<rparr>)"

definition UpdateScheduledJob ::
  "('r, 'd, 'c) sched_deps \<Rightarrow> sched_io \<Rightarrow> uuid \<Rightarrow> update_scheduled_input \<Rightarrow> ('r, 'c) sched \<Rightarrow>
   (sched_error + scheduled_job) \<times> ('r, 'c) sched" where
  "UpdateScheduledJob D io i input S =
     (if \<not> sd_repo D then (Inl NilDereference, S)
      else case sj_Get (si_st io 0) i (sc_scheduled S) of
        Inl e \<Rightarrow> (Inl e, S)
      | Inr job \<Rightarrow>
          if case us_Schedule input of None \<Rightarrow> False | Some x \<Rightarrow> cron_ParseStandard (sd_cron D) x = None then (Inl InvalidCron, S)
          else if us_Payload input = Some None then (Inl PayloadFailed, S)
          else (let job = updated_job D io input job in
            case sj_Update (si_st io 1) (si_clk io 2) job (sc_scheduled S) of
              (Some e, rows) \<Rightarrow> (Inl e, S)
            | (None, rows) \<Rightarrow>
                (let job = job\<lparr>sj_UpdatedAt := si_clk io 2\<rparr>;
                     S = unregisterCronJob D i (S\<lparr>sc_scheduled := rows\<rparr>)
                 in (Inr job, if sj_IsEnabled job then snd (registerCronJob D job S) else S))))"

definition DeleteScheduledJob ::
  "('r, 'd, 'c) sched_deps \<Rightarrow> sched_io \<Rightarrow> uuid \<Rightarrow> ('r, 'c) sched \<Rightarrow> sched_error option \<times> ('r, 'c) sched" where
  "DeleteScheduledJob D io i S =
     (let S = unregisterCronJob D i S in
      if sd_repo D then (case sj_Delete (si_st io 0) i (sc_scheduled S) of (e, rows) \<Rightarrow> (e, S\<lparr>sc_scheduled := rows\<rparr>))
      else (None, S))"

definition GetScheduledJob ::
  "('r, 'd, 'c) sched_deps \<Rightarrow> sched_io \<Rightarrow> uuid \<Rightarrow> ('r, 'c) sched \<Rightarrow> sched_error + scheduled_job" where
  "GetScheduledJob D io i S = (if \<not> sd_repo D then Inl NoRepository else sj_Get (si_st io 0) i (sc_scheduled S))"

definition ListScheduledJobs ::
  "('r, 'd, 'c) sched_deps \<Rightarrow> sched_io \<Rightarrow> bool \<Rightarrow> ('r, 'c) sched \<Rightarrow> sched_error + scheduled_job list" where
  "ListScheduledJobs D io enabledOnly S =
     (if \<not> sd_repo D then Inl NoRepository
      else sj_List (sd_collate D) (si_st io 0) (if enabledOnly then Some True else None) (sc_scheduled S))"

definition job_from_scheduled :: "scheduled_job \<Rightarrow> create_job_input" where
  "job_from_scheduled j =
     \<lparr>cj_Type = sj_Type j, cj_HostID = sj_HostID j, cj_TargetID = sj_TargetID j, cj_TargetName = sj_TargetName j,
      cj_Payload = map_option Some (sj_Payload j), cj_Priority = sj_Priority j, cj_MaxAttempts = sj_MaxAttempts j, cj_ScheduledAt = None\<rparr>"

text \<open>\<open>io2\<close> has the inputs after \<^verbatim>\<open>EnqueueJob\<close>.\<close>

definition createJobFromScheduled ::
  "('r, 'd, 'c) sched_deps \<Rightarrow> sched_io \<Rightarrow> sched_io \<Rightarrow> scheduled_job \<Rightarrow> ('r, 'c) sched \<Rightarrow> (sched_error + job) \<times> ('r, 'c) sched" where
  "createJobFromScheduled D io io2 schedJob S =
     (case EnqueueJob D io (job_from_scheduled schedJob) S of
        (Inl e, S) \<Rightarrow> (Inl e, S)
      | (Inr job, S) \<Rightarrow>
          (Inr job,
           if sd_repo D
           then S\<lparr>sc_scheduled := sj_UpdateLastRun (si_st io2 0) (sj_ID schedJob) ''running''
                    (calculateNextRun (sd_cron D) (si_clk io2 0) (sj_Schedule schedJob)) (sc_scheduled S)\<rparr>
           else S))"

definition RunScheduledJobNow ::
  "('r, 'd, 'c) sched_deps \<Rightarrow> sched_io \<Rightarrow> sched_io \<Rightarrow> sched_io \<Rightarrow> uuid \<Rightarrow> ('r, 'c) sched \<Rightarrow> (sched_error + job) \<times> ('r, 'c) sched" where
  "RunScheduledJobNow D io io1 io2 i S =
     (if \<not> sd_repo D then (Inl NilDereference, S)
      else case sj_Get (si_st io 0) i (sc_scheduled S) of Inl e \<Rightarrow> (Inl e, S) | Inr j \<Rightarrow> createJobFromScheduled D io1 io2 j S)"

definition loadScheduledJobs :: "('r, 'd, 'c) sched_deps \<Rightarrow> sched_io \<Rightarrow> ('r, 'c) sched \<Rightarrow> ('r, 'c) sched" where
  "loadScheduledJobs D io S =
     (if \<not> sd_repo D then S
      else case sj_List (sd_collate D) (si_st io 0) (Some True) (sc_scheduled S) of
        Inl e \<Rightarrow> S
      | Inr jobs \<Rightarrow> fold (\<lambda>j S. snd (registerCronJob D j S)) jobs S)"

section \<open>Start and stop\<close>

definition sched_Start :: "('r, 'd, 'c) sched_deps \<Rightarrow> sched_io \<Rightarrow> ('r, 'c) sched \<Rightarrow> bool \<times> ('r, 'c) sched" where
  "sched_Start D io S =
     (if sc_running S then (False, S)
      else case pool_Start (sc_pool S) of
        (Some e, p) \<Rightarrow> (False, S\<lparr>sc_running := True, sc_pool := p\<rparr>)
      | (None, p) \<Rightarrow> (True, loadScheduledJobs D io (S\<lparr>sc_running := True, sc_pool := p\<rparr>)))"

text \<open>\<open>None\<close> is a panic: a channel is closed the second time.\<close>

definition sched_Stop :: "bool \<Rightarrow> ('r, 'c) sched \<Rightarrow> ('r, 'c) sched option" where
  "sched_Stop in_time S =
     (if \<not> sc_running S then Some S
      else map_option (\<lambda>p. S\<lparr>sc_running := False, sc_pool := p\<rparr>) (pool_Stop in_time (sc_pool S)))"

subsection \<open>Jobs made at the start\<close>

definition ensure_scheduled ::
  "('r, 'd, 'c) sched_deps \<Rightarrow> sched_io \<Rightarrow> sched_io \<Rightarrow> (scheduled_job \<Rightarrow> bool) \<Rightarrow> create_scheduled_input \<Rightarrow> ('r, 'c) sched \<Rightarrow> ('r, 'c) sched" where
  "ensure_scheduled D io io' same input S =
     (case ListScheduledJobs D io False S of
        Inl e \<Rightarrow> S
      | Inr existing \<Rightarrow> if list_ex same existing then S else snd (CreateScheduledJob D io' input S))"

definition daily :: "string \<Rightarrow> string \<Rightarrow> string \<Rightarrow> create_scheduled_input" where
  "daily name jobType schedule =
     \<lparr>cs_Name = name, cs_Type = jobType, cs_Schedule = schedule, cs_HostID = None, cs_TargetID = None, cs_TargetName = None,
      cs_Payload = None, cs_Priority = JobPriorityLow, cs_MaxAttempts = 1, cs_IsEnabled = True\<rparr>"

definition ensureReconRetentionScheduledJob :: "('r, 'd, 'c) sched_deps \<Rightarrow> sched_io \<Rightarrow> sched_io \<Rightarrow> ('r, 'c) sched \<Rightarrow> ('r, 'c) sched" where
  "ensureReconRetentionScheduledJob D io io' =
     ensure_scheduled D io io' (\<lambda>j. sj_Type j = ''recon_retention'') (daily ''Recon Retention'' ''recon_retention'' ''30 3 * * *'')"

definition ensureSSLScanScheduledJob :: "('r, 'd, 'c) sched_deps \<Rightarrow> sched_io \<Rightarrow> sched_io \<Rightarrow> ('r, 'c) sched \<Rightarrow> ('r, 'c) sched" where
  "ensureSSLScanScheduledJob D io io' =
     ensure_scheduled D io io' (\<lambda>j. sj_Type j = ''ssl_scan'') (daily ''ssl observatory daily scan'' ''ssl_scan'' ''0 4 * * *'')"

definition ensureRetentionScheduledJob :: "('r, 'd, 'c) sched_deps \<Rightarrow> sched_io \<Rightarrow> sched_io \<Rightarrow> ('r, 'c) sched \<Rightarrow> ('r, 'c) sched" where
  "ensureRetentionScheduledJob D io io' =
     ensure_scheduled D io io' (\<lambda>j. sj_Type j = ''retention'') (daily ''Database Retention Cleanup'' ''retention'' ''0 3 * * *'')"

definition ensureDatabaseBackupScheduledJob ::
  "('r, 'd, 'c) sched_deps \<Rightarrow> sched_io \<Rightarrow> sched_io \<Rightarrow> uuid \<Rightarrow> string option \<Rightarrow> ('r, 'c) sched \<Rightarrow> ('r, 'c) sched" where
  "ensureDatabaseBackupScheduledJob D io io' hostID encoded =
     ensure_scheduled D io io' (\<lambda>j. sj_Type j = ''backup_create'' \<and> sj_Name j = ''Automatic Database Backup'')
       ((daily ''Automatic Database Backup'' ''backup_create'' ''0 2 * * *'')
          \<lparr>cs_HostID := Some hostID, cs_TargetID := Some ''postgresql'', cs_TargetName := Some ''PostgreSQL Database'',
           cs_Payload := Some encoded, cs_Priority := JobPriorityNormal, cs_MaxAttempts := 3\<rparr>)"

end
