(* ===== verification/Scheduled_Jobs.thy ===== *)
theory Scheduled_Jobs
  imports Scheduler
begin

text \<open>
  Scheduled jobs and the cron (\<^verbatim>\<open>internal/scheduler/scheduler.go\<close>): what the cron runs is what the
  table has enabled, and a start registers all of it.
\<close>

section \<open>What the scheduler relies on\<close>

text \<open>
  A cron numbers its entries upwards, takes the specifications its parser accepts and keeps an entry until it is
  removed. \<open>entries\<close> shows the entries, \<open>issued\<close> the last number given. The scheduler has its tables.
\<close>

locale cron_server =
  fixes D :: "('r, 'd, 'c) sched_deps"
    and entries :: "'c \<Rightarrow> nat \<Rightarrow> (string \<times> scheduled_job) option"
    and issued :: "'c \<Rightarrow> nat"
    and takes :: "string \<Rightarrow> bool"
  assumes add_law: "cron_AddFunc (sd_cron D) spec j c = (Some i, c') \<Longrightarrow>
      issued c < i \<and> issued c' = i \<and> entries c' = (entries c)(i \<mapsto> (spec, j))"
    and refuse_law: "cron_AddFunc (sd_cron D) spec j c = (None, c') \<Longrightarrow> issued c' = issued c \<and> entries c' = entries c"
    and takes_law: "fst (cron_AddFunc (sd_cron D) spec j c) \<noteq> None \<longleftrightarrow> takes spec"
    and remove_law: "issued (cron_Remove (sd_cron D) i c) = issued c" "entries (cron_Remove (sd_cron D) i c) = (entries c)(i := None)"
    and inj_law: "inj (uuid_String (sd_queue D))"
    and repo_law: "sd_repo D"

text \<open>A scheduled job without what a run changes.\<close>

definition plan :: "scheduled_job \<Rightarrow> scheduled_job" where
  "plan j = j\<lparr>sj_LastRunAt := None, sj_LastRunStatus := None, sj_NextRunAt := None, sj_RunCount := 0, sj_FailCount := 0, sj_UpdatedAt := 0\<rparr>"

lemma plan_eqD: "plan j = plan j' \<Longrightarrow> sj_ID j = sj_ID j' \<and> sj_Schedule j = sj_Schedule j' \<and> sj_IsEnabled j = sj_IsEnabled j' \<and> sj_Type j = sj_Type j'"
  by (cases j; cases j') (simp add: plan_def)

text \<open>The operations on scheduled jobs, each one a step.\<close>

inductive plan_step :: "('r, 'd, 'c) sched_deps \<Rightarrow> ('r, 'c) sched \<Rightarrow> ('r, 'c) sched \<Rightarrow> bool"
  for D where
  plan_start: "plan_step D S (snd (sched_Start D io S))"
| plan_create: "plan_step D S (snd (CreateScheduledJob D io input S))"
| plan_update: "plan_step D S (snd (UpdateScheduledJob D io i changes S))"
| plan_delete: "plan_step D S (snd (DeleteScheduledJob D io i S))"
| plan_run: "plan_step D S (snd (createJobFromScheduled D io io2 j S))"
| plan_run_now: "plan_step D S (snd (RunScheduledJobNow D io io1 io2 i S))"
| plan_stop: "sched_Stop in_time S = Some S' \<Longrightarrow> plan_step D S S'"

text \<open>
  Identifiers are unique in the table, an entry of the map is the number of one key, and each entry of the cron is
  in the map and runs an enabled row at the row's schedule.
\<close>

definition cron_ok ::
  "(uuid \<Rightarrow> string) \<Rightarrow> (nat \<Rightarrow> (string \<times> scheduled_job) option) \<Rightarrow> nat \<Rightarrow> (string \<rightharpoonup> nat) \<Rightarrow> scheduled_job list \<Rightarrow> bool" where
  "cron_ok str en last_id m rows \<longleftrightarrow>
     distinct (map sj_ID rows) \<and> (\<forall>key i. m key = Some i \<longrightarrow> i \<le> last_id) \<and>
     (\<forall>key key' i. m key = Some i \<longrightarrow> m key' = Some i \<longrightarrow> key = key') \<and>
     (\<forall>i spec j. en i = Some (spec, j) \<longrightarrow>
        m (str (sj_ID j)) = Some i \<and> spec = cron_spec (sj_Schedule j) \<and> (\<exists>row \<in> set rows. sj_IsEnabled row \<and> plan row = plan j))"

lemma cron_okD:
  assumes "cron_ok str en last_id m rows"
  shows "distinct (map sj_ID rows)" "m key = Some i \<Longrightarrow> i \<le> last_id" "m key = Some i \<Longrightarrow> m key' = Some i \<Longrightarrow> key = key'"
    "en i = Some (spec, j) \<Longrightarrow> m (str (sj_ID j)) = Some i \<and> spec = cron_spec (sj_Schedule j)"
    "en i = Some (spec, j) \<Longrightarrow> \<exists>row \<in> set rows. sj_IsEnabled row \<and> plan row = plan j"
  using assms unfolding cron_ok_def by blast+

lemma cron_ok_remove: "cron_ok str en n m rows \<Longrightarrow> cron_ok str (en(i := None)) n m rows"
  unfolding cron_ok_def by (auto split: if_splits)

lemma cron_ok_forget:
  assumes "cron_ok str en n m rows" "m key = Some i"
  shows "cron_ok str (en(i := None)) n (m(key := None)) rows"
  using assms unfolding cron_ok_def by (auto split: if_splits)

text \<open>Rows without an entry may change.\<close>

lemma cron_ok_rows:
  assumes "cron_ok str en n m rows" "distinct (map sj_ID rows')"
    and "\<And>i spec j. en i = Some (spec, j) \<Longrightarrow> sj_ID j \<noteq> u"
    and "\<And>row. row \<in> set rows \<Longrightarrow> sj_ID row \<noteq> u \<Longrightarrow> \<exists>row' \<in> set rows'. sj_IsEnabled row' = sj_IsEnabled row \<and> plan row' = plan row"
  shows "cron_ok str en n m rows'"
  unfolding cron_ok_def
proof (intro conjI allI impI)
  note ok = cron_okD [OF assms(1)]
  show "distinct (map sj_ID rows')" by (rule assms(2))
  show "i \<le> n" if "m key = Some i" for key i using ok(2) [OF that] .
  show "key = key'" if "m key = Some i" "m key' = Some i" for key key' i using ok(3) [OF that] .
  fix i spec j
  assume e: "en i = Some (spec, j)"
  show "m (str (sj_ID j)) = Some i" "spec = cron_spec (sj_Schedule j)" using ok(4) [OF e] by simp_all
  obtain row where row: "row \<in> set rows" "sj_IsEnabled row" "plan row = plan j" using ok(5) [OF e] by blast
  then have "sj_ID row \<noteq> u" using assms(3) [OF e] plan_eqD [of row j] by simp
  from assms(4) [OF row(1) this] row show "\<exists>row \<in> set rows'. sj_IsEnabled row \<and> plan row = plan j" by auto
qed

lemma cron_ok_add:
  assumes "cron_ok str en n m rows" "n < i" "inj str"
    and "\<And>i' spec j'. en i' = Some (spec, j') \<Longrightarrow> sj_ID j' \<noteq> sj_ID j"
    and "\<exists>row \<in> set rows. sj_IsEnabled row \<and> plan row = plan j"
  shows "cron_ok str (en(i \<mapsto> (cron_spec (sj_Schedule j), j))) i (m(str (sj_ID j) \<mapsto> i)) rows"
  unfolding cron_ok_def
proof (intro conjI allI impI)
  note ok = cron_okD [OF assms(1)]
  show "distinct (map sj_ID rows)" by (rule ok(1))
  show "x \<le> i" if "(m(str (sj_ID j) \<mapsto> i)) key = Some x" for key x
    using that ok(2) [of key x] assms(2) by (auto split: if_splits)
  show "key = key'" if "(m(str (sj_ID j) \<mapsto> i)) key = Some x" "(m(str (sj_ID j) \<mapsto> i)) key' = Some x" for key key' x
    using that ok(2) [of key x] ok(2) [of key' x] ok(3) [of key x key'] assms(2) by (auto split: if_splits)
  fix x spec j'
  assume e: "(en(i \<mapsto> (cron_spec (sj_Schedule j), j))) x = Some (spec, j')"
  show "spec = cron_spec (sj_Schedule j')" using e ok(4) [of x spec j'] by (auto split: if_splits)
  show "\<exists>row \<in> set rows. sj_IsEnabled row \<and> plan row = plan j'" using e assms(5) ok(5) [of x spec j'] by (auto split: if_splits)
  show "(m(str (sj_ID j) \<mapsto> i)) (str (sj_ID j')) = Some x"
  proof (cases "x = i")
    case False
    then have "en x = Some (spec, j')" using e by simp
    with ok(4) [OF this] assms(4) [OF this] assms(3) show ?thesis by (simp add: inj_eq)
  qed (use e in simp)
qed

context cron_server
begin

abbreviation ok :: "('r, 'c) sched \<Rightarrow> bool" where
  "ok S \<equiv> cron_ok (uuid_String (sd_queue D)) (entries (sc_cron S)) (issued (sc_cron S)) (sc_cronEntries S) (sc_scheduled S)"

lemma no_entry:
  assumes "ok S" "sc_cronEntries S (uuid_String (sd_queue D) u) = None" "entries (sc_cron S) i = Some (spec, j)"
  shows "sj_ID j \<noteq> u"
  using cron_okD(4) [OF assms(1,3)] assms(2) by auto

lemma no_other_entry:
  assumes "ok S" "sc_cronEntries S (uuid_String (sd_queue D) u) = Some i0"
    "((entries (sc_cron S))(i0 := None)) i = Some (spec, j)"
  shows "sj_ID j \<noteq> u"
proof
  assume "sj_ID j = u"
  moreover have e: "entries (sc_cron S) i = Some (spec, j)" "i \<noteq> i0" using assms(3) by (auto split: if_splits)
  ultimately show False using cron_okD(4) [OF assms(1) e(1)] assms(2) by simp
qed

lemma register_keeps:
  assumes "ok S" "\<exists>row \<in> set (sc_scheduled S). sj_IsEnabled row \<and> plan row = plan job"
  shows "ok (snd (registerCronJob D job S))"
proof -
  let ?key = "uuid_String (sd_queue D) (sj_ID job)" and ?K = "sd_cron D"
  define c where "c = (case sc_cronEntries S ?key of None \<Rightarrow> sc_cron S | Some entryID \<Rightarrow> cron_Remove ?K entryID (sc_cron S))"
  have c: "cron_ok (uuid_String (sd_queue D)) (entries c) (issued c) (sc_cronEntries S) (sc_scheduled S)"
    using assms(1) cron_ok_remove by (auto simp: c_def remove_law split: option.split)
  have none: "sj_ID j \<noteq> sj_ID job" if "entries c i = Some (spec, j)" for i spec j
    using that no_entry [OF assms(1)] no_other_entry [OF assms(1)] by (cases "sc_cronEntries S ?key") (auto simp: c_def remove_law)
  obtain t c' where t: "cron_AddFunc ?K (cron_spec (sj_Schedule job)) job c = (t, c')" by fastforce
  show ?thesis
  proof (cases t)
    case None
    with refuse_law t c show ?thesis by (simp add: registerCronJob_def c_def [symmetric])
  next
    case (Some i)
    with add_law t have "issued c < i" "issued c' = i" "entries c' = (entries c)(i \<mapsto> (cron_spec (sj_Schedule job), job))" by blast+
    with cron_ok_add [OF c this(1) inj_law none assms(2)] t Some show ?thesis
      by (simp add: registerCronJob_def c_def [symmetric])
  qed
qed

lemma unregister_keeps:
  assumes "ok S"
  shows "ok (unregisterCronJob D u S)" "entries (sc_cron (unregisterCronJob D u S)) i = Some (spec, j) \<Longrightarrow> sj_ID j \<noteq> u"
  using assms cron_ok_forget [OF assms] no_entry [OF assms] no_other_entry [OF assms]
  by (auto simp: unregisterCronJob_def Let_def remove_law split: option.splits)

lemma unregister_rows [simp]:
  "unregisterCronJob D u (S\<lparr>sc_scheduled := rows\<rparr>) = (unregisterCronJob D u S)\<lparr>sc_scheduled := rows\<rparr>"
  "sc_scheduled (unregisterCronJob D u S) = sc_scheduled S"
  by (simp_all add: unregisterCronJob_def Let_def split: option.split)

lemma register_rows [simp]: "sc_scheduled (snd (registerCronJob D j S)) = sc_scheduled S"
  by (auto simp: registerCronJob_def Let_def split: option.split prod.split)

lemma load_loop_keeps:
  "ok S \<Longrightarrow> set js \<subseteq> {j \<in> set (sc_scheduled S). sj_IsEnabled j} \<Longrightarrow>
   ok (fold (\<lambda>j S. snd (registerCronJob D j S)) js S)"
proof (induction js arbitrary: S)
  case (Cons j js)
  have "ok (snd (registerCronJob D j S))" using Cons.prems by (intro register_keeps) auto
  with Cons.IH [OF this] Cons.prems(2) show ?case by simp
qed simp

lemma enabled_listed:
  assumes "sj_List collate st (Some True) rows = Inr js"
  shows "set js = {j \<in> set rows. sj_IsEnabled j}"
  using assms by (auto simp: sj_List_def split: if_splits)

lemma start_plan_keeps:
  assumes "ok S"
  shows "ok (snd (sched_Start D io S))"
proof -
  have "ok (loadScheduledJobs D io S')" if "ok S'" for S'
  proof (cases "sj_List (sd_collate D) (si_st io 0) (Some True) (sc_scheduled S')")
    case (Inr js)
    with load_loop_keeps [OF that] enabled_listed [OF Inr] that show ?thesis by (simp add: loadScheduledJobs_def)
  qed (use that in \<open>simp add: loadScheduledJobs_def\<close>)
  with assms show ?thesis by (auto simp: sched_Start_def split: prod.split option.split)
qed

lemma create_keeps:
  assumes "ok S"
  shows "ok (snd (CreateScheduledJob D io input S))"
proof -
  let ?job = "new_scheduled_job D io input"
  obtain b rows where rows: "sj_Create (si_st io 0) ?job (sc_scheduled S) = (b, rows)" by fastforce
  show ?thesis
  proof (cases b)
    case True
    then have rows': "rows = sc_scheduled S @ [?job]" "sj_ID ?job \<notin> sj_ID ` set (sc_scheduled S)"
      using rows by (auto simp: sj_Create_def split: if_splits)
    have "ok (S\<lparr>sc_scheduled := rows\<rparr>)"
    proof (simp, rule cron_ok_rows [OF assms, of _ "sj_ID ?job"])
      show "distinct (map sj_ID rows)" using cron_okD(1) [OF assms] rows' by auto
      show "sj_ID j \<noteq> sj_ID ?job" if "entries (sc_cron S) i = Some (spec, j)" for i spec j
        using cron_okD(5) [OF assms that] plan_eqD rows'(2) by (metis image_eqI)
    qed (use rows'(1) in auto)
    with register_keeps [of "S\<lparr>sc_scheduled := rows\<rparr>" ?job] assms rows rows'(1) True show ?thesis
      by (auto simp: CreateScheduledJob_def repo_law Let_def)
  next
    case False
    with assms rows show ?thesis by (simp add: CreateScheduledJob_def repo_law Let_def)
  qed
qed

lemma updated_fields:
  "sj_ID (updated_job D io changes job) = sj_ID job" "sj_Type (updated_job D io changes job) = sj_Type job"
  "sj_HostID (updated_job D io changes job) = sj_HostID job" "sj_TargetID (updated_job D io changes job) = sj_TargetID job"
  "sj_TargetName (updated_job D io changes job) = sj_TargetName job" "sj_CreatedBy (updated_job D io changes job) = sj_CreatedBy job"
  "sj_CreatedAt (updated_job D io changes job) = sj_CreatedAt job"
  by (simp_all add: updated_job_def Let_def split: option.split)

lemma update_keeps:
  assumes "ok S"
  shows "ok (snd (UpdateScheduledJob D io i changes S))"
proof (cases "sj_Get (si_st io 0) i (sc_scheduled S)")
  case (Inl e)
  with assms show ?thesis by (simp add: UpdateScheduledJob_def repo_law)
next
  case (Inr job)
  let ?job = "updated_job D io changes job" and ?now = "si_clk io 2"
  obtain e rows where rows: "sj_Update (si_st io 1) ?now ?job (sc_scheduled S) = (e, rows)" by fastforce
  have job: "job \<in> set (sc_scheduled S)" "sj_ID job = i"
    using Inr by (auto simp: sj_Get_def find_Some_iff split: if_splits option.splits)
  have id: "sj_ID ?job = i" using job(2) by (simp add: updated_fields)
  show ?thesis
  proof (cases e)
    case (Some e')
    with assms Inr rows show ?thesis by (simp add: UpdateScheduledJob_def repo_law Let_def)
  next
    case None
    define change where "change row = row\<lparr>sj_Name := sj_Name ?job, sj_Schedule := sj_Schedule ?job, sj_Payload := sj_Payload ?job,
       sj_Priority := sj_Priority ?job, sj_MaxAttempts := sj_MaxAttempts ?job, sj_IsEnabled := sj_IsEnabled ?job,
       sj_NextRunAt := sj_NextRunAt ?job, sj_UpdatedAt := ?now\<rparr>" for row :: scheduled_job
    have rows': "rows = map (\<lambda>row. if sj_ID row = i then change row else row) (sc_scheduled S)"
      using None rows id by (auto simp: sj_Update_def change_def split: if_splits)
    let ?S = "unregisterCronJob D i S"
    have "ok (?S\<lparr>sc_scheduled := rows\<rparr>)"
    proof (simp, rule cron_ok_rows [OF unregister_keeps(1) [OF assms, of i, simplified], of _ i])
      have "map sj_ID rows = map sj_ID (sc_scheduled S)" by (simp add: rows' change_def)
      then show "distinct (map sj_ID rows)" using cron_okD(1) [OF assms] by simp
      show "sj_ID j \<noteq> i" if "entries (sc_cron ?S) x = Some (spec, j)" for x spec j
        using unregister_keeps(2) [OF assms that] .
    qed (auto simp: rows')
    moreover have "change job \<in> set rows" using job by (force simp: rows')
    moreover have "sj_IsEnabled (change job) = sj_IsEnabled ?job" "plan (change job) = plan (?job\<lparr>sj_UpdatedAt := ?now\<rparr>)"
      by (simp_all add: change_def plan_def scheduled_job.equality updated_fields)
    ultimately have "sj_IsEnabled ?job \<Longrightarrow> ok (snd (registerCronJob D (?job\<lparr>sj_UpdatedAt := ?now\<rparr>) (?S\<lparr>sc_scheduled := rows\<rparr>)))"
      by (intro register_keeps) auto
    with \<open>ok (?S\<lparr>sc_scheduled := rows\<rparr>)\<close> assms Inr rows None show ?thesis
      by (simp add: UpdateScheduledJob_def repo_law Let_def)
  qed
qed

lemma delete_keeps:
  assumes "ok S"
  shows "ok (snd (DeleteScheduledJob D io i S))"
proof -
  let ?S = "unregisterCronJob D i S"
  obtain e rows where rows: "sj_Delete (si_st io 0) i (sc_scheduled S) = (e, rows)" by fastforce
  have "ok (?S\<lparr>sc_scheduled := rows\<rparr>)"
  proof (simp, rule cron_ok_rows [OF unregister_keeps(1) [OF assms, of i, simplified], of _ i])
    show "distinct (map sj_ID rows)"
      using rows cron_okD(1) [OF assms] by (auto simp: sj_Delete_def distinct_map_filter split: if_splits)
    show "sj_ID j \<noteq> i" if "entries (sc_cron ?S) x = Some (spec, j)" for x spec j
      using unregister_keeps(2) [OF assms that] .
    show "\<exists>row' \<in> set rows. sj_IsEnabled row' = sj_IsEnabled row \<and> plan row' = plan row"
      if "row \<in> set (sc_scheduled S)" "sj_ID row \<noteq> i" for row
      using that rows by (intro bexI [of _ row]) (auto simp: sj_Delete_def split: if_splits)
  qed
  with rows show ?thesis by (simp add: DeleteScheduledJob_def repo_law Let_def)
qed

lemma EnqueueJob_keeps [simp]:
  "sc_scheduled (snd (EnqueueJob D io input S)) = sc_scheduled S" "sc_cron (snd (EnqueueJob D io input S)) = sc_cron S"
  "sc_cronEntries (snd (EnqueueJob D io input S)) = sc_cronEntries S"
  by (auto simp: EnqueueJob_def emitEvent_def Let_def split: prod.split option.split)

text \<open>The record of a run changes no plan.\<close>

lemma last_run_keeps:
  assumes "ok S"
  shows "ok (S\<lparr>sc_scheduled := sj_UpdateLastRun st i status nextRun (sc_scheduled S)\<rparr>)"
proof (cases st)
  case (Some t)
  define f :: "scheduled_job \<Rightarrow> scheduled_job" where "f = (\<lambda>j. if sj_ID j = i
     then j\<lparr>sj_LastRunAt := Some t, sj_LastRunStatus := Some status, sj_NextRunAt := nextRun, sj_RunCount := sj_RunCount j + 1,
            sj_FailCount := (if status = ''failed'' then sj_FailCount j + 1 else sj_FailCount j), sj_UpdatedAt := t\<rparr>
     else j)"
  have f: "sj_ID (f j) = sj_ID j" "sj_IsEnabled (f j) = sj_IsEnabled j" "plan (f j) = plan j" for j
    by (simp_all add: f_def plan_def)
  have "map sj_ID (map f (sc_scheduled S)) = map sj_ID (sc_scheduled S)" by (simp add: f comp_def)
  then have d: "distinct (map sj_ID (map f (sc_scheduled S)))" using cron_okD(1) [OF assms] by metis
  have "ok (S\<lparr>sc_scheduled := map f (sc_scheduled S)\<rparr>)"
    using assms d unfolding cron_ok_def by (auto simp: f)
  with Some show ?thesis by (simp add: sj_UpdateLastRun_def f_def)
qed (use assms in \<open>simp add: sj_UpdateLastRun_def\<close>)

lemma run_keeps:
  assumes "ok S"
  shows "ok (snd (createJobFromScheduled D io io2 j S))"
proof -
  obtain r S1 where e: "EnqueueJob D io (job_from_scheduled j) S = (r, S1)" by fastforce
  then have "ok S1" using EnqueueJob_keeps [of io "job_from_scheduled j" S] assms by simp
  with last_run_keeps [OF this] e show ?thesis by (cases r) (simp_all add: createJobFromScheduled_def)
qed

lemma run_now_keeps: "ok S \<Longrightarrow> ok (snd (RunScheduledJobNow D io io1 io2 i S))"
  using run_keeps by (simp add: RunScheduledJobNow_def split: sum.split)

lemma stop_keeps: "ok S \<Longrightarrow> sched_Stop in_time S = Some S' \<Longrightarrow> ok S'"
  by (auto simp: sched_Stop_def split: if_splits)

lemmas plan_keeps = start_plan_keeps create_keeps update_keeps delete_keeps run_keeps run_now_keeps stop_keeps

lemma plan_step_keeps: "plan_step D S S' \<Longrightarrow> ok S \<Longrightarrow> ok S'"
  by (induction rule: plan_step.induct) (blast intro: plan_keeps)+

text \<open>A start registers the rows one after the other; a later one leaves the entries of the others alone.\<close>

lemma register_adds:
  assumes "ok S" "takes (cron_spec (sj_Schedule j))"
  shows "\<exists>i. entries (sc_cron (snd (registerCronJob D j S))) i = Some (cron_spec (sj_Schedule j), j)"
proof -
  define c where "c = (case sc_cronEntries S (uuid_String (sd_queue D) (sj_ID j)) of None \<Rightarrow> sc_cron S
    | Some entryID \<Rightarrow> cron_Remove (sd_cron D) entryID (sc_cron S))"
  obtain i c' where i: "cron_AddFunc (sd_cron D) (cron_spec (sj_Schedule j)) j c = (Some i, c')"
    using takes_law [of "cron_spec (sj_Schedule j)" j c] assms(2) by (metis not_None_eq prod.collapse)
  then have "entries c' i = Some (cron_spec (sj_Schedule j), j)" using add_law by fastforce
  with i show ?thesis by (auto simp: registerCronJob_def c_def [symmetric])
qed

lemma register_leaves:
  assumes "ok S" "entries (sc_cron S) i = Some (spec, j')" "sj_ID j' \<noteq> sj_ID j"
  shows "entries (sc_cron (snd (registerCronJob D j S))) i = Some (spec, j')"
proof -
  let ?key = "uuid_String (sd_queue D) (sj_ID j)"
  define c where "c = (case sc_cronEntries S ?key of None \<Rightarrow> sc_cron S | Some entryID \<Rightarrow> cron_Remove (sd_cron D) entryID (sc_cron S))"
  have here: "sc_cronEntries S (uuid_String (sd_queue D) (sj_ID j')) = Some i" using cron_okD(4) [OF assms(1,2)] by simp
  then have "i \<le> issued (sc_cron S)" using cron_okD(2) [OF assms(1)] by blast
  moreover have "sc_cronEntries S ?key \<noteq> Some i" using cron_okD(3) [OF assms(1) here] assms(3) inj_law by (auto dest: injD)
  ultimately have c: "entries c i = Some (spec, j')" "i \<le> issued c"
    using assms(2) by (auto simp: c_def remove_law split: option.split)
  obtain t c' where t: "cron_AddFunc (sd_cron D) (cron_spec (sj_Schedule j)) j c = (t, c')" by fastforce
  then have "entries c' i = Some (spec, j')" using add_law refuse_law c by (cases t) fastforce+
  with t show ?thesis by (auto simp: registerCronJob_def c_def [symmetric] split: option.split)
qed

lemma load_loop_leaves:
  assumes "ok S" "set js \<subseteq> {j \<in> set (sc_scheduled S). sj_IsEnabled j}" "entries (sc_cron S) i = Some (spec, j)" "sj_ID j \<notin> sj_ID ` set js"
  shows "entries (sc_cron (fold (\<lambda>j S. snd (registerCronJob D j S)) js S)) i = Some (spec, j)"
  using assms
proof (induction js arbitrary: S)
  case (Cons k js)
  have "ok (snd (registerCronJob D k S))" using Cons.prems(1,2) by (intro register_keeps) auto
  with Cons.IH [OF this] register_leaves [OF Cons.prems(1,3)] Cons.prems(2,4) show ?case by auto
qed simp

lemma load_loop_adds:
  "ok S \<Longrightarrow> set js \<subseteq> {j \<in> set (sc_scheduled S). sj_IsEnabled j} \<Longrightarrow> distinct (map sj_ID js) \<Longrightarrow> j \<in> set js \<Longrightarrow>
   takes (cron_spec (sj_Schedule j)) \<Longrightarrow>
   \<exists>i. entries (sc_cron (fold (\<lambda>j S. snd (registerCronJob D j S)) js S)) i = Some (cron_spec (sj_Schedule j), j)"
proof (induction js arbitrary: S)
  case (Cons k js)
  let ?S = "snd (registerCronJob D k S)"
  have keep: "ok ?S" using Cons.prems(1,2) by (intro register_keeps) auto
  have sub: "set js \<subseteq> {j \<in> set (sc_scheduled ?S). sj_IsEnabled j}" using Cons.prems(2) by simp
  show ?case
  proof (cases "j = k")
    case True
    then obtain i where "entries (sc_cron ?S) i = Some (cron_spec (sj_Schedule j), j)"
      using register_adds [OF Cons.prems(1,5)] by blast
    then show ?thesis using load_loop_leaves [OF keep sub] Cons.prems(3) True by auto
  next
    case False
    with Cons.IH [OF keep sub] Cons.prems(3-5) show ?thesis by auto
  qed
qed simp

lemma start_registers:
  assumes "ok S" "sched_Start D io S = (True, S')" "si_st io 0 \<noteq> None"
    and "row \<in> set (sc_scheduled S)" "sj_IsEnabled row" "takes (cron_spec (sj_Schedule row))"
  shows "\<exists>i. entries (sc_cron S') i = Some (cron_spec (sj_Schedule row), row)"
proof -
  obtain p where p: "S' = loadScheduledJobs D io (S\<lparr>sc_running := True, sc_pool := p\<rparr>)"
    using assms(2) by (auto simp: sched_Start_def split: if_splits prod.splits option.splits)
  obtain js where js: "sj_List (sd_collate D) (si_st io 0) (Some True) (sc_scheduled S) = Inr js"
    using assms(3) by (auto simp: sj_List_def)
  then have "distinct (map sj_ID js)"
    using cron_okD(1) [OF assms(1)] by (auto simp: sj_List_def distinct_map inj_on_def split: if_splits)
  with load_loop_adds [of "S\<lparr>sc_running := True, sc_pool := p\<rparr>" js row] assms(1,4,5,6) enabled_listed [OF js] p js
  show ?thesis by (simp add: loadScheduledJobs_def repo_law)
qed

end

sublocale cron_server \<subseteq> plans: step_invariant "plan_step D" ok
  by unfold_locales (rule plan_step_keeps)

context cron_server
begin

lemma reachable_ok:
  assumes "entries c = Map.empty" "distinct (map sj_ID rows)" "(plan_step D)\<^sup>*\<^sup>* (New D redis jobs rows c) S"
  shows "ok S"
  using plans.reach_inv [OF assms(3)] assms(1,2) by (simp add: New_def cron_ok_def)

end

section \<open>A cron in memory\<close>

text \<open>
  A cron that meets the contract: it numbers its entries from one and takes specifications of six fields; its standard
  parser takes five.
\<close>

type_synonym mem_cron_state = "nat \<times> (nat \<times> string \<times> scheduled_job) list"

definition mem_cron :: "mem_cron_state cron_lib" where
  "mem_cron =
     \<lparr>cron_ParseStandard = \<lambda>s. if length (Fields s) = 5 then Some (\<lambda>t. t + minute) else None,
      cron_Parse6 = \<lambda>s. if length (Fields s) = 6 then Some (\<lambda>t. t + minute) else None,
      cron_AddFunc = \<lambda>spec j (n, es). if length (Fields spec) = 6 then (Some (n + 1), (n + 1, (n + 1, spec, j) # es)) else (None, (n, es)),
      cron_Remove = \<lambda>i (n, es). (n, AList.delete i es)\<rparr>"

definition mem_entries :: "mem_cron_state \<Rightarrow> nat \<Rightarrow> (string \<times> scheduled_job) option" where
  "mem_entries c = map_of (snd c)"

definition demo_sched :: "(mem, job, mem_cron_state) sched_deps" where
  "demo_sched =
     \<lparr>sd_queue = mem_redis, sd_visibility = 10, sd_cron = mem_cron, sd_collate = \<lambda>_. 0, sd_repo = True,
      sd_config = DefaultConfig\<rparr>"

lemma demo_sched_simps [simp]:
  "sd_queue demo_sched = mem_redis" "sd_cron demo_sched = mem_cron" "sd_repo demo_sched"
  by (simp_all add: demo_sched_def)

interpretation mem_plans: cron_server demo_sched mem_entries fst "\<lambda>spec. length (Fields spec) = 6"
proof
  show "inj (uuid_String (sd_queue demo_sched))" by (simp add: inj_def mem.uuid_String_inj [simplified])
qed (auto simp: mem_cron_def mem_entries_def delete_conv' split: if_splits)

section \<open>Properties\<close>

definition demo_plan :: scheduled_job where
  "demo_plan = new_scheduled_job demo_sched \<lparr>si_st = \<lambda>_. Some 0, si_clk = \<lambda>_. 0, si_id = 9\<rparr> (daily ''Retention'' ''retention'' ''0 3 * * *'')"

definition demo_io :: sched_io where
  "demo_io = \<lparr>si_st = \<lambda>_. Some 5, si_clk = \<lambda>_. 5, si_id = 9\<rparr>"

definition demo_new :: "(mem, mem_cron_state) sched" where
  "demo_new = New demo_sched \<lparr>m_data = Map.empty, m_z = \<lambda>_. []\<rparr> [] [demo_plan] (0, [])"

text \<open>
  C28. What the cron runs is what the table has enabled. From a new scheduler on an empty cron, after any starts,
  stops, runs, creations, updates and deletions of scheduled jobs, whatever the statements answer: each entry of the
  cron belongs to a row that is enabled, with the row's type, target, payload and schedule, and no two entries
  belong to the same job.
\<close>

theorem cron_runs_enabled_rows:
  assumes "cron_server D entries issued takes" and "entries c = Map.empty" and "distinct (map sj_ID rows)"
    and "(plan_step D)\<^sup>*\<^sup>* (New D redis jobs rows c) S" and "entries (sc_cron S) i = Some (spec, j)"
  shows "spec = cron_spec (sj_Schedule j) \<and> (\<exists>row \<in> set (sc_scheduled S). sj_IsEnabled row \<and> plan row = plan j) \<and>
    (\<forall>i' spec' j'. entries (sc_cron S) i' = Some (spec', j') \<and> sj_ID j' = sj_ID j \<longrightarrow> i' = i)"
proof -
  note ok = cron_server.reachable_ok [OF assms(1-4)]
  from cron_okD(4,5) [OF ok assms(5)] cron_okD(4) [OF ok] show ?thesis by (metis option.inject)
qed

definition demo_started :: "(mem, mem_cron_state) sched" where
  "demo_started = snd (sched_Start demo_sched demo_io demo_new)"

lemma demo_started_entry: "mem_entries (sc_cron demo_started) 1 = Some (''0 0 3 * * *'', demo_plan)"
  by code_simp

lemma demo_start: "mem_entries (0, []) = Map.empty" "distinct (map sj_ID [demo_plan])" "fst (sched_Start demo_sched demo_io demo_new)"
  "length (Fields (cron_spec (sj_Schedule demo_plan))) = 6" "sj_IsEnabled demo_plan"
  by (simp add: mem_entries_def, simp, code_simp+)

theorem cron_runs_enabled_rows_witness:
  "\<exists>row \<in> set (sc_scheduled demo_started). sj_IsEnabled row \<and> plan row = plan demo_plan"
proof -
  have "(plan_step demo_sched)\<^sup>*\<^sup>* demo_new demo_started"
    unfolding demo_started_def by (rule r_into_rtranclp) (rule plan_start)
  from cron_runs_enabled_rows [OF mem_plans.cron_server_axioms demo_start(1,2) this [unfolded demo_new_def] demo_started_entry]
  show ?thesis by blast
qed

text \<open>
  C38. A start registers everything that is enabled. When the scheduler starts and the table can be read, every enabled
  row whose schedule the cron accepts has an entry that runs it.
\<close>

theorem start_registers_enabled_rows:
  assumes "cron_server D entries issued takes" and "entries c = Map.empty" and "distinct (map sj_ID rows)"
    and "(plan_step D)\<^sup>*\<^sup>* (New D redis jobs rows c) S" and "sched_Start D io S = (True, S')" and "si_st io 0 \<noteq> None"
    and "row \<in> set (sc_scheduled S)" and "sj_IsEnabled row" and "takes (cron_spec (sj_Schedule row))"
  shows "\<exists>i. entries (sc_cron S') i = Some (cron_spec (sj_Schedule row), row)"
  by (rule cron_server.start_registers [OF assms(1) cron_server.reachable_ok [OF assms(1-4)] assms(5-9)])

theorem start_registers_enabled_rows_witness:
  "\<exists>i. mem_entries (sc_cron demo_started) i = Some (cron_spec (sj_Schedule demo_plan), demo_plan)"
proof -
  have start: "sched_Start demo_sched demo_io demo_new = (True, demo_started)"
    using demo_start(3) by (simp add: demo_started_def prod_eq_iff)
  show ?thesis
    by (rule start_registers_enabled_rows [OF mem_plans.cron_server_axioms demo_start(1,2) rtranclp.rtrancl_refl start [unfolded demo_new_def]])
      (simp_all add: demo_start demo_io_def New_def)
qed

context cron_server
begin

text \<open>
  A schedule the service accepts and the cron refuses: the job is created and enabled, the caller sees no error, and
  nothing runs it. A schedule with a time zone in front is one, since it has six fields then.
\<close>

lemma refused_schedule_never_runs:
  assumes "\<not> takes (cron_spec (cs_Schedule input))" and "sc_cronEntries S (uuid_String (sd_queue D) (si_id io)) = None"
    and "CreateScheduledJob D io input S = (Inr job, S')"
  shows "job \<in> set (sc_scheduled S')" and "sj_IsEnabled job \<longleftrightarrow> cs_IsEnabled input" and "entries (sc_cron S') = entries (sc_cron S)"
proof -
  let ?job = "new_scheduled_job D io input"
  have made: "sj_Create (si_st io 0) ?job (sc_scheduled S) = (True, sc_scheduled S @ [?job])"
    and S': "job = ?job" "S' = (let S = S\<lparr>sc_scheduled := sc_scheduled S @ [?job]\<rparr> in if sj_IsEnabled job then snd (registerCronJob D job S) else S)"
    using assms(3) by (auto simp: CreateScheduledJob_def sj_Create_def repo_law Let_def split: if_splits)
  have id: "sj_ID ?job = si_id io" "sj_Schedule ?job = cs_Schedule input" "sj_IsEnabled ?job = cs_IsEnabled input"
    by (simp_all add: new_scheduled_job_def)
  obtain c where c: "cron_AddFunc (sd_cron D) (cron_spec (cs_Schedule input)) ?job (sc_cron S) = (None, c)"
    using takes_law [of "cron_spec (cs_Schedule input)" ?job "sc_cron S"] assms(1) by (metis prod.collapse)
  then have "entries c = entries (sc_cron S)" using refuse_law by blast
  with c id assms(2) S' show "entries (sc_cron S') = entries (sc_cron S)" by (simp add: registerCronJob_def Let_def)
  show "job \<in> set (sc_scheduled S')" "sj_IsEnabled job \<longleftrightarrow> cs_IsEnabled input" using S' id by (simp_all add: Let_def)
qed

end

end
