(* ===== verification/Scheduler_Props.thy ===== *)
theory Scheduler_Props
  imports Scheduled_Jobs "HOL-Library.Multiset"
begin

text \<open>
  The scheduler over the queue and the pool (\<^verbatim>\<open>internal/scheduler/scheduler.go\<close>): what becomes of
  a job whose run fails, that a job has one run at a time, that the loop over the queue ends, and where the code does
  something else than it means to.
\<close>

section \<open>The queue's operations on a server that answers\<close>

text \<open>The sorted sets with an entry out of the running set.\<close>

definition without_run :: "string \<Rightarrow> (string \<Rightarrow> string \<Rightarrow> int option) \<Rightarrow> string \<Rightarrow> string \<Rightarrow> int option" where
  "without_run m z = z(runningKey := (z runningKey)(m := None))"

text \<open>The contract of the queue, and every job encodes.\<close>

locale job_server = job_redis +
  assumes marshal_total: "json_Marshal R j \<noteq> None"
begin

lemma GetJob_stored:
  assumes "stored R dat s u = Some j"
  obtains s' where "GetJob R u s = (Inr j, s')" "stored R dat s' = stored R dat s" "zs s' = zs s"
proof -
  have "GetJob R u s = (Inr j, snd (GetJob R u s))"
    using GetJob_view(3) [of u s j] assms by (metis prod.collapse)
  with that GetJob_view(1,2) [of u s] stored_cong show thesis by (metis ext)
qed

lemma save_job:
  obtains s' where "updateJobData R j s = (None, s')" "stored R dat s' = (stored R dat s)(j_ID j \<mapsto> j)" "zs s' = zs s"
proof -
  obtain s' where s': "updateJobData R j s = (None, s')" "zs s' = zs s"
    "dat s' = (case json_Marshal R j of None \<Rightarrow> dat s | Some d \<Rightarrow> (dat s)(jobDataKey R (j_ID j) \<mapsto> d))"
    using updateJobData_eq [of j s] marshal_total [of j] by auto
  have "stored R dat s' = (stored R dat s)(j_ID j \<mapsto> j)"
    using stored_data [OF s'(3)] marshal_total [of j] by auto
  with that s' show thesis by blast
qed

lemma zrem_view: "stored R dat (rd_ZRem R k m s) = stored R dat s" "zs (rd_ZRem R k m s) = (zs s)(k := (zs s k)(m := None))"
  using stored_cong [OF zrem_law(1)] zrem_law(2) by auto

lemma zadd_view:
  "stored R dat (snd (rd_ZAdd R k sc m s)) = stored R dat s" "zs (snd (rd_ZAdd R k sc m s)) = (zs s)(k := (zs s k)(m \<mapsto> sc))"
  using stored_cong [OF zadd_law(2)] zadd_law(3) by auto

lemma expire_view:
  "stored R dat (rd_Expire R k deadLetterTTL s) = stored R dat s" "zs (rd_Expire R k deadLetterTTL s) = zs s"
proof -
  have "0 < deadLetterTTL" by (simp add: deadLetterTTL_def second_def)
  then show "stored R dat (rd_Expire R k deadLetterTTL s) = stored R dat s" "zs (rd_Expire R k deadLetterTTL s) = zs s"
    using stored_cong [OF expire_law(1)] expire_law(2) by auto
qed

lemmas server_view = zrem_view zadd_view expire_view

lemma Complete_view:
  assumes "stored R dat s u = Some j" "j_ID j = u"
  shows "\<exists>s' j'. Complete R now u result s = (None, s') \<and> stored R dat s' = (stored R dat s)(u \<mapsto> j') \<and> j_ID j' = u \<and>
    j_Status j' = ''completed'' \<and> j_Priority j' = j_Priority j \<and> zs s' = without_run (uuid_String R u) (zs s)"
proof -
  obtain s1 where s1: "GetJob R u s = (Inr j, s1)" "stored R dat s1 = stored R dat s" "zs s1 = zs s"
    using GetJob_stored [OF assms(1)] .
  define j' where "j' = (let j = j\<lparr>j_Status := ''completed'', j_CompletedAt := Some now, j_UpdatedAt := now, j_Progress := 100\<rparr>
    in case result of Some (Some r) \<Rightarrow> j\<lparr>j_Result := Some r\<rparr> | _ \<Rightarrow> j)"
  have j': "j_ID j' = u" "j_Status j' = ''completed''" "j_Priority j' = j_Priority j"
    using assms(2) by (auto simp: j'_def Let_def split: option.split)
  obtain s2 where s2: "updateJobData R j' s1 = (None, s2)" "stored R dat s2 = (stored R dat s1)(j_ID j' \<mapsto> j')" "zs s2 = zs s1"
    using save_job .
  have "Complete R now u result s = (None, rd_ZRem R runningKey (uuid_String R u) s2)"
    using s1(1) s2(1) by (simp add: Complete_def j'_def Let_def)
  with s1 s2 j' show ?thesis by (auto simp: server_view without_run_def)
qed

lemma Fail_view:
  assumes "stored R dat s u = Some j" "j_ID j = u"
  shows "\<exists>s' j'. Fail R clk u msg s = (None, s') \<and> stored R dat s' = (stored R dat s)(u \<mapsto> j') \<and> j_ID j' = u \<and>
    j_Priority j' = j_Priority j \<and> j_Attempts j' = j_Attempts j \<and> j_MaxAttempts j' = j_MaxAttempts j \<and>
    (if job_CanRetry j
     then j_Status j' = ''retrying'' \<and> j_ScheduledAt j' = Some (time_add (clk 1) (calculateBackoff (j_Attempts j))) \<and>
       zs s' = (without_run (uuid_String R u) (zs s))(queueKey (j_Priority j) :=
         (zs s (queueKey (j_Priority j)))(uuid_String R u \<mapsto> score (time_add (clk 1) (calculateBackoff (j_Attempts j)))))
     else j_Status j' = ''failed'' \<and>
       zs s' = (without_run (uuid_String R u) (zs s))(deadLetterKey := (zs s deadLetterKey)(uuid_String R u \<mapsto> score (clk 2))))"
proof -
  let ?m = "uuid_String R u"
  obtain s1 where s1: "GetJob R u s = (Inr j, s1)" "stored R dat s1 = stored R dat s" "zs s1 = zs s"
    using GetJob_stored [OF assms(1)] .
  let ?j = "j\<lparr>j_ErrorMessage := Some msg, j_UpdatedAt := clk 0\<rparr>"
  have can: "job_CanRetry ?j = job_CanRetry j" by (simp add: job_CanRetry_def)
  show ?thesis
  proof (cases "job_CanRetry j")
    case True
    let ?at = "time_add (clk 1) (calculateBackoff (j_Attempts j))"
    let ?j' = "?j\<lparr>j_Status := ''retrying'', j_ScheduledAt := Some ?at\<rparr>"
    obtain s2 where s2: "updateJobData R ?j' s1 = (None, s2)" "stored R dat s2 = (stored R dat s1)(j_ID ?j' \<mapsto> ?j')" "zs s2 = zs s1"
      using save_job .
    have "Fail R clk u msg s = (None, snd (rd_ZAdd R (queueKey (j_Priority j)) (score ?at) ?m (rd_ZRem R runningKey ?m s2)))"
      using s1(1) s2(1) True can by (simp add: Fail_def Let_def)
    with s1 s2 True assms(2) show ?thesis
      by (intro exI [of _ "snd (rd_ZAdd R (queueKey (j_Priority j)) (score ?at) ?m (rd_ZRem R runningKey ?m s2))"] exI [of _ ?j'])
        (simp add: server_view without_run_def queue_keys)
  next
    case False
    let ?j' = "?j\<lparr>j_Status := ''failed'', j_CompletedAt := Some (clk 1)\<rparr>"
    obtain s2 where s2: "updateJobData R ?j' s1 = (None, s2)" "stored R dat s2 = (stored R dat s1)(j_ID ?j' \<mapsto> ?j')" "zs s2 = zs s1"
      using save_job .
    let ?s = "rd_Expire R (jobDataKey R u) deadLetterTTL (snd (rd_ZAdd R deadLetterKey (score (clk 2)) ?m (rd_ZRem R runningKey ?m s2)))"
    have "Fail R clk u msg s = (None, ?s)"
      using s1(1) s2(1) False can by (simp add: Fail_def Let_def)
    with s1 s2 False assms(2) show ?thesis
      by (intro exI [of _ ?s] exI [of _ ?j']) (simp add: server_view without_run_def queue_keys)
  qed
qed

lemma UpdateProgress_view:
  assumes "stored R dat s u = Some j" "j_ID j = u"
  shows "\<exists>s' j'. UpdateProgress R vt clk u progress message s = (None, s') \<and> stored R dat s' = (stored R dat s)(u \<mapsto> j') \<and> j_ID j' = u \<and>
    zs s' = (zs s)(runningKey := (zs s runningKey)(uuid_String R u \<mapsto> score (time_add (clk 1) vt)))"
proof -
  obtain s' j' where s': "UpdateProgress R vt clk u progress message s = (None, s')" "j_ID j' = u"
    "\<forall>v. stored R dat s' v = (if v = u then Some j' else stored R dat s v)"
    "zs s' = (zs s)(runningKey := (zs s runningKey)(uuid_String R u \<mapsto> score (time_add (clk 1) vt)))"
    using UpdateProgress_ok [OF assms marshal_total] by blast
  then have "stored R dat s' = (stored R dat s)(u \<mapsto> j')" by auto
  with s' show ?thesis by blast
qed

end

section \<open>The end of a run\<close>

lemma sched_pool_simps [simp]:
  "sc_pool (emitEvent e S) = sc_pool S" "sc_redis (emitEvent e S) = sc_redis S"
  "sc_pool (handleComplete D io u out S) = sc_pool S" "sc_pool (handleProgress D io u progress message S) = sc_pool S"
  by (simp_all add: emitEvent_def handleComplete_def handleProgress_def Let_def split: sum.split prod.split)

lemma handleCompletion_pool [simp]: "sc_pool (handleCompletion D io1 io2 pj out S) = sc_pool S"
  by (simp add: handleCompletion_def)

context job_server
begin

lemma handleComplete_view:
  assumes "sd_queue D = R"
  shows "stored R dat (sc_redis (handleComplete D io u out S)) =
      stored R dat (snd (case out of Inl msg \<Rightarrow> Fail R (si_clk io) u msg (sc_redis S) | Inr r \<Rightarrow> Complete R (si_clk io 0) u r (sc_redis S)))"
    "zs (sc_redis (handleComplete D io u out S)) =
      zs (snd (case out of Inl msg \<Rightarrow> Fail R (si_clk io) u msg (sc_redis S) | Inr r \<Rightarrow> Complete R (si_clk io 0) u r (sc_redis S)))"
  using GetJob_view(1,2) stored_cong [OF GetJob_view(1)] assms
  by (auto simp: handleComplete_def Let_def split_beta split: sum.split)

lemma twice_failed:
  assumes "sd_queue D = R" "pj_Callbacks pj" "j_ID (pj_Job pj) = u"
    and "stored R dat (sc_redis S) u = Some j" "j_ID j = u" "j_Status j \<noteq> ''failed''"
    and r_def: "r = sc_redis (handleCompletion D io1 io2 pj (Inl msg) S)" and m_def: "m = uuid_String R u"
    and at2_def: "at2 = time_add (si_clk io2 1) (calculateBackoff (j_Attempts j))"
  shows "\<exists>j' t. stored R dat r = (stored R dat (sc_redis S))(u \<mapsto> j') \<and> j_ID j' = u \<and> j_Priority j' = j_Priority j \<and>
    (if j_Attempts j < j_MaxAttempts j
     then j_Status j' = ''retrying'' \<and> j_ScheduledAt j' = Some at2 \<and>
       zs r = (without_run m (zs (sc_redis S)))(deadLetterKey := (zs (sc_redis S) deadLetterKey)(m \<mapsto> t),
          queueKey (j_Priority j) := (zs (sc_redis S) (queueKey (j_Priority j)))(m \<mapsto> score at2))
     else j_Status j' = ''failed'' \<and>
       zs r = (without_run m (zs (sc_redis S)))(deadLetterKey := (zs (sc_redis S) deadLetterKey)(m \<mapsto> t)))"
proof -
  let ?S = "handleComplete D io1 u (Inl msg) S"
  obtain j1 where j1: "stored R dat (sc_redis ?S) = (stored R dat (sc_redis S))(u \<mapsto> j1)" "j_ID j1 = u" "j_Priority j1 = j_Priority j"
    "j_Attempts j1 = j_Attempts j" "j_MaxAttempts j1 = j_MaxAttempts j" "j_Status j1 = ''failed''"
    "zs (sc_redis ?S) = (without_run m (zs (sc_redis S)))(deadLetterKey := (zs (sc_redis S) deadLetterKey)(m \<mapsto> score (si_clk io1 2)))"
    using Fail_view [OF assms(4,5), of "si_clk io1" msg] handleComplete_view [OF assms(1), of io1 u "Inl msg" S] assms(6)
    by (auto simp: job_CanRetry_def m_def)
  have r: "stored R dat r = stored R dat (snd (Fail R (si_clk io2) u msg (sc_redis ?S)))" "zs r = zs (snd (Fail R (si_clk io2) u msg (sc_redis ?S)))"
    using handleComplete_view [OF assms(1), of io2 u "Inl msg" ?S] assms(2,3) by (simp_all add: r_def handleCompletion_def)
  have here: "stored R dat (sc_redis ?S) u = Some j1" using j1(1) by simp
  have can: "job_CanRetry j1 \<longleftrightarrow> j_Attempts j < j_MaxAttempts j" using j1 by (simp add: job_CanRetry_def)
  obtain s2 j2 where j2: "Fail R (si_clk io2) u msg (sc_redis ?S) = (None, s2)" "stored R dat s2 = (stored R dat (sc_redis ?S))(u \<mapsto> j2)"
    "j_ID j2 = u" "j_Priority j2 = j_Priority j1"
    "if job_CanRetry j1
     then j_Status j2 = ''retrying'' \<and> j_ScheduledAt j2 = Some at2 \<and>
       zs s2 = (without_run m (zs (sc_redis ?S)))(queueKey (j_Priority j1) := (zs (sc_redis ?S) (queueKey (j_Priority j1)))(m \<mapsto> score at2))
     else j_Status j2 = ''failed'' \<and>
       zs s2 = (without_run m (zs (sc_redis ?S)))(deadLetterKey := (zs (sc_redis ?S) deadLetterKey)(m \<mapsto> score (si_clk io2 2)))"
    using Fail_view [OF here j1(2), of "si_clk io2" msg] j1(4) unfolding m_def at2_def by auto
  show ?thesis
  proof (cases "job_CanRetry j1")
    case True
    with j2 j1 r can show ?thesis
      by (intro exI [of _ j2] exI [of _ "score (si_clk io1 2)"]) (simp add: without_run_def queue_keys fun_upd_twist [OF queue_keys(5)])
  next
    case False
    with j2 j1 r can show ?thesis
      by (intro exI [of _ j2] exI [of _ "score (si_clk io2 2)"]) (simp add: without_run_def queue_keys fun_upd_twist [OF queue_keys(5)])
  qed
qed

end

section \<open>One run at a time\<close>

text \<open>
  The steps of a scheduler: the operations that move jobs, each as one step. A new job has a new identifier. The
  recovery runs while the visibility of no job in the pool has passed.
\<close>

definition pool_ids :: "pool \<Rightarrow> uuid list" where
  "pool_ids p = map (\<lambda>pj. j_ID (pj_Job pj)) (po_chan p @ map rj_Job (po_active p))"

definition overdue ::
  "('r, 'd) queue_deps \<Rightarrow> ('r \<Rightarrow> string \<Rightarrow> string \<Rightarrow> int option) \<Rightarrow> gotime \<Rightarrow> 'r \<Rightarrow> pool \<Rightarrow> bool" where
  "overdue R zs now r p \<longleftrightarrow>
     (\<exists>u \<in> set (pool_ids p). case zs r runningKey (uuid_String R u) of None \<Rightarrow> False | Some sc \<Rightarrow> sc \<le> score now)"

definition fresh_id :: "('r, 'd) queue_deps \<Rightarrow> ('r \<Rightarrow> string \<Rightarrow> 'd option) \<Rightarrow> sched_io \<Rightarrow> 'r \<Rightarrow> bool" where
  "fresh_id R dat io r \<longleftrightarrow> stored R dat r (si_id io) = None \<and> si_id io \<noteq> uuid_nil"

inductive sched_step ::
  "('r, 'd, 'c) sched_deps \<Rightarrow> ('r \<Rightarrow> string \<Rightarrow> 'd option) \<Rightarrow> ('r \<Rightarrow> string \<Rightarrow> string \<Rightarrow> int option) \<Rightarrow>
   ('r, 'c) sched \<Rightarrow> ('r, 'c) sched \<Rightarrow> bool"
  for D dat zs where
  step_register: "sched_step D dat zs S (RegisterWorker jobType S)"
| step_begin: "sched_step D dat zs S (snd (sched_Start D io S))"
| step_enqueue: "fresh_id (sd_queue D) dat io (sc_redis S) \<Longrightarrow> sched_step D dat zs S (snd (EnqueueJob D io input S))"
| step_cron: "fresh_id (sd_queue D) dat io (sc_redis S) \<Longrightarrow> sched_step D dat zs S (snd (createJobFromScheduled D io io2 j S))"
| step_round: "sched_step D dat zs S (snd (process_one D now clk fclk S))"
| step_start: "sched_step D dat zs S (start_job D io1 io2 S)"
| step_progress: "sched_step D dat zs S (progress_job D io1 io2 ctx progress message S)"
| step_finish: "sched_step D dat zs S (finish_job D io1 io2 ctx ex S)"
| step_cancel: "sched_step D dat zs S (snd (CancelJob D io u S))"
| step_recover: "\<not> overdue (sd_queue D) zs now (sc_redis S) (sc_pool S) \<Longrightarrow> sched_step D dat zs S (recover_tick D now clk S)"
| step_end: "sched_Stop in_time S = Some S' \<Longrightarrow> sched_step D dat zs S S'"

text \<open>
  An entry stands in the running set or in one queue at most, it is the text of the identifier of a stored job, and the
  jobs in the pool, all different and stored, are in no queue.
\<close>

definition live_keys :: "string set" where
  "live_keys = insert runningKey (queueKey ` set priorities)"

definition runs_ok ::
  "(uuid \<Rightarrow> string) \<Rightarrow> (uuid \<Rightarrow> job option) \<Rightarrow> (string \<Rightarrow> string \<Rightarrow> int option) \<Rightarrow> uuid list \<Rightarrow> bool" where
  "runs_ok str st z P \<longleftrightarrow>
     distinct P \<and> (\<forall>u \<in> set P. st u \<noteq> None \<and> (\<forall>k \<in> live_keys. k \<noteq> runningKey \<longrightarrow> z k (str u) = None)) \<and>
     (\<forall>u j. st u = Some j \<longrightarrow> j_ID j = u) \<and>
     (\<forall>k \<in> live_keys. \<forall>m. z k m \<noteq> None \<longrightarrow> (\<exists>u. m = str u \<and> st u \<noteq> None)) \<and>
     (\<forall>k \<in> live_keys. \<forall>k' \<in> live_keys. \<forall>m. z k m \<noteq> None \<longrightarrow> z k' m \<noteq> None \<longrightarrow> k = k')"

lemma runs_okD:
  assumes "runs_ok str st z P"
  shows "distinct P" "u \<in> set P \<Longrightarrow> st u \<noteq> None" "u \<in> set P \<Longrightarrow> k \<in> live_keys \<Longrightarrow> k \<noteq> runningKey \<Longrightarrow> z k (str u) = None"
    "st u = Some j \<Longrightarrow> j_ID j = u"
    "k \<in> live_keys \<Longrightarrow> z k m \<noteq> None \<Longrightarrow> \<exists>u. m = str u \<and> st u \<noteq> None"
    "k \<in> live_keys \<Longrightarrow> k' \<in> live_keys \<Longrightarrow> z k m \<noteq> None \<Longrightarrow> z k' m \<noteq> None \<Longrightarrow> k = k'"
  using assms unfolding runs_ok_def by blast+

lemma live_running [simp]: "runningKey \<in> live_keys"
  by (simp add: live_keys_def)

lemma live_queue [simp]: "queueKey p \<in> live_keys"
  by (auto simp: live_keys_def priorities_def queueKey_def priorityName_def)

text \<open>A step changes one job, whose entry stands in one place at most afterwards.\<close>

lemma runs_ok_step:
  assumes "runs_ok str st z P" "inj str"
    and "\<And>k m. k \<in> live_keys \<Longrightarrow> m \<noteq> str u \<Longrightarrow> z' k m = z k m"
    and "\<And>k. k \<in> live_keys \<Longrightarrow> k \<noteq> k0 \<Longrightarrow> z' k (str u) = None"
    and "st' = st(u \<mapsto> j')" "j_ID j' = u"
    and "distinct P'" "set P' \<subseteq> insert u (set P)" "u \<in> set P' \<Longrightarrow> k0 = runningKey"
  shows "runs_ok str st' z' P'"
  unfolding runs_ok_def
proof (intro conjI ballI allI impI)
  note ok = runs_okD [OF assms(1)]
  show "distinct P'" by (rule assms(7))
  show "st' v \<noteq> None" if "v \<in> set P'" for v
    using that ok(2) [of v] assms(5,8) by auto
  show "z' k (str v) = None" if "v \<in> set P'" "k \<in> live_keys" "k \<noteq> runningKey" for v k
  proof (cases "v = u")
    case False
    then have "str v \<noteq> str u" using assms(2) by (auto dest: injD)
    with False that assms(3) [of k "str v"] assms(8) ok(3) [of v k] show ?thesis by auto
  qed (use that assms(4,9) in auto)
  show "j_ID j = v" if "st' v = Some j" for v j
    using that assms(5,6) ok(4) [of v j] by (cases "v = u") auto
  show "\<exists>v. m = str v \<and> st' v \<noteq> None" if "k \<in> live_keys" "z' k m \<noteq> None" for k m
  proof (cases "m = str u")
    case False
    then have "z k m \<noteq> None" using that assms(3) by simp
    with ok(5) [OF that(1)] assms(5) show ?thesis by fastforce
  qed (use assms(5) in auto)
  show "k = k'" if k: "k \<in> live_keys" "k' \<in> live_keys" "z' k m \<noteq> None" "z' k' m \<noteq> None" for k k' m
  proof (cases "m = str u")
    case True
    with k assms(4) show ?thesis by metis
  next
    case False
    with k assms(3) [of k m] assms(3) [of k' m] ok(6) [of k k' m] show ?thesis by simp
  qed
qed


text \<open>
  What the end of a run does to the queue: the job keeps its identifier and priority, its entry leaves the running
  set and may stand in the queue of its priority; nothing else changes.
\<close>

definition ends_run ::
  "('r, 'd) queue_deps \<Rightarrow> ('r \<Rightarrow> string \<Rightarrow> 'd option) \<Rightarrow> ('r \<Rightarrow> string \<Rightarrow> string \<Rightarrow> int option) \<Rightarrow> uuid \<Rightarrow> job \<Rightarrow> 'r \<Rightarrow> 'r \<Rightarrow> bool" where
  "ends_run R dat zs u j r r' \<longleftrightarrow>
     (\<exists>j'. stored R dat r' = (stored R dat r)(u \<mapsto> j') \<and> j_ID j' = u \<and> j_Priority j' = j_Priority j) \<and>
     (\<forall>k \<in> live_keys. \<forall>m. m \<noteq> uuid_String R u \<longrightarrow> zs r' k m = zs r k m) \<and>
     zs r' runningKey (uuid_String R u) = None \<and>
     (\<forall>k \<in> live_keys. k \<noteq> runningKey \<longrightarrow> k \<noteq> queueKey (j_Priority j) \<longrightarrow> zs r' k (uuid_String R u) = zs r k (uuid_String R u))"

lemma ends_run_trans:
  assumes "ends_run R dat zs u j r r1" and "\<And>j1. stored R dat r1 u = Some j1 \<Longrightarrow> j_ID j1 = u \<Longrightarrow> ends_run R dat zs u j1 r1 r2"
  shows "ends_run R dat zs u j r r2"
proof -
  obtain j1 where j1: "stored R dat r1 = (stored R dat r)(u \<mapsto> j1)" "j_ID j1 = u" "j_Priority j1 = j_Priority j"
    using assms(1) unfolding ends_run_def by blast
  then have "ends_run R dat zs u j1 r1 r2" using assms(2) by simp
  with assms(1) j1 show ?thesis unfolding ends_run_def by auto
qed

lemma dead_not_live [simp]: "deadLetterKey \<notin> live_keys"
  by (auto simp: live_keys_def deadLetterKey_def runningKey_def queueKey_def)

lemma dead_differs [simp]: "k \<in> live_keys \<Longrightarrow> k \<noteq> deadLetterKey" "queueKey p \<noteq> runningKey" "runningKey \<noteq> queueKey p"
  using dead_not_live by (metis) (simp_all add: runningKey_def queueKey_def)

context job_server
begin

lemma inj_uuid: "inj (uuid_String R)"
  by (simp add: inj_def)

lemma Fail_ends:
  assumes "stored R dat r u = Some j" "j_ID j = u"
  shows "ends_run R dat zs u j r (snd (Fail R clk u msg r))"
proof -
  obtain r' j' where r': "Fail R clk u msg r = (None, r')" "stored R dat r' = (stored R dat r)(u \<mapsto> j')" "j_ID j' = u"
    "j_Priority j' = j_Priority j"
    and z: "zs r' = (without_run (uuid_String R u) (zs r))(queueKey (j_Priority j) :=
         (zs r (queueKey (j_Priority j)))(uuid_String R u \<mapsto> score (time_add (clk 1) (calculateBackoff (j_Attempts j))))) \<or>
       zs r' = (without_run (uuid_String R u) (zs r))(deadLetterKey := (zs r deadLetterKey)(uuid_String R u \<mapsto> score (clk 2)))"
    using Fail_view [OF assms, of clk msg] by (metis (no_types))
  from z show ?thesis
    by (rule disjE) (use r' queue_keys(5) in \<open>auto simp: ends_run_def without_run_def\<close>)
qed

lemma Complete_ends:
  assumes "stored R dat r u = Some j" "j_ID j = u"
  shows "ends_run R dat zs u j r (snd (Complete R now u result r))"
  using Complete_view [OF assms, of now result] by (auto simp: ends_run_def without_run_def)

lemma handleComplete_ends:
  assumes "sd_queue D = R" "stored R dat (sc_redis S) u = Some j" "j_ID j = u"
  shows "ends_run R dat zs u j (sc_redis S) (sc_redis (handleComplete D io u out S))"
  using handleComplete_view [OF assms(1), of io u out S] Fail_ends [OF assms(2,3)] Complete_ends [OF assms(2,3)]
  by (cases out) (simp_all add: ends_run_def)

lemma handleCompletion_ends:
  assumes "sd_queue D = R" "stored R dat (sc_redis S) (j_ID (pj_Job pj)) = Some j" "j_ID j = j_ID (pj_Job pj)"
  shows "ends_run R dat zs (j_ID (pj_Job pj)) j (sc_redis S) (sc_redis (handleCompletion D io1 io2 pj out S))"
proof -
  note one = handleComplete_ends [OF assms]
  have "ends_run R dat zs (j_ID (pj_Job pj)) j (sc_redis S)
      (sc_redis (handleComplete D io2 (j_ID (pj_Job pj)) out (handleComplete D io1 (j_ID (pj_Job pj)) out S)))"
    by (rule ends_run_trans [OF one]) (rule handleComplete_ends [OF assms(1)])
  with one show ?thesis by (simp add: handleCompletion_def)
qed

lemma runs_ok_ends:
  assumes "runs_ok (uuid_String R) (stored R dat r) (zs r) P" "ends_run R dat zs u j r r'"
    and "\<And>k. k \<in> live_keys \<Longrightarrow> k \<noteq> runningKey \<Longrightarrow> zs r k (uuid_String R u) = None"
    and "distinct P'" "set P' \<subseteq> set P" "u \<notin> set P'"
  shows "runs_ok (uuid_String R) (stored R dat r') (zs r') P'"
proof -
  obtain j' where "stored R dat r' = (stored R dat r)(u \<mapsto> j')" "j_ID j' = u"
    using assms(2) unfolding ends_run_def by blast
  then show ?thesis
    using assms(2-) by (intro runs_ok_step [OF assms(1) inj_uuid, of u _ "queueKey (j_Priority j)"])
      (auto simp: ends_run_def subset_insertI2)
qed

end

definition one_run ::
  "('r, 'd, 'c) sched_deps \<Rightarrow> ('r \<Rightarrow> string \<Rightarrow> 'd option) \<Rightarrow> ('r \<Rightarrow> string \<Rightarrow> string \<Rightarrow> int option) \<Rightarrow> ('r, 'c) sched \<Rightarrow> bool" where
  "one_run D dat zs S \<longleftrightarrow>
     runs_ok (uuid_String (sd_queue D)) (stored (sd_queue D) dat (sc_redis S)) (zs (sc_redis S)) (pool_ids (sc_pool S))"

lemma cron_keeps [simp]:
  "sc_pool (snd (registerCronJob D j S)) = sc_pool S" "sc_redis (snd (registerCronJob D j S)) = sc_redis S"
  by (auto simp: registerCronJob_def Let_def split: option.split prod.split)

lemma load_keeps [simp]:
  "sc_pool (loadScheduledJobs D io S) = sc_pool S" "sc_redis (loadScheduledJobs D io S) = sc_redis S"
proof -
  have "sc_pool (fold (\<lambda>j S. snd (registerCronJob D j S)) js S) = sc_pool S \<and>
      sc_redis (fold (\<lambda>j S. snd (registerCronJob D j S)) js S) = sc_redis S" for js
    by (induction js arbitrary: S) simp_all
  then show "sc_pool (loadScheduledJobs D io S) = sc_pool S" "sc_redis (loadScheduledJobs D io S) = sc_redis S"
    by (simp_all add: loadScheduledJobs_def split: sum.split)
qed

text \<open>The taken job leaves the channel, or a worker runs it.\<close>

lemma take_job_ids:
  "take_job p = (Some (Inl pj), p') \<Longrightarrow> pool_ids p = j_ID (pj_Job pj) # pool_ids p'"
  "take_job p = (Some (Inr ctx), p') \<Longrightarrow> mset (pool_ids p') = mset (pool_ids p)"
  "take_job p = (None, p') \<Longrightarrow> p' = p"
  by (auto simp: take_job_def pool_ids_def Let_def split: list.splits if_splits)

lemma submit_ids:
  "submit cb job p = (None, p') \<Longrightarrow> mset (pool_ids p') = add_mset (j_ID job) (mset (pool_ids p))"
  "submit cb job p = (Some e, p') \<Longrightarrow> p' = p"
  by (auto simp: submit_def pool_ids_def split: if_splits)

lemma running_ids:
  assumes "running ctx p = Some pj" and "distinct (pool_ids p)"
  shows "j_ID (pj_Job pj) \<in> set (pool_ids p)" "distinct (pool_ids (release_job ctx u p))"
    "set (pool_ids (release_job ctx u p)) \<subseteq> set (pool_ids p)" "j_ID (pj_Job pj) \<notin> set (pool_ids (release_job ctx u p))"
proof -
  obtain r where r: "find (\<lambda>r. rj_Context r = ctx) (po_active p) = Some r" "rj_Job r = pj"
    using assms(1) by (auto simp: running_def)
  then obtain rs1 rs2 where rs: "po_active p = rs1 @ r # rs2" and ctx: "rj_Context r = ctx"
    by (auto simp: find_Some_iff) (metis id_take_nth_drop)
  show "j_ID (pj_Job pj) \<in> set (pool_ids p)" using rs r(2) by (auto simp: pool_ids_def)
  show "set (pool_ids (release_job ctx u p)) \<subseteq> set (pool_ids p)" by (auto simp: pool_ids_def release_job_def)
  show "j_ID (pj_Job pj) \<notin> set (pool_ids (release_job ctx u p))"
    using assms(2) rs ctx r(2) by (auto simp: pool_ids_def release_job_def)
  show "distinct (pool_ids (release_job ctx u p))"
    using assms(2) by (auto simp: pool_ids_def release_job_def distinct_map_filter)
qed

text \<open>The parts of a state that count.\<close>

lemma one_run_cong:
  assumes "one_run D dat zs S" "stored (sd_queue D) dat (sc_redis S') = stored (sd_queue D) dat (sc_redis S)"
    "zs (sc_redis S') = zs (sc_redis S)" "mset (pool_ids (sc_pool S')) = mset (pool_ids (sc_pool S))"
  shows "one_run D dat zs S'"
proof -
  have "distinct (pool_ids (sc_pool S')) \<longleftrightarrow> distinct (pool_ids (sc_pool S))" "set (pool_ids (sc_pool S')) = set (pool_ids (sc_pool S))"
    using assms(4) mset_eq_imp_distinct_iff mset_eq_setD by blast+
  with assms(1-3) show ?thesis by (simp add: one_run_def runs_ok_def)
qed

locale scheduler_server = job_server +
  fixes D :: "('a, 'b, 'c) sched_deps"
  assumes queue_law: "sd_queue D = R"
begin

lemma one_run_eq: "one_run D dat zs S \<longleftrightarrow> runs_ok (uuid_String R) (stored R dat (sc_redis S)) (zs (sc_redis S)) (pool_ids (sc_pool S))"
  by (simp add: one_run_def queue_law)

lemma entries_ok:
  assumes "one_run D dat zs S" "k \<in> live_keys" "zs (sc_redis S) k m \<noteq> None"
  shows "entry_ok R dat (sc_redis S) m"
proof -
  note D = runs_okD [OF assms(1) [unfolded one_run_eq]]
  obtain u j where "m = uuid_String R u" "stored R dat (sc_redis S) u = Some j" using D(5) [OF assms(2,3)] by blast
  with D(4) show ?thesis unfolding entry_ok_def by blast
qed

lemma register_worker_keeps: "one_run D dat zs S \<Longrightarrow> one_run D dat zs (RegisterWorker jobType S)"
  by (erule one_run_cong) (simp_all add: RegisterWorker_def pool_ids_def)

lemma begin_keeps:
  assumes "one_run D dat zs S"
  shows "one_run D dat zs (snd (sched_Start D io S))"
  by (rule one_run_cong [OF assms]) (auto simp: sched_Start_def pool_Start_def pool_ids_def)

lemma end_keeps:
  assumes "one_run D dat zs S" "sched_Stop in_time S = Some S'"
  shows "one_run D dat zs S'"
  using assms(2) by (intro one_run_cong [OF assms(1)])
    (auto simp: sched_Stop_def pool_Stop_def cancelAllJobs_def pool_ids_def Let_def split: if_splits)

lemma enqueue_keeps:
  assumes "one_run D dat zs S" "fresh_id (sd_queue D) dat io (sc_redis S)"
  shows "one_run D dat zs (snd (EnqueueJob D io input S))"
proof (cases "sc_redis (snd (EnqueueJob D io input S)) = sc_redis S")
  case True
  then show ?thesis by (intro one_run_cong [OF assms(1)]) (auto simp: EnqueueJob_def Let_def split: prod.split option.split)
next
  case False
  let ?u = "si_id io"
  note ok = assms(1) [unfolded one_run_eq] and D = runs_okD [OF assms(1) [unfolded one_run_eq]]
  have new: "stored R dat (sc_redis S) ?u = None" "?u \<noteq> uuid_nil" using assms(2) by (auto simp: fresh_id_def queue_law)
  have none: "zs (sc_redis S) k (uuid_String R ?u) = None" if "k \<in> live_keys" for k
  proof (rule ccontr)
    assume "zs (sc_redis S) k (uuid_String R ?u) \<noteq> None"
    from D(5) [OF that this] new(1) show False by auto
  qed
  let ?job = "(new_job io input)\<lparr>j_Payload := (case cj_Payload input of None \<Rightarrow> None | Some p \<Rightarrow> p)\<rparr>"
  obtain job' r' where e: "Enqueue R (\<lambda>n. si_clk io (2 + n)) ?u ?job (sc_redis S) = ((None, job'), r')"
    using Enqueue_returns [OF marshal_total] by blast
  have r': "sc_redis (snd (EnqueueJob D io input S)) = r'" "sc_pool (snd (EnqueueJob D io input S)) = sc_pool S"
    using False e by (auto simp: EnqueueJob_def queue_law Let_def split: prod.split option.split if_splits)
  have id: "j_ID job' = ?u" using Enqueue_ok(6) [OF e] new(2) by (simp add: new_job_def)
  obtain sc where z: "zs r' = (zs (sc_redis S))(queueKey (j_Priority job') :=
      (zs (sc_redis S) (queueKey (j_Priority job')))(uuid_String R ?u \<mapsto> sc))"
    using Enqueue_ok(2) [OF e] id by auto
  have st: "stored R dat r' = (stored R dat (sc_redis S))(?u \<mapsto> job')" using Enqueue_ok(1) [OF e] id by auto
  have "runs_ok (uuid_String R) (stored R dat r') (zs r') (pool_ids (sc_pool S))"
  proof (rule runs_ok_step [OF ok inj_uuid _ _ st id])
    show "?u \<in> set (pool_ids (sc_pool S)) \<Longrightarrow> queueKey (j_Priority job') = runningKey" using D(2) new(1) by blast
  qed (use z none D(1) in auto)
  with r' show ?thesis by (simp add: one_run_eq)
qed

lemma cron_keeps_run:
  assumes "one_run D dat zs S" "fresh_id (sd_queue D) dat io (sc_redis S)"
  shows "one_run D dat zs (snd (createJobFromScheduled D io io2 j S))"
  using enqueue_keeps [OF assms, of "job_from_scheduled j"]
  by (auto simp: createJobFromScheduled_def one_run_def split: prod.splits sum.splits)

lemma finish_keeps:
  assumes "one_run D dat zs S"
  shows "one_run D dat zs (finish_job D io1 io2 ctx ex S)"
proof (cases "running ctx (sc_pool S)")
  case None
  then show ?thesis using assms by (simp add: finish_job_def)
next
  case (Some pj)
  let ?u = "j_ID (pj_Job pj)" and ?S1 = "S\<lparr>sc_pool := count_job (outcome ex) (sc_pool S)\<rparr>"
  note ok = assms [unfolded one_run_eq] and D = runs_okD [OF assms [unfolded one_run_eq]]
  have p: "running ctx (count_job (outcome ex) (sc_pool S)) = Some pj" "pool_ids (count_job (outcome ex) (sc_pool S)) = pool_ids (sc_pool S)"
    using Some by (auto simp: running_def count_job_def Let_def pool_ids_def split: sum.split)
  note ids = running_ids [OF p(1), unfolded p(2), OF D(1)]
  obtain j where j: "stored R dat (sc_redis S) ?u = Some j" "j_ID j = ?u" using D(2) [OF ids(1)] D(4) by blast
  have "ends_run R dat zs ?u j (sc_redis S) (sc_redis (handleCompletion D io1 io2 pj (outcome ex) ?S1))"
    using handleCompletion_ends [OF queue_law, of ?S1 pj j] j by simp
  from runs_ok_ends [OF ok this D(3) [OF ids(1)] ids(2,3,4)] Some show ?thesis
    by (simp add: finish_job_def one_run_eq Let_def)
qed

lemma start_keeps:
  assumes "one_run D dat zs S"
  shows "one_run D dat zs (start_job D io1 io2 S)"
proof -
  obtain t p where t: "take_job (sc_pool S) = (t, p)" by fastforce
  show ?thesis
  proof (cases "\<exists>pj. t = Some (Inl pj)")
    case False
    then have "mset (pool_ids p) = mset (pool_ids (sc_pool S))"
      using take_job_ids(2,3) [of "sc_pool S"] t by (metis not_Some_eq sumE)
    moreover have "start_job D io1 io2 S = S\<lparr>sc_pool := p\<rparr>"
      using False t by (auto simp: start_job_def split: option.split sum.split)
    ultimately show ?thesis by (intro one_run_cong [OF assms]) simp_all
  next
    case True
    then obtain pj where pj: "t = Some (Inl pj)" ..
    let ?u = "j_ID (pj_Job pj)" and ?S1 = "S\<lparr>sc_pool := p\<rparr>"
    note ok = assms [unfolded one_run_eq] and D = runs_okD [OF assms [unfolded one_run_eq]]
    have ids: "pool_ids (sc_pool S) = ?u # pool_ids p" using take_job_ids(1) t pj by simp
    obtain j where j: "stored R dat (sc_redis S) ?u = Some j" "j_ID j = ?u"
      using D(2) [of ?u] D(4) ids by (metis list.set_intros(1) not_None_eq)
    have "ends_run R dat zs ?u j (sc_redis S) (sc_redis (start_job D io1 io2 S))"
      using handleCompletion_ends [OF queue_law, of ?S1 pj j] j t pj by (simp add: start_job_def)
    from runs_ok_ends [OF ok this D(3), of "pool_ids p"] D(1) ids t pj show ?thesis
      by (auto simp: start_job_def one_run_eq)
  qed
qed

lemma UpdateProgress_keeps:
  assumes "runs_ok (uuid_String R) (stored R dat r) (zs r) P" "u \<in> set P"
  shows "runs_ok (uuid_String R) (stored R dat (snd (UpdateProgress R vt clk u progress message r)))
    (zs (snd (UpdateProgress R vt clk u progress message r))) P"
proof -
  note D = runs_okD [OF assms(1)]
  obtain j where j: "stored R dat r u = Some j" "j_ID j = u" using D(2) [OF assms(2)] D(4) by blast
  obtain r' j' where r': "UpdateProgress R vt clk u progress message r = (None, r')" "stored R dat r' = (stored R dat r)(u \<mapsto> j')"
    "j_ID j' = u" "zs r' = (zs r)(runningKey := (zs r runningKey)(uuid_String R u \<mapsto> score (time_add (clk 1) vt)))"
    using UpdateProgress_view [OF j] by blast
  then show ?thesis
    using D(1) D(3) [OF assms(2)] assms(2) by (intro runs_ok_step [OF assms(1) inj_uuid, of u _ runningKey _ j']) auto
qed

lemma progress_keeps:
  assumes "one_run D dat zs S"
  shows "one_run D dat zs (progress_job D io1 io2 ctx progress message S)"
proof (cases "running ctx (sc_pool S)")
  case None
  then show ?thesis using assms by (simp add: progress_job_def)
next
  case (Some pj)
  note ok = assms [unfolded one_run_eq]
  have u: "j_ID (pj_Job pj) \<in> set (pool_ids (sc_pool S))" using running_ids(1) [OF Some] runs_okD(1) [OF ok] by blast
  show ?thesis
    using UpdateProgress_keeps [OF ok u] UpdateProgress_keeps [OF UpdateProgress_keeps [OF ok u] u] Some
    by (simp add: progress_job_def report_progress_def handleProgress_def emitEvent_def one_run_def queue_law Let_def)
qed

lemma removeFromAllQueues_view:
  "stored R dat (removeFromAllQueues R u r) = stored R dat r"
  "zs (removeFromAllQueues R u r) k m = (if k \<in> live_keys \<and> m = uuid_String R u then None else zs r k m)"
  by (auto simp: removeFromAllQueues_def priorities_def server_view live_keys_def)

lemma cancel_keeps:
  assumes "one_run D dat zs S"
  shows "one_run D dat zs (snd (CancelJob D io u S))"
proof -
  note ok = assms [unfolded one_run_eq]
  let ?r = "snd (Cancel R (si_clk io 0) u (sc_redis S))"
  have "runs_ok (uuid_String R) (stored R dat ?r) (zs ?r) (pool_ids (sc_pool S))"
  proof (cases "stored R dat (sc_redis S) u")
    case None
    then obtain e s' where g: "GetJob R u (sc_redis S) = (Inl e, s')"
      using GetJob_view(3) [of u "sc_redis S"] by (metis not_Some_eq prod.collapse sum.exhaust)
    then have "stored R dat s' = stored R dat (sc_redis S)" "zs s' = zs (sc_redis S)"
      using GetJob_view(1,2) [of u "sc_redis S"] stored_cong [of s' "sc_redis S"] by auto
    with g ok show ?thesis by (simp add: Cancel_def)
  next
    case (Some j)
    obtain s1 where s1: "GetJob R u (sc_redis S) = (Inr j, s1)" "stored R dat s1 = stored R dat (sc_redis S)" "zs s1 = zs (sc_redis S)"
      using GetJob_stored [OF Some] .
    show ?thesis
    proof (cases "job_IsFinished j")
      case True
      with s1 ok show ?thesis by (simp add: Cancel_def)
    next
      case False
      let ?j = "j\<lparr>j_Status := ''canceled'', j_CompletedAt := Some (si_clk io 0), j_UpdatedAt := si_clk io 0\<rparr>"
      obtain s2 where s2: "updateJobData R ?j s1 = (None, s2)" "stored R dat s2 = (stored R dat s1)(j_ID ?j \<mapsto> ?j)" "zs s2 = zs s1"
        using save_job .
      have id: "j_ID j = u" using runs_okD(4) [OF ok Some] .
      have r: "?r = removeFromAllQueues R u s2" using s1(1) s2(1) False by (simp add: Cancel_def)
      show ?thesis
        unfolding r
      proof (rule runs_ok_step [OF ok inj_uuid, of u _ runningKey _ ?j])
        show "stored R dat (removeFromAllQueues R u s2) = (stored R dat (sc_redis S))(u \<mapsto> ?j)"
          using s1(2) s2(2) id by (simp add: removeFromAllQueues_view)
      qed (use s1(3) s2(3) id runs_okD(1) [OF ok] in \<open>auto simp: removeFromAllQueues_view\<close>)
    qed
  qed
  moreover have "sc_redis (snd (CancelJob D io u S)) = ?r"
    by (auto simp: CancelJob_def queue_law Let_def emitEvent_def split: prod.split option.split)
  moreover have "pool_ids (sc_pool (snd (CancelJob D io u S))) = pool_ids (sc_pool S)"
    by (auto simp: CancelJob_def pool_CancelJob_def pool_ids_def Let_def split: prod.split option.split)
  ultimately show ?thesis by (simp add: one_run_eq)
qed

lemma recover_loop_keeps:
  assumes "runs_ok (uuid_String R) (stored R dat r) (zs r) P" "distinct ms"
    and "\<And>m. m \<in> set ms \<Longrightarrow> zs r runningKey m \<noteq> None \<and> m \<notin> uuid_String R ` set P"
  shows "runs_ok (uuid_String R) (stored R dat (snd (recover_loop R clk n c ms r))) (zs (snd (recover_loop R clk n c ms r))) P"
  using assms
proof (induction ms arbitrary: n c r)
  case (Cons m ms)
  note D = runs_okD [OF Cons.prems(1)]
  have m: "zs r runningKey m \<noteq> None" "m \<notin> uuid_String R ` set P" using Cons.prems(3) [of m] by simp_all
  obtain u j where u: "m = uuid_String R u" "stored R dat r u = Some j" using D(5) [OF live_running m(1)] by blast
  let ?j = "j\<lparr>j_Status := ''pending'', j_StartedAt := None\<rparr>"
  obtain r1 where r1: "requeueJob R (clk n) u r = (None, r1)" "\<forall>v. stored R dat r1 v = (if v = u then Some ?j else stored R dat r v)"
    and z: "zs r1 = (zs r)(runningKey := (zs r runningKey)(m := None),
        queueKey (j_Priority j) := (zs r (queueKey (j_Priority j)))(m \<mapsto> score (clk n)))"
    using requeueJob_eq [OF u(2) D(4) [OF u(2)] refl marshal_total] by (auto simp: Let_def u(1))
  have other: "zs r k m = None" if "k \<in> live_keys" "k \<noteq> runningKey" for k
    using D(6) [OF that(1) live_running _ m(1)] that(2) by blast
  have "runs_ok (uuid_String R) (stored R dat r1) (zs r1) P"
  proof (rule runs_ok_step [OF Cons.prems(1) inj_uuid, of u _ "queueKey (j_Priority j)" _ ?j])
    show "stored R dat r1 = (stored R dat r)(u \<mapsto> ?j)" using r1(2) by auto
    show "u \<in> set P \<Longrightarrow> queueKey (j_Priority j) = runningKey" using m(2) u(1) by blast
  qed (use z u(1) other D(1) D(4) [OF u(2)] in auto)
  moreover have "zs r1 runningKey x \<noteq> None \<and> x \<notin> uuid_String R ` set P" if "x \<in> set ms" for x
    using Cons.prems(2) Cons.prems(3) [of x] that by (auto simp: z)
  ultimately have "runs_ok (uuid_String R) (stored R dat (snd (recover_loop R clk (n + 1) (c + 1) ms r1)))
      (zs (snd (recover_loop R clk (n + 1) (c + 1) ms r1))) P"
    using Cons.prems(2) by (intro Cons.IH) auto
  then show ?case using r1(1) u(1) by (simp add: uuid_law)
qed simp

lemma recover_keeps:
  assumes "one_run D dat zs S" "\<not> overdue (sd_queue D) zs now (sc_redis S) (sc_pool S)"
  shows "one_run D dat zs (recover_tick D now clk S)"
proof -
  note ok = assms(1) [unfolded one_run_eq]
  obtain ms where ms: "fst (rd_ZRangeByScore R runningKey (score now) None (sc_redis S)) = Some ms" "distinct ms"
      "set ms = {m. \<exists>sc. zs (sc_redis S) runningKey m = Some sc \<and> sc \<le> score now}"
    using range_law(1) [of runningKey "score now" None "sc_redis S"] by auto
  obtain s1 where s1: "rd_ZRangeByScore R runningKey (score now) None (sc_redis S) = (Some ms, s1)" "dat s1 = dat (sc_redis S)"
      "zs s1 = zs (sc_redis S)"
    using ms(1) range_law(2,3) [of runningKey "score now" None "sc_redis S"] by (metis prod.collapse)
  have "stored R dat s1 = stored R dat (sc_redis S)" using stored_cong [OF s1(2)] by auto
  with ok s1(3) have "runs_ok (uuid_String R) (stored R dat s1) (zs s1) (pool_ids (sc_pool S))" by simp
  moreover have "zs s1 runningKey m \<noteq> None \<and> m \<notin> uuid_String R ` set (pool_ids (sc_pool S))" if "m \<in> set ms" for m
    using that ms(3) s1(3) assms(2) by (force simp: overdue_def queue_law)
  ultimately have "runs_ok (uuid_String R) (stored R dat (snd (recover_loop R clk 0 0 ms s1))) (zs (snd (recover_loop R clk 0 0 ms s1)))
      (pool_ids (sc_pool S))"
    using ms(2) by (intro recover_loop_keeps)
  then show ?thesis
    using s1(1) by (simp add: one_run_eq recover_tick_def RecoverStaleJobs_def queue_law split_beta)
qed

lemma round_keeps:
  assumes "one_run D dat zs S"
  shows "one_run D dat zs (snd (process_one D now clk fclk S))"
proof -
  note ok = assms [unfolded one_run_eq] and D = runs_okD [OF assms [unfolded one_run_eq]]
  obtain t r where t: "Dequeue R (sd_visibility D) now clk (sc_redis S) = (t, r)" by fastforce
  have "\<forall>p \<in> set priorities. \<forall>m. zs (sc_redis S) (queueKey p) m \<noteq> None \<longrightarrow> entry_ok R dat (sc_redis S) m"
    using entries_ok [OF assms live_queue] by blast
  from Dequeue_spec [OF t this]
  consider (none) "t = None" "zs r = zs (sc_redis S)" "dat r = dat (sc_redis S)"
    | (some) p job where "t = Some job" "taken R dat zs (sc_redis S) (score now) (queueKey p) job r"
    by blast
  then show ?thesis
  proof cases
    case none
    then have "stored R dat r = stored R dat (sc_redis S)" using stored_cong by blast
    with none t ok show ?thesis by (simp add: process_one_def queue_law one_run_eq)
  next
    case some
    let ?u = "j_ID job" and ?P = "pool_ids (sc_pool S)"
    note taken = some(2) [unfolded taken_def Let_def]
    then have here: "zs (sc_redis S) (queueKey p) (uuid_String R ?u) \<noteq> None" by auto
    obtain vis where z: "zs r = (zs (sc_redis S))(queueKey p := (zs (sc_redis S) (queueKey p))(uuid_String R ?u := None),
        runningKey := (zs (sc_redis S) runningKey)(uuid_String R ?u \<mapsto> vis))"
      using taken by blast
    have "stored R dat r v = ((stored R dat (sc_redis S))(?u \<mapsto> job)) v" for v
      using taken marshal_total [of job] by simp
    then have st: "stored R dat r = (stored R dat (sc_redis S))(?u \<mapsto> job)" by (rule ext)
    have new: "?u \<notin> set ?P" using D(3) [of ?u "queueKey p"] here by auto
    have other: "zs (sc_redis S) k (uuid_String R ?u) = None" if "k \<in> live_keys" "k \<noteq> queueKey p" for k
      using D(6) [OF that(1) live_queue _ here] that(2) by blast
    have run: "runs_ok (uuid_String R) (stored R dat r) (zs r) P'" if "distinct P'" "set P' \<subseteq> insert ?u (set ?P)" for P'
      by (rule runs_ok_step [OF ok inj_uuid, of ?u _ runningKey _ job]) (use z st other that in auto)
    let ?S1 = "emitEvent ((job_event ''job_started'' ?u)\<lparr>ev_JobType := j_Type job, ev_Status := j_Status job\<rparr>) (S\<lparr>sc_redis := r\<rparr>)"
    obtain e q where e: "SubmitWithCallbacks job (sc_pool S) = (e, q)" by fastforce
    show ?thesis
    proof (cases e)
      case None
      then have "mset (pool_ids q) = add_mset ?u (mset ?P)"
        using submit_ids(1) e by (simp add: SubmitWithCallbacks_def)
      then have ids: "set (pool_ids q) = insert ?u (set ?P)" "distinct (pool_ids q)"
        using new D(1) mset_eq_setD [of "pool_ids q" "?u # ?P"] mset_eq_imp_distinct_iff [of "pool_ids q" "?u # ?P"] by simp_all
      then show ?thesis using run [OF ids(2)] t some(1) e None
        by (simp add: process_one_def queue_law one_run_eq emitEvent_def)
    next
      case (Some x)
      then have q: "q = sc_pool S" using submit_ids(2) e by (simp add: SubmitWithCallbacks_def)
      let ?r = "snd (Fail R fclk ?u (pool_message x) r)"
      have ends: "ends_run R dat zs ?u job r ?r" using st by (intro Fail_ends) simp_all
      have "runs_ok (uuid_String R) (stored R dat ?r) (zs ?r) ?P"
        by (rule runs_ok_ends [OF run ends]) (use D(1) new z other in auto)
      then show ?thesis using t some(1) e Some q
        by (simp add: process_one_def queue_law one_run_eq emitEvent_def)
    qed
  qed
qed

lemmas keeps = register_worker_keeps begin_keeps end_keeps enqueue_keeps cron_keeps_run round_keeps start_keeps progress_keeps finish_keeps
  cancel_keeps recover_keeps

lemma step_keeps: "sched_step D dat zs S S' \<Longrightarrow> one_run D dat zs S \<Longrightarrow> one_run D dat zs S'"
  by (induction rule: sched_step.induct) (auto intro: keeps)

end

sublocale scheduler_server \<subseteq> runs: step_invariant "sched_step D dat zs" "one_run D dat zs"
  by unfold_locales (rule step_keeps)

context scheduler_server
begin

lemma reachable_run:
  assumes "runs_ok (uuid_String R) (stored R dat redis) (zs redis) []" "(sched_step D dat zs)\<^sup>*\<^sup>* (New D redis jobs rows c) S"
  shows "one_run D dat zs S"
  using runs.reach_inv [OF assms(2)] assms(1) by (simp add: one_run_eq New_def NewPool_def pool_ids_def)

lemma one_run_pool:
  assumes "one_run D dat zs S"
  shows "distinct (pool_ids (sc_pool S)) \<and>
    (\<forall>u \<in> set (pool_ids (sc_pool S)). \<forall>p. zs (sc_redis S) (queueKey p) (uuid_String R u) = None)"
  using runs_okD(1,3) [OF assms [unfolded one_run_eq]] by simp

end

section \<open>The loop over the queue\<close>

text \<open>The entries of the queues.\<close>

definition waiting :: "(string \<Rightarrow> string \<Rightarrow> int option) \<Rightarrow> (string \<times> string) set" where
  "waiting z = {(k, m). k \<in> queueKey ` set priorities \<and> z k m \<noteq> None}"

context scheduler_server
begin

text \<open>A round that finds something takes one entry out of the queues, also when the pool refuses the job.\<close>

lemma round_takes:
  assumes "one_run D dat zs S" and "process_one D now clk fclk S = (True, S')"
  obtains k m where "(k, m) \<in> waiting (zs (sc_redis S))" "waiting (zs (sc_redis S')) = waiting (zs (sc_redis S)) - {(k, m)}"
proof -
  obtain t r where t: "Dequeue R (sd_visibility D) now clk (sc_redis S) = (t, r)" by fastforce
  have "\<forall>p \<in> set priorities. \<forall>m. zs (sc_redis S) (queueKey p) m \<noteq> None \<longrightarrow> entry_ok R dat (sc_redis S) m"
    using entries_ok [OF assms(1) live_queue] by blast
  note spec = Dequeue_spec [OF t this]
  have "t \<noteq> None" using assms(2) t by (cases t) (simp_all add: process_one_def queue_law)
  with spec obtain ps1 p ps2 job where job: "priorities = ps1 @ p # ps2" "t = Some job"
    and taken: "taken R dat zs (sc_redis S) (score now) (queueKey p) job r" by blast
  have p: "p \<in> set priorities" unfolding job(1) by simp
  let ?m = "uuid_String R (j_ID job)"
  have here: "(queueKey p, ?m) \<in> waiting (zs (sc_redis S))"
    using taken p by (auto simp: taken_def Let_def waiting_def)
  obtain vis where z: "zs r = (zs (sc_redis S))(queueKey p := (zs (sc_redis S) (queueKey p))(?m := None),
      runningKey := (zs (sc_redis S) runningKey)(?m \<mapsto> vis))"
    using taken unfolding taken_def Let_def by blast
  have st: "stored R dat r (j_ID job) = Some job" "j_Status job = ''running''"
    using taken marshal_total [of job] by (auto simp: taken_def Let_def)
  have once: "waiting (zs r) = waiting (zs (sc_redis S)) - {(queueKey p, ?m)}"
    by (auto simp: waiting_def z split: if_splits)
  have "waiting (zs (sc_redis S')) = waiting (zs r)"
  proof (cases "fst (SubmitWithCallbacks job (sc_pool S))")
    case None
    then obtain q where "SubmitWithCallbacks job (sc_pool S) = (None, q)" by (metis prod.collapse)
    then have "sc_redis S' = r"
      using assms(2) t job(2) by (auto simp: process_one_def queue_law emitEvent_def Let_def)
    then show ?thesis by simp
  next
    case (Some e)
    then obtain q where "SubmitWithCallbacks job (sc_pool S) = (Some e, q)" by (metis prod.collapse)
    then have "sc_redis S' = snd (Fail R fclk (j_ID job) (pool_message e) r)"
      using assms(2) t job(2) by (auto simp: process_one_def queue_law emitEvent_def Let_def)
    moreover have "\<not> job_CanRetry job" using st(2) by (simp add: job_CanRetry_def)
    ultimately have "\<exists>sc. zs (sc_redis S') = (without_run ?m (zs r))(deadLetterKey := (zs r deadLetterKey)(?m \<mapsto> sc))"
      using Fail_view [OF st(1) refl, of fclk "pool_message e"] by auto
    then show ?thesis by (auto simp: waiting_def without_run_def queue_keys)
  qed
  with here once that show thesis by blast
qed

lemma loop_ends:
  "one_run D dat zs S \<Longrightarrow> finite (waiting (zs (sc_redis S))) \<Longrightarrow> card (waiting (zs (sc_redis S))) < length rounds \<Longrightarrow>
   fst (processQueue D rounds S)"
proof (induction rounds arbitrary: S)
  case (Cons x rounds)
  obtain now clk fclk where x: "x = (now, clk, fclk)" by (cases x)
  obtain b S1 where one: "process_one D now clk fclk S = (b, S1)" by fastforce
  show ?case
  proof (cases b)
    case True
    with one have one': "process_one D now clk fclk S = (True, S1)" by simp
    obtain k m where w: "(k, m) \<in> waiting (zs (sc_redis S))" "waiting (zs (sc_redis S1)) = waiting (zs (sc_redis S)) - {(k, m)}"
      using round_takes [OF Cons.prems(1) one'] .
    then have "card (waiting (zs (sc_redis S1))) < card (waiting (zs (sc_redis S)))" "finite (waiting (zs (sc_redis S1)))"
      using Cons.prems(2) card_Diff1_less [OF Cons.prems(2) w(1)] by simp_all
    moreover have "one_run D dat zs S1" using round_keeps [OF Cons.prems(1), of now clk fclk] one by simp
    ultimately have "fst (processQueue D rounds S1)" using Cons.IH [of S1] Cons.prems(3) by simp
    then show ?thesis using one True x by simp
  qed (use one x in simp)
qed simp

text \<open>A job the pool does not take is not put back: it is failed and dead.\<close>

lemma refused_job_is_lost:
  assumes "Dequeue R (sd_visibility D) now clk (sc_redis S) = (Some job, r)" and "stored R dat r (j_ID job) = Some job"
    and "j_Status job = ''running''" and "SubmitWithCallbacks job (sc_pool S) = (Some e, p)"
  shows "\<exists>S' j'. process_one D now clk fclk S = (True, S') \<and> stored R dat (sc_redis S') (j_ID job) = Some j' \<and> j_Status j' = ''failed'' \<and>
    zs (sc_redis S') deadLetterKey (uuid_String R (j_ID job)) \<noteq> None \<and> (\<forall>q. zs (sc_redis S') (queueKey q) = zs r (queueKey q))"
proof -
  obtain r' j' where r': "Fail R fclk (j_ID job) (pool_message e) r = (None, r')" "stored R dat r' = (stored R dat r)(j_ID job \<mapsto> j')"
    "j_Status j' = ''failed''" "zs r' = (without_run (uuid_String R (j_ID job)) (zs r))(deadLetterKey :=
       (zs r deadLetterKey)(uuid_String R (j_ID job) \<mapsto> score (fclk 2)))"
    using Fail_view [OF assms(2) refl, of fclk "pool_message e"] assms(3) by (auto simp: job_CanRetry_def)
  with assms(1,4) show ?thesis
    by (simp add: process_one_def queue_law emitEvent_def without_run_def queue_keys)
qed

end

context job_server
begin

lemma scheduler: "sd_queue D = R \<Longrightarrow> scheduler_server R dat zs D"
  by unfold_locales

end

section \<open>Properties\<close>


interpretation mem_jobs: job_server mem_redis m_data mem_zs
  by unfold_locales simp

interpretation mem_run: scheduler_server mem_redis m_data mem_zs demo_sched
  by unfold_locales simp

text \<open>A scheduler with one job in its queue, and after a round.\<close>

definition demo_queued :: "(mem, mem_cron_state) sched" where
  "demo_queued = New demo_sched (mem_with demo_job (queueKey 10) 50) [] [] (0, [])"

definition demo_ready :: "(mem, mem_cron_state) sched" where
  "demo_ready = snd (sched_Start demo_sched demo_io (RegisterWorker ''cleanup'' demo_queued))"

definition demo_taken :: "(mem, mem_cron_state) sched" where
  "demo_taken = snd (process_one demo_sched 100 (\<lambda>_ _. 100) (\<lambda>_. 100) demo_ready)"

lemma demo_steps: "(sched_step demo_sched m_data mem_zs)\<^sup>*\<^sup>* demo_queued demo_taken"
proof -
  have "(sched_step demo_sched m_data mem_zs)\<^sup>*\<^sup>* demo_queued (RegisterWorker ''cleanup'' demo_queued)"
    by (rule r_into_rtranclp) (rule step_register)
  also have "sched_step demo_sched m_data mem_zs (RegisterWorker ''cleanup'' demo_queued) demo_ready"
    unfolding demo_ready_def by (rule step_begin)
  also have "sched_step demo_sched m_data mem_zs demo_ready demo_taken"
    unfolding demo_taken_def by (rule step_round)
  finally show ?thesis .
qed

lemma demo_server: "job_server (sd_queue demo_sched) m_data mem_zs"
  using mem_jobs.job_server_axioms by simp

lemma demo_order:
  "runs_ok (uuid_String (sd_queue demo_sched)) (stored (sd_queue demo_sched) m_data (mem_with demo_job (queueKey 10) 50))
     (mem_zs (mem_with demo_job (queueKey 10) 50)) []"
  unfolding runs_ok_def by (auto split: if_splits)


text \<open>
  C25. A failed run is tried again. When the run of a job ends with an error, and the stored job is not marked as failed
  before (a running one; also one that was cancelled meanwhile), the entry leaves the running set, and with attempts
  left the job is marked as retrying and waits in the queue of its priority until the back-off of its attempts has
  passed; without, it is marked as failed and no queue changes. In both cases it stands in the dead letter set.
\<close>

theorem failed_run_retried:
  assumes "job_server (sd_queue D) dat zs" and "running ctx (sc_pool S) = Some pj" and "pj_Callbacks pj" and "outcome ex = Inl msg"
    and "stored (sd_queue D) dat (sc_redis S) (j_ID (pj_Job pj)) = Some j" and "j_ID j = j_ID (pj_Job pj)" and "j_Status j \<noteq> ''failed''"
  shows "let r = sc_redis S; r' = sc_redis (finish_job D io1 io2 ctx ex S); m = uuid_String (sd_queue D) (j_ID j);
             at_time = time_add (si_clk io2 1) (calculateBackoff (j_Attempts j)); q = queueKey (j_Priority j) in
    zs r' runningKey m = None \<and> zs r' deadLetterKey m \<noteq> None \<and>
    (\<exists>j'. stored (sd_queue D) dat r' = (stored (sd_queue D) dat r)(j_ID j \<mapsto> j') \<and>
       (if j_Attempts j < j_MaxAttempts j
        then j_Status j' = ''retrying'' \<and> j_ScheduledAt j' = Some at_time \<and> zs r' q = (zs r q)(m \<mapsto> score at_time) \<and>
          (\<forall>k. k = runningKey \<or> k = deadLetterKey \<or> k = q \<or> zs r' k = zs r k)
        else j_Status j' = ''failed'' \<and> (\<forall>k. k = runningKey \<or> k = deadLetterKey \<or> zs r' k = zs r k)))"
proof -
  let ?S = "S\<lparr>sc_pool := count_job (outcome ex) (sc_pool S)\<rparr>"
  have "sc_redis (finish_job D io1 io2 ctx ex S) = sc_redis (handleCompletion D io1 io2 pj (Inl msg) ?S)"
    using assms(2,4) by (simp add: finish_job_def Let_def)
  moreover obtain j' t where "stored (sd_queue D) dat (sc_redis (handleCompletion D io1 io2 pj (Inl msg) ?S)) =
      (stored (sd_queue D) dat (sc_redis S))(j_ID j \<mapsto> j')"
    and "if j_Attempts j < j_MaxAttempts j
     then j_Status j' = ''retrying'' \<and> j_ScheduledAt j' = Some (time_add (si_clk io2 1) (calculateBackoff (j_Attempts j))) \<and>
       zs (sc_redis (handleCompletion D io1 io2 pj (Inl msg) ?S)) = (without_run (uuid_String (sd_queue D) (j_ID j)) (zs (sc_redis S)))
         (deadLetterKey := (zs (sc_redis S) deadLetterKey)(uuid_String (sd_queue D) (j_ID j) \<mapsto> t),
          queueKey (j_Priority j) := (zs (sc_redis S) (queueKey (j_Priority j)))(uuid_String (sd_queue D) (j_ID j) \<mapsto>
             score (time_add (si_clk io2 1) (calculateBackoff (j_Attempts j)))))
     else j_Status j' = ''failed'' \<and>
       zs (sc_redis (handleCompletion D io1 io2 pj (Inl msg) ?S)) = (without_run (uuid_String (sd_queue D) (j_ID j)) (zs (sc_redis S)))
         (deadLetterKey := (zs (sc_redis S) deadLetterKey)(uuid_String (sd_queue D) (j_ID j) \<mapsto> t))"
    using job_server.twice_failed [OF assms(1) refl assms(3) refl, of ?S j] assms(5-7) by fastforce
  moreover have "queueKey (j_Priority j) \<noteq> deadLetterKey" "runningKey \<noteq> deadLetterKey" by (simp_all add: queueKey_def deadLetterKey_def runningKey_def)
  ultimately show ?thesis by (cases "j_Attempts j < j_MaxAttempts j") (auto simp: Let_def without_run_def)
qed

text \<open>The second attempt of a job that has three, in its worker.\<close>

definition demo_working :: "(mem, mem_cron_state) sched" where
  "demo_working = (let j = demo_job\<lparr>j_Status := ''running'', j_Attempts := 2\<rparr>;
       S = New demo_sched (mem_with j runningKey 50) [] [] (0, [])
     in S\<lparr>sc_pool := (sc_pool S)\<lparr>po_active := [\<lparr>rj_Context = 0, rj_Job = \<lparr>pj_Job = j, pj_Callbacks = True\<rparr>\<rparr>]\<rparr>\<rparr>)"

theorem failed_run_retried_witness:
  "map_option j_Status (stored mem_redis m_data (sc_redis (finish_job demo_sched demo_io demo_io 0 (Failed ''boom'') demo_working)) 7) =
   Some ''retrying''"
proof -
  let ?j = "demo_job\<lparr>j_Status := ''running'', j_Attempts := 2\<rparr>"
  let ?pj = "\<lparr>pj_Job = ?j, pj_Callbacks = True\<rparr>"
  have run: "running 0 (sc_pool demo_working) = Some ?pj" and redis: "sc_redis demo_working = mem_with ?j runningKey 50"
    by (simp_all add: demo_working_def New_def NewPool_def running_def Let_def)
  have st: "stored (sd_queue demo_sched) m_data (sc_redis demo_working) (j_ID (pj_Job ?pj)) = Some ?j" by (simp add: redis)
  have facts: "pj_Callbacks ?pj" "j_ID ?j = j_ID (pj_Job ?pj)" "j_Status ?j \<noteq> ''failed''" by simp_all
  note retried = failed_run_retried [OF demo_server run facts(1) outcome.simps(2) [of "''boom''"] st facts(2,3), of demo_io demo_io,
      unfolded Let_def, THEN conjunct2, THEN conjunct2]
  have "j_Attempts ?j < j_MaxAttempts ?j" by (simp add: demo_job_def)
  with retried obtain j' where "stored (sd_queue demo_sched) m_data (sc_redis (finish_job demo_sched demo_io demo_io 0 (Failed ''boom'') demo_working)) =
      (stored (sd_queue demo_sched) m_data (sc_redis demo_working))(j_ID ?j \<mapsto> j')" and "j_Status j' = ''retrying''"
    by (simp only: if_True) blast
  then show ?thesis by simp
qed

text \<open>
  C40. The loop over the queue ends. When nobody else adds to the queues, the rounds of one pass are at most one more
  than the entries in the queues, also when the pool refuses every job.
\<close>

theorem queue_loop_ends:
  assumes "job_server (sd_queue D) dat zs" and "one_run D dat zs S" and "finite (waiting (zs (sc_redis S)))"
    and "card (waiting (zs (sc_redis S))) < length rounds"
  shows "fst (processQueue D rounds S)"
  by (rule scheduler_server.loop_ends [OF job_server.scheduler [OF assms(1) refl] assms(2-4)])

theorem queue_loop_ends_witness:
  "fst (processQueue demo_sched [(100, \<lambda>_ _. 100, \<lambda>_. 100), (100, \<lambda>_ _. 100, \<lambda>_. 100)] demo_queued)"
proof -
  have w: "waiting (mem_zs (sc_redis demo_queued)) = {(queueKey 10, bits_String 7)}"
    by (auto simp: demo_queued_def New_def waiting_def priorities_def split: if_splits)
  have "one_run demo_sched m_data mem_zs demo_queued"
    using demo_order by (simp add: one_run_def demo_queued_def New_def NewPool_def pool_ids_def)
  then show ?thesis by (rule queue_loop_ends [OF demo_server]) (simp_all add: w)
qed

section \<open>Beside the point\<close>

context scheduler_server
begin

text \<open>
  A job that works longer than the visibility lasts without a report: the recovery puts it back into its queue while
  its run goes on, and the next round starts a second one.
\<close>

lemma long_job_queued_again:
  assumes "one_run D dat zs S" and "u \<in> set (pool_ids (sc_pool S))" and "stored R dat (sc_redis S) u = Some j"
    and "zs (sc_redis S) runningKey (uuid_String R u) = Some sc" and "sc \<le> score now"
  shows "u \<in> set (pool_ids (sc_pool (recover_tick D now clk S)))"
    and "zs (sc_redis (recover_tick D now clk S)) (queueKey (j_Priority j)) (uuid_String R u) \<noteq> None"
proof -
  obtain ms where "fst (rd_ZRangeByScore R runningKey (score now) None (sc_redis S)) = Some ms"
    using range_law(1) [of runningKey "score now" None "sc_redis S"] by auto
  then obtain n where r: "RecoverStaleJobs R now clk (sc_redis S) = (Inr n, snd (RecoverStaleJobs R now clk (sc_redis S)))"
    by (cases "rd_ZRangeByScore R runningKey (score now) None (sc_redis S)") (auto simp: RecoverStaleJobs_def split_beta)
  have "\<forall>m sc. zs (sc_redis S) runningKey m = Some sc \<and> sc \<le> score now \<longrightarrow> entry_ok R dat (sc_redis S) m"
    using entries_ok [OF assms(1) live_running] by blast
  from RecoverStaleJobs_spec [OF r marshal_total this] assms(3-5)
  show "zs (sc_redis (recover_tick D now clk S)) (queueKey (j_Priority j)) (uuid_String R u) \<noteq> None"
    by (simp add: recover_tick_def queue_law)
  show "u \<in> set (pool_ids (sc_pool (recover_tick D now clk S)))" using assms(2) by (simp add: recover_tick_def)
qed

end

text \<open>
  The two completions of a failing run count on the row in the table too, where the attempts stay at zero: a row whose
  job has failed for good says that it is retrying.
\<close>

lemma row_says_retrying:
  assumes "j_Status j \<noteq> ''failed''" and "j_Attempts j < j_MaxAttempts j"
  shows "j_Status (failed_row now' later' msg (failed_row now later msg j)) = ''retrying''"
  using assms by (simp add: failed_row_def job_CanRetry_def Let_def)

end
