(* ===== verification/Spec2Isabelle.thy ===== *)
theory Spec2Isabelle
  imports Throttle Rbac Team_Scope Alerts Job_Queue Retention Password_Policy Auth_Props Api_Auth Config_Sync Update_Props Gateway_Props Web_Login_Props Scheduler_Props
begin

text \<open>
  A verification library of \<^bold>\<open>usulnet\<close>, a self-hosted platform for managing Docker hosts
  (\<^verbatim>\<open>src/\<close>, Go).

  \<^bold>\<open>The program.\<close> One server process holds services over a PostgreSQL database and Redis. A
  request reaches it over the REST API (\<^verbatim>\<open>internal/api\<close>) or the web frontend
  (\<^verbatim>\<open>internal/web\<close>); a middleware authenticates it, another one authorises it, and
  a handler calls the services (\<^verbatim>\<open>internal/services\<close>). Services read and write tables
  (\<^verbatim>\<open>internal/repository/postgres\<close>), call the Docker engine of a host, and put longer work
  into a job queue in Redis (\<^verbatim>\<open>internal/scheduler\<close>). Alert rules are evaluated
  periodically and notify people through a throttled dispatcher.

  \<^bold>\<open>Theories and sources.\<close>
    \<^item> \<open>Go_Prelude\<close>, \<open>Go_Strings\<close>: what the components share of Go (instants and durations in
      nanoseconds with 64-bit wrap-around, the functions of \<^verbatim>\<open>strings\<close>,
      \<^verbatim>\<open>strconv\<close>, \<^verbatim>\<open>utf8\<close>), the collections of simplification rules, and the locale
      \<open>op_invariant\<close>: what every operation keeps, every sequence of operations keeps. Each component
      with tables interprets it on its own operations.
    \<^item> \<open>Auth_Store\<close>, \<open>Jwt\<close>, \<open>Auth\<close>, \<open>Auth_Props\<close>: users, sessions, API keys and the token
      blacklist (\<^verbatim>\<open>user_repo.go\<close>, \<^verbatim>\<open>session_repo.go\<close>, \<^verbatim>\<open>redis/jwt_blacklist.go\<close>), signed tokens
      (\<^verbatim>\<open>services/auth/jwt.go\<close>), sessions and login (\<^verbatim>\<open>services/auth/session.go\<close>, \<^verbatim>\<open>auth_service.go\<close>).
      Lockout after too many wrong guesses, refresh tokens that work once, which logins succeed,
      what logging out revokes, how many sessions a user has.
    \<^item> \<open>Api_Auth\<close>, \<open>Rbac\<close>, \<open>Team_Scope\<close>: who is let through: the API's authentication
      middleware (\<^verbatim>\<open>api/middleware/auth.go\<close>), roles and permissions of both surfaces
      (\<^verbatim>\<open>api/middleware/rbac.go\<close>, \<^verbatim>\<open>web/middleware.go\<close>, \<^verbatim>\<open>models/role.go\<close>), teams and the scope of
      resources (\<^verbatim>\<open>services/team\<close>, \<^verbatim>\<open>team_repo.go\<close>). The gates fail closed; the scope computed by the
      fold over the grants is the declarative access relation.
    \<^item> \<open>Password_Policy\<close>: validation, strength and history of passwords (\<^verbatim>\<open>pkg/crypto/password_policy.go\<close>).
    \<^item> \<open>Alerts\<close>, \<open>Throttle\<close>: rules, events and silences (\<^verbatim>\<open>services/monitoring/alerts.go\<close>,
      \<^verbatim>\<open>alert_repo.go\<close>) and the notification throttler (\<^verbatim>\<open>services/notification/throttle.go\<close>). When an
      alert fires, that it is sent when due, cooldowns, the bound on notifications in any window.
    \<^item> \<open>Job_Queue\<close>: the queue in Redis with its Lua scripts (\<^verbatim>\<open>scheduler/queue.go\<close>): order,
      exclusiveness of a dequeue, recovery of stale jobs, the round trip of a job.
    \<^item> \<open>Retention\<close>: which backups are deleted (\<^verbatim>\<open>services/backup/retention.go\<close>).
    \<^item> \<open>Interpolation\<close>, \<open>Config_Sync\<close>: configuration variables that refer to each other
      (\<^verbatim>\<open>services/config/interpolation.go\<close>) and their synchronisation with containers
      (\<^verbatim>\<open>services/config/sync.go\<close>): agreement with simultaneous expansion, cycles, idempotence.
    \<^item> \<open>Version_Tags\<close>, \<open>Image_Ref\<close>, \<open>Update_Check\<close>, \<open>Container_Update\<close>, \<open>Update_Props\<close>: container
      updates (\<^verbatim>\<open>services/update\<close>): versions in tags, image references, the check for newer images
      with its cache, the exchange of a container with roll-back. The search for the best tag agrees
      with a maximum; a failed update leaves the containers as they were; a successful one hands over
      the name and the configuration.
    \<^item> \<open>Gateway\<close>, \<open>Gateway_Props\<close>: the server that agents on other hosts connect to
      (\<^verbatim>\<open>internal/gateway/server.go\<close>, \<^verbatim>\<open>commands.go\<close>). A relation interleaves its handlers with their
      writes to the table of hosts; whose agent a command reaches, the removal of silent agents, when
      the table is right.
    \<^item> \<open>Go_Crypto\<close>, \<open>Two_Factor\<close>, \<open>Web_Login\<close>, \<open>Web_Login_Props\<close>: one-time codes, pending tokens and
      backup codes (\<^verbatim>\<open>pkg/totp\<close>) over base32, base64, SHA-1, SHA-256 and HMAC, and the two steps of
      logging in to the web frontend (\<^verbatim>\<open>web/handler.go\<close>, \<^verbatim>\<open>handler_frontend.go\<close>, \<^verbatim>\<open>adapter_auth.go\<close>,
      \<^verbatim>\<open>adapter_user.go\<close>). A session needs the password and, where a second factor is found, a code;
      the lemmas at the end of \<open>Web_Login_Props\<close> show the ways around it.
    \<^item> \<open>Worker_Pool\<close>, \<open>Scheduler\<close>, \<open>Scheduled_Jobs\<close>, \<open>Scheduler_Props\<close>: the pool of workers
      (\<^verbatim>\<open>scheduler/workers/pool.go\<close>, \<^verbatim>\<open>worker.go\<close>, \<^verbatim>\<open>registry.go\<close>), the scheduler over the queue, the pool, the
      cron and the tables of jobs (\<^verbatim>\<open>scheduler/scheduler.go\<close>, \<^verbatim>\<open>job_repo.go\<close>, \<^verbatim>\<open>app/bootstrap.go\<close>). A job has one
      run at a time while no run outlasts the visibility, a failed run is retried, the cron runs what the
      table has enabled, a pass over the queue ends.
  \<^bold>\<open>How the code is modelled.\<close> A struct is a record, an enumeration a datatype or the string it is,
  a method a function from the receiver's state to a result and a state; \<^verbatim>\<open>(x, error)\<close> is a sum, a
  possible panic an extra error or \<open>None\<close>. Strings are lists of bytes. Loops over slices are recursive
  functions with the loop's accumulators. What a run reads from outside is an argument: the readings of
  the clock in the order they are taken, fresh identifiers and random bytes, and for each database
  statement, Redis command or call of another host whether it succeeds. Tables are lists of rows, a
  statement a step on them. Theorems hold for every choice of these inputs, so every branch
  after a failed statement is covered.

  \<^bold>\<open>What is not under the sources.\<close> Third-party libraries and services are parameters: signing of
  tokens (\<open>jwt_laws\<close>), Redis (\<open>kv_laws\<close>, \<open>job_redis\<close>, \<open>job_server\<close>), the cron
  (\<open>cron_server\<close>), the Docker engine
  (\<open>container_engine\<close>), image registries, bcrypt, encryption, JSON. The laws a theorem needs are the
  assumptions of a locale, each interpreted on a reference implementation, on which the witnesses run.
  Contracts between the program's own parts are locales as well (\<open>rate_window\<close>, \<open>role_order\<close>,
  \<open>scoped_kind\<close>, \<open>db_invariant\<close>, \<open>version_store\<close>, \<open>op_invariant\<close>, \<open>step_invariant\<close>), interpreted on the model's definitions.

  \<^bold>\<open>Bounds and fuel.\<close> The interpolation stops at the code's own depth of 10 and reports an error
  beyond it; a health check makes the code's number of retries; the version cache holds 1000 entries.
  All other recursion is structural or has a termination proof, so no fuel is needed.

  \<^bold>\<open>Concurrency.\<close> A critical section (a mutex, a transaction, a Lua script) is one step; theorems about
  sequences of operations quantify over all sequences of such steps. Races between statements of
  different requests are modelled where the code depends on them: the two reads of a refresh,
  the statements of an alert evaluation, the scripts of the queue. The handlers of the gateway and the
  requests of a login interleave with everything else in step relations (\<open>gw_step\<close>, \<open>web_step\<close>), and so
  do the processors of the scheduler, the workers and the calls of its operations (\<open>sched_step\<close>, \<open>plan_step\<close>).

  \<^bold>\<open>Not modelled.\<close> The web pages and handlers but those of the login, start-up, the Docker, Git, LDAP, OAuth, DNS and
  notification clients, the agent, scanners, terminals and the many tables with only
  create, read, update and delete: they move data between an external interface and a
  table and have little logic that could be stated apart from that interface. SQL is modelled
  statement by statement for the tables above, not as a language; goroutines
  and channels are not modelled as such (the pool is its channel's content and the jobs in work, its
  steps are those under its locks), and the workers' bodies are left out: what one returns is an input.

  \<^bold>\<open>Deviations found.\<close> Where the code and its comments disagree, the model follows the code, and a lemma
  next to the definition states what it does.
\<close>

end
